(* ===== verification/Prelude.thy ===== *)
theory Prelude
  imports Main
begin

section \<open>Prelude: the error monad, ordered checks, loops and generic lemmas\<close>

text \<open>
  What every component shares.  Python code that may raise returns
  \<open>'e + 'a\<close>: \<open>Inl\<close> is the exception, \<open>Inr\<close> the value.
  \<open>ebind\<close> is the sequencing of two statements, \<open>raise_if\<close> an
  \<open>if bad: raise\<close> statement, \<open>checks\<close> a list of such statements run in order,
  \<open>eall\<close> a \<open>for\<close> loop whose body may only raise and \<open>emap\<close> a list
  comprehension whose element may raise.  The collection \<open>err_simps\<close> carries the
  facts that turn "this validation succeeded" into a conjunction.
\<close>

named_theorems err_simps \<open>a sequence of checks succeeds iff each of them does\<close>

subsection \<open>The error monad\<close>

definition ebind :: "'e + 'a \<Rightarrow> ('a \<Rightarrow> 'e + 'b) \<Rightarrow> 'e + 'b" where
  "ebind m f = (case m of Inl e \<Rightarrow> Inl e | Inr x \<Rightarrow> f x)"

definition raise_if :: "bool \<Rightarrow> 'e \<Rightarrow> 'e + unit" where
  "raise_if b e = (if b then Inl e else Inr ())"

definition of_opt :: "'e \<Rightarrow> 'a option \<Rightarrow> 'e + 'a" where
  "of_opt e x = (case x of None \<Rightarrow> Inl e | Some y \<Rightarrow> Inr y)"

fun checks :: "('e + unit) list \<Rightarrow> 'e + unit" where
  "checks [] = Inr ()"
| "checks (c # cs) = ebind c (\<lambda>_. checks cs)"

fun emap :: "('a \<Rightarrow> 'e + 'b) \<Rightarrow> 'a list \<Rightarrow> 'e + 'b list" where
  "emap f [] = Inr []"
| "emap f (x # xs) = ebind (f x) (\<lambda>y. ebind (emap f xs) (\<lambda>ys. Inr (y # ys)))"

definition eall :: "('a \<Rightarrow> 'e + unit) \<Rightarrow> 'a list \<Rightarrow> 'e + unit" where
  "eall f xs = checks (map f xs)"

fun efold :: "('s \<Rightarrow> 'a \<Rightarrow> 'e + 's) \<Rightarrow> 's \<Rightarrow> 'a list \<Rightarrow> 'e + 's" where
  "efold f s [] = Inr s"
| "efold f s (x # xs) = ebind (f s x) (\<lambda>s'. efold f s' xs)"

text \<open>\<open>any(f(x) for x in xs)\<close> with an \<open>f\<close> that may raise: it stops at the first hit.\<close>

fun eany :: "('a \<Rightarrow> 'e + bool) \<Rightarrow> 'a list \<Rightarrow> 'e + bool" where
  "eany f [] = Inr False"
| "eany f (x # xs) = ebind (f x) (\<lambda>b. if b then Inr True else eany f xs)"

definition map_err :: "('e \<Rightarrow> 'f) \<Rightarrow> 'e + 'a \<Rightarrow> 'f + 'a" where
  "map_err h m = (case m of Inl e \<Rightarrow> Inl (h e) | Inr x \<Rightarrow> Inr x)"

definition is_ok :: "'e + 'a \<Rightarrow> bool" where
  "is_ok m = (case m of Inl _ \<Rightarrow> False | Inr _ \<Rightarrow> True)"

lemma ebind_Inl [simp]: "ebind (Inl e) f = Inl e"
  and ebind_Inr [simp]: "ebind (Inr x) f = f x"
  by (simp_all add: ebind_def)

lemma ebind_cong [fundef_cong]:
  "m = m' \<Longrightarrow> (\<And>x. m' = Inr x \<Longrightarrow> f x = g x) \<Longrightarrow> ebind m f = ebind m' g"
  by (cases m') (auto simp: ebind_def)

lemma ebind_eq_Inr [err_simps]:
  "ebind m f = Inr y \<longleftrightarrow> (\<exists>x. m = Inr x \<and> f x = Inr y)"
  by (cases m) auto

lemma ebind_eq_Inl:
  "ebind m f = Inl e \<longleftrightarrow> m = Inl e \<or> (\<exists>x. m = Inr x \<and> f x = Inl e)"
  by (cases m) auto

lemma ebind_assoc: "ebind (ebind m f) g = ebind m (\<lambda>x. ebind (f x) g)"
  by (cases m) auto

lemma raise_if_eq_Inr [err_simps, simp]: "raise_if b e = Inr u \<longleftrightarrow> \<not> b"
  by (simp add: raise_if_def)

lemma raise_if_eq_Inl [simp]: "raise_if b e = Inl e' \<longleftrightarrow> b \<and> e = e'"
  by (auto simp: raise_if_def)

lemma of_opt_eq_Inr [err_simps, simp]: "of_opt e x = Inr y \<longleftrightarrow> x = Some y"
  by (auto simp: of_opt_def split: option.splits)

lemma of_opt_eq_Inl [simp]: "of_opt e x = Inl e' \<longleftrightarrow> x = None \<and> e = e'"
  by (auto simp: of_opt_def split: option.splits)

lemma checks_eq_Inr [err_simps]: "checks cs = Inr u \<longleftrightarrow> (\<forall>c \<in> set cs. c = Inr ())"
  by (induction cs) (auto simp: ebind_eq_Inr)

lemma checks_append: "checks (cs @ ds) = ebind (checks cs) (\<lambda>_. checks ds)"
  by (induction cs) (auto simp: ebind_assoc)

lemma eall_eq_Inr [err_simps]: "eall f xs = Inr u \<longleftrightarrow> (\<forall>x \<in> set xs. f x = Inr ())"
  by (auto simp: eall_def checks_eq_Inr)

lemma eall_Nil [simp]: "eall f [] = Inr ()"
  and eall_Cons [simp]: "eall f (x # xs) = ebind (f x) (\<lambda>_. eall f xs)"
  by (simp_all add: eall_def)

lemma eall_cong [fundef_cong]:
  "xs = ys \<Longrightarrow> (\<And>x. x \<in> set ys \<Longrightarrow> f x = g x) \<Longrightarrow> eall f xs = eall g ys"
  by (auto simp: eall_def cong: map_cong)

lemma emap_cong [fundef_cong]:
  "xs = ys \<Longrightarrow> (\<And>x. x \<in> set ys \<Longrightarrow> f x = g x) \<Longrightarrow> emap f xs = emap g ys"
  by (induction xs arbitrary: ys) auto

lemma emap_eq_Inr_iff:
  "emap f xs = Inr ys \<longleftrightarrow> list_all2 (\<lambda>x y. f x = Inr y) xs ys"
  by (induction xs arbitrary: ys) (auto simp: ebind_eq_Inr list_all2_Cons1)

lemma emap_length: "emap f xs = Inr ys \<Longrightarrow> length ys = length xs"
  by (auto simp: emap_eq_Inr_iff dest: list_all2_lengthD)

lemma emap_set:
  assumes "emap f xs = Inr ys" "y \<in> set ys"
  shows "\<exists>x \<in> set xs. f x = Inr y"
  using assms by (fastforce simp: emap_eq_Inr_iff list_all2_conv_all_nth in_set_conv_nth)

lemma emap_Inr_map [simp]: "emap (\<lambda>x. Inr (f x)) xs = Inr (map f xs)"
  by (induction xs) auto

lemma map_err_eq_Inr [err_simps, simp]: "map_err h m = Inr x \<longleftrightarrow> m = Inr x"
  by (cases m) (auto simp: map_err_def)

lemma map_err_eq_Inl: "map_err h m = Inl e \<longleftrightarrow> (\<exists>e'. m = Inl e' \<and> e = h e')"
  by (cases m) (auto simp: map_err_def)

lemma is_ok_iff: "is_ok m \<longleftrightarrow> (\<exists>x. m = Inr x)"
  by (cases m) (auto simp: is_ok_def)

text \<open>A loop that keeps an invariant and may stop at an exception.\<close>

lemma efold_invariant:
  assumes "efold f s xs = Inr t" "P s"
    and "\<And>s x s'. x \<in> set xs \<Longrightarrow> P s \<Longrightarrow> f s x = Inr s' \<Longrightarrow> P s'"
  shows "P t"
  using assms
proof (induction xs arbitrary: s)
  case Nil
  then show ?case by simp
next
  case (Cons x xs)
  then obtain s' where s': "f s x = Inr s'" "efold f s' xs = Inr t"
    by (auto simp: ebind_eq_Inr)
  with Cons.prems have "P s'" by auto
  with s'(2) show ?case using Cons.IH Cons.prems(3) by auto
qed

subsection \<open>Association lists in insertion order: the Python dict\<close>

text \<open>
  A \<open>dict\<close> keeps its insertion order (event fields and rendered objects are written in
  that order), so it is an association list; \<open>dset\<close> overwrites in place and appends a
  new key at the end, as \<open>d[k] = v\<close> does.
\<close>

fun dset :: "('k \<times> 'v) list \<Rightarrow> 'k \<Rightarrow> 'v \<Rightarrow> ('k \<times> 'v) list" where
  "dset [] k v = [(k, v)]"
| "dset ((k', v') # d) k v = (if k' = k then (k, v) # d else (k', v') # dset d k v)"

definition dget :: "('k \<times> 'v) list \<Rightarrow> 'k \<Rightarrow> 'v option" where
  "dget d k = map_of d k"

definition dkeys :: "('k \<times> 'v) list \<Rightarrow> 'k list" where
  "dkeys d = map fst d"

definition ddel :: "('k \<times> 'v) list \<Rightarrow> 'k \<Rightarrow> ('k \<times> 'v) list" where
  "ddel d k = filter (\<lambda>(k', _). k' \<noteq> k) d"

definition dupdate :: "('k \<times> 'v) list \<Rightarrow> ('k \<times> 'v) list \<Rightarrow> ('k \<times> 'v) list" where
  "dupdate d e = foldl (\<lambda>d (k, v). dset d k v) d e"

lemma dget_dset [simp]: "dget (dset d k v) k' = (if k' = k then Some v else dget d k')"
  by (induction d) (auto simp: dget_def)

lemma dget_Nil [simp]: "dget [] k = None"
  by (simp add: dget_def)

lemma dkeys_dset_set [simp]: "set (dkeys (dset d k v)) = insert k (set (dkeys d))"
proof (induction d)
  case (Cons p d)
  then show ?case by (cases p) (simp add: dkeys_def insert_commute)
qed (simp add: dkeys_def)

lemma distinct_dset [simp]: "distinct (dkeys d) \<Longrightarrow> distinct (dkeys (dset d k v))"
proof (induction d)
  case (Cons p d)
  then show ?case using dkeys_dset_set[of d k v] by (cases p) (auto simp: dkeys_def)
qed (simp add: dkeys_def)

lemma dget_ddel [simp]: "dget (ddel d k) k' = (if k' = k then None else dget d k')"
  by (induction d) (auto simp: dget_def ddel_def)

lemma dget_None_iff: "dget d k = None \<longleftrightarrow> k \<notin> set (dkeys d)"
  by (simp add: dget_def dkeys_def map_of_eq_None_iff)

lemma dget_SomeD: "dget d k = Some v \<Longrightarrow> (k, v) \<in> set d"
  by (simp add: dget_def map_of_SomeD)

lemma dget_in_keys: "dget d k = Some v \<Longrightarrow> k \<in> set (dkeys d)"
  by (metis dget_None_iff option.distinct(1))

text \<open>The contract of a keyed store, interpreted below on the dict model.\<close>

locale keyed_store =
  fixes lookup :: "'m \<Rightarrow> 'k \<Rightarrow> 'v option"
    and update :: "'m \<Rightarrow> 'k \<Rightarrow> 'v \<Rightarrow> 'm"
    and delete :: "'m \<Rightarrow> 'k \<Rightarrow> 'm"
  assumes lookup_update: "lookup (update m k v) k' = (if k' = k then Some v else lookup m k')"
    and lookup_delete: "lookup (delete m k) k' = (if k' = k then None else lookup m k')"
begin

lemma update_same: "lookup (update m k v) k = Some v"
  by (simp add: lookup_update)

lemma update_frame: "k' \<noteq> k \<Longrightarrow> lookup (update m k v) k' = lookup m k'"
  by (simp add: lookup_update)

lemma dom_update: "{k'. lookup (update m k v) k' \<noteq> None} = insert k {k'. lookup m k' \<noteq> None}"
  by (auto simp: lookup_update)

lemma update_twice: "lookup (update (update m k v) k w) = lookup (update m k w)"
  by (rule ext) (simp add: lookup_update)

lemma delete_update: "lookup (delete (update m k v) k) = lookup (delete m k)"
  by (rule ext) (simp add: lookup_update lookup_delete)

end

interpretation pydict: keyed_store dget dset ddel
  by unfold_locales auto

subsection \<open>Bounded repetition\<close>

text \<open>
  A loop \<open>for i in range(n)\<close> whose body may return early (\<open>Inl r\<close>) or go on
  with a new state (\<open>Inr s\<close>).  The counter \<open>i\<close> goes up, \<open>n\<close> is what is left.
\<close>

fun repeat_up :: "nat \<Rightarrow> nat \<Rightarrow> (nat \<Rightarrow> 's \<Rightarrow> 'r + 's) \<Rightarrow> 's \<Rightarrow> 'r + 's" where
  "repeat_up i 0 f s = Inr s"
| "repeat_up i (Suc n) f s = (case f i s of Inl r \<Rightarrow> Inl r | Inr s' \<Rightarrow> repeat_up (Suc i) n f s')"

lemma repeat_up_invariant_Inr:
  assumes "repeat_up i n f s = Inr t" "P i s"
    and "\<And>j s s'. i \<le> j \<Longrightarrow> j < i + n \<Longrightarrow> P j s \<Longrightarrow> f j s = Inr s' \<Longrightarrow> P (Suc j) s'"
  shows "P (i + n) t"
  using assms
proof (induction n arbitrary: i s)
  case 0
  then show ?case by simp
next
  case (Suc n)
  then obtain s' where s': "f i s = Inr s'" "repeat_up (Suc i) n f s' = Inr t"
    by (auto split: sum.splits)
  have "P (Suc i) s'" using Suc.prems(2,3) s'(1) by auto
  with s'(2) have "P (Suc i + n) t"
    using Suc.IH[of "Suc i" s'] Suc.prems(3) by auto
  then show ?case by simp
qed

lemma repeat_up_invariant_Inl:
  assumes "repeat_up i n f s = Inl r" "P i s"
    and "\<And>j s s'. i \<le> j \<Longrightarrow> j < i + n \<Longrightarrow> P j s \<Longrightarrow> f j s = Inr s' \<Longrightarrow> P (Suc j) s'"
  shows "\<exists>j t. i \<le> j \<and> j < i + n \<and> P j t \<and> f j t = Inl r"
  using assms
proof (induction n arbitrary: i s)
  case 0
  then show ?case by simp
next
  case (Suc n)
  show ?case
  proof (cases "f i s")
    case (Inl r')
    with Suc.prems(1,2) have "P i s \<and> f i s = Inl r" by simp
    then show ?thesis by (intro exI[of _ i] exI[of _ s]) auto
  next
    case (Inr s')
    then have "repeat_up (Suc i) n f s' = Inl r" "P (Suc i) s'"
      using Suc.prems by auto
    then obtain j t where "Suc i \<le> j" "j < Suc i + n" "P j t" "f j t = Inl r"
      using Suc.IH[of "Suc i" s'] Suc.prems(3) by (metis Suc_leD add_Suc_shift)
    then show ?thesis by (intro exI[of _ j] exI[of _ t]) auto
  qed
qed

subsection \<open>Lists\<close>

fun dedup :: "'a list \<Rightarrow> 'a list" where
  "dedup [] = []"
| "dedup (x # xs) = x # dedup (filter (\<lambda>y. y \<noteq> x) xs)"
  
lemma set_dedup [simp]: "set (dedup xs) = set xs"
  by (induction xs rule: dedup.induct) auto

lemma distinct_dedup [simp]: "distinct (dedup xs)"
  by (induction xs rule: dedup.induct) auto

lemma dedup_eq_Nil [simp]: "dedup xs = [] \<longleftrightarrow> xs = []"
  by (cases xs) auto

lemma sorted_hd_le: "sorted ms \<Longrightarrow> x \<in> set ms \<Longrightarrow> hd ms \<le> x"
  by (cases ms) auto

lemma sorted_le_last: "sorted ms \<Longrightarrow> x \<in> set ms \<Longrightarrow> x \<le> last ms"
  by (induction ms) auto

lemma list_all2_ex: "list_all2 P xs ys \<Longrightarrow> y \<in> set ys \<Longrightarrow> \<exists>x \<in> set xs. P x y"
  by (induction rule: list_all2_induct) auto

lemma two_members_length: "x \<in> set xs \<Longrightarrow> y \<in> set xs \<Longrightarrow> x \<noteq> y \<Longrightarrow> 1 < length xs"
  by (cases xs; cases "tl xs") auto

lemma emap_nth: "emap f xs = Inr ys \<Longrightarrow> i < length xs \<Longrightarrow> f (xs ! i) = Inr (ys ! i)"
  by (simp add: emap_eq_Inr_iff list_all2_conv_all_nth)

lemma find_Some_iff': "find P xs = Some x \<Longrightarrow> x \<in> set xs \<and> P x"
  by (auto simp: find_Some_iff)

subsection \<open>State and exceptions\<close>

text \<open>
  An effectful statement takes the state and returns its result, an exception or a value, with
  the state it leaves: an exception keeps what was done before it.  \<open>keeps P m\<close> says that
  \<open>m\<close> preserves \<open>P\<close> on both outcomes; the collection \<open>keeps_intros\<close> proves it by
  following the structure of \<open>m\<close>.
\<close>

named_theorems keeps_intros \<open>structural rules for the preservation of a state property\<close>

type_synonym ('s, 'e, 'a) act = "'s \<Rightarrow> ('e + 'a) \<times> 's"

definition sret :: "'a \<Rightarrow> ('s, 'e, 'a) act" where
  "sret x s = (Inr x, s)"

definition sthrow :: "'e \<Rightarrow> ('s, 'e, 'a) act" where
  "sthrow e s = (Inl e, s)"

definition slift :: "'e + 'a \<Rightarrow> ('s, 'e, 'a) act" where
  "slift r s = (r, s)"

definition sget :: "('s \<Rightarrow> 'a) \<Rightarrow> ('s, 'e, 'a) act" where
  "sget f s = (Inr (f s), s)"

definition smod :: "('s \<Rightarrow> 's) \<Rightarrow> ('s, 'e, unit) act" where
  "smod f s = (Inr (), f s)"

definition sbind :: "('s, 'e, 'a) act \<Rightarrow> ('a \<Rightarrow> ('s, 'e, 'b) act) \<Rightarrow> ('s, 'e, 'b) act" where
  "sbind m f s = (case m s of (Inl e, s') \<Rightarrow> (Inl e, s') | (Inr x, s') \<Rightarrow> f x s')"

definition stry :: "('s, 'e, 'a) act \<Rightarrow> ('e + 'a \<Rightarrow> ('s, 'f, 'b) act) \<Rightarrow> ('s, 'f, 'b) act" where
  "stry m h s = (case m s of (r, s') \<Rightarrow> h r s')"

fun smap :: "('a \<Rightarrow> ('s, 'e, 'b) act) \<Rightarrow> 'a list \<Rightarrow> ('s, 'e, 'b list) act" where
  "smap f [] = sret []"
| "smap f (x # xs) = sbind (f x) (\<lambda>y. sbind (smap f xs) (\<lambda>ys. sret (y # ys)))"

definition keeps :: "('s \<Rightarrow> bool) \<Rightarrow> ('s, 'e, 'a) act \<Rightarrow> bool" where
  "keeps P m = (\<forall>s. P s \<longrightarrow> P (snd (m s)))"

lemma keepsD: "keeps P m \<Longrightarrow> P s \<Longrightarrow> P (snd (m s))"
  by (simp add: keeps_def)

lemma keepsI: "(\<And>s. P s \<Longrightarrow> P (snd (m s))) \<Longrightarrow> keeps P m"
  by (simp add: keeps_def)

lemma keeps_sret [keeps_intros, simp]: "keeps P (sret x)"
  and keeps_sthrow [keeps_intros, simp]: "keeps P (sthrow e)"
  and keeps_slift [keeps_intros, simp]: "keeps P (slift r)"
  and keeps_sget [keeps_intros, simp]: "keeps P (sget f)"
  by (simp_all add: keeps_def sret_def sthrow_def slift_def sget_def)

lemma keeps_smod [keeps_intros]: "(\<And>s. P s \<Longrightarrow> P (f s)) \<Longrightarrow> keeps P (smod f)"
  by (simp add: keeps_def smod_def)

lemma keeps_sbind [keeps_intros]:
  "keeps P m \<Longrightarrow> (\<And>x. keeps P (f x)) \<Longrightarrow> keeps P (sbind m f)"
  unfolding keeps_def sbind_def by (auto split: prod.splits sum.splits)

lemma keeps_stry [keeps_intros]:
  "keeps P m \<Longrightarrow> (\<And>r. keeps P (h r)) \<Longrightarrow> keeps P (stry m h)"
  unfolding keeps_def stry_def by (auto split: prod.splits)

lemma keeps_smap [keeps_intros]: "(\<And>x. keeps P (f x)) \<Longrightarrow> keeps P (smap f xs)"
  by (induction xs) (auto intro!: keeps_intros)

lemma keeps_if [keeps_intros]: "(b \<Longrightarrow> keeps P m) \<Longrightarrow> (\<not> b \<Longrightarrow> keeps P n) \<Longrightarrow> keeps P (if b then m else n)"
  by simp

end
