(* ===== verification/Py_Float.thy ===== *)
theory Py_Float
  imports Complex_Main Prelude
begin

section \<open>Python strings of Latin-1 text and IEEE doubles\<close>

text \<open>
  The part of the language's standard library that the program's own code reads strings
  and numbers with.  A Python \<open>str\<close> is a list of characters whose code point is
  below 256 (the model covers Latin-1 text): \<open>isspace\<close>, \<open>lower\<close>,
  \<open>splitlines\<close>, \<open>isdigit\<close> are Python's tables on that range.  A Python
  \<open>float\<close> is an exact rational in the image of \<open>round_double\<close> (round to nearest,
  ties to even, 53 bits), an infinity or NaN; the sign of zero is not kept.
\<close>

subsection \<open>Characters and strings\<close>

definition code :: "char \<Rightarrow> nat" where
  "code c = of_char c"

definition is_space :: "char \<Rightarrow> bool" where
  "is_space c = (let n = code c in (9 \<le> n \<and> n \<le> 13) \<or> (28 \<le> n \<and> n \<le> 32) \<or> n = 133 \<or> n = 160)"

definition is_dec :: "char \<Rightarrow> bool" where
  "is_dec c = (let n = code c in 48 \<le> n \<and> n \<le> 57)"

definition is_digit :: "char \<Rightarrow> bool" where
  "is_digit c = (is_dec c \<or> code c \<in> {178, 179, 185})"

definition is_alpha :: "char \<Rightarrow> bool" where
  "is_alpha c = (let n = code c in (65 \<le> n \<and> n \<le> 90) \<or> (97 \<le> n \<and> n \<le> 122))"

definition lower_char :: "char \<Rightarrow> char" where
  "lower_char c = (let n = code c in
     if (65 \<le> n \<and> n \<le> 90) \<or> (192 \<le> n \<and> n \<le> 222 \<and> n \<noteq> 215) then char_of (n + 32) else c)"

definition lower :: "string \<Rightarrow> string" where
  "lower s = map lower_char s"

definition lstrip_by :: "(char \<Rightarrow> bool) \<Rightarrow> string \<Rightarrow> string" where
  "lstrip_by p s = dropWhile p s"

definition rstrip_by :: "(char \<Rightarrow> bool) \<Rightarrow> string \<Rightarrow> string" where
  "rstrip_by p s = rev (dropWhile p (rev s))"

definition strip :: "string \<Rightarrow> string" where
  "strip s = rstrip_by is_space (lstrip_by is_space s)"

definition blank :: "string \<Rightarrow> bool" where
  "blank s = (strip s = [])"

definition starts_with :: "string \<Rightarrow> string \<Rightarrow> bool" where
  "starts_with p s = (take (length p) s = p)"

definition ends_with :: "string \<Rightarrow> string \<Rightarrow> bool" where
  "ends_with p s = starts_with (rev p) (rev s)"

fun contains_str :: "string \<Rightarrow> string \<Rightarrow> bool" where
  "contains_str p [] = (p = [])"
| "contains_str p (c # s) = (starts_with p (c # s) \<or> contains_str p s)"

text \<open>\<open>s.split(c)\<close> for a one-character separator: always at least one piece.\<close>

fun split_on :: "char \<Rightarrow> string \<Rightarrow> string list" where
  "split_on c [] = [[]]"
| "split_on c (x # xs) =
     (if x = c then [] # split_on c xs
      else (case split_on c xs of [] \<Rightarrow> [[x]] | p # ps \<Rightarrow> (x # p) # ps))"

text \<open>\<open>s.split(c, 1)\<close> where \<open>c\<close> occurs: the part before it and the part after it.\<close>

definition split_once :: "char \<Rightarrow> string \<Rightarrow> string \<times> string" where
  "split_once c s = (takeWhile (\<lambda>x. x \<noteq> c) s, tl (dropWhile (\<lambda>x. x \<noteq> c) s))"

text \<open>\<open>s.split()\<close>: the runs of non-space characters.\<close>

function words :: "string \<Rightarrow> string list" where
  "words s = (let t = dropWhile is_space s in
     if t = [] then [] else takeWhile (\<lambda>c. \<not> is_space c) t # words (dropWhile (\<lambda>c. \<not> is_space c) t))"
  by pat_completeness auto
termination
proof (relation "measure length")
  fix s t :: string
  assume t: "t = dropWhile is_space s" and ne: "t \<noteq> []"
  then have "\<not> is_space (hd t)" using hd_dropWhile by blast
  with ne have "length (dropWhile (\<lambda>c. \<not> is_space c) t) < length t"
    by (cases t) (auto simp: le_imp_less_Suc length_dropWhile_le)
  also have "\<dots> \<le> length s" by (simp add: t length_dropWhile_le)
  finally show "(dropWhile (\<lambda>c. \<not> is_space c) t, s) \<in> measure length" by simp
qed simp

declare words.simps [simp del]

definition is_eol :: "char \<Rightarrow> bool" where
  "is_eol c = (code c \<in> {10, 11, 12, 13, 28, 29, 30, 133})"

fun splitlines_acc :: "string \<Rightarrow> string \<Rightarrow> string list" where
  "splitlines_acc acc [] = (if acc = [] then [] else [rev acc])"
| "splitlines_acc acc (c # s) =
     (if is_eol c then rev acc #
        (if code c = 13 \<and> s \<noteq> [] \<and> code (hd s) = 10 then splitlines_acc [] (tl s) else splitlines_acc [] s)
      else splitlines_acc (c # acc) s)"

definition splitlines :: "string \<Rightarrow> string list" where
  "splitlines s = splitlines_acc [] s"

fun join :: "string \<Rightarrow> string list \<Rightarrow> string" where
  "join sep [] = []"
| "join sep [x] = x"
| "join sep (x # y # ys) = x @ sep @ join sep (y # ys)"

definition replace_char :: "char \<Rightarrow> char \<Rightarrow> string \<Rightarrow> string" where
  "replace_char a b s = map (\<lambda>c. if c = a then b else c) s"

text \<open>The length of \<open>s.encode("utf-8")\<close>: two bytes from code point 128 on.\<close>

definition utf8_len :: "string \<Rightarrow> nat" where
  "utf8_len s = sum_list (map (\<lambda>c. if code c < 128 then 1 else 2) s)"

subsection \<open>Decimal text of integers\<close>

fun nat_str :: "nat \<Rightarrow> string" where
  "nat_str n = (if n < 10 then [char_of (48 + n)] else nat_str (n div 10) @ [char_of (48 + n mod 10)])"

declare nat_str.simps [simp del]

definition int_str :: "int \<Rightarrow> string" where
  "int_str i = (if i < 0 then ''-'' @ nat_str (nat (- i)) else nat_str (nat i))"

definition dec_nat :: "string \<Rightarrow> nat" where
  "dec_nat s = foldl (\<lambda>n c. 10 * n + (code c - 48)) 0 s"

definition str_isdigit :: "string \<Rightarrow> bool" where
  "str_isdigit s = (s \<noteq> [] \<and> list_all is_digit s)"

text \<open>
  \<open>int(s)\<close> after \<open>s.isdigit()\<close>: \<open>isdigit\<close> also accepts the superscript
  digits, on which \<open>int\<close> raises \<open>ValueError\<close> (\<open>None\<close> here).
\<close>

definition int_of_digits :: "string \<Rightarrow> int option" where
  "int_of_digits s = (if list_all is_dec s then Some (int (dec_nat s)) else None)"

subsection \<open>Doubles\<close>

datatype pyfloat = Fin rat | PosInf | NegInf | NaN

definition pow2 :: "int \<Rightarrow> rat" where
  "pow2 e = (if 0 \<le> e then 2 ^ nat e else 1 / 2 ^ nat (- e))"

definition pow10 :: "int \<Rightarrow> rat" where
  "pow10 e = (if 0 \<le> e then 10 ^ nat e else 1 / 10 ^ nat (- e))"

fun bitlen :: "nat \<Rightarrow> nat" where
  "bitlen n = (if n = 0 then 0 else Suc (bitlen (n div 2)))"

declare bitlen.simps [simp del]

text \<open>The exponent of the leading bit: \<open>2^e \<le> q < 2^(e+1)\<close> for \<open>q > 0\<close>.\<close>

definition exp2_of :: "rat \<Rightarrow> int" where
  "exp2_of q = (case quotient_of q of (n, d) \<Rightarrow>
     let k = int (bitlen (nat n)) - int (bitlen (nat d)) in if pow2 k \<le> q then k else k - 1)"

definition round_half_even :: "rat \<Rightarrow> int" where
  "round_half_even q = (let f = \<lfloor>q\<rfloor>; r = q - of_int f in
     if r < 1 / 2 then f else if r > 1 / 2 then f + 1 else if even f then f else f + 1)"

definition round_pos :: "rat \<Rightarrow> pyfloat" where
  "round_pos q = (let e = max (exp2_of q - 52) (- 1074);
                      v = of_int (round_half_even (q / pow2 e)) * pow2 e
                  in if pow2 1024 \<le> v then PosInf else Fin v)"

fun fneg :: "pyfloat \<Rightarrow> pyfloat" where
  "fneg (Fin q) = Fin (- q)"
| "fneg PosInf = NegInf"
| "fneg NegInf = PosInf"
| "fneg NaN = NaN"

definition round_double :: "rat \<Rightarrow> pyfloat" where
  "round_double q = (if q = 0 then Fin 0 else if 0 < q then round_pos q else fneg (round_pos (- q)))"

text \<open>\<open>float(i)\<close>: \<open>None\<close> is the \<open>OverflowError\<close> of an integer too large for a double.\<close>

definition float_of_int :: "int \<Rightarrow> pyfloat option" where
  "float_of_int i = (case round_double (of_int i) of Fin q \<Rightarrow> Some (Fin q) | _ \<Rightarrow> None)"

fun flt :: "pyfloat \<Rightarrow> pyfloat \<Rightarrow> bool" where
  "flt (Fin a) (Fin b) = (a < b)"
| "flt NaN _ = False"
| "flt _ NaN = False"
| "flt NegInf y = (y \<noteq> NegInf)"
| "flt x PosInf = (x \<noteq> PosInf)"
| "flt _ _ = False"

fun feq :: "pyfloat \<Rightarrow> pyfloat \<Rightarrow> bool" where
  "feq (Fin a) (Fin b) = (a = b)"
| "feq PosInf PosInf = True"
| "feq NegInf NegInf = True"
| "feq _ _ = False"

definition fle :: "pyfloat \<Rightarrow> pyfloat \<Rightarrow> bool" where
  "fle x y = (flt x y \<or> feq x y)"

fun is_integer :: "pyfloat \<Rightarrow> bool" where
  "is_integer (Fin q) = (of_int \<lfloor>q\<rfloor> = q)"
| "is_integer _ = False"

lemma flt_irrefl [simp]: "\<not> flt x x"
  by (cases x) auto

lemma flt_asym: "flt x y \<Longrightarrow> \<not> flt y x"
  by (cases x; cases y) auto

lemma flt_trans: "flt x y \<Longrightarrow> flt y z \<Longrightarrow> flt x z"
  by (cases x; cases y; cases z) auto

lemma flt_linear: "x \<noteq> NaN \<Longrightarrow> y \<noteq> NaN \<Longrightarrow> flt x y \<or> feq x y \<or> flt y x"
  by (cases x; cases y) auto

lemma feq_flt: "feq x y \<Longrightarrow> \<not> flt x y"
  by (cases x; cases y) auto

subsection \<open>\<open>float(text)\<close>\<close>

text \<open>A run of decimal digits, a single underscore allowed between two of them.\<close>

function take_digits :: "string \<Rightarrow> string \<times> string" where
  "take_digits s =
     (if s \<noteq> [] \<and> is_dec (hd s) then
        (let t = tl s;
             u = (if length t \<ge> 2 \<and> hd t = CHR ''_'' \<and> is_dec (hd (tl t)) then tl t else t);
             (ds, r) = take_digits u
         in (hd s # ds, r))
      else ([], s))"
  by pat_completeness auto
termination
  by (relation "measure length") (auto simp: length_tl[symmetric] simp del: length_tl, (case_tac s; auto)+)

declare take_digits.simps [simp del]

definition parse_sign :: "string \<Rightarrow> bool \<times> string" where
  "parse_sign s = (case s of [] \<Rightarrow> (False, s)
     | c # t \<Rightarrow> if c = CHR ''-'' then (True, t) else if c = CHR ''+'' then (False, t) else (False, s))"

definition parse_exp :: "string \<Rightarrow> int option" where
  "parse_exp s = (case s of [] \<Rightarrow> Some 0
     | c # t \<Rightarrow> if c = CHR ''e'' \<or> c = CHR ''E'' then
         (case parse_sign t of (neg, u) \<Rightarrow> case take_digits u of (ds, r) \<Rightarrow>
            if ds = [] \<or> r \<noteq> [] then None
            else Some (if neg then - int (dec_nat ds) else int (dec_nat ds)))
       else None)"

definition parse_decimal :: "string \<Rightarrow> rat option" where
  "parse_decimal s = (case take_digits s of (ip, r) \<Rightarrow>
     (let (fp, r2) = (if r \<noteq> [] \<and> hd r = CHR ''.'' then take_digits (tl r) else ([], r))
      in if ip = [] \<and> fp = [] then None
         else map_option (\<lambda>e. of_nat (dec_nat (ip @ fp)) * pow10 (e - int (length fp))) (parse_exp r2)))"

definition float_of_str :: "string \<Rightarrow> pyfloat option" where
  "float_of_str s = (case parse_sign (strip s) of (neg, t) \<Rightarrow>
     (let w = lower t;
          v = (if w = ''inf'' \<or> w = ''infinity'' then Some PosInf
               else if w = ''nan'' then Some NaN
               else map_option round_double (parse_decimal t))
      in map_option (\<lambda>x. if neg then fneg x else x) v))"

subsection \<open>\<open>repr\<close> of a float: the shortest digits that read back\<close>

definition exp10_of :: "rat \<Rightarrow> int" where
  "exp10_of q = (if 1 \<le> q then int (length (nat_str (nat \<lfloor>q\<rfloor>))) - 1
     else (let j = int (length (nat_str (nat \<lfloor>1 / q\<rfloor>))) - 1
           in if 1 / q = pow10 j then - j else - (j + 1)))"

definition digits_at :: "rat \<Rightarrow> nat \<Rightarrow> int \<Rightarrow> int option" where
  "digits_at q n e = (let x = q * pow10 (int n - 1 - e); lo = \<lfloor>x\<rfloor>; hi = lo + 1;
       back = (\<lambda>d. round_pos (of_int d * pow10 (e - int n + 1)) = Fin q);
       near = round_half_even x; far = (if near = lo then hi else lo)
     in if back near then Some near else if back far then Some far else None)"

fun shortest :: "rat \<Rightarrow> int \<Rightarrow> nat \<Rightarrow> nat \<Rightarrow> int" where
  "shortest q e n 0 = round_half_even (q * pow10 (int n - 1 - e))"
| "shortest q e n (Suc k) = (case digits_at q n e of Some d \<Rightarrow> d | None \<Rightarrow> shortest q e (Suc n) k)"

definition strip_zeros :: "string \<Rightarrow> string" where
  "strip_zeros s = (let t = rstrip_by (\<lambda>c. c = CHR ''0'') s in if t = [] then ''0'' else t)"

definition pos_repr :: "rat \<Rightarrow> string" where
  "pos_repr q = (let e0 = exp10_of q; d0 = shortest q e0 1 16; s0 = nat_str (nat d0);
       e = (if length s0 > 1 \<and> d0 = 10 ^ (length s0 - 1) \<and> pow10 (e0 + 1) = q then e0 + 1 else e0);
       s = strip_zeros s0; n = int (length s)
     in if - 4 \<le> e \<and> e < 16 then
          (if e < 0 then ''0.'' @ replicate (nat (- e - 1)) (CHR ''0'') @ s
           else if n \<le> e + 1 then s @ replicate (nat (e + 1 - n)) (CHR ''0'') @ ''.0''
           else take (nat (e + 1)) s @ ''.'' @ drop (nat (e + 1)) s)
        else hd s # (if tl s = [] then [] else ''.'' @ tl s) @ ''e'' @ (if e < 0 then ''-'' else ''+'')
             @ (let x = nat_str (nat \<bar>e\<bar>) in if length x < 2 then ''0'' @ x else x))"

fun float_repr :: "pyfloat \<Rightarrow> string" where
  "float_repr (Fin q) = (if q = 0 then ''0.0'' else if q < 0 then ''-'' @ pos_repr (- q) else pos_repr q)"
| "float_repr PosInf = ''inf''"
| "float_repr NegInf = ''-inf''"
| "float_repr NaN = ''nan''"

subsection \<open>Facts the components share\<close>

lemma nat_str_not_Nil [simp]: "nat_str n \<noteq> []"
  by (subst nat_str.simps) simp

lemma split_on_not_Nil [simp]: "split_on c s \<noteq> []"
  by (cases s) (auto split: list.splits)

lemma strip_Nil [simp]: "strip [] = []"
  by (simp add: strip_def lstrip_by_def rstrip_by_def)

lemma utf8_len_append [simp]: "utf8_len (s @ t) = utf8_len s + utf8_len t"
  by (simp add: utf8_len_def)

lemma length_le_utf8_len: "length s \<le> utf8_len s"
  by (induction s) (auto simp: utf8_len_def)

lemma set_strip: "set (strip s) \<subseteq> set s"
  unfolding strip_def rstrip_by_def lstrip_by_def
  by (auto dest!: set_dropWhileD)

lemma code_char_of: "n < 256 \<Longrightarrow> code (char_of n) = n"
  by (simp add: code_def)

lemma is_dec_char_of: "(n::nat) < 10 \<Longrightarrow> is_dec (char_of (48 + n))"
  by (simp add: is_dec_def code_char_of Let_def)

lemma nat_str_dec: "list_all is_dec (nat_str n)"
proof (induction n rule: nat_str.induct)
  case (1 n)
  then show ?case
    by (subst nat_str.simps) (auto simp: is_dec_char_of)
qed

lemma dec_nat_snoc: "dec_nat (s @ [c]) = 10 * dec_nat s + (code c - 48)"
  by (simp add: dec_nat_def)

text \<open>Decimal printing and reading are inverse.\<close>

lemma dec_nat_nat_str [simp]: "dec_nat (nat_str n) = n"
proof (induction n rule: nat_str.induct)
  case (1 n)
  show ?case
  proof (cases "n < 10")
    case True
    then show ?thesis by (subst nat_str.simps) (simp add: dec_nat_def code_char_of)
  next
    case False
    with 1 show ?thesis by (subst nat_str.simps) (simp add: dec_nat_snoc code_char_of)
  qed
qed

lemma int_of_digits_nat_str [simp]: "int_of_digits (nat_str n) = Some (int n)"
  by (simp add: int_of_digits_def nat_str_dec)

lemma split_on_no_sep: "p \<in> set (split_on c s) \<Longrightarrow> c \<notin> set p"
proof (induction s arbitrary: p)
  case (Cons x s)
  then show ?case by (cases "split_on c s") (auto split: if_splits)
qed simp

lemma split_on_append: "c \<notin> set p \<Longrightarrow> split_on c (p @ c # s) = p # split_on c s"
  by (induction p) auto

lemma split_on_single: "c \<notin> set p \<Longrightarrow> split_on c p = [p]"
  by (induction p) auto

lemma split_on_join:
  "ps \<noteq> [] \<Longrightarrow> \<forall>p \<in> set ps. c \<notin> set p \<Longrightarrow> split_on c (join [c] ps) = ps"
  by (induction "[c]" ps rule: join.induct) (auto simp: split_on_append split_on_single)

lemma rstrip_prefix: "\<exists>t. s = rstrip_by P s @ t"
proof -
  have "s = rev (dropWhile P (rev s)) @ rev (takeWhile P (rev s))"
    by (metis rev_append rev_rev_ident takeWhile_dropWhile_id)
  then show ?thesis unfolding rstrip_by_def by blast
qed

lemma rstrip_last: "rstrip_by P s \<noteq> [] \<Longrightarrow> \<not> P (last (rstrip_by P s))"
  using hd_dropWhile[of P "rev s"] by (simp add: rstrip_by_def last_rev)

end
