(* ===== verification/Py_Value.thy ===== *)
theory Py_Value
  imports Py_Float
begin

section \<open>Python values, exceptions and JSON text\<close>

text \<open>
  The values a workflow moves around are what \<open>json\<close> can hold: \<open>None\<close>,
  booleans, unbounded integers, floats, text, lists and dicts (keys are strings, in
  insertion order).  This theory gives them Python's equality, truth value, \<open>str\<close> and
  \<open>repr\<close>, and the two directions of the \<open>json\<close> module (\<open>json_dumps\<close>,
  \<open>json_loads\<close>).  An exception is a value of \<open>exn\<close>; the French message of an
  error is kept as an ASCII key without its interpolated values, its \<open>code\<close> and
  \<open>params\<close> are kept as the source builds them.
\<close>

datatype pyval =
    PNone
  | PBool bool
  | PInt int
  | PFloat pyfloat
  | PStr string
  | PList "pyval list"
  | PDict "(string \<times> pyval) list"

type_synonym pydict = "(string \<times> pyval) list"

datatype exn =
    GraphError string "string option" pydict
  | UnsupportedWorkflow string
  | PyError string
  | HttpError pyval
  | AdkRunError "string option" string "string option"
  | WorkflowCancelled

type_synonym 'a res = "exn + 'a"

abbreviation gerr :: "string \<Rightarrow> exn" where
  "gerr m \<equiv> GraphError m None []"

abbreviation gcode :: "string \<Rightarrow> string \<Rightarrow> pydict \<Rightarrow> exn" where
  "gcode m c ps \<equiv> GraphError m (Some c) ps"

subsection \<open>Type tests, truth, access\<close>

definition is_str :: "pyval \<Rightarrow> bool" where
  "is_str v = (case v of PStr _ \<Rightarrow> True | _ \<Rightarrow> False)"

definition is_dict :: "pyval \<Rightarrow> bool" where
  "is_dict v = (case v of PDict _ \<Rightarrow> True | _ \<Rightarrow> False)"

definition is_list :: "pyval \<Rightarrow> bool" where
  "is_list v = (case v of PList _ \<Rightarrow> True | _ \<Rightarrow> False)"

definition is_bool :: "pyval \<Rightarrow> bool" where
  "is_bool v = (case v of PBool _ \<Rightarrow> True | _ \<Rightarrow> False)"

definition is_num :: "pyval \<Rightarrow> bool" where
  "is_num v = (case v of PBool _ \<Rightarrow> True | PInt _ \<Rightarrow> True | PFloat _ \<Rightarrow> True | _ \<Rightarrow> False)"

definition blank_or_not_str :: "pyval \<Rightarrow> bool" where
  "blank_or_not_str v = (case v of PStr s \<Rightarrow> blank s | _ \<Rightarrow> True)"

text \<open>\<open>not isinstance(v, bool) and isinstance(v, int) and lo <= v <= hi\<close>.\<close>

definition int_in :: "int \<Rightarrow> int \<Rightarrow> pyval \<Rightarrow> bool" where
  "int_in lo hi v = (case v of PInt i \<Rightarrow> lo \<le> i \<and> i \<le> hi | _ \<Rightarrow> False)"

definition truthy :: "pyval \<Rightarrow> bool" where
  "truthy v = (case v of PNone \<Rightarrow> False | PBool b \<Rightarrow> b | PInt i \<Rightarrow> i \<noteq> 0 | PFloat f \<Rightarrow> f \<noteq> Fin 0
     | PStr s \<Rightarrow> s \<noteq> [] | PList xs \<Rightarrow> xs \<noteq> [] | PDict d \<Rightarrow> d \<noteq> [])"

definition type_name :: "pyval \<Rightarrow> string" where
  "type_name v = (case v of PNone \<Rightarrow> ''NoneType'' | PBool _ \<Rightarrow> ''bool'' | PInt _ \<Rightarrow> ''int''
     | PFloat _ \<Rightarrow> ''float'' | PStr _ \<Rightarrow> ''str'' | PList _ \<Rightarrow> ''list'' | PDict _ \<Rightarrow> ''dict'')"

text \<open>\<open>d.get(k)\<close>, \<open>d.get(k, default)\<close>, \<open>d[k]\<close> and \<open>x or y\<close>.\<close>

definition get0 :: "pydict \<Rightarrow> string \<Rightarrow> pyval" where
  "get0 d k = (case dget d k of None \<Rightarrow> PNone | Some v \<Rightarrow> v)"

definition get1 :: "pydict \<Rightarrow> string \<Rightarrow> pyval \<Rightarrow> pyval" where
  "get1 d k x = (case dget d k of None \<Rightarrow> x | Some v \<Rightarrow> v)"

definition getitem :: "pydict \<Rightarrow> string \<Rightarrow> pyval res" where
  "getitem d k = of_opt (PyError ''KeyError'') (dget d k)"

definition por :: "pyval \<Rightarrow> pyval \<Rightarrow> pyval" where
  "por x y = (if truthy x then x else y)"

text \<open>\<open>v.get(k)\<close> on a value that may not be a dict, and iteration over a value.\<close>

definition attr_get :: "pyval \<Rightarrow> string \<Rightarrow> pyval res" where
  "attr_get v k = (case v of PDict d \<Rightarrow> Inr (get0 d k) | _ \<Rightarrow> Inl (PyError ''AttributeError''))"

definition py_iter :: "pyval \<Rightarrow> pyval list res" where
  "py_iter v = (case v of PList xs \<Rightarrow> Inr xs | PStr s \<Rightarrow> Inr (map (\<lambda>c. PStr [c]) s)
     | PDict d \<Rightarrow> Inr (map (\<lambda>(k, _). PStr k) d) | _ \<Rightarrow> Inl (PyError ''TypeError''))"

definition hashable :: "pyval \<Rightarrow> bool" where
  "hashable v = (\<not> is_list v \<and> \<not> is_dict v)"

subsection \<open>Equality\<close>

text \<open>\<open>==\<close>: numbers compare by value across types, dicts without regard to order.\<close>

definition num_val :: "pyval \<Rightarrow> pyfloat option" where
  "num_val v = (case v of PBool b \<Rightarrow> Some (Fin (if b then 1 else 0)) | PInt i \<Rightarrow> Some (Fin (of_int i))
     | PFloat f \<Rightarrow> Some f | _ \<Rightarrow> None)"

fun py_eq :: "pyval \<Rightarrow> pyval \<Rightarrow> bool"
  and py_eq_list :: "pyval list \<Rightarrow> pyval list \<Rightarrow> bool"
  and py_eq_items :: "(string \<times> pyval) list \<Rightarrow> pydict \<Rightarrow> bool" where
  "py_eq (PList xs) w = (case w of PList ys \<Rightarrow> py_eq_list xs ys | _ \<Rightarrow> False)"
| "py_eq (PDict d) w = (case w of PDict e \<Rightarrow> length d = length e \<and> py_eq_items d e | _ \<Rightarrow> False)"
| "py_eq (PStr s) w = (w = PStr s)"
| "py_eq PNone w = (w = PNone)"
| "py_eq v w = (case (num_val v, num_val w) of (Some a, Some b) \<Rightarrow> feq a b | _ \<Rightarrow> False)"
| "py_eq_list [] ys = (ys = [])"
| "py_eq_list (x # xs) ys = (case ys of [] \<Rightarrow> False | y # ys' \<Rightarrow> py_eq x y \<and> py_eq_list xs ys')"
| "py_eq_items [] e = True"
| "py_eq_items ((k, v) # d) e =
     ((case dget e k of None \<Rightarrow> False | Some w \<Rightarrow> py_eq v w) \<and> py_eq_items d e)"

definition py_in :: "pyval \<Rightarrow> pyval list \<Rightarrow> bool" where
  "py_in v xs = list_ex (py_eq v) xs"

text \<open>\<open>v in {\<dots>}\<close> for a set of strings: an unhashable \<open>v\<close> raises \<open>TypeError\<close>.\<close>

definition in_strs :: "pyval \<Rightarrow> string list \<Rightarrow> bool" where
  "in_strs v ss = (case v of PStr s \<Rightarrow> s \<in> set ss | _ \<Rightarrow> False)"

definition in_set_res :: "pyval \<Rightarrow> string list \<Rightarrow> bool res" where
  "in_set_res v ss = (if hashable v then Inr (in_strs v ss) else Inl (PyError ''TypeError''))"

subsection \<open>\<open>json.dumps\<close>\<close>

definition hex_digit :: "nat \<Rightarrow> char" where
  "hex_digit n = (if n < 10 then char_of (48 + n) else char_of (87 + n))"

definition u_escape :: "char \<Rightarrow> string" where
  "u_escape c = [char_of (92::nat)] @ ''u00'' @ [hex_digit (code c div 16), hex_digit (code c mod 16)]"

definition json_char :: "bool \<Rightarrow> char \<Rightarrow> string" where
  "json_char ascii c = (let n = code c in
     if n = 34 then [char_of (92::nat), c] else if n = 92 then [c, c]
     else if n = 10 then [char_of (92::nat), CHR ''n''] else if n = 13 then [char_of (92::nat), CHR ''r'']
     else if n = 9 then [char_of (92::nat), CHR ''t''] else if n = 8 then [char_of (92::nat), CHR ''b'']
     else if n = 12 then [char_of (92::nat), CHR ''f'']
     else if n < 32 \<or> (ascii \<and> n \<ge> 127) then u_escape c else [c])"

definition json_str :: "bool \<Rightarrow> string \<Rightarrow> string" where
  "json_str ascii s = [char_of (34::nat)] @ concat (map (json_char ascii) s) @ [char_of (34::nat)]"

definition json_float :: "pyfloat \<Rightarrow> string" where
  "json_float f = (case f of PosInf \<Rightarrow> ''Infinity'' | NegInf \<Rightarrow> ''-Infinity'' | NaN \<Rightarrow> ''NaN''
     | Fin _ \<Rightarrow> float_repr f)"

fun json_text :: "bool \<Rightarrow> pyval \<Rightarrow> string"
  and json_items :: "bool \<Rightarrow> pyval list \<Rightarrow> string"
  and json_members :: "bool \<Rightarrow> (string \<times> pyval) list \<Rightarrow> string" where
  "json_text a PNone = ''null''"
| "json_text a (PBool b) = (if b then ''true'' else ''false'')"
| "json_text a (PInt i) = int_str i"
| "json_text a (PFloat f) = json_float f"
| "json_text a (PStr s) = json_str a s"
| "json_text a (PList xs) = ''['' @ json_items a xs @ '']''"
| "json_text a (PDict d) = ''{'' @ json_members a d @ ''}''"
| "json_items a [] = []"
| "json_items a (x # xs) = json_text a x @ (if xs = [] then [] else '', '') @ json_items a xs"
| "json_members a [] = []"
| "json_members a ((k, v) # d) =
     json_str a k @ '': '' @ json_text a v @ (if d = [] then [] else '', '') @ json_members a d"

text \<open>\<open>json.dumps(v, ensure_ascii=False)\<close>, and with the default \<open>ensure_ascii=True\<close>.\<close>

definition json_dumps :: "pyval \<Rightarrow> string" where
  "json_dumps v = json_text False v"

definition json_dumps_ascii :: "pyval \<Rightarrow> string" where
  "json_dumps_ascii v = json_text True v"

text \<open>The recurring \<open>v if isinstance(v, str) else json.dumps(v, ensure_ascii=False)\<close>.\<close>

definition text_of :: "pyval \<Rightarrow> string" where
  "text_of v = (case v of PStr s \<Rightarrow> s | _ \<Rightarrow> json_dumps v)"

subsection \<open>\<open>str\<close> and \<open>repr\<close>\<close>

definition repr_char :: "char \<Rightarrow> char \<Rightarrow> string" where
  "repr_char q c = (let n = code c in
     if c = q \<or> n = 92 then [char_of (92::nat), c]
     else if n = 10 then [char_of (92::nat), CHR ''n''] else if n = 13 then [char_of (92::nat), CHR ''r'']
     else if n = 9 then [char_of (92::nat), CHR ''t'']
     else if n < 32 \<or> (127 \<le> n \<and> n \<le> 160) \<or> n = 173 then
       [char_of (92::nat), CHR ''x'', hex_digit (n div 16), hex_digit (n mod 16)]
     else [c])"

definition repr_str :: "string \<Rightarrow> string" where
  "repr_str s = (let q = (if char_of (39::nat) \<in> set s \<and> char_of (34::nat) \<notin> set s
                         then char_of (34::nat) else char_of (39::nat))
     in [q] @ concat (map (repr_char q) s) @ [q])"

fun py_repr :: "pyval \<Rightarrow> string"
  and repr_items :: "pyval list \<Rightarrow> string"
  and repr_members :: "(string \<times> pyval) list \<Rightarrow> string" where
  "py_repr PNone = ''None''"
| "py_repr (PBool b) = (if b then ''True'' else ''False'')"
| "py_repr (PInt i) = int_str i"
| "py_repr (PFloat f) = float_repr f"
| "py_repr (PStr s) = repr_str s"
| "py_repr (PList xs) = ''['' @ repr_items xs @ '']''"
| "py_repr (PDict d) = ''{'' @ repr_members d @ ''}''"
| "repr_items [] = []"
| "repr_items (x # xs) = py_repr x @ (if xs = [] then [] else '', '') @ repr_items xs"
| "repr_members [] = []"
| "repr_members ((k, v) # d) =
     repr_str k @ '': '' @ py_repr v @ (if d = [] then [] else '', '') @ repr_members d"

definition py_str :: "pyval \<Rightarrow> string" where
  "py_str v = (case v of PStr s \<Rightarrow> s | _ \<Rightarrow> py_repr v)"

subsection \<open>Size, used by the termination measures\<close>

fun psize :: "pyval \<Rightarrow> nat"
  and psize_list :: "pyval list \<Rightarrow> nat"
  and psize_items :: "(string \<times> pyval) list \<Rightarrow> nat" where
  "psize (PList xs) = Suc (psize_list xs)"
| "psize (PDict d) = Suc (psize_items d)"
| "psize _ = 1"
| "psize_list [] = 0"
| "psize_list (x # xs) = psize x + psize_list xs"
| "psize_items [] = 0"
| "psize_items ((k, v) # d) = psize v + psize_items d"

lemma psize_pos [simp]: "0 < psize v"
  by (cases v) auto

lemma psize_list_sum: "psize_list xs = sum_list (map psize xs)"
  by (induction xs) auto

lemma psize_items_sum: "psize_items d = sum_list (map (psize \<circ> snd) d)"
  by (induction d) auto

lemma psize_list_mem: "x \<in> set xs \<Longrightarrow> psize x \<le> psize_list xs"
  by (simp add: psize_list_sum member_le_sum_list)

lemma psize_items_mem: "(k, v) \<in> set d \<Longrightarrow> psize v \<le> psize_items d"
  by (induction d) auto

lemma psize_dget: "dget d k = Some v \<Longrightarrow> psize v \<le> psize_items d"
  by (meson dget_SomeD psize_items_mem)

subsection \<open>Facts the components share\<close>

lemma get0_dset [simp]: "get0 (dset d k v) k' = (if k' = k then v else get0 d k')"
  by (simp add: get0_def)

lemma get0_some: "dget d k = Some v \<Longrightarrow> get0 d k = v"
  by (simp add: get0_def)

lemma in_strs_iff: "in_strs v ss \<longleftrightarrow> (\<exists>s \<in> set ss. v = PStr s)"
  by (cases v) (auto simp: in_strs_def)

lemma int_in_iff: "int_in lo hi v \<longleftrightarrow> (\<exists>i. v = PInt i \<and> lo \<le> i \<and> i \<le> hi)"
  by (cases v) (auto simp: int_in_def)

lemma is_str_iff: "is_str v \<longleftrightarrow> (\<exists>s. v = PStr s)"
  by (cases v) (auto simp: is_str_def)

lemma is_dict_iff: "is_dict v \<longleftrightarrow> (\<exists>d. v = PDict d)"
  by (cases v) (auto simp: is_dict_def)

lemma is_list_iff: "is_list v \<longleftrightarrow> (\<exists>xs. v = PList xs)"
  by (cases v) (auto simp: is_list_def)

lemma blank_or_not_str_iff: "\<not> blank_or_not_str v \<longleftrightarrow> (\<exists>s. v = PStr s \<and> \<not> blank s)"
  by (cases v) (auto simp: blank_or_not_str_def)

lemma py_eq_PStr [simp]: "py_eq v (PStr s) \<longleftrightarrow> v = PStr s"
  by (cases v) (auto simp: num_val_def)

lemma py_eq_PNone [simp]: "py_eq v PNone \<longleftrightarrow> v = PNone"
  by (cases v) (auto simp: num_val_def)

lemma text_of_PStr [simp]: "text_of (PStr s) = s"
  by (simp add: text_of_def)

lemmas type_tests = is_str_iff is_dict_iff is_list_iff int_in_iff in_strs_iff

end
