(* ===== verification/Json.thy ===== *)
theory Json
  imports Py_Value
begin

section \<open>\<open>json.loads\<close>\<close>

text \<open>
  The reader of the \<open>json\<close> module, on Latin-1 text.  \<open>None\<close> is the
  \<open>ValueError\<close> it raises.  The recursion is on the length of what is left; the length
  tests inside the loops only serve the termination proof and always hold
  (\<open>parse_value_shorter\<close>).  A \<open>\\uXXXX\<close> escape above code point 255 is outside the
  modelled text and read as a question mark.
\<close>

definition json_ws :: "char \<Rightarrow> bool" where
  "json_ws c = (code c \<in> {32, 9, 10, 13})"

definition skip_ws :: "string \<Rightarrow> string" where
  "skip_ws s = dropWhile json_ws s"

lemma length_skip_ws [simp]: "length (skip_ws s) \<le> length s"
  by (simp add: skip_ws_def length_dropWhile_le)

subsection \<open>Strings\<close>

definition hex_val :: "char \<Rightarrow> nat option" where
  "hex_val c = (let n = code c in
     if 48 \<le> n \<and> n \<le> 57 then Some (n - 48)
     else if 97 \<le> n \<and> n \<le> 102 then Some (n - 87)
     else if 65 \<le> n \<and> n \<le> 70 then Some (n - 55) else None)"

definition hex4 :: "string \<Rightarrow> nat option" where
  "hex4 s = (case map hex_val (take 4 s) of
     [Some a, Some b, Some c, Some d] \<Rightarrow> Some (((a * 16 + b) * 16 + c) * 16 + d) | _ \<Rightarrow> None)"

definition latin1 :: "nat \<Rightarrow> char" where
  "latin1 n = (if n < 256 then char_of n else CHR ''?'')"

definition unescape :: "char \<Rightarrow> char option" where
  "unescape c = (let n = code c in
     if n = 34 \<or> n = 92 \<or> n = 47 then Some c
     else if n = 98 then Some (char_of (8::nat)) else if n = 102 then Some (char_of (12::nat))
     else if n = 110 then Some (char_of (10::nat)) else if n = 114 then Some (char_of (13::nat))
     else if n = 116 then Some (char_of (9::nat)) else None)"

text \<open>The text after the opening quote: the string and what follows the closing one.\<close>

fun parse_string :: "string \<Rightarrow> (string \<times> string) option" where
  "parse_string [] = None"
| "parse_string (c # s) =
     (if code c = 34 then Some ([], s)
      else if code c = 92 then
        (case s of [] \<Rightarrow> None
         | e # u \<Rightarrow>
             (if code e = 117 then
                (case hex4 u of None \<Rightarrow> None
                 | Some n \<Rightarrow> map_option (\<lambda>(t, r). (latin1 n # t, r)) (parse_string (drop 4 u)))
              else
                (case unescape e of None \<Rightarrow> None
                 | Some x \<Rightarrow> map_option (\<lambda>(t, r). (x # t, r)) (parse_string u))))
      else if code c < 32 then None
      else map_option (\<lambda>(t, r). (c # t, r)) (parse_string s))"

lemma parse_string_shorter: "parse_string s = Some (t, r) \<Longrightarrow> length r < length s"
proof (induction s arbitrary: t r rule: parse_string.induct)
  case (2 c s)
  then show ?case by (fastforce split: if_splits option.splits list.splits)
qed simp

lemma skip_tl_less: "u \<noteq> [] \<Longrightarrow> length u \<le> n \<Longrightarrow> length (skip_ws (tl u)) < n"
  by (cases u) (auto simp: le_less_trans[OF length_skip_ws])

subsection \<open>Numbers\<close>

definition digits :: "string \<Rightarrow> string \<times> string" where
  "digits s = (takeWhile is_dec s, dropWhile is_dec s)"

text \<open>\<open>-?(0|[1-9][0-9]*)\<close>, then an optional fraction and an optional exponent.\<close>

definition number_int :: "string \<Rightarrow> (string \<times> string) option" where
  "number_int s = (let (sg, t) = (if s \<noteq> [] \<and> hd s = CHR ''-'' then (''-'', tl s) else ([], s))
     in if t = [] \<or> \<not> is_dec (hd t) then None
        else if hd t = CHR ''0'' then Some (sg @ ''0'', tl t)
        else (case digits t of (ds, r) \<Rightarrow> Some (sg @ ds, r)))"

definition number_frac :: "string \<Rightarrow> string \<times> string" where
  "number_frac s = (if s \<noteq> [] \<and> hd s = CHR ''.'' \<and> fst (digits (tl s)) \<noteq> []
     then (CHR ''.'' # fst (digits (tl s)), snd (digits (tl s))) else ([], s))"

definition number_exp :: "string \<Rightarrow> string \<times> string" where
  "number_exp s = (if s \<noteq> [] \<and> (hd s = CHR ''e'' \<or> hd s = CHR ''E'') then
       (let t = tl s;
            (sg, u) = (if t \<noteq> [] \<and> (hd t = CHR ''-'' \<or> hd t = CHR ''+'') then ([hd t], tl t) else ([], t))
        in if fst (digits u) \<noteq> [] then (hd s # sg @ fst (digits u), snd (digits u)) else ([], s))
     else ([], s))"

definition int_of_text :: "string \<Rightarrow> int" where
  "int_of_text s = (if s \<noteq> [] \<and> hd s = CHR ''-'' then - int (dec_nat (tl s)) else int (dec_nat s))"

definition parse_number :: "string \<Rightarrow> (pyval \<times> string) option" where
  "parse_number s = (case number_int s of None \<Rightarrow> None
     | Some (i, r) \<Rightarrow> (case number_frac r of (f, r2) \<Rightarrow> case number_exp r2 of (e, r3) \<Rightarrow>
         if f = [] \<and> e = [] then Some (PInt (int_of_text i), r3)
         else map_option (\<lambda>x. (PFloat x, r3)) (float_of_str (i @ f @ e))))"

subsection \<open>Values\<close>

definition parse_literal :: "string \<Rightarrow> (pyval \<times> string) option" where
  "parse_literal s =
     (if starts_with ''null'' s then Some (PNone, drop 4 s)
      else if starts_with ''true'' s then Some (PBool True, drop 4 s)
      else if starts_with ''false'' s then Some (PBool False, drop 5 s)
      else if starts_with ''NaN'' s then Some (PFloat NaN, drop 3 s)
      else if starts_with ''Infinity'' s then Some (PFloat PosInf, drop 8 s)
      else if starts_with ''-Infinity'' s then Some (PFloat NegInf, drop 9 s)
      else parse_number s)"

function (sequential) parse_value :: "string \<Rightarrow> (pyval \<times> string) option"
  and parse_elems :: "pyval list \<Rightarrow> string \<Rightarrow> (pyval \<times> string) option"
  and parse_members :: "pydict \<Rightarrow> string \<Rightarrow> (pyval \<times> string) option" where
  "parse_value s =
     (if s = [] then None
      else if code (hd s) = 34 then map_option (\<lambda>(t, r). (PStr t, r)) (parse_string (tl s))
      else if hd s = CHR ''['' then
        (let u = skip_ws (tl s) in
         if u \<noteq> [] \<and> hd u = CHR '']'' then Some (PList [], tl u) else parse_elems [] u)
      else if hd s = CHR ''{'' then
        (let u = skip_ws (tl s) in
         if u \<noteq> [] \<and> hd u = CHR ''}'' then Some (PDict [], tl u) else parse_members [] u)
      else parse_literal s)"
| "parse_elems acc s =
     (case parse_value s of None \<Rightarrow> None
      | Some (v, r) \<Rightarrow>
          (let u = skip_ws r in
           if u = [] \<or> \<not> length u \<le> length s then None
           else if hd u = CHR '']'' then Some (PList (acc @ [v]), tl u)
           else if hd u = CHR '','' then parse_elems (acc @ [v]) (skip_ws (tl u))
           else None))"
| "parse_members acc s =
     (if s = [] \<or> code (hd s) \<noteq> 34 then None
      else case parse_string (tl s) of None \<Rightarrow> None
      | Some (k, r) \<Rightarrow>
          (let u = skip_ws r in
           if u = [] \<or> hd u \<noteq> CHR '':'' \<or> \<not> length u \<le> length s then None
           else case parse_value (skip_ws (tl u)) of None \<Rightarrow> None
           | Some (v, r2) \<Rightarrow>
               (let w = skip_ws r2 in
                if w = [] \<or> \<not> length w \<le> length s then None
                else if hd w = CHR ''}'' then Some (PDict (dset acc k v), tl w)
                else if hd w = CHR '','' then parse_members (dset acc k v) (skip_ws (tl w))
                else None)))"
  by pat_completeness auto
termination
  by (relation "measure (\<lambda>x. case x of Inl s \<Rightarrow> 2 * length s
      | Inr (Inl (_, s)) \<Rightarrow> Suc (2 * length s) | Inr (Inr (_, s)) \<Rightarrow> Suc (2 * length s))")
     (auto dest: skip_tl_less[OF _ order_refl] skip_tl_less simp: less_Suc_eq_le)

declare parse_value.simps [simp del] parse_elems.simps [simp del] parse_members.simps [simp del]

text \<open>The length tests of the two loops never fail: a parsed value leaves a shorter rest.\<close>

lemma number_int_shorter: "number_int s = Some (i, r) \<Longrightarrow> length r < length s"
  by (cases s; cases "tl s")
     (auto simp: number_int_def digits_def Let_def le_imp_less_Suc length_dropWhile_le
       split: if_splits prod.splits intro: le_less_trans[OF length_dropWhile_le])

lemma number_frac_le: "number_frac r = (f, r') \<Longrightarrow> length r' \<le> length r"
  by (cases r) (auto simp: number_frac_def digits_def le_SucI length_dropWhile_le split: if_splits)

lemma number_exp_le: "number_exp r = (f, r') \<Longrightarrow> length r' \<le> length r"
  by (cases r; cases "tl r")
     (auto simp: number_exp_def digits_def Let_def le_SucI length_dropWhile_le split: if_splits
       intro: le_trans[OF length_dropWhile_le])

lemma parse_number_shorter:
  assumes "parse_number s = Some (v, r)"
  shows "length r < length s"
proof -
  obtain i r1 where 1: "number_int s = Some (i, r1)"
    using assms by (auto simp: parse_number_def split: option.splits)
  obtain f r2 e r3 where 2: "number_frac r1 = (f, r2)" "number_exp r2 = (e, r3)"
    by (meson surj_pair)
  have "r = r3" using assms 1 2 by (auto simp: parse_number_def split: if_splits)
  then show ?thesis
    using number_int_shorter[OF 1] number_frac_le[OF 2(1)] number_exp_le[OF 2(2)] by simp
qed

lemma starts_with_length: "starts_with p s \<Longrightarrow> length p \<le> length s"
  by (metis starts_with_def length_take min.cobounded1 min_def)

lemma parse_literal_shorter: "parse_literal s = Some (v, r) \<Longrightarrow> length r < length s"
  by (auto simp: parse_literal_def split: if_splits dest: starts_with_length parse_number_shorter)

lemma parse_value_shorter:
  "parse_value s = Some (v, r) \<Longrightarrow> length r < length s"
  "parse_elems acc s = Some (v, r) \<Longrightarrow> length r < length s"
  "parse_members acc' s = Some (v, r) \<Longrightarrow> length r < length s"
proof (induction s and acc s and acc' s arbitrary: v r and v r and v r
    rule: parse_value_parse_elems_parse_members.induct)
  case (1 s)
  have tl: "s \<noteq> [] \<Longrightarrow> length (skip_ws (tl s)) < length s" "s \<noteq> [] \<Longrightarrow> length (tl s) < length s"
    by (simp_all add: skip_tl_less)
  have tl2: "length (tl (skip_ws (tl s))) \<le> length (skip_ws (tl s))" by simp
  note eq = 1(3)[unfolded parse_value.simps[of s] Let_def]
  show ?case
  proof (cases "s = [] \<or> code (hd s) = 34 \<or> (hd s \<noteq> CHR ''['' \<and> hd s \<noteq> CHR ''{'')")
    case True
    then show ?thesis using eq tl
      by (auto split: if_splits dest!: parse_string_shorter parse_literal_shorter)
  next
    case False
    then show ?thesis using eq tl tl2 1(1)[OF _ _ _ refl] 1(2)[OF _ _ _ _ refl]
      by (fastforce split: if_splits)
  qed
next
  case (2 acc s)
  note eq = 2(3)[unfolded parse_elems.simps[of acc s] Let_def]
  then obtain w t where v: "parse_value s = Some (w, t)" by (auto split: option.splits)
  have t: "length t < length s" by (rule 2(1)[OF v])
  have tl: "skip_ws t \<noteq> [] \<Longrightarrow> length (skip_ws (tl (skip_ws t))) < length s"
    using t by (intro skip_tl_less) (auto intro: le_trans[OF length_skip_ws])
  have tl2: "length (tl (skip_ws t)) < length s"
    using t length_skip_ws[of t] unfolding length_tl by linarith
  show ?case using eq v tl tl2 2(2)[OF v refl refl] by (fastforce split: if_splits)
next
  case (3 acc s)
  note eq = 3(3)[unfolded parse_members.simps[of acc s] Let_def]
  then obtain k t where k: "s \<noteq> []" "code (hd s) = 34" "parse_string (tl s) = Some (k, t)"
    by (auto split: option.splits if_splits)
  define u where "u = skip_ws t"
  obtain v' r2 where u: "u \<noteq> []" "hd u = CHR '':''" "length u \<le> length s"
    "parse_value (skip_ws (tl u)) = Some (v', r2)"
    using eq k by (auto simp: u_def split: option.splits if_splits)
  have r2: "length r2 < length s"
    using 3(1)[OF _ k(3) refl u_def _ u(4)] k u skip_tl_less[OF u(1) u(3)] by auto
  have tl: "skip_ws r2 \<noteq> [] \<Longrightarrow> length (skip_ws (tl (skip_ws r2))) < length s"
    using r2 by (intro skip_tl_less) (auto intro: le_trans[OF length_skip_ws])
  have tl2: "length (tl (skip_ws r2)) < length s"
    using r2 length_skip_ws[of r2] unfolding length_tl by linarith
  show ?case using eq k u tl tl2 3(2)[OF _ k(3) refl u_def _ u(4) refl refl]
    by (fastforce simp: u_def split: if_splits)
qed

definition json_loads :: "string \<Rightarrow> pyval option" where
  "json_loads s = (case parse_value (skip_ws s) of
     Some (v, r) \<Rightarrow> if skip_ws r = [] then Some v else None | None \<Rightarrow> None)"

end
