(* ===== verification/Wf_Graph.thy ===== *)
theory Wf_Graph
  imports Json
begin

section \<open>The persisted workflow graph (\<open>core/workflow_graph.py\<close>)\<close>

text \<open>
  The pydantic models \<open>Node\<close>, \<open>GraphEdge\<close>, \<open>WorkflowTestCase\<close>,
  \<open>WorkflowSettings\<close> and \<open>WorkflowGraph\<close> as records, and \<open>model_validate\<close> as
  \<open>parse_graph\<close>: \<open>None\<close> is the \<open>ValidationError\<close> (a \<open>ValueError\<close>)
  that pydantic raises on the declared field types and constraints.
\<close>

datatype node_type =
    TTrigger | TAgent | TTool | TRouter | TClassifier | TMerge | TLoop | TTry | TSubworkflow
  | TApproval | TOutput | TConvert | TSet | TCondition | TExtract | TRag | THttp | TNotification
  | TDocument | TDbWrite | TFile | TFileSave

definition node_type_names :: "(string \<times> node_type) list" where
  "node_type_names =
     [(''trigger'', TTrigger), (''agent'', TAgent), (''tool'', TTool), (''router'', TRouter),
      (''classifier'', TClassifier), (''merge'', TMerge), (''loop'', TLoop), (''try'', TTry),
      (''subworkflow'', TSubworkflow), (''approval'', TApproval), (''output'', TOutput),
      (''convert'', TConvert), (''set'', TSet), (''condition'', TCondition),
      (''extract'', TExtract), (''rag'', TRag), (''http'', THttp),
      (''notification'', TNotification), (''document'', TDocument), (''db_write'', TDbWrite),
      (''file'', TFile), (''file_save'', TFileSave)]"

definition node_type_of :: "string \<Rightarrow> node_type option" where
  "node_type_of s = map_of node_type_names s"

fun type_str :: "node_type \<Rightarrow> string" where
  "type_str TTrigger = ''trigger''" | "type_str TAgent = ''agent''" | "type_str TTool = ''tool''"
| "type_str TRouter = ''router''" | "type_str TClassifier = ''classifier''"
| "type_str TMerge = ''merge''" | "type_str TLoop = ''loop''" | "type_str TTry = ''try''"
| "type_str TSubworkflow = ''subworkflow''" | "type_str TApproval = ''approval''"
| "type_str TOutput = ''output''" | "type_str TConvert = ''convert''" | "type_str TSet = ''set''"
| "type_str TCondition = ''condition''" | "type_str TExtract = ''extract''"
| "type_str TRag = ''rag''" | "type_str THttp = ''http''"
| "type_str TNotification = ''notification''" | "type_str TDocument = ''document''"
| "type_str TDbWrite = ''db_write''" | "type_str TFile = ''file''"
| "type_str TFileSave = ''file_save''"

record wnode =
  n_id :: string
  n_type :: node_type
  n_label :: "string option"
  n_config :: pydict
  n_position :: "pydict option"

record wedge =
  e_id :: "string option"
  e_source :: string
  e_target :: string
  e_route :: "string option"

record wgraph =
  g_nodes :: "wnode list"
  g_edges :: "wedge list"
  g_tests :: "pyval list option"
  g_settings :: "bool option option"

subsection \<open>Field readers of \<open>model_validate\<close>\<close>

definition is_ident_char :: "char \<Rightarrow> bool" where
  "is_ident_char c = (is_alpha c \<or> is_dec c \<or> c = CHR ''_'')"

definition is_id_char :: "char \<Rightarrow> bool" where
  "is_id_char c = (is_ident_char c \<or> c = CHR ''-'')"

text \<open>\<open>^[A-Za-z][A-Za-z0-9_-]{0,63}$\<close>\<close>

definition node_id_ok :: "string \<Rightarrow> bool" where
  "node_id_ok s = (s \<noteq> [] \<and> is_alpha (hd s) \<and> list_all is_id_char (tl s) \<and> length s \<le> 64)"

definition req_str :: "pydict \<Rightarrow> string \<Rightarrow> string option" where
  "req_str d k = (case dget d k of Some (PStr s) \<Rightarrow> Some s | _ \<Rightarrow> None)"

definition opt_str :: "pydict \<Rightarrow> string \<Rightarrow> string option option" where
  "opt_str d k = (case dget d k of None \<Rightarrow> Some None | Some PNone \<Rightarrow> Some None
     | Some (PStr s) \<Rightarrow> Some (Some s) | _ \<Rightarrow> None)"

definition opt_dict :: "pydict \<Rightarrow> string \<Rightarrow> pydict option option" where
  "opt_dict d k = (case dget d k of None \<Rightarrow> Some None | Some PNone \<Rightarrow> Some None
     | Some (PDict e) \<Rightarrow> Some (Some e) | _ \<Rightarrow> None)"

definition dict_or_empty :: "pydict \<Rightarrow> string \<Rightarrow> pydict option" where
  "dict_or_empty d k = (case dget d k of None \<Rightarrow> Some [] | Some (PDict e) \<Rightarrow> Some e | _ \<Rightarrow> None)"

definition list_or_empty :: "pydict \<Rightarrow> string \<Rightarrow> pyval list option" where
  "list_or_empty d k = (case dget d k of None \<Rightarrow> Some [] | Some (PList xs) \<Rightarrow> Some xs | _ \<Rightarrow> None)"

fun omap :: "('a \<Rightarrow> 'b option) \<Rightarrow> 'a list \<Rightarrow> 'b list option" where
  "omap f [] = Some []"
| "omap f (x # xs) = (case f x of None \<Rightarrow> None | Some y \<Rightarrow> map_option ((#) y) (omap f xs))"

subsection \<open>Nodes, edges, test cases, settings\<close>

definition parse_node :: "pyval \<Rightarrow> wnode option" where
  "parse_node v = (case v of PDict d \<Rightarrow>
     (case (req_str d ''id'', Option.bind (req_str d ''type'') node_type_of, opt_str d ''label'',
            dict_or_empty d ''config'', opt_dict d ''position'') of
        (Some i, Some t, Some l, Some c, Some p) \<Rightarrow>
          if node_id_ok i
          then Some \<lparr>n_id = i, n_type = t, n_label = l, n_config = c, n_position = p\<rparr> else None
      | _ \<Rightarrow> None)
   | _ \<Rightarrow> None)"

definition parse_edge :: "pyval \<Rightarrow> wedge option" where
  "parse_edge v = (case v of PDict d \<Rightarrow>
     (case (opt_str d ''id'', req_str d ''source'', req_str d ''target'', opt_str d ''route'') of
        (Some i, Some s, Some t, Some r) \<Rightarrow>
          Some \<lparr>e_id = i, e_source = s, e_target = t, e_route = r\<rparr>
      | _ \<Rightarrow> None)
   | _ \<Rightarrow> None)"

definition output_expectation_ok :: "pyval \<Rightarrow> bool" where
  "output_expectation_ok v = (case v of PNone \<Rightarrow> True
     | PDict d \<Rightarrow> in_strs (get0 d ''mode'') [''equals'', ''contains'', ''ignore''] | _ \<Rightarrow> False)"

definition routes_expectation_ok :: "pyval \<Rightarrow> bool" where
  "routes_expectation_ok v = (case v of PNone \<Rightarrow> True
     | PDict d \<Rightarrow> list_all (\<lambda>(_, w). is_str w) d | _ \<Rightarrow> False)"

definition expectation_ok :: "pyval \<Rightarrow> bool" where
  "expectation_ok v = (case v of PDict d \<Rightarrow>
     in_strs (get0 d ''status'') [''done'', ''error'']
     \<and> routes_expectation_ok (get0 d ''routes'') \<and> output_expectation_ok (get0 d ''output'')
   | _ \<Rightarrow> False)"

definition str_len_in :: "nat \<Rightarrow> nat \<Rightarrow> pyval \<Rightarrow> bool" where
  "str_len_in lo hi v = (case v of PStr s \<Rightarrow> lo \<le> length s \<and> length s \<le> hi | _ \<Rightarrow> False)"

definition test_case_ok :: "pyval \<Rightarrow> bool" where
  "test_case_ok v = (case v of PDict d \<Rightarrow>
     str_len_in 1 64 (get0 d ''id'') \<and> str_len_in 1 200 (get0 d ''name'')
     \<and> expectation_ok (get0 d ''expect'') | _ \<Rightarrow> False)"

definition test_id :: "pyval \<Rightarrow> pyval" where
  "test_id v = (case v of PDict d \<Rightarrow> get0 d ''id'' | _ \<Rightarrow> PNone)"

definition unique_test_ids :: "pyval list option \<Rightarrow> bool" where
  "unique_test_ids ts = (case ts of None \<Rightarrow> True | Some xs \<Rightarrow> distinct (map test_id xs))"

definition parse_tests :: "pydict \<Rightarrow> pyval list option option" where
  "parse_tests d = (case dget d ''tests'' of None \<Rightarrow> Some None | Some PNone \<Rightarrow> Some None
     | Some (PList ts) \<Rightarrow> if list_all test_case_ok ts then Some (Some ts) else None | _ \<Rightarrow> None)"

text \<open>Pydantic's lax booleans: \<open>true\<close>/\<open>false\<close>, \<open>0\<close>/\<open>1\<close> and their usual spellings.\<close>

definition lax_bool :: "pyval \<Rightarrow> bool option" where
  "lax_bool v = (case v of PBool b \<Rightarrow> Some b
     | PInt i \<Rightarrow> if i = 1 then Some True else if i = 0 then Some False else None
     | PFloat f \<Rightarrow> if f = Fin 1 then Some True else if f = Fin 0 then Some False else None
     | PStr s \<Rightarrow> (let w = lower s in
         if w \<in> {''1'', ''on'', ''t'', ''true'', ''y'', ''yes''} then Some True
         else if w \<in> {''0'', ''off'', ''f'', ''false'', ''n'', ''no''} then Some False else None)
     | _ \<Rightarrow> None)"

definition parse_settings :: "pydict \<Rightarrow> bool option option option" where
  "parse_settings d = (case dget d ''settings'' of None \<Rightarrow> Some None | Some PNone \<Rightarrow> Some None
     | Some (PDict e) \<Rightarrow> (case dget e ''notify_on_failure'' of None \<Rightarrow> Some (Some None)
         | Some PNone \<Rightarrow> Some (Some None) | Some v \<Rightarrow> map_option (\<lambda>b. Some (Some b)) (lax_bool v))
     | _ \<Rightarrow> None)"

definition version_ok :: "pydict \<Rightarrow> bool" where
  "version_ok d = (case dget d ''version'' of None \<Rightarrow> True | Some v \<Rightarrow> v = PInt 1)"

definition parse_graph :: "pyval \<Rightarrow> wgraph option" where
  "parse_graph v = (case v of PDict d \<Rightarrow>
     (case (Option.bind (list_or_empty d ''nodes'') (omap parse_node),
            Option.bind (list_or_empty d ''edges'') (omap parse_edge),
            parse_tests d, parse_settings d) of
        (Some ns, Some es, Some ts, Some st) \<Rightarrow>
          if version_ok d \<and> unique_test_ids ts
          then Some \<lparr>g_nodes = ns, g_edges = es, g_tests = ts, g_settings = st\<rparr> else None
      | _ \<Rightarrow> None)
   | _ \<Rightarrow> None)"

subsection \<open>Graph vocabulary\<close>

abbreviation cfg0 :: "wnode \<Rightarrow> string \<Rightarrow> pyval" where
  "cfg0 n k \<equiv> get0 (n_config n) k"

definition node_ids :: "wgraph \<Rightarrow> string list" where
  "node_ids g = map n_id (g_nodes g)"

definition find_node :: "wgraph \<Rightarrow> string \<Rightarrow> wnode option" where
  "find_node g i = find (\<lambda>n. n_id n = i) (g_nodes g)"

text \<open>\<open>sources\<close>: the nodes with an outgoing edge; a node outside it is a leaf.\<close>

definition edge_sources :: "wgraph \<Rightarrow> string list" where
  "edge_sources g = map e_source (g_edges g)"

definition parents_of :: "wgraph \<Rightarrow> string \<Rightarrow> string list" where
  "parents_of g i = dedup (map e_source (filter (\<lambda>e. e_target e = i) (g_edges g)))"

definition edge_rel :: "wgraph \<Rightarrow> (string \<times> string) set" where
  "edge_rel g = {(e_source e, e_target e) | e. e \<in> set (g_edges g)}"

lemma set_parents_of: "set (parents_of g i) = {s. (s, i) \<in> edge_rel g}"
  by (force simp: parents_of_def edge_rel_def)

lemma find_node_Some: "find_node g i = Some n \<Longrightarrow> n \<in> set (g_nodes g) \<and> n_id n = i"
  by (auto simp: find_node_def find_Some_iff)

lemma find_node_None: "find_node g i = None \<longleftrightarrow> i \<notin> set (node_ids g)"
  by (auto simp: find_node_def node_ids_def find_None_iff)

lemma find_node_unique:
  assumes "distinct (node_ids g)" "n \<in> set (g_nodes g)"
  shows "find_node g (n_id n) = Some n"
proof (cases "find_node g (n_id n)")
  case None
  then show ?thesis using assms(2) by (auto simp: find_node_None node_ids_def)
next
  case (Some m)
  then have "m \<in> set (g_nodes g)" "n_id m = n_id n" by (auto dest: find_node_Some)
  with assms have "m = n" by (auto simp: node_ids_def distinct_map inj_on_def)
  with Some show ?thesis by simp
qed

text \<open>Reading a type name back.\<close>

lemma node_type_roundtrip [simp]: "node_type_of (type_str t) = Some t"
  by (cases t) (simp_all add: node_type_of_def node_type_names_def)

lemma omap_eq_Some: "omap f xs = Some ys \<longleftrightarrow> list_all2 (\<lambda>x y. f x = Some y) xs ys"
  by (induction xs arbitrary: ys) (auto split: option.splits simp: list_all2_Cons1)

subsection \<open>Sizes: a body is smaller than the configuration that holds it\<close>

definition node_size :: "wnode \<Rightarrow> nat" where
  "node_size n = psize_items (n_config n)"

definition graph_size :: "wgraph \<Rightarrow> nat" where
  "graph_size g = sum_list (map node_size (g_nodes g))"

lemma parse_node_size: "parse_node v = Some n \<Longrightarrow> node_size n < psize v"
proof -
  assume a: "parse_node v = Some n"
  then obtain d where v: "v = PDict d" by (auto simp: parse_node_def split: pyval.splits)
  then have c: "dict_or_empty d ''config'' = Some (n_config n)"
    using a by (auto simp: parse_node_def split: option.splits if_splits)
  show ?thesis
  proof (cases "dget d ''config''")
    case None
    with c v show ?thesis by (simp add: dict_or_empty_def node_size_def)
  next
    case (Some w)
    with c have "w = PDict (n_config n)" by (auto simp: dict_or_empty_def split: pyval.splits)
    with Some psize_dget[OF Some] v show ?thesis by (simp add: node_size_def)
  qed
qed

lemma omap_size:
  "omap parse_node xs = Some ns \<Longrightarrow> sum_list (map node_size ns) \<le> psize_list xs"
proof (induction xs arbitrary: ns)
  case (Cons x xs)
  then obtain n ms where "parse_node x = Some n" "omap parse_node xs = Some ms" "ns = n # ms"
    by (auto split: option.splits)
  with Cons.IH parse_node_size[of x n] show ?case by fastforce
qed simp

lemma parse_graph_size:
  assumes "parse_graph v = Some g"
  shows "graph_size g < psize v"
proof -
  obtain d where v: "v = PDict d" using assms by (auto simp: parse_graph_def split: pyval.splits)
  with assms obtain xs where xs: "list_or_empty d ''nodes'' = Some xs"
    "omap parse_node xs = Some (g_nodes g)"
    by (auto simp: parse_graph_def split: option.splits if_splits bind_splits)
  have "psize_list xs \<le> psize_items d"
    using xs(1) psize_dget[of d "''nodes''"]
    by (auto simp: list_or_empty_def split: option.splits pyval.splits)
  with omap_size[OF xs(2)] v show ?thesis by (simp add: graph_size_def)
qed

lemma node_size_le: "n \<in> set (g_nodes g) \<Longrightarrow> node_size n \<le> graph_size g"
  by (simp add: graph_size_def member_le_sum_list)

end
