(* ===== verification/Wf_Template.thy ===== *)
theory Wf_Template
  imports Wf_Graph
begin

section \<open>Templates and rules (\<open>core/workflow_graph.py\<close>)\<close>

text \<open>
  A template \<open>{{node.path}}\<close> reads the output of an upstream node.  This theory models
  the matcher of \<open>_TEMPLATE\<close> (\<open>match_tmpl\<close>, \<open>finditer\<close>), \<open>_lookup\<close>,
  the budget of \<open>_RenderBudget\<close> threaded through \<open>render\<close>, the references a value
  makes (\<open>_refs\<close>, \<open>_ref_paths\<close>) and the declarative rules (\<open>_rule_subject\<close>,
  \<open>evaluate_rule\<close>).  Its lemmas show that a rendering reads only the outputs it refers
  to and never produces more text than the budget.
\<close>

definition MAX_NODE_OUTPUT_BYTES :: int where
  "MAX_NODE_OUTPUT_BYTES = 1 * 1024 * 1024"

definition MAX_RENDERED_CHARS :: int where
  "MAX_RENDERED_CHARS = 2 * MAX_NODE_OUTPUT_BYTES"

subsection \<open>The matcher of \<open>_TEMPLATE\<close>\<close>

text \<open>
  \<open>(?:\.[A-Za-z0-9_-]+)*\<close> and then the whole pattern.  Every part of the pattern stops
  on a character the next part cannot start with, so the greedy match is the only one.
\<close>

function take_path :: "string \<Rightarrow> string \<times> string" where
  "take_path s =
     (if s \<noteq> [] \<and> hd s = CHR ''.'' \<and> takeWhile is_id_char (tl s) \<noteq> [] then
        (case take_path (dropWhile is_id_char (tl s)) of
           (p, r) \<Rightarrow> (CHR ''.'' # takeWhile is_id_char (tl s) @ p, r))
      else ([], s))"
  by pat_completeness auto
termination
  by (relation "measure length")
     (auto simp: le_less_trans[OF length_dropWhile_le])

declare take_path.simps [simp del]

definition match_tmpl :: "string \<Rightarrow> (string \<times> string \<times> string) option" where
  "match_tmpl s =
     (if \<not> starts_with ''{{'' s then None
      else (let u = dropWhile is_space (drop 2 s) in
        if u = [] \<or> \<not> is_alpha (hd u) then None
        else (case take_path (dropWhile is_id_char u) of
          (p, r) \<Rightarrow>
            (let w = dropWhile is_space r in
             if starts_with ''}}'' w then Some (takeWhile is_id_char u, p, drop 2 w) else None))))"

lemma take_path_le: "take_path s = (p, r) \<Longrightarrow> length r \<le> length s"
proof (induction s arbitrary: p r rule: take_path.induct)
  case (1 s)
  show ?case
  proof (cases "s \<noteq> [] \<and> hd s = CHR ''.'' \<and> takeWhile is_id_char (tl s) \<noteq> []")
    case True
    obtain p' r' where t: "take_path (dropWhile is_id_char (tl s)) = (p', r')"
      by (meson surj_pair)
    with True 1(2) have "r = r'" by (auto simp: take_path.simps[of s])
    with 1(1)[OF True t] show ?thesis
      using length_dropWhile_le[of is_id_char "tl s"] by (simp add: le_diff_conv)
  next
    case False
    with 1(2) show ?thesis by (auto simp: take_path.simps[of s])
  qed
qed

lemma match_tmpl_shorter: "match_tmpl s = Some (i, p, r) \<Longrightarrow> length r < length s"
proof -
  assume m: "match_tmpl s = Some (i, p, r)"
  then have s2: "2 \<le> length s"
    by (auto simp: match_tmpl_def starts_with_def split: if_splits dest: arg_cong[where f=length])
  define u where "u = dropWhile is_space (drop 2 s)"
  obtain w where "take_path (dropWhile is_id_char u) = (p, w)" "r = drop 2 (dropWhile is_space w)"
    using m by (auto simp: match_tmpl_def u_def Let_def split: if_splits prod.splits)
  then have "length r \<le> length u"
    using take_path_le[of "dropWhile is_id_char u" p w] length_dropWhile_le[of is_space w]
      length_dropWhile_le[of is_id_char u] by simp
  then show ?thesis using s2 length_dropWhile_le[of is_space "drop 2 s"] by (simp add: u_def)
qed

text \<open>\<open>_TEMPLATE.finditer\<close>: each match with the literal text before it, and the tail.\<close>

function finditer :: "string \<Rightarrow> string \<Rightarrow> (string \<times> string \<times> string) list \<times> string" where
  "finditer acc s =
     (if s = [] then ([], rev acc)
      else (case match_tmpl s of
        Some (i, p, r) \<Rightarrow> (case finditer [] r of (ms, t) \<Rightarrow> ((rev acc, i, p) # ms, t))
      | None \<Rightarrow> finditer (hd s # acc) (tl s)))"
  by pat_completeness auto
termination
  by (relation "measure (\<lambda>(_, s). length s)") (auto dest: match_tmpl_shorter)

declare finditer.simps [simp del]

definition tmpl_refs :: "string \<Rightarrow> (string \<times> string) list" where
  "tmpl_refs s = map snd (fst (finditer [] s))"

subsection \<open>\<open>_lookup\<close>\<close>

definition path_keys :: "string \<Rightarrow> string list" where
  "path_keys p = filter (\<lambda>k. k \<noteq> []) (split_on (CHR ''.'') p)"

definition ref_invalid :: "string option \<Rightarrow> string \<Rightarrow> exn" where
  "ref_invalid nid full = gcode ''reference invalide : valeur simple'' ''template_ref_invalid''
     [(''node'', PStr (case nid of None \<Rightarrow> [] | Some n \<Rightarrow> n)), (''ref'', PStr full)]"

fun lookup_keys :: "exn \<Rightarrow> string list \<Rightarrow> pyval \<Rightarrow> pyval res" where
  "lookup_keys err [] v = Inr v"
| "lookup_keys err (k # ks) v = (case v of
      PDict d \<Rightarrow> lookup_keys err ks (get0 d k)
    | PList xs \<Rightarrow>
        (if str_isdigit k then
           (case int_of_digits k of None \<Rightarrow> Inl (PyError ''ValueError'')
            | Some i \<Rightarrow> if i < int (length xs) then lookup_keys err ks (xs ! nat i) else Inr PNone)
         else Inr PNone)
    | PNone \<Rightarrow> Inr PNone
    | _ \<Rightarrow> Inl err)"

definition lookup :: "pydict \<Rightarrow> string \<Rightarrow> string \<Rightarrow> string option \<Rightarrow> pyval res" where
  "lookup outs ref path nid = (case dget outs ref of None \<Rightarrow> Inr PNone
     | Some v \<Rightarrow> lookup_keys (ref_invalid nid (ref @ path)) (path_keys path) v)"

subsection \<open>The budget and \<open>render\<close>\<close>

definition render_too_large :: "string option \<Rightarrow> exn" where
  "render_too_large nid = gcode ''gabarit trop grand une fois rendu'' ''render_too_large''
     [(''node'', PStr (case nid of None \<Rightarrow> [] | Some n \<Rightarrow> n)),
      (''max'', PStr (int_str MAX_RENDERED_CHARS))]"

definition spend :: "string option \<Rightarrow> int \<Rightarrow> nat \<Rightarrow> int res" where
  "spend nid left n = (if left - int n < 0 then Inl (render_too_large nid) else Inr (left - int n))"

definition value_size :: "pyval \<Rightarrow> nat" where
  "value_size v = (case v of PStr s \<Rightarrow> length s | PNone \<Rightarrow> 0 | PBool _ \<Rightarrow> 0 | PInt _ \<Rightarrow> 0
     | PFloat _ \<Rightarrow> 0 | _ \<Rightarrow> length (json_dumps v))"

text \<open>One match inside a longer text: the literal before it, then the value as text.\<close>

definition render_piece ::
  "pydict \<Rightarrow> string option \<Rightarrow> string \<times> int \<Rightarrow> string \<times> string \<times> string \<Rightarrow> (string \<times> int) res" where
  "render_piece outs nid st m = (case (st, m) of ((acc, b), (lit, i, p)) \<Rightarrow>
     ebind (spend nid b (length lit)) (\<lambda>b1.
     ebind (lookup outs i p nid) (\<lambda>v.
       if v = PNone then Inr (acc @ lit, b1)
       else ebind (spend nid b1 (length (text_of v))) (\<lambda>b2. Inr (acc @ lit @ text_of v, b2)))))"

definition render_str :: "pydict \<Rightarrow> string option \<Rightarrow> int \<Rightarrow> string \<Rightarrow> (pyval \<times> int) res" where
  "render_str outs nid b s = (case match_tmpl (strip s) of
     Some (i, p, []) \<Rightarrow>
       ebind (lookup outs i p nid) (\<lambda>v.
       ebind (spend nid b (value_size v)) (\<lambda>b'. Inr (v, b')))
   | _ \<Rightarrow> (case finditer [] s of (ms, tail) \<Rightarrow>
       ebind (efold (render_piece outs nid) ([], b) ms) (\<lambda>(acc, b1).
       ebind (spend nid b1 (length tail)) (\<lambda>b2. Inr (PStr (acc @ tail), b2)))))"

fun render_at :: "pydict \<Rightarrow> string option \<Rightarrow> int \<Rightarrow> pyval \<Rightarrow> (pyval \<times> int) res"
  and render_list :: "pydict \<Rightarrow> string option \<Rightarrow> int \<Rightarrow> pyval list \<Rightarrow> (pyval list \<times> int) res"
  and render_items :: "pydict \<Rightarrow> string option \<Rightarrow> int \<Rightarrow> (string \<times> pyval) list \<Rightarrow> (pydict \<times> int) res" where
  "render_at outs nid b (PDict d) = ebind (render_items outs nid b d) (\<lambda>(e, b'). Inr (PDict e, b'))"
| "render_at outs nid b (PList xs) = ebind (render_list outs nid b xs) (\<lambda>(ys, b'). Inr (PList ys, b'))"
| "render_at outs nid b (PStr s) = render_str outs nid b s"
| "render_at outs nid b v = Inr (v, b)"
| "render_list outs nid b [] = Inr ([], b)"
| "render_list outs nid b (x # xs) =
     ebind (render_at outs nid b x) (\<lambda>(y, b1).
     ebind (render_list outs nid b1 xs) (\<lambda>(ys, b2). Inr (y # ys, b2)))"
| "render_items outs nid b [] = Inr ([], b)"
| "render_items outs nid b ((k, x) # d) =
     ebind (render_at outs nid b x) (\<lambda>(y, b1).
     ebind (render_items outs nid b1 d) (\<lambda>(e, b2). Inr ((k, y) # e, b2)))"

definition render :: "pyval \<Rightarrow> pydict \<Rightarrow> string option \<Rightarrow> pyval res" where
  "render tmpl outs nid = map_sum id fst (render_at outs nid MAX_RENDERED_CHARS tmpl)"

subsection \<open>\<open>_refs\<close> and \<open>_ref_paths\<close>\<close>

fun ref_paths :: "pyval \<Rightarrow> (string \<times> string) list"
  and ref_paths_list :: "pyval list \<Rightarrow> (string \<times> string) list"
  and ref_paths_items :: "(string \<times> pyval) list \<Rightarrow> (string \<times> string) list" where
  "ref_paths (PDict d) = ref_paths_items d"
| "ref_paths (PList xs) = ref_paths_list xs"
| "ref_paths (PStr s) = tmpl_refs s"
| "ref_paths _ = []"
| "ref_paths_list [] = []"
| "ref_paths_list (x # xs) = ref_paths x @ ref_paths_list xs"
| "ref_paths_items [] = []"
| "ref_paths_items ((k, x) # d) = ref_paths x @ ref_paths_items d"

fun refs :: "pyval \<Rightarrow> string list"
  and refs_list :: "pyval list \<Rightarrow> string list"
  and refs_items :: "(string \<times> pyval) list \<Rightarrow> string list" where
  "refs (PDict d) = refs_items d"
| "refs (PList xs) = refs_list xs"
| "refs (PStr s) = map fst (tmpl_refs s)"
| "refs _ = []"
| "refs_list [] = []"
| "refs_list (x # xs) = refs x @ refs_list xs"
| "refs_items [] = []"
| "refs_items ((k, x) # d) = refs x @ refs_items d"

lemma refs_ref_paths:
  "refs v = map fst (ref_paths v)"
  "refs_list xs = map fst (ref_paths_list xs)"
  "refs_items d = map fst (ref_paths_items d)"
  by (induction v and xs and d rule: refs_refs_list_refs_items.induct) auto

subsection \<open>Rules\<close>

text \<open>\<open>_num\<close>: an integer too large for a double makes \<open>float\<close> raise \<open>OverflowError\<close>,
  which \<open>except (TypeError, ValueError)\<close> does not catch.\<close>

definition num :: "pyval \<Rightarrow> pyfloat option res" where
  "num v = (case v of
      PInt i \<Rightarrow> (case float_of_int i of None \<Rightarrow> Inl (PyError ''OverflowError'') | Some f \<Rightarrow> Inr (Some f))
    | PFloat f \<Rightarrow> Inr (Some f)
    | PStr s \<Rightarrow> Inr (float_of_str s)
    | _ \<Rightarrow> Inr None)"

definition rule_subject :: "pydict \<Rightarrow> pydict \<Rightarrow> string \<Rightarrow> pyval \<Rightarrow> pyval res" where
  "rule_subject rule scope nid dflt = (let field = get0 rule ''field'' in
     if field = PNone \<or> (case field of PStr s \<Rightarrow> blank s | _ \<Rightarrow> False) then Inr dflt
     else render field scope (Some nid))"

definition num_compare :: "string \<Rightarrow> pyfloat \<Rightarrow> pyfloat \<Rightarrow> bool" where
  "num_compare op a b = (if op = ''gt'' then flt b a else if op = ''gte'' then fle b a
     else if op = ''lt'' then flt a b else fle a b)"

definition evaluate_rule :: "pydict \<Rightarrow> pyval \<Rightarrow> bool res" where
  "evaluate_rule rule v = (let op = get1 rule ''op'' (PStr ''eq''); expected = get0 rule ''value'' in
     if op = PStr ''exists'' then Inr (v \<noteq> PNone)
     else if op = PStr ''eq'' then Inr (py_eq v expected)
     else if op = PStr ''ne'' then Inr (\<not> py_eq v expected)
     else if in_strs op [''gt'', ''gte'', ''lt'', ''lte''] then
       ebind (num v) (\<lambda>a. ebind (num expected) (\<lambda>b.
         case (a, b) of (Some x, Some y) \<Rightarrow> Inr (num_compare (py_str op) x y) | _ \<Rightarrow> Inr False))
     else if op = PStr ''contains'' then
       Inr (v \<noteq> PNone \<and> contains_str (lower (py_str expected)) (lower (py_str v)))
     else if op = PStr ''in'' then
       Inr (case expected of PList xs \<Rightarrow> py_in v xs | _ \<Rightarrow> False)
     else Inl (gerr ''operateur inconnu''))"

definition MAX_REPORTED_ERROR :: nat where
  "MAX_REPORTED_ERROR = 500"

text \<open>\<open>tool_reported_error\<close>: the message an error result carries, \<open>None\<close> for a success.\<close>

definition reported_message :: "pydict \<Rightarrow> string" where
  "reported_message d = (case find (\<lambda>k. \<not> blank_or_not_str (get0 d k)) [''error_message'', ''message'', ''error''] of
     Some k \<Rightarrow> (case get0 d k of PStr s \<Rightarrow> take MAX_REPORTED_ERROR (strip s) | _ \<Rightarrow> [])
   | None \<Rightarrow> ''erreur sans message'')"

definition tool_reported_error :: "pyval \<Rightarrow> string option" where
  "tool_reported_error result = (case result of PDict d \<Rightarrow>
     if get0 d ''status'' \<noteq> PStr ''error'' \<and> get0 d ''success'' \<noteq> PBool False then None
     else Some (reported_message d)
   | _ \<Rightarrow> None)"

subsection \<open>A rendering reads only what it refers to\<close>

lemma lookup_cong: "dget o1 r = dget o2 r \<Longrightarrow> lookup o1 r p n = lookup o2 r p n"
  by (simp add: lookup_def)

lemma efold_pieces_cong:
  assumes "\<forall>m \<in> set ms. dget o1 (fst (snd m)) = dget o2 (fst (snd m))"
  shows "efold (render_piece o1 n) st ms = efold (render_piece o2 n) st ms"
  using assms
proof (induction ms arbitrary: st)
  case (Cons m ms)
  obtain lit i p where m: "m = (lit, i, p)" by (cases m)
  with Cons.prems have "lookup o1 i p n = lookup o2 i p n" by (auto intro: lookup_cong)
  then have "render_piece o1 n st m = render_piece o2 n st m"
    by (simp add: render_piece_def m split: prod.splits)
  with Cons show ?case by (auto simp: ebind_def split: sum.splits)
qed simp

text \<open>A whole match is also the first match of the scan.\<close>

lemma dropWhile_all: "dropWhile P s = [] \<Longrightarrow> x \<in> set s \<Longrightarrow> P x"
  by (simp add: dropWhile_eq_Nil_conv)

lemma match_tmpl_prefix_brace: "match_tmpl s = Some m \<Longrightarrow> starts_with ''{{'' s"
  by (auto simp: match_tmpl_def split: if_splits)

lemma match_tmpl_space: "is_space c \<Longrightarrow> match_tmpl (c # s) = None"
  by (auto simp: match_tmpl_def starts_with_def is_space_def code_def)

lemma starts_with_iff: "starts_with p s \<longleftrightarrow> (\<exists>t. s = p @ t)"
  by (metis append_eq_conv_conj append_take_drop_id starts_with_def)

lemma starts_with_append: "starts_with p s \<Longrightarrow> starts_with p (s @ x)"
  by (auto simp: starts_with_iff)

lemma takeWhile_ext: "dropWhile P t \<noteq> [] \<Longrightarrow> takeWhile P (t @ x) = takeWhile P t"
  by (metis dropWhile_eq_Nil_conv takeWhile_append1)

lemma dropWhile_ext: "dropWhile P t \<noteq> [] \<Longrightarrow> dropWhile P (t @ x) = dropWhile P t @ x"
  by (metis dropWhile_append1 dropWhile_eq_Nil_conv)

lemma take_path_Nil [simp]: "take_path [] = ([], [])"
  by (simp add: take_path.simps)

lemma take_path_ext:
  "take_path s = (p, r) \<Longrightarrow> r \<noteq> [] \<Longrightarrow> hd r \<noteq> CHR ''.'' \<Longrightarrow> take_path (s @ x) = (p, r @ x)"
proof (induction s arbitrary: p r rule: take_path.induct)
  case (1 s)
  show ?case
  proof (cases "s \<noteq> [] \<and> hd s = CHR ''.'' \<and> takeWhile is_id_char (tl s) \<noteq> []")
    case True
    obtain p' r' where t: "take_path (dropWhile is_id_char (tl s)) = (p', r')"
      by (meson surj_pair)
    with True 1(2) have r: "r = r'" "p = CHR ''.'' # takeWhile is_id_char (tl s) @ p'"
      by (auto simp: take_path.simps[of s])
    have ne: "dropWhile is_id_char (tl s) \<noteq> []"
    proof
      assume "dropWhile is_id_char (tl s) = []"
      with t r 1(3) show False by simp
    qed
    have "take_path (dropWhile is_id_char (tl s) @ x) = (p', r' @ x)"
      using 1(1)[OF True t] r 1(3,4) by simp
    with True r ne show ?thesis
      by (simp add: take_path.simps[of "s @ x"] takeWhile_ext dropWhile_ext)
  next
    case False
    with 1(2) have "p = []" "r = s" by (auto simp: take_path.simps[of s])
    with 1(3,4) show ?thesis by (simp add: take_path.simps[of "s @ x"])
  qed
qed

lemma match_tmpl_ext:
  assumes "match_tmpl s = Some (i, p, r)"
  shows "match_tmpl (s @ x) = Some (i, p, r @ x)"
proof -
  define u where "u = dropWhile is_space (drop 2 s)"
  have s: "starts_with ''{{'' s" and u: "u \<noteq> []" "is_alpha (hd u)"
    using assms by (auto simp: match_tmpl_def u_def Let_def split: if_splits)
  obtain w where w: "take_path (dropWhile is_id_char u) = (p, w)"
    "starts_with ''}}'' (dropWhile is_space w)" "r = drop 2 (dropWhile is_space w)"
    "i = takeWhile is_id_char u"
    using assms by (auto simp: match_tmpl_def u_def Let_def split: if_splits prod.splits)
  have wne: "dropWhile is_space w \<noteq> []"
  proof
    assume "dropWhile is_space w = []"
    with w(2) show False by (simp add: starts_with_def)
  qed
  then have w0: "w \<noteq> []" by auto
  have dot: "hd w \<noteq> CHR ''.''"
    using w(2) w0 by (cases w) (auto simp: starts_with_def is_space_def code_def split: if_splits)
  have une: "dropWhile is_id_char u \<noteq> []"
  proof
    assume "dropWhile is_id_char u = []"
    with w(1) w0 show False by simp
  qed
  have l2: "drop 2 (s @ x) = drop 2 s @ x" using s by (auto simp: starts_with_iff)
  have u2: "dropWhile is_space (drop 2 (s @ x)) = u @ x"
    unfolding l2 u_def by (rule dropWhile_ext) (use u u_def in simp)
  have l3: "drop 2 (dropWhile is_space w @ x) = r @ x"
    using w(2,3) by (auto simp: starts_with_iff)
  show ?thesis
    unfolding match_tmpl_def Let_def u2 takeWhile_ext[OF une] dropWhile_ext[OF une]
      take_path_ext[OF w(1) w0 dot] prod.case dropWhile_ext[OF wne] l3
    using starts_with_append[OF s, of x] u starts_with_append[OF w(2), of x] w(4) by simp
qed

lemma finditer_spaces:
  "list_all is_space ws \<Longrightarrow> finditer acc (ws @ s) = finditer (rev ws @ acc) s"
proof (induction ws arbitrary: acc)
  case (Cons c ws)
  then show ?case by (subst finditer.simps) (simp add: match_tmpl_space)
qed simp

lemma strip_split: "\<exists>ws ws'. s = ws @ strip s @ ws' \<and> list_all is_space ws"
proof -
  define l where "l = dropWhile is_space s"
  have "s = takeWhile is_space s @ l" by (simp add: l_def)
  moreover have "l = rev (dropWhile is_space (rev l)) @ rev (takeWhile is_space (rev l))"
    by (metis rev_append rev_rev_ident takeWhile_dropWhile_id)
  moreover have "list_all is_space (takeWhile is_space s)"
    by (auto simp: list_all_iff dest: set_takeWhileD)
  ultimately show ?thesis unfolding strip_def rstrip_by_def lstrip_by_def l_def by metis
qed

lemma whole_match_ref:
  assumes "match_tmpl (strip s) = Some (i, p, r)"
  shows "(i, p) \<in> set (tmpl_refs s)"
proof -
  obtain ws ws' where s: "s = ws @ strip s @ ws'" "list_all is_space ws"
    using strip_split by blast
  have m: "match_tmpl (strip s @ ws') = Some (i, p, r @ ws')"
    by (rule match_tmpl_ext[OF assms])
  then have "strip s @ ws' \<noteq> []" by (auto simp: match_tmpl_def starts_with_def split: if_splits)
  then have "(i, p) \<in> set (map snd (fst (finditer (rev ws) (strip s @ ws'))))"
    by (subst finditer.simps) (simp add: m split: prod.splits)
  then show ?thesis
    by (subst (asm) finditer_spaces[OF s(2), of "[]", symmetric, simplified])
       (simp add: tmpl_refs_def s(1)[symmetric])
qed

lemma render_str_cong:
  assumes "\<forall>r \<in> set (map fst (tmpl_refs s)). dget o1 r = dget o2 r"
  shows "render_str o1 n b s = render_str o2 n b s"
proof -
  have 1: "lookup o1 i p n = lookup o2 i p n" if "match_tmpl (strip s) = Some (i, p, r)" for i p r
    using whole_match_ref[OF that] assms by (force intro!: lookup_cong)
  obtain ms t where ms: "finditer [] s = (ms, t)" by (meson surj_pair)
  have "efold (render_piece o1 n) ([], b) ms = efold (render_piece o2 n) ([], b) ms"
    using assms ms by (intro efold_pieces_cong) (force simp: tmpl_refs_def)
  with 1 ms show ?thesis by (auto simp: render_str_def split: option.splits list.splits prod.splits)
qed

lemma render_at_cong:
  "\<forall>r \<in> set (refs v). dget o1 r = dget o2 r \<Longrightarrow> render_at o1 n b v = render_at o2 n b v"
  "\<forall>r \<in> set (refs_list xs). dget o1 r = dget o2 r \<Longrightarrow> render_list o1 n b xs = render_list o2 n b xs"
  "\<forall>r \<in> set (refs_items d). dget o1 r = dget o2 r \<Longrightarrow> render_items o1 n b d = render_items o2 n b d"
proof (induction o1 n b v and o1 n b xs and o1 n b d rule: render_at_render_list_render_items.induct)
qed (auto intro!: render_str_cong simp: ebind_def split: sum.splits)

subsection \<open>What a rendering produces is what it spends\<close>

lemma spend_Inr: "spend n b k = Inr b' \<longleftrightarrow> b' = b - int k \<and> 0 \<le> b'"
  by (auto simp: spend_def)

lemma render_pieces_spent:
  "efold (render_piece outs n) (acc, b) ms = Inr (acc', b') \<Longrightarrow> 0 \<le> b \<Longrightarrow>
     0 \<le> b' \<and> int (length acc') - int (length acc) = b - b'"
proof (induction ms arbitrary: acc b)
  case (Cons m ms)
  obtain lit i p where m: "m = (lit, i, p)" by (cases m)
  from Cons.prems obtain acc1 b1 where s: "render_piece outs n (acc, b) m = Inr (acc1, b1)"
    "efold (render_piece outs n) (acc1, b1) ms = Inr (acc', b')"
    by (auto simp: ebind_eq_Inr)
  then have "0 \<le> b1 \<and> int (length acc1) - int (length acc) = b - b1"
    by (auto simp: render_piece_def m ebind_eq_Inr spend_Inr split: if_splits)
  with Cons.IH[OF s(2)] show ?case by simp
qed simp

lemma value_size_text: "v = PStr s \<Longrightarrow> value_size v = length s"
  by (simp add: value_size_def)

lemma render_str_spent:
  assumes "render_str outs n b s = Inr (v, b')" "0 \<le> b"
  shows "0 \<le> b' \<and> b - b' = int (value_size v)"
proof (cases "\<exists>i p. match_tmpl (strip s) = Some (i, p, [])")
  case True
  with assms show ?thesis by (auto simp: render_str_def ebind_eq_Inr spend_Inr)
next
  case False
  obtain ms t where ms: "finditer [] s = (ms, t)" by (meson surj_pair)
  have "ebind (efold (render_piece outs n) ([], b) ms) (\<lambda>(acc, b1).
       ebind (spend n b1 (length t)) (\<lambda>b2. Inr (PStr (acc @ t), b2))) = Inr (v, b')"
    using assms(1) False ms by (auto simp: render_str_def split: option.splits list.splits)
  then obtain acc b1 where 1: "efold (render_piece outs n) ([], b) ms = Inr (acc, b1)"
    "v = PStr (acc @ t)" "b' = b1 - int (length t)" "0 \<le> b'"
    by (auto simp: ebind_eq_Inr spend_Inr)
  from render_pieces_spent[OF 1(1) assms(2)] 1(2-) show ?thesis by (simp add: value_size_def)
qed

text \<open>The text that the templates inside a value produced, leaf by leaf.\<close>

fun spent :: "pyval \<Rightarrow> pyval \<Rightarrow> nat"
  and spent_list :: "pyval list \<Rightarrow> pyval list \<Rightarrow> nat"
  and spent_items :: "(string \<times> pyval) list \<Rightarrow> pydict \<Rightarrow> nat" where
  "spent (PDict d) v = (case v of PDict e \<Rightarrow> spent_items d e | _ \<Rightarrow> 0)"
| "spent (PList xs) v = (case v of PList ys \<Rightarrow> spent_list xs ys | _ \<Rightarrow> 0)"
| "spent (PStr s) v = value_size v"
| "spent _ v = 0"
| "spent_list (x # xs) (y # ys) = spent x y + spent_list xs ys"
| "spent_list _ _ = 0"
| "spent_items ((k, x) # d) ((k', y) # e) = spent x y + spent_items d e"
| "spent_items _ _ = 0"

lemma render_at_spent:
  "render_at outs n b v = Inr (w, b') \<Longrightarrow> 0 \<le> b \<Longrightarrow> 0 \<le> b' \<and> b - b' = int (spent v w)"
  "render_list outs n b xs = Inr (ys, b') \<Longrightarrow> 0 \<le> b \<Longrightarrow> 0 \<le> b' \<and> b - b' = int (spent_list xs ys)"
  "render_items outs n b d = Inr (e, b') \<Longrightarrow> 0 \<le> b \<Longrightarrow> 0 \<le> b' \<and> b - b' = int (spent_items d e)"
proof (induction outs n b v and outs n b xs and outs n b d arbitrary: w b' and ys b' and e b'
    rule: render_at_render_list_render_items.induct)
qed (auto simp: ebind_eq_Inr dest: render_str_spent; fastforce)+

subsection \<open>Properties\<close>

text \<open>A rendering reads only the outputs its templates refer to: two stores that agree on them give
  the same result, error included.\<close>

theorem render_depends_on_refs:
  assumes "\<forall>r \<in> set (refs tmpl). dget o1 r = dget o2 r"
  shows "render tmpl o1 nid = render tmpl o2 nid"
  using render_at_cong(1)[OF assms] by (simp add: render_def)

lemma render_depends_on_refs_witness:
  "render (PStr ''{{a.x}} and {{b}}'') [(''a'', PDict [(''x'', PInt 1)]), (''b'', PStr ''q''), (''c'', PNone)] None
   = render (PStr ''{{a.x}} and {{b}}'') [(''b'', PStr ''q''), (''a'', PDict [(''x'', PInt 1)])] None"
proof (rule render_depends_on_refs)
  have "refs (PStr ''{{a.x}} and {{b}}'') = [''a'', ''b'']" by code_simp
  then show "\<forall>r \<in> set (refs (PStr ''{{a.x}} and {{b}}'')).
      dget [(''a'', PDict [(''x'', PInt 1)]), (''b'', PStr ''q''), (''c'', PNone)] r
      = dget [(''b'', PStr ''q''), (''a'', PDict [(''x'', PInt 1)])] r"
    by (simp add: dget_def)
qed

text \<open>The text the templates of a value produce, summed over the whole value, never exceeds the
  rendering bound.\<close>

theorem render_bounded:
  assumes "render tmpl outs nid = Inr v"
  shows "int (spent tmpl v) \<le> MAX_RENDERED_CHARS"
proof -
  from assms obtain b where r: "render_at outs nid MAX_RENDERED_CHARS tmpl = Inr (v, b)"
    by (cases "render_at outs nid MAX_RENDERED_CHARS tmpl") (auto simp: render_def)
  have "0 \<le> MAX_RENDERED_CHARS" by code_simp
  from render_at_spent(1)[OF r this] show ?thesis by simp
qed

lemma render_bounded_witness: "int (spent (PStr ''<{{a}}>'') (PStr ''<xyz>'')) \<le> MAX_RENDERED_CHARS"
proof (rule render_bounded)
  show "render (PStr ''<{{a}}>'') [(''a'', PStr ''xyz'')] None = Inr (PStr ''<xyz>'')" by code_simp
qed

end
