(* ===== verification/Wf_Cron.thy ===== *)
theory Wf_Cron
  imports Wf_Template
begin

section \<open>Cron schedules (\<open>core/workflow_graph.py\<close>, \<open>core/workflow_triggers.py\<close>)\<close>

text \<open>
  \<open>parse_cron\<close> turns the five fields into sets of values, \<open>check_cron_min_interval\<close>
  refuses a schedule that can fire twice within five minutes, \<open>next_cron\<close> is the
  minute-by-minute search of \<open>compute_next_run\<close>.  A local wall-clock minute is its number
  since 1970-01-01 00:00; \<open>civil\<close> reads the date off it.
\<close>

definition invalid_cron :: "string \<Rightarrow> pydict \<Rightarrow> exn" where
  "invalid_cron m ps = gcode m ''invalid_cron'' ps"

definition cron_field_bounds :: "(string \<times> int \<times> int) list" where
  "cron_field_bounds = [(''minute'', 0, 59), (''hour'', 0, 23), (''day'', 1, 31),
     (''month'', 1, 12), (''weekday'', 0, 7)]"

definition MIN_CRON_INTERVAL_MINUTES :: int where
  "MIN_CRON_INTERVAL_MINUTES = 5"

subsection \<open>\<open>_parse_cron_field\<close>\<close>

text \<open>\<open>range(a, b + 1, step)\<close> for a positive step.\<close>

definition range_step :: "int \<Rightarrow> int \<Rightarrow> int \<Rightarrow> int list" where
  "range_step a b st = (if b < a then [] else map (\<lambda>k. a + int k * st) [0..<nat ((b - a) div st) + 1])"

definition cron_step :: "string \<Rightarrow> (string \<times> int) option" where
  "cron_step part = (if CHR ''/'' \<in> set part then
     (case split_once (CHR ''/'') part of (rng, st) \<Rightarrow>
        if \<not> str_isdigit st then None
        else (case int_of_digits st of None \<Rightarrow> None
          | Some n \<Rightarrow> if n < 1 then None else Some (rng, n)))
   else Some (part, 1))"

definition cron_range :: "int \<Rightarrow> int \<Rightarrow> string \<Rightarrow> (int \<times> int) option" where
  "cron_range lo hi rng = (if rng = ''*'' then Some (lo, hi)
     else if CHR ''-'' \<in> set rng then
       (case split_once (CHR ''-'') rng of (a, b) \<Rightarrow>
          if \<not> (str_isdigit a \<and> str_isdigit b) then None
          else (case (int_of_digits a, int_of_digits b) of (Some x, Some y) \<Rightarrow> Some (x, y) | _ \<Rightarrow> None))
     else if str_isdigit rng then map_option (\<lambda>x. (x, x)) (int_of_digits rng)
     else None)"

definition cron_part :: "int \<Rightarrow> int \<Rightarrow> string \<Rightarrow> int list option" where
  "cron_part lo hi part = (case cron_step part of None \<Rightarrow> None
     | Some (rng, st) \<Rightarrow> (case cron_range lo hi rng of None \<Rightarrow> None
       | Some (a, b) \<Rightarrow>
           if \<not> (lo \<le> a \<and> a \<le> hi \<and> lo \<le> b \<and> b \<le> hi \<and> a \<le> b) then None
           else Some (range_step a b st)))"

definition parse_cron_field :: "string \<Rightarrow> int \<Rightarrow> int \<Rightarrow> int list option" where
  "parse_cron_field grp lo hi =
     map_option (\<lambda>xss. dedup (concat xss)) (omap (cron_part lo hi) (split_on (CHR '','') grp))"

record cron =
  c_minute :: "int list"
  c_hour :: "int list"
  c_day :: "int list"
  c_month :: "int list"
  c_weekday :: "int list"

definition cron_field :: "(string \<times> int \<times> int) \<times> string \<Rightarrow> int list res" where
  "cron_field f = (case f of ((name, lo, hi), part) \<Rightarrow>
     of_opt (invalid_cron ''cron invalide (champ)'' [(''field'', PStr name)]) (parse_cron_field part lo hi))"

text \<open>Sunday is 0 and 7: 7 is discarded and 0 added.\<close>

definition fold_sunday :: "int list \<Rightarrow> int list" where
  "fold_sunday ws = (if 7 \<in> set ws then dedup (filter (\<lambda>d. d \<noteq> 7) ws @ [0]) else ws)"

definition parse_cron :: "string \<Rightarrow> cron res" where
  "parse_cron text = (let parts = words text in
     if length parts \<noteq> 5 then Inl (invalid_cron ''cron invalide (5 champs attendus)'' [])
     else ebind (emap cron_field (zip cron_field_bounds parts)) (\<lambda>vs.
       Inr \<lparr>c_minute = vs ! 0, c_hour = vs ! 1, c_day = vs ! 2, c_month = vs ! 3,
            c_weekday = fold_sunday (vs ! 4)\<rparr>))"

subsection \<open>\<open>_check_cron_min_interval\<close>\<close>

definition gaps :: "int list \<Rightarrow> int list" where
  "gaps ms = map (\<lambda>(a, b). b - a) (zip ms (tl ms))"

definition all_gaps :: "cron \<Rightarrow> int list" where
  "all_gaps f = (let ms = sort (c_minute f) in
     gaps ms @ (if length (c_hour f) > 1 then [60 - last ms + hd ms] else []))"

definition check_cron_min_interval :: "string \<Rightarrow> unit res" where
  "check_cron_min_interval text = ebind (parse_cron text) (\<lambda>f.
     if c_minute f = [] then Inl (invalid_cron ''cron invalide : aucune minute ne correspond'' [])
     else raise_if (list_ex (\<lambda>g. g < MIN_CRON_INTERVAL_MINUTES) (all_gaps f))
       (gcode ''cron trop frequent'' ''cron_too_frequent'' []))"

subsection \<open>\<open>compute_next_run\<close>: the cron branch\<close>

definition minute_of :: "int \<Rightarrow> int" where "minute_of c = c mod 60"
definition hour_of :: "int \<Rightarrow> int" where "hour_of c = c div 60 mod 24"
definition weekday_of :: "int \<Rightarrow> int" where "weekday_of c = (c div 1440 + 4) mod 7"

text \<open>The proleptic Gregorian (month, day) of a day number.\<close>

definition civil :: "int \<Rightarrow> int \<times> int" where
  "civil dn = (let z = dn + 719468; doe = z mod 146097;
       yoe = (doe - doe div 1460 + doe div 36524 - doe div 146096) div 365;
       doy = doe - (365 * yoe + yoe div 4 - yoe div 100);
       mp = (5 * doy + 2) div 153
     in (if mp < 10 then mp + 3 else mp - 9, doy - (153 * mp + 2) div 5 + 1))"

definition month_of :: "int \<Rightarrow> int" where "month_of c = fst (civil (c div 1440))"
definition day_of :: "int \<Rightarrow> int" where "day_of c = snd (civil (c div 1440))"

definition day_ok :: "cron \<Rightarrow> int \<Rightarrow> bool" where
  "day_ok f c = (let dom = length (c_day f) < 31; dow = length (c_weekday f) < 7 in
     if dom \<and> dow then day_of c \<in> set (c_day f) \<or> weekday_of c \<in> set (c_weekday f)
     else if dom then day_of c \<in> set (c_day f)
     else if dow then weekday_of c \<in> set (c_weekday f)
     else True)"

definition cron_fires :: "cron \<Rightarrow> int \<Rightarrow> bool" where
  "cron_fires f c = (day_ok f c \<and> minute_of c \<in> set (c_minute f) \<and> hour_of c \<in> set (c_hour f)
     \<and> month_of c \<in> set (c_month f))"

function cron_search :: "cron \<Rightarrow> int \<Rightarrow> int \<Rightarrow> int option" where
  "cron_search f c limit =
     (if c \<le> limit then (if cron_fires f c then Some c else cron_search f (c + 1) limit) else None)"
  by pat_completeness auto
termination
  by (relation "measure (\<lambda>(f, c, limit). nat (limit - c + 1))") auto

declare cron_search.simps [simp del]

text \<open>\<open>after\<close> is the local minute that contains the instant; 370 days is the cap.\<close>

definition next_cron :: "cron \<Rightarrow> int \<Rightarrow> int option" where
  "next_cron f after = cron_search f (after + 1) (after + 1 + 370 * 1440)"

subsection \<open>A parsed field holds values within its bounds, and at least one\<close>

lemma range_step_bounds: "0 < st \<Longrightarrow> x \<in> set (range_step a b st) \<Longrightarrow> a \<le> x \<and> x \<le> b"
proof -
  assume st: "0 < st" and "x \<in> set (range_step a b st)"
  then obtain k where k: "x = a + int k * st" "k < nat ((b - a) div st) + 1" "a \<le> b"
    by (auto simp: range_step_def image_iff simp del: upt_Suc split: if_splits)
  moreover have "0 \<le> (b - a) div st" using k(3) st by (simp add: pos_imp_zdiv_nonneg_iff)
  ultimately have "int k \<le> (b - a) div st" by linarith
  then have "int k * st \<le> (b - a) div st * st" using st by simp
  also have "\<dots> \<le> b - a" using st by (simp add: minus_mod_eq_div_mult[symmetric])
  finally show ?thesis using k st by simp
qed

lemma range_step_hd: "a \<le> b \<Longrightarrow> a \<in> set (range_step a b st)"
  by (auto simp: range_step_def image_iff intro!: bexI[of _ 0])

lemma cron_step_pos: "cron_step p = Some (r, st) \<Longrightarrow> 0 < st"
  by (auto simp: cron_step_def split: if_splits option.splits prod.splits)

lemma cron_part_bounds:
  assumes "cron_part lo hi p = Some xs"
  shows "xs \<noteq> [] \<and> (\<forall>x \<in> set xs. lo \<le> x \<and> x \<le> hi)"
proof -
  obtain r st a b where 1: "cron_step p = Some (r, st)" "xs = range_step a b st"
    "lo \<le> a" "a \<le> b" "b \<le> hi"
    using assms by (auto simp: cron_part_def split: option.splits prod.splits if_splits)
  have "xs \<noteq> []" using range_step_hd[OF 1(4), of st] 1(2) by auto
  with 1 range_step_bounds[OF cron_step_pos[OF 1(1)]] show ?thesis by fastforce
qed

lemma parse_cron_field_bounds:
  assumes "parse_cron_field s lo hi = Some xs"
  shows "xs \<noteq> [] \<and> distinct xs \<and> (\<forall>x \<in> set xs. lo \<le> x \<and> x \<le> hi)"
proof -
  obtain xss where xss: "omap (cron_part lo hi) (split_on (CHR '','') s) = Some xss" "xs = dedup (concat xss)"
    using assms by (auto simp: parse_cron_field_def)
  then have all: "list_all2 (\<lambda>x y. cron_part lo hi x = Some y) (split_on (CHR '','') s) xss"
    by (simp add: omap_eq_Some)
  then have each: "\<And>ys. ys \<in> set xss \<Longrightarrow> ys \<noteq> [] \<and> (\<forall>x \<in> set ys. lo \<le> x \<and> x \<le> hi)"
    by (meson list_all2_ex cron_part_bounds)
  have "xss \<noteq> []" using all by auto
  then have "concat xss \<noteq> []" using each by (cases xss) auto
  moreover have "\<forall>x \<in> set xs. lo \<le> x \<and> x \<le> hi" using each xss(2) by fastforce
  ultimately show ?thesis using xss(2) by simp
qed

definition val_in :: "int \<Rightarrow> int \<Rightarrow> int list \<Rightarrow> bool" where
  "val_in lo hi xs = (xs \<noteq> [] \<and> distinct xs \<and> list_all (\<lambda>x. lo \<le> x \<and> x \<le> hi) xs)"

definition cron_wf :: "cron \<Rightarrow> bool" where
  "cron_wf f = (val_in 0 59 (c_minute f) \<and> val_in 0 23 (c_hour f) \<and> val_in 1 31 (c_day f)
     \<and> val_in 1 12 (c_month f) \<and> val_in 0 6 (c_weekday f))"

lemma fold_sunday_val_in: "val_in 0 7 xs \<Longrightarrow> val_in 0 6 (fold_sunday xs)"
proof -
  assume "val_in 0 7 xs"
  then have w: "distinct xs" "xs \<noteq> []" "\<And>x. x \<in> set xs \<Longrightarrow> 0 \<le> x \<and> x \<le> 7"
    by (auto simp: val_in_def list_all_iff)
  have small: "\<And>x. x \<in> set xs \<Longrightarrow> x \<noteq> 7 \<Longrightarrow> 0 \<le> x \<and> x \<le> 6" using w(3) by fastforce
  let ?d = "dedup (filter (\<lambda>d. d \<noteq> 7) xs @ [0])"
  have "?d \<noteq> []" by simp
  moreover have "\<forall>x \<in> set ?d. 0 \<le> x \<and> x \<le> 6" using small by auto
  ultimately have "val_in 0 6 ?d" by (simp add: val_in_def list_all_iff del: set_dedup)
  moreover have "val_in 0 6 xs" if "7 \<notin> set xs"
    using that w small by (auto simp: val_in_def list_all_iff)
  ultimately show ?thesis by (simp add: fold_sunday_def)
qed

lemma parse_cron_wf:
  assumes "parse_cron s = Inr f"
  shows "cron_wf f"
proof -
  obtain vs where vs: "emap cron_field (zip cron_field_bounds (words s)) = Inr vs" "length (words s) = 5"
    and f: "f = \<lparr>c_minute = vs ! 0, c_hour = vs ! 1, c_day = vs ! 2, c_month = vs ! 3,
            c_weekday = fold_sunday (vs ! 4)\<rparr>"
    using assms by (auto simp: parse_cron_def Let_def ebind_eq_Inr split: if_splits)
  have len: "length cron_field_bounds = 5" by (simp add: cron_field_bounds_def)
  have "val_in (fst (snd (cron_field_bounds ! i))) (snd (snd (cron_field_bounds ! i))) (vs ! i)"
    if "i < 5" for i
  proof -
    have "cron_field (cron_field_bounds ! i, words s ! i) = Inr (vs ! i)"
      using emap_nth[OF vs(1), of i] vs(2) len that by simp
    then show ?thesis
      by (auto simp: cron_field_def val_in_def list_all_iff dest!: parse_cron_field_bounds split: prod.splits)
  qed
  from this[of 0] this[of 1] this[of 2] this[of 3] this[of 4] show ?thesis
    by (simp add: f cron_wf_def cron_field_bounds_def fold_sunday_val_in)
qed

subsection \<open>The minimal interval\<close>

lemma gaps_sorted_distance:
  assumes "sorted ms" "distinct ms" "\<forall>g \<in> set (gaps ms). d \<le> g" "x \<in> set ms" "y \<in> set ms" "x < y"
  shows "d \<le> y - (x::int)"
  using assms
proof (induction ms)
  case (Cons m ms)
  show ?case
  proof (cases "x = m")
    case True
    with Cons.prems have y: "y \<in> set ms" by auto
    then obtain k ks where ms: "ms = k # ks" by (cases ms) auto
    have "d \<le> k - m" using Cons.prems(3) by (simp add: gaps_def ms)
    moreover have "k \<le> y" using Cons.prems(1) y by (auto simp: ms)
    ultimately show ?thesis using True by simp
  next
    case False
    with Cons.prems have "x \<in> set ms" "y \<in> set ms" by auto
    moreover have "\<forall>g \<in> set (gaps ms). d \<le> g"
      using Cons.prems(3) by (cases ms) (auto simp: gaps_def)
    ultimately show ?thesis using Cons by auto
  qed
qed simp

text \<open>The schedule fires at a minute number only if its minute and its hour are listed.\<close>

lemma cron_fires_mh: "cron_fires f c \<Longrightarrow> c mod 60 \<in> set (c_minute f) \<and> c div 60 mod 24 \<in> set (c_hour f)"
  by (simp add: cron_fires_def minute_of_def hour_of_def)

lemma min_interval:
  assumes wf: "cron_wf f" and g: "\<forall>g \<in> set (all_gaps f). d \<le> g" and d: "d \<le> 60"
    and c: "cron_fires f c" "cron_fires f c'" "c < c'"
  shows "d \<le> c' - c"
proof -
  define q q' m m' where "q = c div 60" and "q' = c' div 60" and "m = c mod 60" and "m' = c' mod 60"
  note defs = q_def q'_def m_def m'_def
  have m: "m \<in> set (c_minute f)" "m' \<in> set (c_minute f)"
    and h: "q mod 24 \<in> set (c_hour f)" "q' mod 24 \<in> set (c_hour f)"
    using c cron_fires_mh unfolding defs by auto
  have dist: "distinct (c_minute f)" "c_minute f \<noteq> []"
    using wf by (auto simp: cron_wf_def val_in_def)
  have gm: "\<forall>g \<in> set (gaps (sort (c_minute f))). d \<le> g"
    using g by (auto simp: all_gaps_def Let_def)
  have bounds: "0 \<le> m" "m < 60" "0 \<le> m'" "m' < 60" unfolding defs by simp_all
  have eq: "c = 60 * q + m" "c' = 60 * q' + m'" unfolding defs by simp_all
  have "q \<le> q'" unfolding defs using zdiv_mono1[of c c' 60] c(3) by simp
  then consider "q = q'" | "q + 2 \<le> q'" | "q' = q + 1" by linarith
  then show ?thesis
  proof cases
    case 1
    with eq c(3) have "m < m'" by linarith
    then have "d \<le> m' - m"
      using gaps_sorted_distance[OF _ _ gm] m dist by auto
    with 1 eq show ?thesis by linarith
  next
    case 2
    with eq bounds d show ?thesis by linarith
  next
    case 3
    have "x mod 24 \<noteq> (x + 1) mod 24" for x :: int by (simp add: mod_eq_dvd_iff)
    then have "q mod 24 \<noteq> q' mod 24" using 3 by simp
    then have "length (c_hour f) > 1"
      using two_members_length[OF h] by blast
    then have gap: "d \<le> 60 - last (sort (c_minute f)) + hd (sort (c_minute f))"
      using g by (simp add: all_gaps_def Let_def)
    have "m \<le> last (sort (c_minute f))" "hd (sort (c_minute f)) \<le> m'"
      using m by (auto intro: sorted_le_last sorted_hd_le)
    then show ?thesis using gap eq 3 by linarith
  qed
qed

subsection \<open>The search returns the first firing minute\<close>

lemma cron_search_Some:
  "cron_search f c limit = Some t \<Longrightarrow>
     c \<le> t \<and> t \<le> limit \<and> cron_fires f t \<and> (\<forall>u. c \<le> u \<and> u < t \<longrightarrow> \<not> cron_fires f u)"
proof (induction f c limit rule: cron_search.induct)
  case (1 f c limit)
  show ?case
  proof (cases "c \<le> limit \<and> \<not> cron_fires f c")
    case True
    with 1 have "c + 1 \<le> t \<and> t \<le> limit \<and> cron_fires f t \<and> (\<forall>u. c + 1 \<le> u \<and> u < t \<longrightarrow> \<not> cron_fires f u)"
      by (simp add: cron_search.simps[of f c])
    with True show ?thesis by (metis add1_zle_eq order_le_less)
  next
    case False
    with "1.prems" show ?thesis by (auto simp: cron_search.simps[of f c] split: if_splits)
  qed
qed

lemma cron_search_None:
  "cron_search f c limit = None \<Longrightarrow> c \<le> u \<Longrightarrow> u \<le> limit \<Longrightarrow> \<not> cron_fires f u"
proof (induction f c limit rule: cron_search.induct)
  case (1 f c limit)
  from "1.prems" have "\<not> cron_fires f c" "cron_search f (c + 1) limit = None"
    by (auto simp: cron_search.simps[of f c] split: if_splits)
  with 1 show ?case by (cases "u = c") auto
qed

subsection \<open>Properties\<close>

text \<open>A cron expression that passes the frequency check parses into fields within their bounds, and
  two minutes it fires at are at least five minutes apart, across hours and days.\<close>

theorem accepted_cron_interval:
  assumes "check_cron_min_interval s = Inr ()"
  shows "\<exists>f. parse_cron s = Inr f \<and> cron_wf f
    \<and> (\<forall>c c'. cron_fires f c \<and> cron_fires f c' \<and> c < c' \<longrightarrow> 5 \<le> c' - c)"
proof -
  from assms obtain f where f: "parse_cron s = Inr f"
    and g: "\<not> list_ex (\<lambda>g. g < MIN_CRON_INTERVAL_MINUTES) (all_gaps f)"
    by (auto simp: check_cron_min_interval_def ebind_eq_Inr split: if_splits)
  have "\<forall>g \<in> set (all_gaps f). 5 \<le> g"
    using g by (force simp: list_ex_iff MIN_CRON_INTERVAL_MINUTES_def)
  from min_interval[OF parse_cron_wf[OF f] this] f parse_cron_wf[OF f] show ?thesis by auto
qed

lemma accepted_cron_interval_witness: "\<exists>f. parse_cron ''*/15 8-18 * * 1-5'' = Inr f \<and> cron_wf f"
proof -
  have "check_cron_min_interval ''*/15 8-18 * * 1-5'' = Inr ()" by code_simp
  from accepted_cron_interval[OF this] show ?thesis by blast
qed

text \<open>The next run of a schedule is the first minute after the given one that the schedule fires at,
  and no answer means that it fires at none of the next 370 days.\<close>

theorem next_cron_is_first:
  "case next_cron f after of
     Some t \<Rightarrow> after < t \<and> cron_fires f t \<and> (\<forall>u. after < u \<and> u < t \<longrightarrow> \<not> cron_fires f u)
   | None \<Rightarrow> \<forall>u. after < u \<and> u \<le> after + 1 + 370 * 1440 \<longrightarrow> \<not> cron_fires f u"
proof (cases "next_cron f after")
  case None
  then show ?thesis using cron_search_None[of f "after + 1" "after + 1 + 370 * 1440"] by (auto simp: next_cron_def)
next
  case (Some t)
  then show ?thesis using cron_search_Some[of f "after + 1" "after + 1 + 370 * 1440" t] by (auto simp: next_cron_def)
qed

definition example_cron :: cron where
  "example_cron = \<lparr>c_minute = [0], c_hour = [8], c_day = range_step 1 31 1, c_month = range_step 1 12 1, c_weekday = [1]\<rparr>"

lemma next_cron_is_first_witness: "\<not> cron_fires example_cron 5760 \<and> cron_fires example_cron 6240"
proof -
  have "next_cron example_cron 5750 = Some 6240" by code_simp
  with next_cron_is_first[where f = example_cron and after = 5750] show ?thesis by simp
qed

end
