(* ===== verification/Wf_Dag.thy ===== *)
theory Wf_Dag
  imports Wf_Graph
begin

section \<open>Graph traversals (\<open>core/workflow_graph.py\<close>)\<close>

text \<open>
  The depth-first search \<open>_visit\<close> of \<open>validate_graph\<close>, the \<open>ancestors\<close> it
  computes along the resulting order and the worklist of \<open>upstream_of\<close>.  \<open>_visit\<close>
  recurses once per node of a path, so its fuel is the number of nodes plus one;
  \<open>visit_all_enough\<close> shows that running out (\<open>RecursionError\<close>) cannot happen.  The
  lemmas show that the search succeeds exactly on acyclic graphs, that its order puts every
  parent first and that both closures are the transitive closure of the edges.
\<close>

type_synonym dfs_state = "(string \<times> int) list \<times> string list"

definition cycle_error :: "string \<Rightarrow> exn" where
  "cycle_error i = gerr (''cycle detecte autour de '' @ i)"

subsection \<open>\<open>_visit\<close>\<close>

fun visit :: "nat \<Rightarrow> (string \<Rightarrow> string list) \<Rightarrow> string \<Rightarrow> dfs_state \<Rightarrow> dfs_state res" where
  "visit 0 ps i s = Inl (PyError ''RecursionError'')"
| "visit (Suc fuel) ps i (st, ord) =
     (if dget st i = Some 1 then Inl (cycle_error i)
      else if dget st i = Some 2 then Inr (st, ord)
      else ebind (efold (\<lambda>s p. visit fuel ps p s) (dset st i 1, ord) (ps i))
        (\<lambda>(st', ord'). Inr (dset st' i 2, ord' @ [i])))"

definition visit_all :: "(string \<Rightarrow> string list) \<Rightarrow> string list \<Rightarrow> dfs_state res" where
  "visit_all ps ids = efold (\<lambda>s i. visit (Suc (length ids)) ps i s) ([], []) ids"

subsection \<open>\<open>ancestors\<close>\<close>

definition ancestors_step ::
  "(string \<Rightarrow> string list) \<Rightarrow> (string \<times> string list) list \<Rightarrow> string \<Rightarrow> (string \<times> string list) list res" where
  "ancestors_step ps m i =
     ebind (emap (\<lambda>p. map_sum id ((#) p) (of_opt (PyError ''KeyError'') (dget m p))) (ps i))
       (\<lambda>xs. Inr (dset m i (dedup (concat xs))))"

definition ancestors :: "(string \<Rightarrow> string list) \<Rightarrow> string list \<Rightarrow> (string \<times> string list) list res" where
  "ancestors ps ord = efold (ancestors_step ps) [] ord"

subsection \<open>\<open>upstream_of\<close>\<close>

text \<open>
  \<open>stack\<close> has its top first.  \<open>new\<close> is what the inner loop adds to \<open>seen\<close> and pushes,
  in order, so the last one is popped next.
\<close>

function upstream_loop :: "wgraph \<Rightarrow> string list \<Rightarrow> string list \<Rightarrow> string list" where
  "upstream_loop g seen [] = seen"
| "upstream_loop g seen (x # stack) =
     (let new = filter (\<lambda>p. p \<notin> set seen) (parents_of g x)
      in upstream_loop g (seen @ new) (rev new @ stack))"
  by pat_completeness auto
termination
proof (relation "measures [\<lambda>(g, seen, stack). card (set (edge_sources g) - set seen),
    \<lambda>(g, seen, stack). length stack]", goal_cases)
  case 1
  show ?case by simp
next
  case (2 g seen x stack new)
  show ?case
  proof (cases "new = []")
    case True
    with 2 show ?thesis by simp
  next
    case False
    then obtain p where p: "p \<in> set new" by (cases new) auto
    with 2 have "p \<in> set (edge_sources g) - set seen"
      by (auto simp: parents_of_def edge_sources_def)
    with p have "set (edge_sources g) - set (seen @ new) \<subset> set (edge_sources g) - set seen" by auto
    then show ?thesis by (simp add: psubset_card_mono)
  qed
qed

definition upstream_of :: "wgraph \<Rightarrow> string \<Rightarrow> string list" where
  "upstream_of g i = upstream_loop g [i] [i]"

text \<open>\<open>_until_subgraph\<close>: the graph cut down to a node and what is upstream of it.\<close>

definition until_subgraph :: "wgraph \<Rightarrow> string \<Rightarrow> wgraph" where
  "until_subgraph g until = (let keep = upstream_of g until in
     g\<lparr>g_nodes := filter (\<lambda>n. n_id n \<in> set keep) (g_nodes g),
       g_edges := filter (\<lambda>e. e_source e \<in> set keep \<and> e_target e \<in> set keep) (g_edges g)\<rparr>)"

subsection \<open>The order of a successful search\<close>

definition parent_rel :: "(string \<Rightarrow> string list) \<Rightarrow> (string \<times> string) set" where
  "parent_rel ps = {(p, i). p \<in> set (ps i)}"

definition topo :: "(string \<Rightarrow> string list) \<Rightarrow> string list \<Rightarrow> bool" where
  "topo ps ord = (\<forall>xs i ys. ord = xs @ i # ys \<longrightarrow> set (ps i) \<subseteq> set xs)"

definition black :: "(string \<times> int) list \<Rightarrow> string set" where
  "black st = {i. dget st i = Some 2}"

definition grey :: "(string \<times> int) list \<Rightarrow> string set" where
  "grey st = {i. dget st i = Some 1}"

definition dfs_inv :: "(string \<Rightarrow> string list) \<Rightarrow> dfs_state \<Rightarrow> bool" where
  "dfs_inv ps s = (case s of (st, ord) \<Rightarrow> set ord = black st \<and> distinct ord \<and> topo ps ord)"

lemma topoD: "topo ps ord \<Longrightarrow> ord = xs @ i # ys \<Longrightarrow> set (ps i) \<subseteq> set xs"
  unfolding topo_def by blast

lemma topo_snoc:
  assumes "topo ps ord" "set (ps i) \<subseteq> set ord"
  shows "topo ps (ord @ [i])"
  unfolding topo_def
proof (intro allI impI)
  fix xs j ys
  assume e: "ord @ [i] = xs @ j # ys"
  show "set (ps j) \<subseteq> set xs"
  proof (cases ys rule: rev_cases)
    case Nil
    with e assms(2) show ?thesis by simp
  next
    case (snoc zs z)
    with e have "ord = xs @ j # zs" by simp
    with assms(1) show ?thesis by (rule topoD)
  qed
qed

text \<open>What one visit, and a run of visits, leaves behind.\<close>

definition visited :: "(string \<Rightarrow> string list) \<Rightarrow> string list \<Rightarrow> dfs_state \<Rightarrow> dfs_state \<Rightarrow> bool" where
  "visited ps is s s' = (dfs_inv ps s' \<and> grey (fst s') = grey (fst s)
     \<and> set (snd s) \<union> set is \<subseteq> set (snd s')
     \<and> (\<forall>x \<in> set (snd s'). x \<in> set (snd s) \<or> (\<exists>i \<in> set is. (x, i) \<in> (parent_rel ps)\<^sup>*)))"

lemma visited_efold:
  assumes step: "\<And>s s' i. i \<in> set is \<Longrightarrow> f s i = Inr s' \<Longrightarrow> dfs_inv ps s \<Longrightarrow> visited ps [i] s s'"
    and run: "efold f s is = Inr s'" and inv: "dfs_inv ps s"
  shows "visited ps is s s'"
  using assms
proof (induction "is" arbitrary: s)
  case Nil
  then show ?case by (auto simp: visited_def)
next
  case (Cons i "is")
  then obtain s1 where s1: "f s i = Inr s1" "efold f s1 is = Inr s'" by (auto simp: ebind_eq_Inr)
  have v: "visited ps [i] s s1" using Cons.prems(1)[OF _ s1(1) Cons.prems(3)] by simp
  then have "dfs_inv ps s1" by (simp add: visited_def)
  from Cons.IH[OF Cons.prems(1) s1(2) this] have "visited ps is s1 s'" by simp
  with v show ?case unfolding visited_def by (simp; blast)
qed

lemma visit_visited:
  "visit fuel ps i s = Inr s' \<Longrightarrow> dfs_inv ps s \<Longrightarrow> visited ps [i] s s'"
proof (induction fuel arbitrary: i s s')
  case (Suc fuel)
  obtain st ord where s: "s = (st, ord)" by (cases s)
  show ?case
  proof (cases "dget st i = Some 2")
    case True
    with Suc.prems s show ?thesis by (auto simp: visited_def dfs_inv_def black_def)
  next
    case False
    with Suc.prems s obtain st' ord' where new: "dget st i \<noteq> Some 1"
      and run: "efold (\<lambda>s p. visit fuel ps p s) (dset st i 1, ord) (ps i) = Inr (st', ord')"
      and s': "s' = (dset st' i 2, ord' @ [i])"
      by (auto simp: ebind_eq_Inr split: if_splits)
    have "black (dset st i 1) = black st" using False by (auto simp: black_def)
    then have "dfs_inv ps (dset st i 1, ord)" using Suc.prems(2) s by (simp add: dfs_inv_def)
    from visited_efold[OF _ run this] Suc.IH
    have v: "visited ps (ps i) (dset st i 1, ord) (st', ord')" by blast
    then have inv: "set ord' = black st'" "distinct ord'" "topo ps ord'" "set (ps i) \<subseteq> set ord'"
      "grey st' = grey (dset st i 1)" by (auto simp: visited_def dfs_inv_def)
    then have "i \<in> grey st'" by (simp add: grey_def)
    then have "i \<notin> set ord'" using inv(1) by (auto simp: grey_def black_def)
    moreover have "black (dset st' i 2) = insert i (black st')" by (auto simp: black_def)
    moreover have "grey (dset st' i 2) = grey st" using inv(5) new by (auto simp: grey_def split: if_splits)
    moreover have "(x, i) \<in> (parent_rel ps)\<^sup>*" if "x \<in> set ord'" "x \<notin> set ord" for x
    proof -
      from v that obtain p where "p \<in> set (ps i)" "(x, p) \<in> (parent_rel ps)\<^sup>*" by (auto simp: visited_def)
      then show ?thesis by (auto simp: parent_rel_def intro: rtrancl_into_rtrancl)
    qed
    moreover have "set ord \<subseteq> set ord'" using v by (simp add: visited_def)
    moreover note topo_snoc[OF inv(3,4)] inv(1,2)
    ultimately show ?thesis unfolding s s' visited_def dfs_inv_def by (simp; blast)
  qed
qed simp

lemma visits_visited:
  "efold (\<lambda>s i. visit fuel ps i s) s is = Inr s' \<Longrightarrow> dfs_inv ps s \<Longrightarrow> visited ps is s s'"
  by (rule visited_efold[where f = "\<lambda>s i. visit fuel ps i s"]) (auto intro: visit_visited)

lemma visit_all_Inr:
  assumes "visit_all ps ids = Inr (st, ord)"
  shows "distinct ord \<and> topo ps ord \<and> set ids \<subseteq> set ord"
proof -
  have "dfs_inv ps ([], [])" by (simp add: dfs_inv_def black_def topo_def)
  with assms have "visited ps ids ([], []) (st, ord)"
    unfolding visit_all_def by (intro visits_visited)
  then show ?thesis by (auto simp: visited_def dfs_inv_def)
qed

lemma topo_before:
  assumes "topo ps ord" "(p, i) \<in> (parent_rel ps)\<^sup>+" "ord = xs @ i # ys"
  shows "p \<in> set xs"
  using assms(2,3)
proof (induction arbitrary: xs ys rule: trancl_induct)
  case (base i)
  then show ?case using topoD[OF assms(1) base.prems] by (auto simp: parent_rel_def)
next
  case (step j i)
  have "j \<in> set xs" using topoD[OF assms(1) step.prems] step.hyps(2) by (auto simp: parent_rel_def)
  then obtain us vs where xs: "xs = us @ j # vs" by (meson split_list)
  have "p \<in> set us" by (rule step.IH) (simp add: xs step.prems)
  then show ?case by (simp add: xs)
qed

lemma topo_acyclic:
  assumes "topo ps ord" "distinct ord" "\<And>i. ps i \<noteq> [] \<Longrightarrow> i \<in> set ord"
  shows "acyclic (parent_rel ps)"
proof (rule acyclicI, rule allI, rule notI)
  fix i assume c: "(i, i) \<in> (parent_rel ps)\<^sup>+"
  then obtain j where "(j, i) \<in> parent_rel ps" by (blast elim: tranclE)
  then have "ps i \<noteq> []" by (auto simp: parent_rel_def)
  then have "i \<in> set ord" by (rule assms(3))
  then obtain xs ys where o: "ord = xs @ i # ys" by (meson split_list)
  from topo_before[OF assms(1) c o] o assms(2) show False by simp
qed

subsection \<open>A refusal names a node on a cycle\<close>

lemma efold_Inl:
  assumes "efold f s xs = Inl e"
  shows "\<exists>us x vs t. xs = us @ x # vs \<and> efold f s us = Inr t \<and> f t x = Inl e"
  using assms
proof (induction xs arbitrary: s)
  case (Cons x xs)
  show ?case
  proof (cases "f s x")
    case (Inl e')
    with Cons.prems show ?thesis by (intro exI[of _ "[]"]) auto
  next
    case (Inr s')
    with Cons.prems have "efold f s' xs = Inl e" by simp
    from Cons.IH[OF this] obtain us y vs t
      where "xs = us @ y # vs" "efold f s' us = Inr t" "f t y = Inl e" by blast
    with Inr show ?thesis by (intro exI[of _ "x # us"]) auto
  qed
qed simp

lemma visit_cycle:
  assumes "visit fuel ps i s = Inl (cycle_error j)" "dfs_inv ps s"
    and "\<forall>g \<in> grey (fst s). (i, g) \<in> (parent_rel ps)\<^sup>+"
  shows "\<exists>k. (k, k) \<in> (parent_rel ps)\<^sup>+"
  using assms
proof (induction fuel arbitrary: i s)
  case 0
  then show ?case by (simp add: cycle_error_def)
next
  case (Suc fuel)
  obtain st ord where s: "s = (st, ord)" by (cases s)
  show ?case
  proof (cases "dget st i = Some 1")
    case True
    then have "i \<in> grey st" by (simp add: grey_def)
    with Suc.prems(3) s show ?thesis by auto
  next
    case False
    with Suc.prems s have nb: "dget st i \<noteq> Some 2" by auto
    with False Suc.prems s
    have "efold (\<lambda>s p. visit fuel ps p s) (dset st i 1, ord) (ps i) = Inl (cycle_error j)"
      by (auto simp: ebind_eq_Inl)
    then obtain us p vs t where split: "ps i = us @ p # vs"
      and ok: "efold (\<lambda>s p. visit fuel ps p s) (dset st i 1, ord) us = Inr t"
      and bad: "visit fuel ps p t = Inl (cycle_error j)" using efold_Inl by fast
    have "black (dset st i 1) = black st" using nb by (auto simp: black_def)
    then have "dfs_inv ps (dset st i 1, ord)" using Suc.prems(2) s by (simp add: dfs_inv_def)
    with ok have v: "visited ps us (dset st i 1, ord) t" by (rule visits_visited)
    moreover have "grey (dset st i 1) = insert i (grey st)" by (auto simp: grey_def)
    ultimately have "grey (fst t) = insert i (grey st)" by (simp add: visited_def)
    moreover have "(p, i) \<in> parent_rel ps" using split by (simp add: parent_rel_def)
    ultimately have g: "\<forall>g \<in> grey (fst t). (p, g) \<in> (parent_rel ps)\<^sup>+"
      using Suc.prems(3) s by (auto intro: trancl_into_trancl2)
    have "dfs_inv ps t" using v by (simp add: visited_def)
    from Suc.IH[OF bad this g] show ?thesis .
  qed
qed

lemma visit_all_cycle:
  assumes "visit_all ps ids = Inl (cycle_error j)"
  shows "\<exists>k. (k, k) \<in> (parent_rel ps)\<^sup>+"
proof -
  from assms obtain us i vs t where ok: "efold (\<lambda>s i. visit (Suc (length ids)) ps i s) ([], []) us = Inr t"
    and bad: "visit (Suc (length ids)) ps i t = Inl (cycle_error j)"
    using efold_Inl unfolding visit_all_def by fast
  have "dfs_inv ps ([], [])" by (simp add: dfs_inv_def black_def topo_def)
  with ok have "visited ps us ([], []) t" by (rule visits_visited)
  then have "dfs_inv ps t" "grey (fst t) = {}" by (simp_all add: visited_def grey_def)
  then show ?thesis using visit_cycle[OF bad] by simp
qed

subsection \<open>The fuel is enough\<close>

lemma efold_not_Inl:
  assumes "\<And>s x. x \<in> set xs \<Longrightarrow> P s \<Longrightarrow> f s x \<noteq> Inl e" "P s"
    and "\<And>s x s'. x \<in> set xs \<Longrightarrow> P s \<Longrightarrow> f s x = Inr s' \<Longrightarrow> P s'"
  shows "efold f s xs \<noteq> Inl e"
proof
  assume "efold f s xs = Inl e"
  from efold_Inl[OF this] obtain us x vs t
    where x: "xs = us @ x # vs" "efold f s us = Inr t" "f t x = Inl e" by blast
  have "P t" by (rule efold_invariant[where P = P, OF x(2) assms(2)]) (use x(1) assms(3) in auto)
  with x assms(1)[of x t] show False by simp
qed

lemma visit_enough:
  assumes "dfs_inv ps s" "i \<in> A" "\<And>j. j \<in> A \<Longrightarrow> set (ps j) \<subseteq> A" "finite A"
    and "card (A - grey (fst s)) < fuel"
  shows "visit fuel ps i s \<noteq> Inl (PyError ''RecursionError'')"
  using assms(1,2,5)
proof (induction fuel arbitrary: i s)
  case (Suc fuel)
  obtain st ord where s: "s = (st, ord)" by (cases s)
  show ?case
  proof (cases "dget st i = Some 1 \<or> dget st i = Some 2")
    case True
    with s show ?thesis by (auto simp: cycle_error_def)
  next
    case False
    let ?s1 = "(dset st i 1, ord)"
    have g: "grey (dset st i 1) = insert i (grey st)" by (auto simp: grey_def)
    have "black (dset st i 1) = black st" using False by (auto simp: black_def)
    then have inv: "dfs_inv ps ?s1" using Suc.prems(1) s by (simp add: dfs_inv_def)
    have "A - insert i (grey st) \<subset> A - grey st" using False Suc.prems(2) by (auto simp: grey_def)
    then have c: "card (A - insert i (grey st)) < fuel"
      using psubset_card_mono[of "A - grey st" "A - insert i (grey st)"] Suc.prems(3) s assms(4) by simp
    have "efold (\<lambda>s p. visit fuel ps p s) ?s1 (ps i) \<noteq> Inl (PyError ''RecursionError'')"
    proof (rule efold_not_Inl[where P = "\<lambda>s. dfs_inv ps s \<and> grey (fst s) = insert i (grey st)"])
      show "dfs_inv ps ?s1 \<and> grey (fst ?s1) = insert i (grey st)" using inv g by simp
    next
      fix t p assume "p \<in> set (ps i)" "dfs_inv ps t \<and> grey (fst t) = insert i (grey st)"
      then show "visit fuel ps p t \<noteq> Inl (PyError ''RecursionError'')"
        using Suc.IH[of t p] c assms(3)[OF Suc.prems(2)] by auto
    next
      fix t p t' assume "visit fuel ps p t = Inr t'" "dfs_inv ps t \<and> grey (fst t) = insert i (grey st)"
      then show "dfs_inv ps t' \<and> grey (fst t') = insert i (grey st)"
        using visit_visited[of fuel ps p t t'] by (simp add: visited_def)
    qed
    then show ?thesis using False s by (auto simp: ebind_eq_Inl split: prod.splits)
  qed
qed simp

lemma visit_all_enough:
  assumes "\<And>j. j \<in> set ids \<Longrightarrow> set (ps j) \<subseteq> set ids"
  shows "visit_all ps ids \<noteq> Inl (PyError ''RecursionError'')"
  unfolding visit_all_def
proof (rule efold_not_Inl[where P = "\<lambda>s. dfs_inv ps s \<and> grey (fst s) = {}"])
  show "dfs_inv ps ([], []) \<and> grey (fst ([], [])) = {}"
    by (simp add: dfs_inv_def black_def topo_def grey_def)
next
  fix s i assume "i \<in> set ids" "dfs_inv ps s \<and> grey (fst s) = {}"
  then show "visit (Suc (length ids)) ps i s \<noteq> Inl (PyError ''RecursionError'')"
    using visit_enough[of ps s i "set ids" "Suc (length ids)"] assms card_length[of ids] by auto
next
  fix s i s' assume "visit (Suc (length ids)) ps i s = Inr s'" "dfs_inv ps s \<and> grey (fst s) = {}"
  then show "dfs_inv ps s' \<and> grey (fst s') = {}"
    using visit_visited[of "Suc (length ids)" ps i s s'] by (simp add: visited_def)
qed

text \<open>The only errors of the search are the two above.\<close>

lemma visit_errors:
  "visit fuel ps i s = Inl e \<Longrightarrow> e = PyError ''RecursionError'' \<or> (\<exists>j. e = cycle_error j)"
proof (induction fuel arbitrary: i s)
  case (Suc fuel)
  obtain st ord where s: "s = (st, ord)" by (cases s)
  show ?case
  proof (cases "dget st i = Some 1")
    case True
    with Suc.prems s show ?thesis by auto
  next
    case False
    with Suc.prems s have "efold (\<lambda>s p. visit fuel ps p s) (dset st i 1, ord) (ps i) = Inl e"
      by (auto simp: ebind_eq_Inl split: if_splits prod.splits)
    with efold_Inl[OF this] Suc.IH show ?thesis by blast
  qed
qed simp

lemma visit_all_result:
  assumes "\<And>j. j \<in> set ids \<Longrightarrow> set (ps j) \<subseteq> set ids" "\<And>j. ps j \<noteq> [] \<Longrightarrow> j \<in> set ids"
  shows "(\<exists>s. visit_all ps ids = Inr s) \<longleftrightarrow> acyclic (parent_rel ps)"
proof
  assume "\<exists>s. visit_all ps ids = Inr s"
  then obtain st ord where "visit_all ps ids = Inr (st, ord)" by auto
  then have "distinct ord \<and> topo ps ord \<and> set ids \<subseteq> set ord" by (rule visit_all_Inr)
  then show "acyclic (parent_rel ps)" using topo_acyclic[of ps ord] assms(2) by blast
next
  assume a: "acyclic (parent_rel ps)"
  show "\<exists>s. visit_all ps ids = Inr s"
  proof (cases "visit_all ps ids")
    case (Inl e)
    then obtain us x vs t where "visit (Suc (length ids)) ps x t = Inl e"
      using efold_Inl unfolding visit_all_def by fast
    then have "e = PyError ''RecursionError'' \<or> (\<exists>j. e = cycle_error j)" by (rule visit_errors)
    then show ?thesis
      using visit_all_enough[of ids ps, OF assms(1)] Inl visit_all_cycle[of ps ids] a
      by (auto simp: acyclic_def)
  qed auto
qed

subsection \<open>The closures\<close>

lemma topo_prefix: "topo ps (xs @ ys) \<Longrightarrow> topo ps xs"
  unfolding topo_def by (metis append.assoc append_Cons)

lemma trancl_parents:
  "{x. (x, i) \<in> (parent_rel ps)\<^sup>+} = (\<Union>p \<in> set (ps i). insert p {x. (x, p) \<in> (parent_rel ps)\<^sup>+})"
proof -
  have "(x, i) \<in> (parent_rel ps)\<^sup>+ \<longleftrightarrow> (\<exists>p \<in> set (ps i). x = p \<or> (x, p) \<in> (parent_rel ps)\<^sup>+)" for x
    by (subst trancl_unfold) (auto simp: parent_rel_def)
  then show ?thesis by auto
qed

lemma efold_append: "efold f s (xs @ ys) = ebind (efold f s xs) (\<lambda>t. efold f t ys)"
  by (induction xs arbitrary: s) (auto simp: ebind_assoc)

lemma emap_total: "(\<And>x. x \<in> set xs \<Longrightarrow> f x = Inr (g x)) \<Longrightarrow> emap f xs = Inr (map g xs)"
  by (induction xs) auto

lemma ancestors_ok:
  assumes "topo ps ord"
  shows "\<exists>m. ancestors ps ord = Inr m
    \<and> (\<forall>i \<in> set ord. \<exists>xs. dget m i = Some xs \<and> set xs = {x. (x, i) \<in> (parent_rel ps)\<^sup>+})"
  using assms
proof (induction ord rule: rev_induct)
  case Nil
  then show ?case by (simp add: ancestors_def)
next
  case (snoc i ord)
  then obtain m where m: "ancestors ps ord = Inr m" and ih: "\<And>j. j \<in> set ord \<Longrightarrow>
      \<exists>xs. dget m j = Some xs \<and> set xs = {x. (x, j) \<in> (parent_rel ps)\<^sup>+}"
    using topo_prefix by blast
  have sub: "set (ps i) \<subseteq> set ord" using topoD[OF snoc.prems] by blast
  let ?xs = "dedup (concat (map (\<lambda>p. p # the (dget m p)) (ps i)))"
  have "emap (\<lambda>p. map_sum id ((#) p) (of_opt (PyError ''KeyError'') (dget m p))) (ps i)
      = Inr (map (\<lambda>p. p # the (dget m p)) (ps i))"
    by (rule emap_total) (use ih sub in \<open>fastforce simp: of_opt_def\<close>)
  then have step: "ancestors ps (ord @ [i]) = Inr (dset m i ?xs)"
    using m by (simp add: ancestors_def efold_append ancestors_step_def)
  have "set ?xs = (\<Union>p \<in> set (ps i). insert p (set (the (dget m p))))" by auto
  also have "\<dots> = (\<Union>p \<in> set (ps i). insert p {x. (x, p) \<in> (parent_rel ps)\<^sup>+})"
    by (rule SUP_cong) (use ih sub in fastforce)+
  also have "\<dots> = {x. (x, i) \<in> (parent_rel ps)\<^sup>+}" by (rule trancl_parents[symmetric])
  finally show ?case using step ih by auto
qed

lemma upstream_loop_set:
  assumes "set stack \<subseteq> set seen"
    and "\<And>x. x \<in> set seen \<Longrightarrow> x \<notin> set stack \<Longrightarrow> set (parents_of g x) \<subseteq> set seen"
    and "i \<in> set seen" "\<And>x. x \<in> set seen \<Longrightarrow> (x, i) \<in> (edge_rel g)\<^sup>*"
  shows "set (upstream_loop g seen stack) = {x. (x, i) \<in> (edge_rel g)\<^sup>*}"
  using assms
proof (induction g seen stack rule: upstream_loop.induct)
  case (1 g seen)
  have "x \<in> set seen" if "(x, i) \<in> (edge_rel g)\<^sup>*" for x
    using that
  proof (induction rule: converse_rtrancl_induct)
    case (step y z)
    with 1(2)[of z] show ?case by (auto simp: set_parents_of)
  qed (use 1 in simp)
  with 1(4) show ?case by auto
next
  case (2 g seen x stack)
  let ?new = "filter (\<lambda>p. p \<notin> set seen) (parents_of g x)"
  have "set (upstream_loop g (seen @ ?new) (rev ?new @ stack)) = {x. (x, i) \<in> (edge_rel g)\<^sup>*}"
  proof (rule 2(1)[OF refl])
    show "set (rev ?new @ stack) \<subseteq> set (seen @ ?new)" using 2(2) by auto
    show "i \<in> set (seen @ ?new)" using 2(4) by simp
    show "set (parents_of g y) \<subseteq> set (seen @ ?new)"
      if "y \<in> set (seen @ ?new)" "y \<notin> set (rev ?new @ stack)" for y
      using that 2(3)[of y] by (cases "y = x") auto
    show "(y, i) \<in> (edge_rel g)\<^sup>*" if "y \<in> set (seen @ ?new)" for y
    proof (cases "y \<in> set seen")
      case False
      with that have "(y, x) \<in> edge_rel g" by (auto simp: set_parents_of)
      moreover have "(x, i) \<in> (edge_rel g)\<^sup>*" using 2(2,5) by auto
      ultimately show ?thesis by (rule converse_rtrancl_into_rtrancl)
    qed (use 2(5) in simp)
  qed
  then show ?case by (simp add: Let_def)
qed

lemma upstream_of_set: "set (upstream_of g i) = {x. (x, i) \<in> (edge_rel g)\<^sup>*}"
  unfolding upstream_of_def by (rule upstream_loop_set) auto

lemma parent_rel_parents_of: "parent_rel (parents_of g) = edge_rel g"
  by (auto simp: parent_rel_def set_parents_of)

text \<open>
  The cut-down graph is closed under predecessors, so no join of it waits for an input the
  cut removed.
\<close>

lemma until_subgraph_closed:
  assumes "(s, t) \<in> edge_rel g" "t \<in> set (upstream_of g u)"
  shows "(s, t) \<in> edge_rel (until_subgraph g u)"
proof -
  have "s \<in> set (upstream_of g u)"
    using assms by (auto simp: upstream_of_set intro: converse_rtrancl_into_rtrancl)
  with assms show ?thesis by (auto simp: until_subgraph_def edge_rel_def Let_def)
qed

subsection \<open>Properties\<close>

text \<open>The worklist of \<open>upstream_of\<close> computes the node and its ancestors, whatever the graph
  (cycles included), and the graph cut down to them keeps every edge into a kept node, so that no
  join of it waits for an input that was cut.\<close>

theorem upstream_of_closure:
  "set (upstream_of g i) = {x. (x, i) \<in> (edge_rel g)\<^sup>*}
    \<and> {(s, t) \<in> edge_rel g. t \<in> set (upstream_of g i)} \<subseteq> edge_rel (until_subgraph g i)"
  using upstream_of_set until_subgraph_closed by auto

end
