(* ===== verification/Wf_Config.thy ===== *)
theory Wf_Config
  imports Wf_Template Wf_Cron Wf_Dag
begin

section \<open>Reading a node's configuration (\<open>core/workflow_graph.py\<close>)\<close>

text \<open>
  What a configuration declares (routes, error mode, decision choices, fixed output keys) and
  the per-field validators.  A configuration is any JSON object, so every reader handles values
  of the wrong type the way the source does: an explicit \<open>isinstance\<close> test, or the Python
  exception of the operation (\<open>AttributeError\<close> for \<open>.get\<close> on a non-dict,
  \<open>TypeError\<close> for iterating a number or for an unhashable member of a set).  A set is
  the list of its members in order of first occurrence.  A regular expression whose
  \<open>$\<close> is used with \<open>match\<close> also accepts one final newline (\<open>dollar\<close>).
\<close>

subsection \<open>Constants\<close>

definition ON_ERROR_TYPES :: "node_type list" where
  "ON_ERROR_TYPES = [TAgent, TTool, TExtract, TClassifier, TRag, THttp, TSubworkflow,
     TNotification, TDocument, TDbWrite]"

definition ROUTED :: "node_type list" where
  "ROUTED = [TRouter, TClassifier, TCondition, TTry]"

definition EXTRACT_FIELD_TYPES :: "string list" where
  "EXTRACT_FIELD_TYPES = [''string'', ''number'', ''boolean'', ''list'', ''object'']"

definition MAX_LOOP :: int where "MAX_LOOP = 100"
definition MAX_RETRIES :: int where "MAX_RETRIES = 3"
definition MAX_RETRY_DELAY_MS :: int where "MAX_RETRY_DELAY_MS = 5000"
definition MAX_EXTRACT_FIELDS :: nat where "MAX_EXTRACT_FIELDS = 30"
definition MAX_SUBWORKFLOW_DEPTH :: nat where "MAX_SUBWORKFLOW_DEPTH = 3"

subsection \<open>Sets of Python values, regular expressions\<close>

fun py_set :: "pyval list \<Rightarrow> pyval list" where
  "py_set [] = []"
| "py_set (x # xs) = x # filter (\<lambda>y. \<not> py_eq y x) (py_set xs)"

definition hashed :: "pyval \<Rightarrow> pyval res" where
  "hashed v = (if hashable v then Inr v else Inl (PyError ''TypeError''))"

text \<open>\<open>for x in cfg.get(k) or []\<close>\<close>

definition each :: "pydict \<Rightarrow> string \<Rightarrow> pyval list res" where
  "each c k = py_iter (por (get0 c k) (PList []))"

definition dollar :: "(string \<Rightarrow> bool) \<Rightarrow> string \<Rightarrow> bool" where
  "dollar P s = (P s \<or> (s \<noteq> [] \<and> code (last s) = 10 \<and> P (butlast s)))"

definition ident :: "string \<Rightarrow> bool" where
  "ident s = (s \<noteq> [] \<and> (is_alpha (hd s) \<or> hd s = CHR ''_'') \<and> list_all is_ident_char (tl s))"

definition field_name_ok :: "string \<Rightarrow> bool" where
  "field_name_ok = dollar ident"

definition sql_ident_ok :: "string \<Rightarrow> bool" where
  "sql_ident_ok = dollar (\<lambda>s. ident s \<and> length s \<le> 63)"

definition tool_config_ref_ok :: "string \<Rightarrow> bool" where
  "tool_config_ref_ok = dollar (\<lambda>s. starts_with ''tool_config'' s
     \<and> drop 11 s \<noteq> [] \<and> list_all is_dec (drop 11 s))"

subsection \<open>Error handling of a node: \<open>_on_error\<close>, \<open>_routes_on_error\<close>\<close>

datatype on_error_mode = OFail | OContinue | ORoute

definition on_error :: "wnode \<Rightarrow> on_error_mode" where
  "on_error n = (let mode = por (cfg0 n ''on_error'') (PStr ''fail'') in
     if n_type n \<notin> set ON_ERROR_TYPES
        \<or> \<not> py_in mode [PStr ''fail'', PStr ''continue'', PStr ''route'']
        \<or> (n_type n = TClassifier \<and> mode = PStr ''continue'') then OFail
     else if mode = PStr ''continue'' then OContinue
     else if mode = PStr ''route'' then ORoute else OFail)"

definition routes_on_error :: "wnode \<Rightarrow> bool" where
  "routes_on_error n = (n_type n \<in> set ON_ERROR_TYPES \<and> on_error n = ORoute)"

subsection \<open>Routes: \<open>_decision_choices\<close>, \<open>_is_routed\<close>, \<open>_declared_routes\<close>\<close>

definition decision_mode :: "wnode \<Rightarrow> pyval" where
  "decision_mode n = get1 (n_config n) ''mode'' (PStr ''choices'')"

definition decision_choices :: "wnode \<Rightarrow> pydict list res" where
  "decision_choices n = ebind (each (n_config n) ''choices'') (\<lambda>cs.
     Inr (concat (map (\<lambda>c. case c of PDict d \<Rightarrow> [d] | _ \<Rightarrow> []) cs)))"

definition is_routed :: "wnode \<Rightarrow> bool" where
  "is_routed n = (if n_type n = TApproval then decision_mode n \<noteq> PStr ''text''
     else n_type n \<in> set ROUTED)"

definition router_routes :: "wnode \<Rightarrow> pyval list res" where
  "router_routes n =
     ebind (each (n_config n) ''rules'') (\<lambda>rs.
     ebind (emap (\<lambda>r. ebind (attr_get r ''route'') hashed) rs) (\<lambda>routes.
     let dflt = cfg0 n ''default_route'' in
     ebind (if truthy dflt then map_sum id (\<lambda>d. [d]) (hashed dflt) else Inr []) (\<lambda>ds.
     Inr (filter truthy (py_set (routes @ ds))))))"

definition approval_routes :: "wnode \<Rightarrow> pyval list res" where
  "approval_routes n =
     ebind (decision_choices n) (\<lambda>cs.
     ebind (emap (\<lambda>c. hashed (get0 c ''route'')) cs) (\<lambda>routes.
     Inr (py_set (routes @ (if decision_mode n = PStr ''both'' then [PStr ''text''] else [])))))"

definition classifier_routes :: "wnode \<Rightarrow> pyval list res" where
  "classifier_routes n =
     ebind (each (n_config n) ''routes'') (\<lambda>rs.
     ebind (emap (\<lambda>r. ebind (attr_get r ''route'') (\<lambda>x. if truthy x then hashed x else Inr x)) rs)
       (\<lambda>routes. Inr (py_set (filter truthy routes
         @ (if n_type n = TClassifier \<and> cfg0 n ''engine'' = PStr ''jev'' then [PStr ''uncertain''] else [])
         @ (if routes_on_error n then [PStr ''error''] else [])))))"

definition declared_routes :: "wnode \<Rightarrow> pyval list res" where
  "declared_routes n = (case n_type n of
     TRouter \<Rightarrow> router_routes n
   | TTry \<Rightarrow> Inr [PStr ''ok'', PStr ''error'']
   | TCondition \<Rightarrow> Inr [PStr ''true'', PStr ''false'']
   | TApproval \<Rightarrow> approval_routes n
   | _ \<Rightarrow> classifier_routes n)"

subsection \<open>Decisions: \<open>_refuse_nested_decision\<close>, \<open>check_decision_answer\<close>\<close>

definition refuse_nested_decision :: "wnode \<Rightarrow> wgraph \<Rightarrow> unit res" where
  "refuse_nested_decision n body =
     (case filter (\<lambda>m. n_type m = TApproval) (g_nodes body) of
        [] \<Rightarrow> Inr ()
      | m # _ \<Rightarrow> Inl (gcode ''decision humaine impossible ici'' ''approval_nested''
          [(''node'', PStr (n_id n)), (''decision'', PStr (n_id m))]))"

definition opt_pstr :: "string option \<Rightarrow> pyval" where
  "opt_pstr x = (case x of None \<Rightarrow> PNone | Some s \<Rightarrow> PStr s)"

definition check_decision_answer ::
  "pydict \<Rightarrow> string option \<Rightarrow> string option \<Rightarrow> (string option \<times> string option) res" where
  "check_decision_answer prompt choice text =
     (let mode = get1 prompt ''mode'' (PStr ''choices'');
          txt = (case text of None \<Rightarrow> None | Some s \<Rightarrow> if strip s = [] then None else Some (strip s)) in
      ebind (each prompt ''choices'') (\<lambda>cs.
      ebind (emap (\<lambda>c. ebind (attr_get c ''route'') hashed) cs) (\<lambda>routes.
      let known = py_in (opt_pstr choice) routes;
          ok = ((mode = PStr ''choices'' \<and> known \<and> txt = None)
            \<or> (mode = PStr ''text'' \<and> choice = None \<and> txt \<noteq> None)
            \<or> (mode = PStr ''both'' \<and> (known \<or> (choice = None \<and> txt \<noteq> None)))) in
      if ok then Inr (choice, txt)
      else Inl (gcode ''reponse non permise par cette decision'' ''decision_invalid_answer''
             [(''mode'', mode)]))))"

subsection \<open>Bodies: the guards of \<open>_loop_body\<close> and \<open>_try_config\<close>, \<open>_bounded_int\<close>\<close>

definition loop_guards :: "wnode \<Rightarrow> unit res" where
  "loop_guards n = (let mode = cfg0 n ''mode'' in checks
    [raise_if (\<not> py_in mode [PStr ''foreach'', PStr ''until'']) (gerr ''mode de boucle inconnu''),
     raise_if (\<not> int_in 1 MAX_LOOP (cfg0 n ''max_iterations'')) (gerr ''max_iterations invalide''),
     raise_if (mode = PStr ''foreach'' \<and> \<not> truthy (cfg0 n ''items'')) (gerr ''items manquant''),
     raise_if (mode = PStr ''until'' \<and> \<not> is_dict (cfg0 n ''until'')) (gerr ''condition until manquante'')])"

definition bounded_int :: "pydict \<Rightarrow> string \<Rightarrow> int \<Rightarrow> int \<Rightarrow> int res" where
  "bounded_int c k lo hi = (case get1 c k (PInt 0) of
     PInt i \<Rightarrow> if lo \<le> i \<and> i \<le> hi then Inr i else Inl (gerr (k @ '' doit etre un entier borne''))
   | _ \<Rightarrow> Inl (gerr (k @ '' doit etre un entier borne'')))"

definition try_guards :: "wnode \<Rightarrow> unit res" where
  "try_guards n =
     ebind (bounded_int (n_config n) ''retries'' 0 MAX_RETRIES) (\<lambda>_.
     ebind (bounded_int (n_config n) ''retry_delay_ms'' 0 MAX_RETRY_DELAY_MS) (\<lambda>_. Inr ()))"

definition try_body_ok :: "wgraph \<Rightarrow> unit res" where
  "try_body_ok body = raise_if (list_ex (\<lambda>m. n_type m = TTry \<or> n_type m = TLoop) (g_nodes body))
     (gerr ''(corps) : un try ne peut pas contenir de try ni de loop imbrique'')"

subsection \<open>\<open>_validate_extract_fields\<close>\<close>

definition extract_field_step :: "string list \<Rightarrow> pyval \<Rightarrow> string list res" where
  "extract_field_step names f = (case f of
     PDict d \<Rightarrow> (case get0 d ''name'' of
        PStr name \<Rightarrow> ebind (checks
            [raise_if (\<not> field_name_ok name) (gerr ''nom de champ invalide''),
             raise_if (name \<in> set names) (gerr ''champ duplique''),
             raise_if (\<not> py_in (get0 d ''type'') (map PStr EXTRACT_FIELD_TYPES))
               (gerr ''type de champ inconnu'')])
          (\<lambda>_. Inr (names @ [name]))
      | _ \<Rightarrow> Inl (gerr ''nom de champ invalide''))
   | _ \<Rightarrow> Inl (gerr ''nom de champ invalide''))"

definition validate_extract_fields :: "wnode \<Rightarrow> unit res" where
  "validate_extract_fields n = (case cfg0 n ''fields'' of
     PList fs \<Rightarrow>
       if fs = [] \<or> MAX_EXTRACT_FIELDS < length fs then Inl (gerr ''fields doit compter de 1 a 30 champs'')
       else ebind (efold extract_field_step [] fs) (\<lambda>_. Inr ())
   | _ \<Rightarrow> Inl (gerr ''fields doit compter de 1 a 30 champs''))"

subsection \<open>References of a configuration: \<open>_outer_refs\<close>, \<open>_template_paths\<close>\<close>

definition outer_refs :: "wnode \<Rightarrow> string list" where
  "outer_refs n = (case n_type n of
     TLoop \<Rightarrow> dedup (refs (cfg0 n ''items'')
       @ filter (\<lambda>r. r \<noteq> ''iteration'') (refs (cfg0 n ''until'')))
   | TTry \<Rightarrow> []
   | _ \<Rightarrow> refs (PDict (n_config n)))"

definition template_paths :: "wnode \<Rightarrow> (string \<times> string) list \<times> string list" where
  "template_paths n = (case n_type n of
     TTry \<Rightarrow> ([], [])
   | TLoop \<Rightarrow> (let until = ref_paths (cfg0 n ''until'') in
       (dedup (ref_paths (cfg0 n ''items'') @ filter (\<lambda>(r, _). r \<noteq> ''iteration'') until),
        dedup (map snd (filter (\<lambda>(r, _). r = ''iteration'') until))))
   | _ \<Rightarrow> (ref_paths (PDict (n_config n)), []))"

definition first_segment :: "string \<Rightarrow> string option" where
  "first_segment path = (case path_keys path of [] \<Rightarrow> None | k # _ \<Rightarrow> Some k)"

subsection \<open>Statically known outputs: \<open>_output_form\<close>, \<open>_check_template_path\<close>\<close>

datatype output_form = FScalar | FKnown "pyval list" | FUnknown

definition fixed_output_keys :: "node_type \<Rightarrow> string list option" where
  "fixed_output_keys t = (case t of
     TRag \<Rightarrow> Some [''query'', ''passages'']
   | THttp \<Rightarrow> Some [''status'', ''headers'', ''body'']
   | TNotification \<Rightarrow> Some [''channel'', ''sent'']
   | TDocument \<Rightarrow> Some [''documents'', ''text'', ''count'']
   | TDbWrite \<Rightarrow> Some [''table'', ''inserted'']
   | TFile \<Rightarrow> Some [''name'', ''ref'', ''size'', ''content_type'', ''format'', ''rows'']
   | TFileSave \<Rightarrow> Some [''provider'', ''name'', ''path'', ''web_url'']
   | TApproval \<Rightarrow> Some [''choice'', ''text'', ''answered_by'', ''answered_at'']
   | _ \<Rightarrow> None)"

definition field_keys :: "string \<Rightarrow> wnode \<Rightarrow> pyval list res" where
  "field_keys name n = ebind (each (n_config n) ''fields'') (\<lambda>fs.
     map_sum id py_set (emap (\<lambda>f. case f of PDict d \<Rightarrow> hashed (get0 d name) | _ \<Rightarrow> Inr PNone)
       (filter is_dict fs)))"

definition output_form :: "wnode \<Rightarrow> wgraph \<Rightarrow> output_form res" where
  "output_form n g = (case n_type n of
     TConvert \<Rightarrow> map_sum id (\<lambda>b. if b then FScalar else FUnknown)
       (in_set_res (cfg0 n ''to'') [''text'', ''number'', ''boolean'', ''date''])
   | TMerge \<Rightarrow> Inr (FKnown (map PStr (parents_of g (n_id n))))
   | TSet \<Rightarrow> map_sum id FKnown (field_keys ''key'' n)
   | TExtract \<Rightarrow> map_sum id FKnown (field_keys ''name'' n)
   | t \<Rightarrow> (case fixed_output_keys t of
       None \<Rightarrow> Inr FUnknown
     | Some ks \<Rightarrow> Inr (FKnown (map PStr (ks @
         (if t \<in> set ON_ERROR_TYPES \<and> on_error n \<noteq> OFail
          then [''code'', ''detail'', ''params'', ''node''] else []))))))"

definition template_invalid :: "string \<Rightarrow> string \<Rightarrow> string \<Rightarrow> exn" where
  "template_invalid m nid full = gcode m ''template_ref_invalid''
     [(''node'', PStr nid), (''ref'', PStr full)]"

text \<open>The message of the last refusal joins the known keys, which raises on a key that is no text.\<close>

definition check_template_path ::
  "string \<Rightarrow> string \<Rightarrow> string \<Rightarrow> wnode \<Rightarrow> wgraph \<Rightarrow> unit res" where
  "check_template_path nid ref path target g = (case first_segment path of
     None \<Rightarrow> Inr ()
   | Some seg \<Rightarrow>
       if n_type target \<in> set ROUTED \<and> seg = ''route''
       then Inl (template_invalid ''invalide : route jamais stockee'' nid (ref @ path))
       else ebind (output_form target g) (\<lambda>form. case form of
         FScalar \<Rightarrow> Inl (template_invalid ''invalide : valeur simple'' nid (ref @ path))
       | FKnown keys \<Rightarrow>
           if py_in (PStr seg) keys then Inr ()
           else if \<not> list_all is_str keys then Inl (PyError ''TypeError'')
           else Inl (template_invalid ''invalide : champ inconnu'' nid (ref @ path))
       | FUnknown \<Rightarrow> Inr ()))"

subsection \<open>The trigger: \<open>validate_trigger_config\<close>, one definition per kind\<close>

text \<open>
  What the validation reads outside the configuration: the identifiers known to the caller,
  the time-zone database, \<open>datetime.fromisoformat\<close> completed with a time zone (\<open>None\<close>
  is its \<open>ValueError\<close>; the result is an instant), the clock, and two look-ups in the
  owner's workflows.
\<close>

record venv =
  v_workflow :: "string option"
  v_owner :: "string option"
  v_tz_known :: "string \<Rightarrow> bool"
  v_instant :: "string \<Rightarrow> string \<Rightarrow> int option"
  v_now :: int
  v_tool_taken :: "string \<Rightarrow> string \<Rightarrow> string option \<Rightarrow> bool"
  v_has_workflow :: "string \<Rightarrow> string \<Rightarrow> bool"

definition TRIGGER_KINDS :: "string list" where
  "TRIGGER_KINDS = [''manual'', ''webhook'', ''schedule'', ''email'', ''agent_tool'', ''form'',
     ''file'', ''workflow_done'']"

abbreviation field_err :: "string \<Rightarrow> string \<Rightarrow> string \<Rightarrow> exn" where
  "field_err m c f \<equiv> gcode m c [(''field'', PStr f)]"

definition require_trigger_str :: "pydict \<Rightarrow> string \<Rightarrow> string \<Rightarrow> string res" where
  "require_trigger_str c field cde = (case get0 c field of
     PStr s \<Rightarrow> if blank s then Inl (field_err ''champ requis manquant'' cde field) else Inr s
   | _ \<Rightarrow> Inl (field_err ''champ requis manquant'' cde field))"

definition check_timezone :: "venv \<Rightarrow> pyval \<Rightarrow> unit res" where
  "check_timezone env tz = (case tz of
     PStr s \<Rightarrow> raise_if (\<not> v_tz_known env s) (gcode ''fuseau horaire inconnu'' ''unknown_timezone'' [])
   | _ \<Rightarrow> Inl (PyError ''TypeError''))"

definition check_at_not_past :: "venv \<Rightarrow> pyval \<Rightarrow> string \<Rightarrow> unit res" where
  "check_at_not_past env when tz = (case when of
     PStr s \<Rightarrow> (case v_instant env s tz of
         None \<Rightarrow> Inl (gcode ''date/heure invalide'' ''invalid_at'' [])
       | Some t \<Rightarrow> raise_if (t \<le> v_now env) (gcode ''est deja passe'' ''at_in_past'' []))
   | _ \<Rightarrow> Inl (PyError ''TypeError''))"

definition webhook_config :: "pydict \<Rightarrow> unit res" where
  "webhook_config c = raise_if (\<not> is_bool (get1 c ''hmac'' (PBool False)))
     (field_err ''hmac doit etre un booleen'' ''invalid_field'' ''hmac'')"

definition schedule_config :: "venv \<Rightarrow> pydict \<Rightarrow> unit res" where
  "schedule_config env c =
     (let cron = get0 c ''cron''; when = get0 c ''at'';
          tz = por (get0 c ''timezone'') (PStr ''Europe/Paris'') in
      if truthy cron = truthy when
      then Inl (gcode ''exactement un de cron ou at est requis'' ''schedule_needs_one_of_cron_or_at'' [])
      else ebind (check_timezone env tz) (\<lambda>_.
        if truthy cron
        then (case cron of PStr s \<Rightarrow> check_cron_min_interval s | _ \<Rightarrow> Inl (PyError ''AttributeError''))
        else check_at_not_past env when (case tz of PStr s \<Rightarrow> s | _ \<Rightarrow> [])))"

definition domain_ok :: "string \<Rightarrow> bool" where
  "domain_ok s = (let ps = split_on (CHR ''.'') s in 2 \<le> length ps
     \<and> list_all (\<lambda>p. p \<noteq> [] \<and> list_all (\<lambda>c. is_alpha c \<or> is_dec c \<or> c = CHR ''-'') p) ps)"

definition email_filter_ok :: "string \<Rightarrow> bool" where
  "email_filter_ok s = (if CHR ''@'' \<in> set s
     then (case split_once (CHR ''@'') s of (u, d) \<Rightarrow> list_all (\<lambda>c. \<not> is_space c) u \<and> domain_ok d)
     else domain_ok s)"

definition opt_text_field :: "pydict \<Rightarrow> string \<Rightarrow> unit res" where
  "opt_text_field c f = raise_if (get0 c f \<noteq> PNone \<and> \<not> is_str (get0 c f))
     (field_err ''doit etre une chaine ou null'' ''invalid_field'' f)"

definition email_config :: "pydict \<Rightarrow> unit res" where
  "email_config c = checks
    [raise_if (\<not> py_in (get0 c ''provider'') [PStr ''outlook'', PStr ''gmail''])
       (gcode ''provider email inconnu'' ''unknown_email_provider'' []),
     opt_text_field c ''from_filter'',
     opt_text_field c ''subject_filter'',
     (case get0 c ''from_filter'' of
        PStr s \<Rightarrow> raise_if (strip s \<noteq> [] \<and> \<not> email_filter_ok (strip s))
          (field_err ''from_filter doit etre une adresse ou un domaine'' ''invalid_field'' ''from_filter'')
      | _ \<Rightarrow> Inr ())]"

definition tool_name_ok :: "string \<Rightarrow> bool" where
  "tool_name_ok = dollar (\<lambda>s. 3 \<le> length s \<and> length s \<le> 41
     \<and> (is_alpha (hd s) \<and> 97 \<le> code (hd s))
     \<and> list_all (\<lambda>c. (is_alpha c \<and> 97 \<le> code c) \<or> is_dec c \<or> c = CHR ''_'') (tl s))"

definition tool_field_step :: "pyval list \<Rightarrow> pyval \<Rightarrow> pyval list res" where
  "tool_field_step names f = (case f of
     PDict d \<Rightarrow> (let name = get0 d ''name'' in
       if \<not> truthy name then Inl (gcode ''champ input_schema sans nom'' ''invalid_input_schema'' [])
       else ebind (hashed name) (\<lambda>_.
         if py_in name names
         then Inl (gcode ''champ duplique dans input_schema'' ''duplicate_tool_field'' [])
         else if \<not> py_in (get0 d ''type'') (map PStr [''string'', ''number'', ''boolean'', ''array'', ''object''])
         then Inl (gcode ''type de champ inconnu'' ''invalid_input_schema_type'' [])
         else Inr (names @ [name])))
   | _ \<Rightarrow> Inl (gcode ''champ input_schema sans nom'' ''invalid_input_schema'' []))"

definition agent_tool_config :: "venv \<Rightarrow> pydict \<Rightarrow> unit res" where
  "agent_tool_config env c = (case get0 c ''tool_name'' of
     PStr name \<Rightarrow>
       if \<not> tool_name_ok name then Inl (gcode ''tool_name invalide'' ''invalid_tool_name'' [])
       else ebind (require_trigger_str c ''description'' ''tool_description_required'') (\<lambda>_.
         (case get0 c ''input_schema'' of
            PList fs \<Rightarrow> ebind (efold tool_field_step [] fs) (\<lambda>_.
              (case v_owner env of
                 None \<Rightarrow> Inr ()
               | Some owner \<Rightarrow> raise_if (v_tool_taken env name owner (v_workflow env))
                   (gcode ''tool_name deja pris'' ''tool_name_taken'' [(''tool_name'', PStr name)])))
          | _ \<Rightarrow> Inl (gcode ''input_schema doit etre une liste'' ''invalid_input_schema'' [])))
   | _ \<Rightarrow> Inl (gcode ''tool_name invalide'' ''invalid_tool_name'' []))"

definition form_field_step :: "pyval list \<Rightarrow> pyval \<Rightarrow> pyval list res" where
  "form_field_step names f = (case f of
     PDict d \<Rightarrow> (let name = get0 d ''name'' in
       if \<not> truthy name \<or> \<not> truthy (get0 d ''label'')
       then Inl (gcode ''champ de formulaire invalide'' ''invalid_form_field'' [])
       else ebind (hashed name) (\<lambda>_.
         if py_in name names
         then Inl (gcode ''champ de formulaire duplique'' ''duplicate_form_field'' [])
         else if \<not> py_in (get0 d ''type'')
              (map PStr [''text'', ''textarea'', ''number'', ''boolean'', ''select'', ''date''])
         then Inl (gcode ''type de champ de formulaire inconnu'' ''invalid_form_field'' [])
         else Inr (names @ [name])))
   | _ \<Rightarrow> Inl (gcode ''champ de formulaire invalide'' ''invalid_form_field'' []))"

definition form_config :: "pydict \<Rightarrow> unit res" where
  "form_config c =
     ebind (require_trigger_str c ''title'' ''form_title_required'') (\<lambda>_.
     ebind (opt_text_field c ''description'') (\<lambda>_.
     (case get0 c ''fields'' of
        PList (f # fs) \<Rightarrow> ebind (efold form_field_step [] (f # fs)) (\<lambda>_.
          raise_if (\<not> py_in (get0 c ''access'') [PStr ''authenticated'', PStr ''public''])
            (gcode ''access inconnu'' ''invalid_form_access'' []))
      | _ \<Rightarrow> Inl (gcode ''au moins un champ de formulaire est requis'' ''form_fields_required'' []))))"

definition file_trigger_config :: "pydict \<Rightarrow> unit res" where
  "file_trigger_config c =
     ebind (raise_if (\<not> py_in (get0 c ''provider'') [PStr ''onedrive'', PStr ''google_drive''])
       (gcode ''provider fichier inconnu'' ''unknown_file_provider'' [])) (\<lambda>_.
     ebind (require_trigger_str c ''folder_id'' ''folder_id_required'') (\<lambda>_.
     ebind (require_trigger_str c ''folder_label'' ''folder_label_required'') (\<lambda>_.
     raise_if (\<not> int_in 5 1440 (get1 c ''interval_min'' (PInt 15)))
       (gcode ''interval_min invalide'' ''invalid_file_interval'' []))))"

definition workflow_done_config :: "venv \<Rightarrow> pydict \<Rightarrow> unit res" where
  "workflow_done_config env c =
     ebind (require_trigger_str c ''workflow_id'' ''workflow_done_workflow_id_required'') (\<lambda>src.
     checks
       [raise_if (\<not> py_in (get0 c ''on'') [PStr ''success'', PStr ''error'', PStr ''any''])
          (gcode ''on inconnu'' ''invalid_workflow_done_on'' []),
        raise_if (v_workflow env = Some src)
          (gcode ''un workflow ne peut pas s ecouter lui-meme'' ''workflow_done_self_listen'' []),
        (case v_owner env of None \<Rightarrow> Inr ()
         | Some owner \<Rightarrow> raise_if (\<not> v_has_workflow env src owner)
             (gcode ''workflow source introuvable'' ''workflow_done_unknown_source''
               [(''workflow_id'', PStr src)]))])"

definition validate_trigger_config :: "venv \<Rightarrow> string \<Rightarrow> pydict \<Rightarrow> unit res" where
  "validate_trigger_config env nid c = (let kind = get1 c ''kind'' (PStr ''manual'') in
     if \<not> py_in kind (map PStr TRIGGER_KINDS)
     then Inl (gcode ''kind de trigger inconnu'' ''unknown_trigger_kind''
       [(''node'', PStr nid), (''kind'', PStr (py_str kind))])
     else if kind = PStr ''manual'' then Inr ()
     else if kind = PStr ''webhook'' then webhook_config c
     else if kind = PStr ''schedule'' then schedule_config env c
     else if kind = PStr ''email'' then email_config c
     else if kind = PStr ''agent_tool'' then agent_tool_config env c
     else if kind = PStr ''form'' then form_config c
     else if kind = PStr ''file'' then file_trigger_config c
     else workflow_done_config env c)"

definition trigger_spec :: "wgraph \<Rightarrow> pydict" where
  "trigger_spec g = (case find (\<lambda>n. n_type n = TTrigger) (g_nodes g) of
     None \<Rightarrow> [(''kind'', PStr ''manual'')]
   | Some n \<Rightarrow> dupdate [(''kind'', PStr ''manual'')] (n_config n))"

end
