(* ===== verification/Wf_Validate.thy ===== *)
theory Wf_Validate
  imports Wf_Config "HOL-Library.List_Lexorder" "HOL-Library.Char_ord"
begin

section \<open>\<open>validate_node\<close> and \<open>validate_graph\<close> (\<open>core/workflow_graph.py\<close>)\<close>

text \<open>
  The validation a graph passes before it is saved or run, check by check in the source's
  order.  \<open>validate_node\<close> of a \<open>loop\<close> or a \<open>try\<close> validates its body, itself a
  graph: the recursion ends because a body is smaller than the configuration that holds it.
  The second half shows what an accepted graph is: \<open>graph_wf\<close>.
\<close>

subsection \<open>Checks of one node, by type\<close>

abbreviation node_err :: "string \<Rightarrow> string \<Rightarrow> string \<Rightarrow> exn" where
  "node_err m c i \<equiv> gcode m c [(''node'', PStr i)]"

definition node_value_err :: "string \<Rightarrow> string \<Rightarrow> string \<Rightarrow> pyval \<Rightarrow> exn" where
  "node_value_err m c i v = gcode m c [(''node'', PStr i), (''value'', PStr (py_str v))]"

definition str_not_blank :: "pyval \<Rightarrow> bool" where
  "str_not_blank v = (case v of PStr s \<Rightarrow> \<not> blank s | _ \<Rightarrow> False)"

text \<open>\<open>sorted({x for x in xs if xs.count(x) > 1})\<close>\<close>

definition dupes_of :: "string list \<Rightarrow> string list" where
  "dupes_of xs = sort (dedup (filter (\<lambda>x. 1 < count_list xs x) xs))"

definition str_of :: "pyval \<Rightarrow> string" where
  "str_of v = (case v of PStr s \<Rightarrow> s | _ \<Rightarrow> [])"

definition approval_choice_checks :: "wnode \<Rightarrow> pyval list \<Rightarrow> unit res" where
  "approval_choice_checks n routes = checks
    [raise_if (routes = [] \<or> \<not> list_all str_not_blank routes)
       (node_err ''il faut au moins un choix'' ''approval_choices_missing'' (n_id n)),
     raise_if (PStr ''text'' \<in> set routes)
       (gcode ''la route text est reservee'' ''approval_choice_reserved''
         [(''node'', PStr (n_id n)), (''route'', PStr ''text'')]),
     (case dupes_of (map str_of routes) of
        [] \<Rightarrow> Inr ()
      | d # _ \<Rightarrow> Inl (gcode ''choix en double'' ''approval_choice_duplicate''
          [(''node'', PStr (n_id n)), (''route'', PStr d)]))]"

definition validate_approval :: "wnode \<Rightarrow> unit res" where
  "validate_approval n = (let i = n_id n; mode = decision_mode n in
     ebind (raise_if (blank_or_not_str (cfg0 n ''question''))
       (node_err ''question manquante'' ''approval_question_missing'' i)) (\<lambda>_.
     ebind (raise_if (\<not> py_in mode [PStr ''choices'', PStr ''text'', PStr ''both''])
       (gcode ''mode de reponse inconnu'' ''approval_mode_unknown''
         [(''node'', PStr i), (''mode'', PStr (py_str mode))])) (\<lambda>_.
     ebind (raise_if (\<not> int_in 1 720 (get1 (n_config n) ''expires_after_hours'' (PInt 168)))
       (gcode ''expires_after_hours invalide'' ''approval_expiry_invalid''
         [(''node'', PStr i), (''max'', PStr ''720'')])) (\<lambda>_.
     if mode = PStr ''text'' then Inr ()
     else ebind (decision_choices n) (\<lambda>cs. approval_choice_checks n (map (\<lambda>c. get0 c ''route'') cs))))))"

definition FILE_FORMATS :: "string list" where
  "FILE_FORMATS = [''csv'', ''xlsx'', ''json'', ''markdown'', ''text'', ''docx'', ''pdf'']"

definition sheet_forbidden :: "string \<Rightarrow> bool" where
  "sheet_forbidden s = list_ex (\<lambda>c. c \<in> set ''[]:*?/'' \<or> code c = 92) s"

definition validate_file :: "wnode \<Rightarrow> unit res" where
  "validate_file n = (let i = n_id n; fmt = cfg0 n ''format''; content = cfg0 n ''content'';
       name = cfg0 n ''filename''; sheet = cfg0 n ''sheet_name'' in checks
    [raise_if (\<not> py_in fmt (map PStr FILE_FORMATS))
       (node_value_err ''format de fichier inconnu'' ''file_format_unknown'' i fmt),
     raise_if (content = PNone \<or> (is_str content \<and> blank_or_not_str content))
       (node_err ''contenu du fichier manquant'' ''file_content_missing'' i),
     raise_if (name \<noteq> PNone \<and> \<not> str_len_in 0 120 name)
       (gcode ''nom de fichier invalide'' ''file_filename_invalid''
         [(''node'', PStr i), (''max'', PStr ''120'')]),
     raise_if (\<not> py_in sheet [PNone, PStr []] \<and>
         (case sheet of PStr s \<Rightarrow> 31 < length s \<or> sheet_forbidden s | _ \<Rightarrow> True))
       (node_err ''nom de feuille invalide'' ''file_sheet_invalid'' i)])"

subsection \<open>\<open>_check_folder\<close> and \<open>_validate_file_save\<close>\<close>

definition strip_by :: "(char \<Rightarrow> bool) \<Rightarrow> string \<Rightarrow> string" where
  "strip_by P s = rstrip_by P (lstrip_by P s)"

definition folder_parts :: "string \<Rightarrow> string list" where
  "folder_parts s = filter (\<lambda>p. strip p \<noteq> [])
     (split_on (CHR ''/'') (strip_by (\<lambda>c. c = CHR ''/'') (strip s)))"

definition check_folder :: "string \<Rightarrow> pyval \<Rightarrow> string res" where
  "check_folder nid folder = (if folder = PNone then Inr []
     else (let f = py_str folder; parts = folder_parts f in
       if 200 < length f \<or> char_of (92::nat) \<in> set f
          \<or> list_ex (\<lambda>p. strip p \<in> {''.'', ''..''}) parts \<or> list_ex (\<lambda>c. code c < 32) f
       then Inl (node_err ''dossier de destination invalide'' ''file_save_folder_invalid'' nid)
       else Inr (join ''/'' (map strip parts))))"

text \<open>\<open>_TEMPLATE.search\<close> and \<open>_TEMPLATE.sub("x", s)\<close>\<close>

definition has_template :: "string \<Rightarrow> bool" where
  "has_template s = (fst (finditer [] s) \<noteq> [])"

definition sub_x :: "string \<Rightarrow> string" where
  "sub_x s = (case finditer [] s of (ms, tail) \<Rightarrow> concat (map (\<lambda>(lit, _). lit @ ''x'') ms) @ tail)"

definition validate_file_save :: "wnode \<Rightarrow> unit res" where
  "validate_file_save n = (let i = n_id n; provider = cfg0 n ''provider'';
       conflict = por (cfg0 n ''conflict'') (PStr ''rename'');
       folder = por (cfg0 n ''folder'') (PStr []) in checks
    [raise_if (\<not> py_in provider [PStr ''onedrive''])
       (node_value_err ''stockage inconnu'' ''file_save_provider_unknown'' i provider),
     raise_if (blank_or_not_str (cfg0 n ''file''))
       (node_err ''fichier a deposer manquant'' ''file_save_file_missing'' i),
     raise_if (\<not> py_in conflict [PStr ''rename'', PStr ''replace'', PStr ''fail''])
       (node_value_err ''conflict inconnu'' ''file_save_conflict_unknown'' i conflict),
     (if has_template (py_str folder)
      then ebind (check_folder i (PStr (sub_x (py_str folder)))) (\<lambda>_. Inr ())
      else ebind (check_folder i folder) (\<lambda>_. Inr ()))])"

subsection \<open>\<open>_validate_classifier\<close>, \<open>_validate_db_write\<close>\<close>

definition jev_route_check :: "pyval \<Rightarrow> unit res" where
  "jev_route_check r = ebind (attr_get r ''route'') (\<lambda>x.
     if x = PStr ''uncertain'' then Inl (gerr ''la route uncertain est reservee'')
     else ebind (attr_get r ''description'') (\<lambda>d.
       raise_if (blank_or_not_str d) (gerr ''route sans description'')))"

definition confidence_ok :: "pyval \<Rightarrow> bool" where
  "confidence_ok v = (case v of PInt i \<Rightarrow> 0 < i \<and> i \<le> 1
     | PFloat f \<Rightarrow> flt (Fin 0) f \<and> fle f (Fin 1) | _ \<Rightarrow> False)"

definition validate_classifier :: "wnode \<Rightarrow> unit res" where
  "validate_classifier n = (let engine = get1 (n_config n) ''engine'' (PStr ''agent'') in
     if \<not> py_in engine [PStr ''agent'', PStr ''jev''] then Inl (gerr ''engine inconnu'')
     else if engine \<noteq> PStr ''jev'' then Inr ()
     else ebind (each (n_config n) ''routes'') (\<lambda>rs.
          ebind (eall jev_route_check rs) (\<lambda>_.
          raise_if (\<not> confidence_ok (get1 (n_config n) ''min_confidence'' (PFloat (round_double (7/10)))))
            (gerr ''min_confidence doit etre un nombre dans ]0, 1]''))))"

definition validate_db_write :: "wnode \<Rightarrow> unit res" where
  "validate_db_write n = checks
    [raise_if (case cfg0 n ''connection'' of PStr s \<Rightarrow> \<not> tool_config_ref_ok s | _ \<Rightarrow> True)
       (gerr ''connection doit designer une connexion base enregistree''),
     raise_if (case cfg0 n ''table'' of
         PStr s \<Rightarrow> (let ps = split_on (CHR ''.'') s in 2 < length ps \<or> \<not> list_all sql_ident_ok ps)
       | _ \<Rightarrow> True)
       (gerr ''table invalide''),
     (case cfg0 n ''values'' of
        PDict vs \<Rightarrow>
          if vs = [] \<or> 50 < length vs then Inl (gerr ''values doit associer de 1 a 50 colonnes'')
          else eall (\<lambda>(col, _). raise_if (\<not> sql_ident_ok col) (gerr ''nom de colonne invalide'')) vs
      | _ \<Rightarrow> Inl (gerr ''values doit associer de 1 a 50 colonnes''))]"

subsection \<open>\<open>_validate_error_handling\<close>\<close>

definition validate_error_handling :: "wnode \<Rightarrow> unit res" where
  "validate_error_handling n = (let i = n_id n; raw = cfg0 n ''on_error'' in
     ebind (raise_if (n_type n = TTool \<and> raw \<noteq> PNone
         \<and> \<not> py_in raw [PStr ''fail'', PStr ''continue'', PStr ''route''])
       (node_value_err ''on_error inconnu'' ''on_error_unknown'' i raw)) (\<lambda>_.
     ebind (if on_error n = ORoute \<and> n_type n = TClassifier
            then ebind (each (n_config n) ''routes'')
              (eany (\<lambda>r. map_sum id (\<lambda>x. x = PStr ''error'') (attr_get r ''route'')))
            else Inr False) (\<lambda>conflict.
     ebind (raise_if conflict (node_err ''la route error est reservee'' ''on_error_route_conflict'' i)) (\<lambda>_.
     raise_if (cfg0 n ''timeout_s'' \<noteq> PNone \<and> n_type n = TSubworkflow \<and> \<not> int_in 1 3600 (cfg0 n ''timeout_s''))
       (gcode ''timeout_s invalide'' ''node_timeout_invalid''
         [(''node'', PStr i), (''min'', PStr ''1''), (''max'', PStr ''3600'')])))))"

subsection \<open>The remaining sections of \<open>validate_node\<close>\<close>

definition validate_output_type :: "wnode \<Rightarrow> unit res" where
  "validate_output_type n = checks
    [raise_if (n_type n \<in> {TAgent, TTool}
         \<and> \<not> py_in (get1 (n_config n) ''output_type'' (PStr ''any'')) [PStr ''any'', PStr ''text'', PStr ''json''])
       (node_value_err ''type de sortie inconnu'' ''output_type_unknown'' (n_id n) (cfg0 n ''output_type'')),
     raise_if (n_type n = TAgent
         \<and> \<not> py_in (get1 (n_config n) ''on_question'' (PStr ''continue'')) [PStr ''continue'', PStr ''fail''])
       (node_value_err ''on_question inconnu'' ''on_question_unknown'' (n_id n) (cfg0 n ''on_question''))]"

definition validate_agent_id :: "wnode \<Rightarrow> unit res" where
  "validate_agent_id n = raise_if (n_type n \<in> {TAgent, TClassifier, TExtract, TRag}
       \<and> \<not> (n_type n = TClassifier \<and> cfg0 n ''engine'' = PStr ''jev'') \<and> \<not> truthy (cfg0 n ''agent_id''))
     (gerr ''agent_id manquant'')"

definition validate_subworkflow :: "venv \<Rightarrow> wnode \<Rightarrow> unit res" where
  "validate_subworkflow env n = (case cfg0 n ''workflow_id'' of
     PStr target \<Rightarrow> checks
       [raise_if (blank target) (gerr ''workflow_id manquant''),
        raise_if (v_workflow env = Some target)
          (gcode ''un workflow ne peut pas s appeler lui-meme'' ''subworkflow_cycle''
            [(''node'', PStr (n_id n)), (''workflow'', PStr target)])]
   | _ \<Rightarrow> Inl (gerr ''workflow_id manquant''))"

definition validate_set :: "wnode \<Rightarrow> unit res" where
  "validate_set n = (if \<not> truthy (cfg0 n ''fields'') then Inl (gerr ''aucun champ a definir'')
     else ebind (each (n_config n) ''fields'') (\<lambda>fs.
       let keys = map (\<lambda>f. case f of PDict d \<Rightarrow> get0 d ''key'' | _ \<Rightarrow> PNone) fs in checks
         [raise_if (\<not> list_all str_not_blank keys) (gerr ''cle de champ vide''),
          raise_if (dupes_of (map str_of keys) \<noteq> []) (gerr ''cle de champ dupliquee'')]))"

definition validate_condition :: "wnode \<Rightarrow> unit res" where
  "validate_condition n = checks
    [raise_if (\<not> truthy (cfg0 n ''rules'')) (gerr ''aucune regle de condition''),
     raise_if (\<not> py_in (get1 (n_config n) ''match'' (PStr ''all'')) [PStr ''all'', PStr ''any''])
       (gerr ''match inconnu'')]"

definition validate_rag :: "wnode \<Rightarrow> unit res" where
  "validate_rag n = checks
    [raise_if (\<not> truthy (cfg0 n ''query'')) (gerr ''query manquant''),
     raise_if (\<not> int_in 1 20 (get1 (n_config n) ''top_k'' (PInt 5))) (gerr ''top_k invalide'')]"

definition http_header_check :: "pyval \<Rightarrow> unit res" where
  "http_header_check h = (case h of
     PDict d \<Rightarrow> (let key = lower (strip (py_str (get1 d ''key'' (PStr [])))) in checks
       [raise_if (key \<in> {''authorization'', ''proxy-authorization'', ''cookie'', ''x-api-key''})
          (gerr ''en-tete secret interdit en clair''),
        raise_if (key = ''host'') (gerr ''en-tete Host fixe par le moteur'')])
   | _ \<Rightarrow> Inl (PyError ''AttributeError''))"

definition validate_http :: "wnode \<Rightarrow> unit res" where
  "validate_http n = checks
    [raise_if (\<not> py_in (cfg0 n ''method'') (map PStr [''GET'', ''POST'', ''PUT'', ''PATCH'', ''DELETE'']))
       (gerr ''methode HTTP inconnue''),
     raise_if (\<not> truthy (cfg0 n ''url'')) (gerr ''url manquante''),
     ebind (each (n_config n) ''headers'') (eall http_header_check),
     raise_if (\<not> int_in 1 30 (get1 (n_config n) ''timeout_s'' (PInt 15))) (gerr ''timeout_s invalide''),
     raise_if (cfg0 n ''auth'' \<noteq> PNone) (gerr ''authentification HTTP pas encore disponible'')]"

definition notification_attachments :: "wnode \<Rightarrow> unit res" where
  "notification_attachments n = (let a = cfg0 n ''attachments'' in
     if py_in a [PNone, PStr [], PList []] then Inr ()
     else checks
       [raise_if (cfg0 n ''channel'' \<noteq> PStr ''email'')
          (node_err ''pieces jointes : email seulement'' ''notification_attachments_email_only'' (n_id n)),
        raise_if (\<not> is_str a \<and> \<not> is_list a)
          (node_err ''attachments invalide'' ''notification_attachment_bad_ref'' (n_id n))])"

definition validate_notification :: "wnode \<Rightarrow> unit res" where
  "validate_notification n = (let channel = cfg0 n ''channel''; dest = por (cfg0 n ''to'') (PList []) in
     ebind (in_set_res channel [''email'', ''app'', ''teams'']) (\<lambda>known.
     ebind (raise_if (\<not> known) (gerr ''canal de notification inconnu'')) (\<lambda>_.
     ebind (notification_attachments n) (\<lambda>_.
     if channel = PStr ''email''
     then checks
       [raise_if (case dest of PList xs \<Rightarrow> xs = [] \<or> 10 < length xs | _ \<Rightarrow> True)
          (gerr ''de 1 a 10 destinataires requis''),
        raise_if (\<not> truthy (cfg0 n ''subject'')) (gerr ''subject manquant'')]
     else if channel = PStr ''app'' \<and> truthy dest then Inl (gerr ''to doit etre vide (app)'')
     else if channel = PStr ''teams''
     then checks
       [raise_if (truthy dest) (gerr ''to doit etre vide (teams)''),
        raise_if (\<not> truthy (cfg0 n ''subject'')) (gerr ''subject manquant'')]
     else Inr ()))))"

subsection \<open>\<open>validate_node\<close>, with the validation of a body as an argument\<close>

definition body_graph :: "(wgraph \<Rightarrow> unit res) \<Rightarrow> wnode \<Rightarrow> wgraph res" where
  "body_graph vg n = (case cfg0 n ''body'' of
     PDict d \<Rightarrow> (case parse_graph (PDict d) of
         None \<Rightarrow> Inl (gerr (n_id n @ '' (corps) : graphe mal forme''))
       | Some body \<Rightarrow> (case vg body of
           Inl (GraphError m c ps) \<Rightarrow> Inl (gerr (n_id n @ '' (corps) : '' @ m))
         | Inl (PyError cls) \<Rightarrow> (if cls = ''ValueError''
             then Inl (gerr (n_id n @ '' (corps) : graphe mal forme'')) else Inl (PyError cls))
         | Inl e \<Rightarrow> Inl e
         | Inr _ \<Rightarrow> ebind (refuse_nested_decision n body) (\<lambda>_.
             if length (filter (\<lambda>m. n_type m = TTrigger) (g_nodes body)) \<noteq> 1
             then Inl (gerr (n_id n @ '' (corps) : il faut exactement un declencheur''))
             else Inr body)))
   | _ \<Rightarrow> Inl (gerr (n_id n @ '' : body manquant (le sous-graphe a executer)'')))"

definition loop_body :: "(wgraph \<Rightarrow> unit res) \<Rightarrow> wnode \<Rightarrow> wgraph res" where
  "loop_body vg n = ebind (loop_guards n) (\<lambda>_. body_graph vg n)"

definition try_config :: "(wgraph \<Rightarrow> unit res) \<Rightarrow> wnode \<Rightarrow> wgraph res" where
  "try_config vg n = ebind (try_guards n) (\<lambda>_. ebind (body_graph vg n) (\<lambda>body.
     ebind (try_body_ok body) (\<lambda>_. Inr body)))"

definition when_type :: "wnode \<Rightarrow> node_type \<Rightarrow> unit res \<Rightarrow> unit res" where
  "when_type n t c = (if n_type n = t then c else Inr ())"

definition validate_node_with :: "(wgraph \<Rightarrow> unit res) \<Rightarrow> venv \<Rightarrow> wnode \<Rightarrow> unit res" where
  "validate_node_with vg env n = checks
    [when_type n TApproval (validate_approval n),
     validate_output_type n,
     when_type n TClassifier (validate_classifier n),
     validate_agent_id n,
     when_type n TDocument (raise_if (blank_or_not_str (cfg0 n ''files'')) (gerr ''files manquant'')),
     when_type n TDbWrite (validate_db_write n),
     when_type n TFile (validate_file n),
     when_type n TFileSave (validate_file_save n),
     when_type n TTool (raise_if (\<not> truthy (cfg0 n ''tool'')) (gerr ''outil manquant'')),
     validate_error_handling n,
     when_type n TRouter (raise_if (\<not> truthy (cfg0 n ''rules'')) (gerr ''aucune regle de routage'')),
     when_type n TClassifier (ebind (declared_routes n) (\<lambda>rs.
       raise_if (length rs < 2) (gerr ''un classifieur demande au moins deux routes''))),
     when_type n TLoop (ebind (loop_body vg n) (\<lambda>_. Inr ())),
     when_type n TTry (ebind (try_config vg n) (\<lambda>_. Inr ())),
     when_type n TSubworkflow (validate_subworkflow env n),
     when_type n TConvert (raise_if
       (\<not> py_in (cfg0 n ''to'') (map PStr [''text'', ''json'', ''number'', ''boolean'', ''list'', ''csv'', ''date'']))
       (gerr ''conversion inconnue'')),
     when_type n TTrigger (validate_trigger_config env (n_id n) (n_config n)),
     when_type n TSet (validate_set n),
     when_type n TCondition (validate_condition n),
     when_type n TExtract (validate_extract_fields n),
     when_type n TRag (validate_rag n),
     when_type n THttp (validate_http n),
     when_type n TNotification (validate_notification n)]"

subsection \<open>\<open>validate_graph\<close>\<close>

definition graph_ids_checks :: "wgraph \<Rightarrow> unit res" where
  "graph_ids_checks g = checks
    [raise_if (g_nodes g = []) (gerr ''graphe vide''),
     raise_if (dupes_of (node_ids g) \<noteq> []) (gerr ''identifiant de noeud duplique''),
     (let ts = map n_id (filter (\<lambda>n. n_type n = TTrigger) (g_nodes g)) in
       raise_if (1 < length ts) (gcode ''un seul declencheur par workflow'' ''single_trigger''
         [(''triggers'', PStr (join '', '' ts))])),
     eall (\<lambda>e. eall (\<lambda>i. raise_if (i \<notin> set (node_ids g)) (gerr (''arete vers un noeud inconnu : '' @ i)))
       [e_source e, e_target e]) (g_edges g)]"

definition edge_check :: "wgraph \<Rightarrow> wedge \<Rightarrow> unit res" where
  "edge_check g e = ebind (of_opt (PyError ''KeyError'') (find_node g (e_source e))) (\<lambda>src.
     if n_type src = TOutput then Inl (gerr ''un noeud output termine le flux'')
     else if is_routed src then ebind (declared_routes src) (\<lambda>rs.
       raise_if (\<not> py_in (opt_pstr (e_route e)) rs) (gerr ''route non declaree''))
     else if routes_on_error src then
       raise_if (e_route e \<notin> {None, Some ''error''})
         (gcode ''sortie error seulement'' ''on_error_route_unknown''
           [(''node'', PStr (e_source e)), (''route'', PStr (py_str (opt_pstr (e_route e))))])
     else if e_route e = Some ''error'' \<and> n_type src \<in> set ON_ERROR_TYPES then
       Inl (node_err ''une sortie d erreur demande on_error: route'' ''on_error_route_unexpected'' (e_source e))
     else raise_if (e_route e \<noteq> None) (gerr ''route sur un noeud qui ne route pas''))"

definition has_edge :: "wgraph \<Rightarrow> string \<Rightarrow> string \<Rightarrow> bool" where
  "has_edge g i r = list_ex (\<lambda>e. e_source e = i \<and> e_route e = Some r) (g_edges g)"

definition used_routes :: "wgraph \<Rightarrow> string \<Rightarrow> string list" where
  "used_routes g i = concat (map (\<lambda>e. case e_route e of Some r \<Rightarrow> if r = [] then [] else [r] | None \<Rightarrow> [])
     (filter (\<lambda>e. e_source e = i) (g_edges g)))"

definition outgoing_check :: "wgraph \<Rightarrow> wnode \<Rightarrow> unit res" where
  "outgoing_check g n = checks
    [raise_if (routes_on_error n \<and> \<not> has_edge g (n_id n) ''error'')
       (node_err ''branchez la sortie error'' ''on_error_route_missing'' (n_id n)),
     raise_if (n_type n = TApproval \<and> decision_mode n = PStr ''both'' \<and> \<not> has_edge g (n_id n) ''text'')
       (node_err ''branchez la route text'' ''approval_text_route_missing'' (n_id n)),
     raise_if (n_type n \<in> {TTry, TCondition} \<and> dupes_of (used_routes g (n_id n)) \<noteq> [])
       (gerr ''au plus une arete par route'')]"

definition graph_order :: "wgraph \<Rightarrow> string list res" where
  "graph_order g = map_sum id snd (visit_all (parents_of g) (node_ids g))"

definition ref_check :: "wgraph \<Rightarrow> string list \<Rightarrow> wnode \<Rightarrow> unit res" where
  "ref_check g anc n =
     ebind (eall (\<lambda>r. checks
        [raise_if (r \<notin> set (node_ids g)) (gerr (n_id n @ '' : reference inconnue '' @ r)),
         raise_if (r \<notin> set anc) (gerr (n_id n @ '' : '' @ r @ '' n est pas en amont''))]) (outer_refs n)) (\<lambda>_.
     case template_paths n of (outer, iteration) \<Rightarrow>
     ebind (eall (\<lambda>(r, p). ebind (of_opt (PyError ''KeyError'') (find_node g r)) (\<lambda>t.
        check_template_path (n_id n) r p t g)) outer) (\<lambda>_.
     eall (\<lambda>p. case first_segment p of None \<Rightarrow> Inr () | Some seg \<Rightarrow>
        raise_if (seg \<notin> {''output'', ''index''})
          (template_invalid ''iteration n a que output et index'' (n_id n) (''iteration'' @ p))) iteration))"

definition refs_check :: "wgraph \<Rightarrow> (string \<times> string list) list \<Rightarrow> unit res" where
  "refs_check g anc = eall (\<lambda>n. ebind (of_opt (PyError ''KeyError'') (dget anc (n_id n)))
     (\<lambda>xs. ref_check g xs n)) (g_nodes g)"

definition validate_graph_with :: "(wnode \<Rightarrow> unit res) \<Rightarrow> wgraph \<Rightarrow> unit res" where
  "validate_graph_with vn g =
     ebind (graph_ids_checks g) (\<lambda>_.
     ebind (eall vn (g_nodes g)) (\<lambda>_.
     ebind (eall (edge_check g) (g_edges g)) (\<lambda>_.
     ebind (eall (outgoing_check g) (g_nodes g)) (\<lambda>_.
     ebind (graph_order g) (\<lambda>ord.
     ebind (ancestors (parents_of g) ord) (refs_check g))))))"

lemma body_graph_cong [fundef_cong]:
  assumes "n = n'" "\<And>body. parse_graph (cfg0 n' ''body'') = Some body \<Longrightarrow> vg body = vg' body"
  shows "body_graph vg n = body_graph vg' n'"
  using assms by (auto simp: body_graph_def split: pyval.splits option.splits)

lemma validate_node_with_cong [fundef_cong]:
  assumes "env = env'" "n = n'"
    and "\<And>body. parse_graph (cfg0 n' ''body'') = Some body \<Longrightarrow> vg body = vg' body"
  shows "validate_node_with vg env n = validate_node_with vg' env' n'"
  using assms body_graph_cong[OF refl, of n' vg vg']
  by (simp add: validate_node_with_def loop_body_def try_config_def)

lemma validate_graph_with_cong [fundef_cong]:
  assumes "g = g'" "\<And>n. n \<in> set (g_nodes g') \<Longrightarrow> vn n = vn' n"
  shows "validate_graph_with vn g = validate_graph_with vn' g'"
  using assms eall_cong[OF refl, of "g_nodes g'" vn vn'] by (simp add: validate_graph_with_def)

text \<open>A body is validated with the workflow's identifier, without its owner.\<close>

function validate_graph :: "venv \<Rightarrow> wgraph \<Rightarrow> unit res" where
  "validate_graph env g =
     validate_graph_with (\<lambda>n. validate_node_with
       (\<lambda>body. validate_graph (env\<lparr>v_owner := None\<rparr>) body) env n) g"
  by pat_completeness auto
termination
proof (relation "measure (\<lambda>(env, g). graph_size g)", simp, goal_cases)
  case (1 env g n body)
  then have "graph_size body < psize (cfg0 n ''body'')" by (simp add: parse_graph_size)
  also have "psize (cfg0 n ''body'') \<le> node_size n"
  proof (cases "dget (n_config n) ''body''")
    case None
    with 1 show ?thesis by (simp add: get0_def parse_graph_def)
  next
    case (Some w)
    then show ?thesis using psize_dget[OF Some] by (simp add: get0_def node_size_def)
  qed
  also have "node_size n \<le> graph_size g" using 1 by (simp add: node_size_le)
  finally show ?case by simp
qed

declare validate_graph.simps [simp del]

definition validate_node :: "venv \<Rightarrow> wnode \<Rightarrow> unit res" where
  "validate_node env n = validate_node_with (validate_graph (env\<lparr>v_owner := None\<rparr>)) env n"

lemma validate_graph_unfold: "validate_graph env g = validate_graph_with (validate_node env) g"
  by (subst validate_graph.simps) (simp add: validate_node_def[abs_def])

subsection \<open>What an accepted node is\<close>

lemma dupes_of_Nil [simp]: "dupes_of xs = [] \<longleftrightarrow> distinct xs"
proof -
  have "(\<forall>x \<in> set xs. \<not> 1 < count_list xs x) \<longleftrightarrow> distinct xs"
  proof (induction xs)
    case (Cons a xs)
    have "count_list xs a = 0 \<longleftrightarrow> a \<notin> set xs" by (simp add: count_list_0_iff)
    with Cons show ?case by (auto simp: less_Suc_eq_0_disj not_less le_Suc_eq)
  qed simp
  then show ?thesis
    by (metis (no_types, lifting) dedup_eq_Nil dupes_of_def filter_False filter_empty_conv
        length_0_conv length_sort)
qed

lemma when_type_eq_Inr [err_simps, simp]: "when_type n t c = Inr u \<longleftrightarrow> (n_type n = t \<longrightarrow> c = Inr u)"
  by (simp add: when_type_def)

lemma validate_node_checks:
  assumes "validate_node_with vg env n = Inr ()"
  shows "n_type n = TApproval \<Longrightarrow> validate_approval n = Inr ()"
    and "n_type n = TClassifier \<Longrightarrow> validate_classifier n = Inr ()"
    and "n_type n = TDbWrite \<Longrightarrow> validate_db_write n = Inr ()"
    and "n_type n = TFile \<Longrightarrow> validate_file n = Inr ()"
    and "n_type n = TFileSave \<Longrightarrow> validate_file_save n = Inr ()"
    and "validate_error_handling n = Inr ()"
    and "n_type n = TLoop \<Longrightarrow> \<exists>body. loop_body vg n = Inr body"
    and "n_type n = TTry \<Longrightarrow> \<exists>body. try_config vg n = Inr body"
    and "n_type n = TSubworkflow \<Longrightarrow> validate_subworkflow env n = Inr ()"
    and "n_type n = TTrigger \<Longrightarrow> validate_trigger_config env (n_id n) (n_config n) = Inr ()"
    and "n_type n = TSet \<Longrightarrow> validate_set n = Inr ()"
    and "n_type n = TExtract \<Longrightarrow> validate_extract_fields n = Inr ()"
    and "n_type n = THttp \<Longrightarrow> validate_http n = Inr ()"
    and "n_type n = TNotification \<Longrightarrow> validate_notification n = Inr ()"
    and "n_type n = TRag \<Longrightarrow> validate_rag n = Inr ()"
  using assms unfolding validate_node_with_def by (simp_all add: checks_eq_Inr ebind_eq_Inr)

lemma body_graph_Inr:
  assumes "body_graph vg n = Inr body"
  shows "parse_graph (cfg0 n ''body'') = Some body \<and> vg body = Inr ()
    \<and> (\<forall>m \<in> set (g_nodes body). n_type m \<noteq> TApproval)
    \<and> length (filter (\<lambda>m. n_type m = TTrigger) (g_nodes body)) = 1"
proof -
  from assms obtain d where d: "cfg0 n ''body'' = PDict d"
    by (auto simp: body_graph_def split: pyval.splits)
  with assms obtain b where b: "parse_graph (PDict d) = Some b"
    by (auto simp: body_graph_def split: option.splits)
  with assms d have v: "vg b = Inr ()"
    by (auto simp: body_graph_def split: sum.splits exn.splits if_splits)
  with assms d b have r: "refuse_nested_decision n b = Inr ()" "b = body"
    "length (filter (\<lambda>m. n_type m = TTrigger) (g_nodes body)) = 1"
    by (auto simp: body_graph_def ebind_eq_Inr split: if_splits)
  then have "filter (\<lambda>m. n_type m = TApproval) (g_nodes body) = []"
    by (auto simp: refuse_nested_decision_def split: list.splits)
  with r b v d show ?thesis by (auto simp: filter_empty_conv)
qed

subsection \<open>What an accepted graph is\<close>

lemma graph_ids_checks_Inr:
  assumes "graph_ids_checks g = Inr ()"
  shows "g_nodes g \<noteq> []" "distinct (node_ids g)"
    "length (filter (\<lambda>n. n_type n = TTrigger) (g_nodes g)) \<le> 1"
    "\<And>e. e \<in> set (g_edges g) \<Longrightarrow> e_source e \<in> set (node_ids g) \<and> e_target e \<in> set (node_ids g)"
  using assms unfolding graph_ids_checks_def
  by (simp_all add: checks_eq_Inr eall_eq_Inr ebind_eq_Inr Let_def)

lemma parents_closed:
  assumes "graph_ids_checks g = Inr ()"
  shows "set (parents_of g i) \<subseteq> set (node_ids g)" "parents_of g i \<noteq> [] \<Longrightarrow> i \<in> set (node_ids g)"
  using graph_ids_checks_Inr(4)[OF assms] by (auto simp: parents_of_def filter_empty_conv)

lemma graph_order_Inr:
  assumes "graph_ids_checks g = Inr ()" "graph_order g = Inr ord"
  shows "distinct ord" "topo (parents_of g) ord" "set (node_ids g) \<subseteq> set ord" "acyclic (edge_rel g)"
proof -
  from assms(2) obtain st where v: "visit_all (parents_of g) (node_ids g) = Inr (st, ord)"
    by (cases "visit_all (parents_of g) (node_ids g)") (auto simp: graph_order_def)
  from visit_all_Inr[OF v] show "distinct ord" "topo (parents_of g) ord" "set (node_ids g) \<subseteq> set ord"
    by auto
  show "acyclic (edge_rel g)"
    using visit_all_result[of "node_ids g" "parents_of g"] parents_closed[OF assms(1)] v
    by (auto simp: parent_rel_parents_of)
qed

lemma validate_graph_parts:
  assumes "validate_graph env g = Inr ()"
  shows "graph_ids_checks g = Inr ()"
    and "\<And>n. n \<in> set (g_nodes g) \<Longrightarrow> validate_node env n = Inr ()"
    and "\<And>e. e \<in> set (g_edges g) \<Longrightarrow> edge_check g e = Inr ()"
    and "\<And>n. n \<in> set (g_nodes g) \<Longrightarrow> outgoing_check g n = Inr ()"
    and "\<exists>ord anc. graph_order g = Inr ord \<and> ancestors (parents_of g) ord = Inr anc \<and> refs_check g anc = Inr ()"
  using assms unfolding validate_graph_unfold validate_graph_with_def
  by (auto simp: ebind_eq_Inr eall_eq_Inr)

lemma accepted_refs:
  assumes "validate_graph env g = Inr ()" "n \<in> set (g_nodes g)"
  shows "\<exists>xs. ref_check g xs n = Inr () \<and> set xs = {x. (x, n_id n) \<in> (edge_rel g)\<^sup>+}"
proof -
  from validate_graph_parts(5)[OF assms(1)] obtain ord anc where o: "graph_order g = Inr ord"
    and a: "ancestors (parents_of g) ord = Inr anc" and r: "refs_check g anc = Inr ()" by blast
  note ids = validate_graph_parts(1)[OF assms(1)]
  note ord = graph_order_Inr[OF ids o]
  have "n_id n \<in> set ord" using assms(2) ord(3) by (auto simp: node_ids_def)
  with ancestors_ok[OF ord(2)] a obtain xs where xs: "dget anc (n_id n) = Some xs"
    "set xs = {x. (x, n_id n) \<in> (edge_rel g)\<^sup>+}" by (auto simp: parent_rel_parents_of)
  with r assms(2) have "ref_check g xs n = Inr ()"
    by (auto simp: refs_check_def eall_eq_Inr ebind_eq_Inr)
  with xs show ?thesis by blast
qed

lemma ref_check_upstream:
  "ref_check g xs n = Inr () \<Longrightarrow> r \<in> set (outer_refs n) \<Longrightarrow> r \<in> set (node_ids g) \<and> r \<in> set xs"
  by (auto simp: ref_check_def ebind_eq_Inr eall_eq_Inr checks_eq_Inr)

subsection \<open>Properties of the field validators\<close>

definition folder_ok :: "string \<Rightarrow> bool" where
  "folder_ok f = (list_all (\<lambda>p. p \<noteq> ''.'' \<and> p \<noteq> ''..'') (split_on (CHR ''/'') f)
     \<and> char_of (92::nat) \<notin> set f \<and> list_all (\<lambda>c. 32 \<le> code c) f \<and> \<not> starts_with ''/'' f)"

lemma set_join: "set (join sep ps) \<subseteq> set sep \<union> \<Union> (set ` set ps)"
  by (induction sep ps rule: join.induct) auto

lemma strip_by_subset: "set (strip_by P s) \<subseteq> set s"
proof -
  obtain t where t: "lstrip_by P s = strip_by P s @ t"
    using rstrip_prefix[of "lstrip_by P s" P] unfolding strip_by_def by blast
  have "set (lstrip_by P s) \<subseteq> set s" by (auto simp: lstrip_by_def dest: set_dropWhileD)
  with t show ?thesis by simp
qed

lemma split_on_chars: "p \<in> set (split_on c s) \<Longrightarrow> set p \<subseteq> set s"
proof (induction s arbitrary: p)
  case (Cons x s)
  obtain q qs where q: "split_on c s = q # qs" by (cases "split_on c s") auto
  then have "set q \<subseteq> set s" "\<forall>r \<in> set qs. set r \<subseteq> set s" using Cons.IH by auto
  with q Cons.prems show ?case by (auto split: if_splits)
qed simp

text \<open>A destination folder that is accepted has no segment \<open>.\<close> or \<open>..\<close>, no backslash, no
  control character, and is relative.\<close>

theorem checked_folder_is_inside:
  assumes "check_folder nid v = Inr f"
  shows "folder_ok f"
proof (cases "v = PNone \<or> folder_parts (py_str v) = []")
  case True
  with assms have "f = []" by (auto simp: check_folder_def Let_def split: if_splits)
  then show ?thesis by (simp add: folder_ok_def starts_with_def)
next
  case False
  let ?s = "py_str v" and ?ps = "map strip (folder_parts (py_str v))"
  from assms False have f: "f = join ''/'' ?ps" and ps: "\<forall>p \<in> set ?ps. p \<noteq> ''.'' \<and> p \<noteq> ''..''"
    and bs: "char_of (92::nat) \<notin> set ?s" and ctl: "\<forall>c \<in> set ?s. 32 \<le> code c"
    by (auto simp: check_folder_def Let_def list_ex_iff split: if_splits)
  have part: "p \<noteq> [] \<and> CHR ''/'' \<notin> set p \<and> set p \<subseteq> set ?s" if "p \<in> set ?ps" for p
  proof -
    from that obtain q where q: "p = strip q" "strip q \<noteq> []"
      "q \<in> set (split_on (CHR ''/'') (strip_by (\<lambda>c. c = CHR ''/'') (strip ?s)))"
      by (auto simp: folder_parts_def)
    have "set q \<subseteq> set ?s"
      using split_on_chars[OF q(3)] strip_by_subset[of "\<lambda>c. c = CHR ''/''" "strip ?s"] set_strip[of ?s] by blast
    with q set_strip[of q] split_on_no_sep[OF q(3)] show ?thesis by auto
  qed
  have split: "split_on (CHR ''/'') f = ?ps"
    unfolding f by (rule split_on_join) (use False part in auto)
  have "\<Union> (set ` set ?ps) \<subseteq> set ?s" using part by (intro UN_least) blast
  moreover have "set f \<subseteq> insert (CHR ''/'') (\<Union> (set ` set ?ps))"
    using set_join[of "''/''" ?ps] unfolding f by simp
  ultimately have "set f \<subseteq> insert (CHR ''/'') (set ?s)" by blast
  moreover have "code (CHR ''/'') = 47" "char_of (92::nat) \<noteq> CHR ''/''" by code_simp+
  moreover have "\<not> starts_with ''/'' f"
  proof
    assume "starts_with ''/'' f"
    then obtain t where "f = CHR ''/'' # t" by (cases f) (auto simp: starts_with_def)
    then have "[] \<in> set ?ps" using split by (metis list.set_intros(1) split_on.simps(2))
    with part show False by blast
  qed
  ultimately show ?thesis using split ps bs ctl by (auto simp: folder_ok_def list_all_iff)
qed

lemma checked_folder_is_inside_witness: "folder_ok ''Reports/2026''"
proof (rule checked_folder_is_inside)
  show "check_folder ''n'' (PStr '' /Reports// 2026/ '') = Inr ''Reports/2026''" by code_simp
qed

definition sql_chars :: "string \<Rightarrow> bool" where
  "sql_chars s = list_all (\<lambda>c. is_ident_char c \<or> code c = 10) s"

lemma sql_ident_chars: "sql_ident_ok s \<Longrightarrow> s \<noteq> [] \<and> sql_chars s"
proof -
  have id: "ident t \<Longrightarrow> t \<noteq> [] \<and> list_all is_ident_char t" for t
    by (cases t) (auto simp: ident_def is_ident_char_def)
  assume "sql_ident_ok s"
  then consider "ident s" | "s \<noteq> []" "code (last s) = 10" "ident (butlast s)"
    by (auto simp: sql_ident_ok_def dollar_def)
  then show ?thesis
  proof cases
    case 1
    with id show ?thesis by (auto simp: sql_chars_def list_all_iff)
  next
    case 2
    then obtain t c where s: "s = t @ [c]" by (cases s rule: rev_cases) auto
    with 2 id[of t] show ?thesis by (auto simp: sql_chars_def list_all_iff)
  qed
qed

text \<open>A database write that is accepted names its connection by reference, and its table (one or two
  parts) and every column consist of letters, digits and underscores (a final newline apart), so
  neither a quote, a space, a semicolon nor a dash can reach the statement.\<close>

theorem accepted_db_write_identifiers:
  assumes "validate_db_write n = Inr ()"
  shows "\<exists>conn table vs. cfg0 n ''connection'' = PStr conn \<and> tool_config_ref_ok conn
    \<and> cfg0 n ''table'' = PStr table \<and> length (split_on (CHR ''.'') table) \<le> 2
    \<and> (\<forall>p \<in> set (split_on (CHR ''.'') table). p \<noteq> [] \<and> sql_chars p)
    \<and> cfg0 n ''values'' = PDict vs \<and> vs \<noteq> [] \<and> length vs \<le> 50
    \<and> (\<forall>col \<in> set (dkeys vs). col \<noteq> [] \<and> sql_chars col)"
proof -
  from assms obtain conn where c: "cfg0 n ''connection'' = PStr conn" "tool_config_ref_ok conn"
    by (auto simp: validate_db_write_def ebind_eq_Inr split: pyval.splits)
  from assms obtain table where t: "cfg0 n ''table'' = PStr table"
    "length (split_on (CHR ''.'') table) \<le> 2" "list_all sql_ident_ok (split_on (CHR ''.'') table)"
    by (auto simp: validate_db_write_def ebind_eq_Inr Let_def split: pyval.splits)
  from assms obtain vs where v: "cfg0 n ''values'' = PDict vs" "vs \<noteq> []" "length vs \<le> 50"
    "\<forall>col \<in> set (dkeys vs). sql_ident_ok col"
    by (fastforce simp: validate_db_write_def ebind_eq_Inr eall_eq_Inr dkeys_def split: pyval.splits if_splits)
  from c t v show ?thesis using sql_ident_chars by (auto simp: list_all_iff)
qed

definition example_db_write :: wnode where
  "example_db_write = \<lparr>n_id = ''w'', n_type = TDbWrite, n_label = None,
     n_config = [(''connection'', PStr ''tool_config12''), (''table'', PStr ''crm.leads''),
       (''values'', PDict [(''email'', PStr ''{{t.email}}'')])], n_position = None\<rparr>"

lemma accepted_db_write_identifiers_witness:
  "\<exists>table. cfg0 example_db_write ''table'' = PStr table \<and> (\<forall>p \<in> set (split_on (CHR ''.'') table). sql_chars p)"
proof -
  have "validate_db_write example_db_write = Inr ()" by code_simp
  from accepted_db_write_identifiers[OF this] show ?thesis by blast
qed

text \<open>An answer a decision accepts fits its mode: a declared choice without text, a text without choice,
  or, when both are allowed, a declared choice or a text; the text returned is never blank.\<close>

theorem accepted_answer_fits_mode:
  assumes "check_decision_answer prompt choice text = Inr (c, t)"
  shows "c = choice \<and> t \<noteq> Some [] \<and> (case get1 prompt ''mode'' (PStr ''choices'') of
     PStr m \<Rightarrow> m \<in> {''choices'', ''text'', ''both''}
       \<and> (m = ''choices'' \<longrightarrow> t = None) \<and> (m = ''text'' \<longrightarrow> c = None \<and> t \<noteq> None)
     | _ \<Rightarrow> False)
    \<and> (c \<noteq> None \<longrightarrow> (\<exists>cs routes. each prompt ''choices'' = Inr cs
        \<and> emap (\<lambda>x. ebind (attr_get x ''route'') hashed) cs = Inr routes \<and> py_in (opt_pstr c) routes))"
  using assms unfolding check_decision_answer_def
  by (auto simp: ebind_eq_Inr Let_def split: option.splits if_splits)

definition example_prompt :: pydict where
  "example_prompt = [(''mode'', PStr ''both''), (''choices'', PList [PDict [(''route'', PStr ''yes'')]])]"

lemma accepted_answer_fits_mode_witness: "Some ''fine'' \<noteq> Some ([] :: string)"
proof -
  have "check_decision_answer example_prompt (Some ''yes'') (Some '' fine '') = Inr (Some ''yes'', Some ''fine'')"
    by code_simp
  from accepted_answer_fits_mode[OF this] show ?thesis by blast
qed

end
