(* ===== verification/Wf_Accept.thy ===== *)
theory Wf_Accept
  imports Wf_Validate
begin

section \<open>What the validation guarantees\<close>

text \<open>
  The properties of an accepted graph, over the lemmas of \<open>Wf_Validate\<close> and
  \<open>Wf_Dag\<close>, and the example graph the witnesses evaluate: a scheduled trigger, a
  condition, a \<open>foreach\<close> loop with its body, and an output that reads two nodes.
\<close>

definition example_env :: venv where
  "example_env = \<lparr>v_workflow = Some ''wf1'', v_owner = Some ''u1'', v_tz_known = (\<lambda>s. s = ''Europe/Paris''),
     v_instant = (\<lambda>_ _. None), v_now = 0, v_tool_taken = (\<lambda>_ _ _. False), v_has_workflow = (\<lambda>_ _. True)\<rparr>"

definition mk_node :: "string \<Rightarrow> node_type \<Rightarrow> pydict \<Rightarrow> wnode" where
  "mk_node i t c = \<lparr>n_id = i, n_type = t, n_label = None, n_config = c, n_position = None\<rparr>"

definition mk_edge :: "string \<Rightarrow> string \<Rightarrow> string option \<Rightarrow> wedge" where
  "mk_edge s t r = \<lparr>e_id = None, e_source = s, e_target = t, e_route = r\<rparr>"

definition mk_graph :: "wnode list \<Rightarrow> wedge list \<Rightarrow> wgraph" where
  "mk_graph ns es = \<lparr>g_nodes = ns, g_edges = es, g_tests = None, g_settings = None\<rparr>"

definition example_body :: pyval where
  "example_body = PDict [(''nodes'', PList
     [PDict [(''id'', PStr ''t''), (''type'', PStr ''trigger'')],
      PDict [(''id'', PStr ''c''), (''type'', PStr ''convert''), (''config'', PDict [(''to'', PStr ''text'')])]]),
    (''edges'', PList [PDict [(''source'', PStr ''t''), (''target'', PStr ''c'')]])]"

definition example_loop :: wnode where
  "example_loop = mk_node ''l'' TLoop [(''mode'', PStr ''foreach''), (''items'', PStr ''{{t.rows}}''),
     (''max_iterations'', PInt 10), (''body'', example_body)]"

definition example_try :: wnode where
  "example_try = mk_node ''y'' TTry [(''retries'', PInt 2), (''body'', example_body)]"

definition example_output :: wnode where
  "example_output = mk_node ''o'' TOutput [(''value'', PStr ''{{l}} of {{t}}'')]"

definition example_condition :: wnode where
  "example_condition = mk_node ''r'' TCondition
     [(''rules'', PList [PDict [(''field'', PStr ''n''), (''op'', PStr ''gt''), (''value'', PInt 3)]])]"

definition example_edge :: wedge where
  "example_edge = mk_edge ''r'' ''l'' (Some ''true'')"

definition example_graph :: wgraph where
  "example_graph = mk_graph
     [mk_node ''t'' TTrigger [(''kind'', PStr ''schedule''), (''cron'', PStr ''0 8 * * 1'')],
      example_condition, example_loop, example_output]
     [mk_edge ''t'' ''r'' None, example_edge, mk_edge ''r'' ''o'' (Some ''false''), mk_edge ''l'' ''o'' None]"

lemma example_accepted: "validate_graph example_env example_graph = Inr ()"
  by code_simp

lemma example_members:
  "example_output \<in> set (g_nodes example_graph)" "example_loop \<in> set (g_nodes example_graph)"
  "example_condition \<in> set (g_nodes example_graph)" "example_edge \<in> set (g_edges example_graph)"
  by (simp_all add: example_graph_def mk_graph_def)

subsection \<open>Shape\<close>

text \<open>C40. An accepted graph has nodes, pairwise distinct ids, at most one trigger, edges only
  between its nodes, and no cycle.\<close>

theorem accepted_shape:
  assumes "validate_graph env g = Inr ()"
  shows "g_nodes g \<noteq> [] \<and> distinct (node_ids g)
    \<and> length (filter (\<lambda>n. n_type n = TTrigger) (g_nodes g)) \<le> 1
    \<and> edge_rel g \<subseteq> set (node_ids g) \<times> set (node_ids g) \<and> acyclic (edge_rel g)"
proof -
  note ids = validate_graph_parts(1)[OF assms]
  from validate_graph_parts(5)[OF assms] obtain ord where "graph_order g = Inr ord" by blast
  from graph_order_Inr(4)[OF ids this] have "acyclic (edge_rel g)" .
  moreover have "edge_rel g \<subseteq> set (node_ids g) \<times> set (node_ids g)"
    using graph_ids_checks_Inr(4)[OF ids] by (auto simp: edge_rel_def)
  ultimately show ?thesis using graph_ids_checks_Inr(1,2,3)[OF ids] by simp
qed

lemma accepted_shape_witness: "acyclic (edge_rel example_graph) \<and> distinct (node_ids example_graph)"
  using accepted_shape[OF example_accepted] by simp

text \<open>C3. In a graph the validation accepted, every node that the templates of a node's configuration
  refer to (the body's own \<open>iteration\<close> apart) is a node of the graph, and lies strictly upstream of
  the node that refers to it: a path of one edge or more leads from the one to the other.  (Whether a
  node upstream ran at all, or sat on a route that was not taken, is decided at run time.)\<close>

theorem accepted_references_upstream:
  assumes "validate_graph env g = Inr ()" "n \<in> set (g_nodes g)" "r \<in> set (outer_refs n)"
  shows "r \<in> set (node_ids g) \<and> (r, n_id n) \<in> (edge_rel g)\<^sup>+"
  using accepted_refs[OF assms(1,2)] ref_check_upstream[OF _ assms(3)] by blast

lemma accepted_references_upstream_witness: "(''t'', ''o'') \<in> (edge_rel example_graph)\<^sup>+"
proof -
  have r: "''t'' \<in> set (outer_refs example_output)" by code_simp
  have "n_id example_output = ''o''" by code_simp
  with accepted_references_upstream[OF example_accepted example_members(1) r] show ?thesis by simp
qed

text \<open>C4. For a graph whose identifiers and edges passed the checks that come before (distinct identifiers,
  every edge between two nodes of the graph): when the edges have no cycle, the order \<open>_visit\<close>
  computes lists every node once, each after all its predecessors; when they have one, the outcome
  is the cycle error, naming a node.  The model's fuel, one more than the number of nodes, never runs out here;
  Python's own recursion limit is not part of the model (a chain of about a thousand nodes meets it,
  which is a finding of this development).\<close>

theorem graph_order_decides_cycles:
  assumes "graph_ids_checks g = Inr ()"
  shows "if acyclic (edge_rel g)
    then \<exists>ord. graph_order g = Inr ord \<and> distinct ord \<and> set (node_ids g) \<subseteq> set ord
      \<and> (\<forall>xs i ys. ord = xs @ i # ys \<longrightarrow> {s. (s, i) \<in> edge_rel g} \<subseteq> set xs)
    else \<exists>i. graph_order g = Inl (cycle_error i)"
proof (cases "visit_all (parents_of g) (node_ids g)")
  case (Inr s)
  then have o: "graph_order g = Inr (snd s)" by (simp add: graph_order_def)
  note ord = graph_order_Inr[OF assms o]
  have "\<forall>xs i ys. snd s = xs @ i # ys \<longrightarrow> {s. (s, i) \<in> edge_rel g} \<subseteq> set xs"
    using topoD[OF ord(2)] set_parents_of by metis
  with ord(1,3) have "\<exists>ord. graph_order g = Inr ord \<and> distinct ord \<and> set (node_ids g) \<subseteq> set ord
      \<and> (\<forall>xs i ys. ord = xs @ i # ys \<longrightarrow> {s. (s, i) \<in> edge_rel g} \<subseteq> set xs)"
    using o by blast
  with ord(4) show ?thesis by argo
next
  case (Inl e)
  then obtain us x vs t where "visit (Suc (length (node_ids g))) (parents_of g) x t = Inl e"
    using efold_Inl unfolding visit_all_def by fast
  from visit_errors[OF this] visit_all_enough[of "node_ids g" "parents_of g"] parents_closed[OF assms] Inl
  have "\<exists>i. e = cycle_error i" by auto
  moreover have "\<not> acyclic (edge_rel g)"
    using visit_all_result[of "node_ids g" "parents_of g"] parents_closed[OF assms] Inl
    by (auto simp: parent_rel_parents_of)
  ultimately show ?thesis using Inl by (auto simp: graph_order_def)
qed

definition cyclic_graph :: wgraph where
  "cyclic_graph = mk_graph [mk_node ''a'' TMerge [], mk_node ''b'' TMerge []]
     [mk_edge ''a'' ''b'' None, mk_edge ''b'' ''a'' None]"

lemma graph_order_decides_cycles_witness:
  "\<not> acyclic (edge_rel cyclic_graph) \<and> (\<exists>i. graph_order cyclic_graph = Inl (cycle_error i))"
proof -
  have ok: "graph_ids_checks cyclic_graph = Inr ()" by code_simp
  have e: "(''a'', ''b'') \<in> edge_rel cyclic_graph" "(''b'', ''a'') \<in> edge_rel cyclic_graph"
    by (force simp: edge_rel_def cyclic_graph_def mk_graph_def mk_edge_def)+
  then have "(''a'', ''a'') \<in> (edge_rel cyclic_graph)\<^sup>+" by (meson trancl.simps)
  then have "\<not> acyclic (edge_rel cyclic_graph)" by (auto simp: acyclic_def)
  with graph_order_decides_cycles[OF ok] show ?thesis by simp
qed

subsection \<open>Routes\<close>

text \<open>C39. An edge of an accepted graph leaves an existing node that is no output; out of a routed
  node it carries one of the routes that node declares; out of any other node it carries no
  route, or the error route of a node whose mode is \<open>on_error: route\<close>.\<close>

theorem accepted_edge_routes:
  assumes "validate_graph env g = Inr ()" "e \<in> set (g_edges g)"
  shows "\<exists>src. find_node g (e_source e) = Some src \<and> n_type src \<noteq> TOutput
    \<and> (if is_routed src then \<exists>rs. declared_routes src = Inr rs \<and> py_in (opt_pstr (e_route e)) rs
       else e_route e = None \<or> (e_route e = Some ''error'' \<and> routes_on_error src))"
  using validate_graph_parts(3)[OF assms]
  by (auto simp: edge_check_def ebind_eq_Inr split: if_splits)

lemma accepted_edge_routes_witness:
  "\<exists>src rs. find_node example_graph ''r'' = Some src \<and> declared_routes src = Inr rs \<and> py_in (PStr ''true'') rs"
proof -
  have s: "find_node example_graph ''r'' = Some example_condition" by code_simp
  have e: "e_source example_edge = ''r''" "opt_pstr (e_route example_edge) = PStr ''true''"
    "is_routed example_condition" by code_simp+
  from accepted_edge_routes[OF example_accepted example_members(4)] show ?thesis
    unfolding e(1) s using e(2,3) by simp
qed

subsection \<open>Bodies\<close>

text \<open>The body of a loop that passed the validation is a graph that itself passes it (without
  the owner), with exactly one trigger and no human decision, and the iteration cap is an
  integer from 1 to 100.\<close>

theorem accepted_loop:
  assumes "validate_node env n = Inr ()" "n_type n = TLoop"
  shows "\<exists>body cap. parse_graph (cfg0 n ''body'') = Some body
    \<and> validate_graph (env\<lparr>v_owner := None\<rparr>) body = Inr ()
    \<and> length (filter (\<lambda>m. n_type m = TTrigger) (g_nodes body)) = 1
    \<and> (\<forall>m \<in> set (g_nodes body). n_type m \<noteq> TApproval)
    \<and> cfg0 n ''max_iterations'' = PInt cap \<and> 1 \<le> cap \<and> cap \<le> 100"
proof -
  from validate_node_checks(7)[OF assms(1)[unfolded validate_node_def] assms(2)]
  obtain body where b: "loop_body (validate_graph (env\<lparr>v_owner := None\<rparr>)) n = Inr body" by blast
  then have g: "loop_guards n = Inr ()" "body_graph (validate_graph (env\<lparr>v_owner := None\<rparr>)) n = Inr body"
    by (auto simp: loop_body_def ebind_eq_Inr)
  have "int_in 1 MAX_LOOP (cfg0 n ''max_iterations'')"
    using g(1) by (simp add: loop_guards_def Let_def ebind_eq_Inr)
  with body_graph_Inr[OF g(2)] show ?thesis by (auto simp: int_in_iff MAX_LOOP_def)
qed

lemma accepted_loop_witness: "\<exists>body. parse_graph example_body = Some body
    \<and> validate_graph (example_env\<lparr>v_owner := None\<rparr>) body = Inr ()"
proof -
  have t: "n_type example_loop = TLoop" "cfg0 example_loop ''body'' = example_body" by code_simp+
  from accepted_loop[OF validate_graph_parts(2)[OF example_accepted example_members(2)] t(1)] t(2)
  show ?thesis by auto
qed

text \<open>The body of an accepted try is an accepted graph that contains no try and no loop, so
  bodies nest at most once below a try, and its retries are an integer from 0 to 3.\<close>

theorem accepted_try:
  assumes "validate_node env n = Inr ()" "n_type n = TTry"
  shows "\<exists>body k. parse_graph (cfg0 n ''body'') = Some body
    \<and> validate_graph (env\<lparr>v_owner := None\<rparr>) body = Inr ()
    \<and> (\<forall>m \<in> set (g_nodes body). n_type m \<notin> {TTry, TLoop, TApproval})
    \<and> get1 (n_config n) ''retries'' (PInt 0) = PInt k \<and> 0 \<le> k \<and> k \<le> 3"
proof -
  from validate_node_checks(8)[OF assms(1)[unfolded validate_node_def] assms(2)]
  obtain body where b: "try_config (validate_graph (env\<lparr>v_owner := None\<rparr>)) n = Inr body" by blast
  then have g: "try_guards n = Inr ()" "body_graph (validate_graph (env\<lparr>v_owner := None\<rparr>)) n = Inr body"
    "try_body_ok body = Inr ()" by (auto simp: try_config_def ebind_eq_Inr)
  have "\<forall>m \<in> set (g_nodes body). n_type m \<notin> {TTry, TLoop}"
    using g(3) by (auto simp: try_body_ok_def list_ex_iff)
  moreover obtain k where "bounded_int (n_config n) ''retries'' 0 MAX_RETRIES = Inr k"
    using g(1) by (auto simp: try_guards_def ebind_eq_Inr)
  then have "get1 (n_config n) ''retries'' (PInt 0) = PInt k" "0 \<le> k" "k \<le> 3"
    by (auto simp: bounded_int_def MAX_RETRIES_def split: pyval.splits if_splits)
  ultimately show ?thesis using body_graph_Inr[OF g(2)] by auto
qed

lemma accepted_try_witness: "\<exists>body. parse_graph example_body = Some body
    \<and> (\<forall>m \<in> set (g_nodes body). n_type m \<notin> {TTry, TLoop, TApproval})"
proof -
  have ok: "validate_node example_env example_try = Inr ()" by code_simp
  have t: "n_type example_try = TTry" "cfg0 example_try ''body'' = example_body" by code_simp+
  from accepted_try[OF ok t(1)] t(2) show ?thesis by auto
qed

end
