(* ===== verification/Wf_Reply.thy ===== *)
theory Wf_Reply
  imports Wf_Template
begin

section \<open>Reading an agent's answer (\<open>core/workflow_engine.py\<close>)\<close>

text \<open>
  What the engine sends to an agent and reads back from an ADK response: the message
  (\<open>leaf_message\<close>), the final text and its JSON reading, the identifiers the agent's tools
  returned (\<open>tool_artifacts\<close>) and the trace of its tool calls.  A response is any JSON value.
\<close>

subsection \<open>\<open>leaf_message\<close>, \<open>try_parse_json\<close>\<close>

definition FALLBACK_MESSAGE :: string where
  "FALLBACK_MESSAGE = ''Execute your task now and perform the required action.''"

definition leaf_message :: "pyval \<Rightarrow> string \<Rightarrow> string" where
  "leaf_message v description = (if v = PNone \<or> v = PStr []
     then if description \<noteq> [] then ''Execute your task: '' @ description else FALLBACK_MESSAGE
     else json_dumps v)"

definition fence :: string where
  "fence = replicate 3 (char_of (96::nat))"

text \<open>\<open>re.sub(r"```(?:json)?\s*", "", text, flags=re.IGNORECASE)\<close>\<close>

function drop_fences :: "string \<Rightarrow> string" where
  "drop_fences s = (if s = [] then []
     else if starts_with fence s
     then (let r = drop 3 s; r' = (if lower (take 4 r) = ''json'' then drop 4 r else r)
           in drop_fences (dropWhile is_space r'))
     else hd s # drop_fences (tl s))"
  by pat_completeness auto
termination
proof (relation "measure length", goal_cases)
  case (2 s r r')
  have "length (dropWhile is_space r') \<le> length r'" by (rule length_dropWhile_le)
  also have "\<dots> \<le> length r" using 2(4) by simp
  also have "\<dots> < length s" using 2(1,3) by (cases s) auto
  finally show ?case by simp
qed auto

declare drop_fences.simps [simp del]

text \<open>\<open>text.replace("```", "")\<close>\<close>

function remove_fences :: "string \<Rightarrow> string" where
  "remove_fences s = (if s = [] then []
     else if starts_with fence s then remove_fences (drop 3 s) else hd s # remove_fences (tl s))"
  by pat_completeness auto
termination by (relation "measure length") (auto simp: neq_Nil_conv)

declare remove_fences.simps [simp del]

definition try_parse_json :: "pyval \<Rightarrow> pyval" where
  "try_parse_json v = (case v of
     PStr text \<Rightarrow>
       (let stripped = strip (remove_fences (drop_fences text));
            from = dropWhile (\<lambda>c. c \<noteq> CHR ''{'' \<and> c \<noteq> CHR ''['') stripped in
        if from = [] then v
        else case json_loads from of Some w \<Rightarrow> w
          | None \<Rightarrow> (case json_loads stripped of Some w \<Rightarrow> w | None \<Rightarrow> v))
   | _ \<Rightarrow> v)"

subsection \<open>\<open>_event_text\<close>, \<open>extract_response_text\<close>\<close>

text \<open>\<open>(ev.get("content") or {}).get("parts")\<close>\<close>

definition content_parts :: "pydict \<Rightarrow> pyval res" where
  "content_parts ev = attr_get (por (get0 ev ''content'') (PDict [])) ''parts''"

definition part_text :: "pyval \<Rightarrow> string" where
  "part_text p = (case p of PDict d \<Rightarrow>
     (case get0 d ''text'' of PStr s \<Rightarrow> if truthy (get0 d ''thought'') then [] else s | _ \<Rightarrow> [])
   | _ \<Rightarrow> [])"

definition event_text :: "pyval \<Rightarrow> pyval res" where
  "event_text ev = (case ev of
     PDict d \<Rightarrow> ebind (content_parts d) (\<lambda>ps.
       ebind (py_iter (por (por ps (get0 d ''parts'')) (PList []))) (\<lambda>parts.
       Inr (por (PStr (concat (map part_text parts))) (por (get0 d ''text'') PNone))))
   | _ \<Rightarrow> Inr PNone)"

text \<open>The first event text that is not empty, last event first.\<close>

fun first_text :: "pyval list \<Rightarrow> pyval res" where
  "first_text [] = Inr PNone"
| "first_text (e # es) = ebind (event_text e) (\<lambda>t. if truthy t then Inr t else first_text es)"

definition extract_response_text :: "pyval \<Rightarrow> pyval res" where
  "extract_response_text r = (case r of
     PStr s \<Rightarrow> Inr r
   | PList evs \<Rightarrow> ebind (first_text (rev evs)) (\<lambda>t.
       Inr (if truthy t then t else PStr (json_dumps_ascii r)))
   | PDict d \<Rightarrow>
       if truthy (get0 d ''text'') then Inr (get0 d ''text'')
       else ebind (event_text r) (\<lambda>t.
         if truthy t then Inr t
         else Inr (case get0 d ''content'' of
             PNone \<Rightarrow> PStr (json_dumps_ascii r)
           | PStr s \<Rightarrow> PStr s
           | c \<Rightarrow> PStr (json_dumps_ascii c)))
   | _ \<Rightarrow> Inr (PStr (json_dumps_ascii r)))"

subsection \<open>\<open>_function_responses\<close>, \<open>tool_artifacts\<close>\<close>

definition either_key :: "pydict \<Rightarrow> string \<Rightarrow> string \<Rightarrow> pyval" where
  "either_key d a b = por (get0 d a) (get0 d b)"

definition part_response :: "pyval \<Rightarrow> (pyval \<times> pydict) list" where
  "part_response p = (case p of PDict d \<Rightarrow>
     (case either_key d ''functionResponse'' ''function_response'' of
        PDict fr \<Rightarrow> (case get0 fr ''response'' of
            PDict resp \<Rightarrow> [(por (get0 fr ''name'') (PStr []), resp)] | _ \<Rightarrow> [])
      | _ \<Rightarrow> [])
   | _ \<Rightarrow> [])"

text \<open>The generator: what it yields, or where it raises.\<close>

definition event_responses :: "pyval \<Rightarrow> (pyval \<times> pydict) res list" where
  "event_responses ev = (case ev of
     PDict d \<Rightarrow> (case ebind (content_parts d) (\<lambda>ps. py_iter (por ps (PList []))) of
         Inl e \<Rightarrow> [Inl e] | Inr parts \<Rightarrow> map Inr (concat (map part_response parts)))
   | _ \<Rightarrow> [])"

definition function_responses :: "pyval \<Rightarrow> (pyval \<times> pydict) res list" where
  "function_responses r = concat (map event_responses (case r of PList evs \<Rightarrow> evs | _ \<Rightarrow> [r]))"

definition ARTIFACT_KEYS :: "string list" where
  "ARTIFACT_KEYS = [''chart_id'', ''forecast_chart_id'', ''dashboard_id'', ''dataset_id'']"

definition MAX_ARTIFACTS :: nat where "MAX_ARTIFACTS = 20"

definition artifact_ids :: "pydict \<Rightarrow> pydict" where
  "artifact_ids resp = concat (map (\<lambda>k. case get0 resp k of
       PStr s \<Rightarrow> if s = [] then [] else [(k, PStr s)] | PInt i \<Rightarrow> [(k, PInt i)] | _ \<Rightarrow> []) ARTIFACT_KEYS)"

fun artifacts_loop :: "pydict list \<Rightarrow> (pyval \<times> pydict) res list \<Rightarrow> pydict list res" where
  "artifacts_loop found [] = Inr found"
| "artifacts_loop found (x # xs) = ebind x (\<lambda>(name, resp).
     let ids = artifact_ids resp; item = (''tool'', name) # ids;
         found' = (if py_in (PDict item) (map PDict found) then found else found @ [item]) in
     if get0 resp ''success'' = PBool False \<or> ids = [] then artifacts_loop found xs
     else if MAX_ARTIFACTS \<le> length found' then Inr found'
     else artifacts_loop found' xs)"

definition tool_artifacts :: "pyval \<Rightarrow> pydict list res" where
  "tool_artifacts r = artifacts_loop [] (function_responses r)"

subsection \<open>\<open>tool_calls_from_response\<close>\<close>

definition TRACE_TOOL_RESULT_CHARS :: nat where "TRACE_TOOL_RESULT_CHARS = 2000"

definition call_entry :: "pyval \<Rightarrow> pydict res" where
  "call_entry call = (case call of
     PDict c \<Rightarrow> (let args = por (get0 c ''args'') (PDict []); text = json_dumps args in
       Inr ((''name'', get1 c ''name'' (PStr []))
         # (if TRACE_TOOL_RESULT_CHARS < length text
            then [(''args'', PStr (take TRACE_TOOL_RESULT_CHARS text)), (''args_truncated'', PBool True)]
            else [(''args'', args)])))
   | _ \<Rightarrow> Inl (PyError ''AttributeError''))"

definition result_fields :: "pydict \<Rightarrow> pydict" where
  "result_fields r = (let text = text_of (get0 r ''response'') in
     (''result'', PStr (take TRACE_TOOL_RESULT_CHARS text))
     # (if TRACE_TOOL_RESULT_CHARS < length text then [(''result_truncated'', PBool True)] else []))"

text \<open>The result joins the first call of the same name that has none yet.\<close>

fun attach_result :: "pydict \<Rightarrow> pydict list \<Rightarrow> pydict list" where
  "attach_result r [] = []"
| "attach_result r (c # cs) =
     (if py_eq (get0 c ''name'') (get1 r ''name'' (PStr [])) \<and> dget c ''result'' = None
      then (c @ result_fields r) # cs else c # attach_result r cs)"

definition call_step :: "pydict list \<Rightarrow> pyval \<Rightarrow> pydict list res" where
  "call_step calls part = (case part of
     PDict d \<Rightarrow> (let call = either_key d ''functionCall'' ''function_call'';
                    result = either_key d ''functionResponse'' ''function_response'' in
       if truthy call then ebind (call_entry call) (\<lambda>e. Inr (calls @ [e]))
       else if \<not> truthy result \<or> calls = [] then Inr calls
       else case result of PDict r \<Rightarrow> Inr (attach_result r calls)
         | _ \<Rightarrow> Inl (PyError ''AttributeError''))
   | _ \<Rightarrow> Inr calls)"

definition event_calls :: "pydict list \<Rightarrow> pyval \<Rightarrow> pydict list res" where
  "event_calls calls ev = (case ev of
     PDict d \<Rightarrow> ebind (content_parts d) (\<lambda>ps.
       ebind (py_iter (por (por ps (get0 d ''parts'')) (PList []))) (efold call_step calls))
   | _ \<Rightarrow> Inr calls)"

definition tool_calls_from_response :: "pyval \<Rightarrow> pydict list res" where
  "tool_calls_from_response r = (case r of PList evs \<Rightarrow> efold event_calls [] evs | _ \<Rightarrow> Inr [])"

subsection \<open>Artifacts are bounded and without duplicates\<close>

fun no_dup :: "pydict list \<Rightarrow> bool" where
  "no_dup [] = True"
| "no_dup (x # xs) = (\<not> py_in (PDict x) (map PDict xs) \<and> no_dup xs)"

definition artifacts_ok :: "pydict list \<Rightarrow> bool" where
  "artifacts_ok found = (length found \<le> MAX_ARTIFACTS \<and> no_dup (rev found)
     \<and> (\<forall>a \<in> set found. \<exists>n ids. a = (''tool'', n) # ids \<and> ids \<noteq> [] \<and> set (dkeys ids) \<subseteq> set ARTIFACT_KEYS))"

lemma artifact_ids_keys: "set (dkeys (artifact_ids r)) \<subseteq> set ARTIFACT_KEYS"
  by (auto simp: artifact_ids_def dkeys_def split: pyval.splits if_splits)

lemma py_in_rev: "py_in x (rev xs) = py_in x xs"
  by (simp add: py_in_def list_ex_iff)

lemma artifacts_ok_snoc:
  assumes "artifacts_ok found" "length found < MAX_ARTIFACTS" "ids \<noteq> []"
    "set (dkeys ids) \<subseteq> set ARTIFACT_KEYS" "\<not> py_in (PDict ((''tool'', n) # ids)) (map PDict found)"
  shows "artifacts_ok (found @ [(''tool'', n) # ids])"
  using assms py_in_rev[of "PDict ((''tool'', n) # ids)" "map PDict found"]
  by (auto simp: artifacts_ok_def rev_map)

lemma artifacts_loop_ok:
  assumes "artifacts_loop found xs = Inr out" "artifacts_ok found" "length found < MAX_ARTIFACTS"
  shows "artifacts_ok out"
  using assms
proof (induction found xs rule: artifacts_loop.induct)
  case (2 found x xs)
  then obtain name resp where x: "x = Inr (name, resp)" by (cases x) auto
  let ?ids = "artifact_ids resp" let ?item = "(''tool'', name) # ?ids"
  show ?case
  proof (cases "get0 resp ''success'' = PBool False \<or> ?ids = []")
    case True
    with 2 x show ?thesis by (auto simp: Let_def)
  next
    case False
    define found' where "found' = (if py_in (PDict ?item) (map PDict found) then found else found @ [?item])"
    have ok: "artifacts_ok found'"
      using artifacts_ok_snoc[OF 2(4,5) _ artifact_ids_keys] 2(4) False by (auto simp: found'_def)
    show ?thesis
    proof (cases "MAX_ARTIFACTS \<le> length found'")
      case True
      with 2(3) False x ok show ?thesis by (auto simp: Let_def found'_def[symmetric])
    next
      case nb: False
      have run: "artifacts_loop found' xs = Inr out"
        using 2(3) False x nb by (auto simp: Let_def found'_def[symmetric])
      show ?thesis
        by (rule 2(2)[OF x refl refl refl found'_def False _ run ok])
          (use nb in auto)
    qed
  qed
qed simp

subsection \<open>Properties\<close>

text \<open>The artifacts read from an agent's response are at most twenty, pairwise different, each with the
  name of its tool and at least one of the four known identifiers and nothing else.\<close>

theorem tool_artifacts_bounded:
  assumes "tool_artifacts r = Inr found"
  shows "artifacts_ok found"
proof -
  have "artifacts_ok []" "length ([] :: pydict list) < MAX_ARTIFACTS"
    by (simp_all add: artifacts_ok_def MAX_ARTIFACTS_def)
  with assms show ?thesis unfolding tool_artifacts_def by (rule artifacts_loop_ok)
qed

definition example_response :: pyval where
  "example_response = (let fr = PDict [(''functionResponse'', PDict [(''name'', PStr ''t''),
       (''response'', PDict [(''chart_id'', PInt 7), (''success'', PBool True)])])] in
     PList [PDict [(''content'', PDict [(''parts'', PList [fr, fr])])]])"

lemma tool_artifacts_bounded_witness: "artifacts_ok [[(''tool'', PStr ''t''), (''chart_id'', PInt 7)]]"
proof (rule tool_artifacts_bounded)
  show "tool_artifacts example_response = Inr [[(''tool'', PStr ''t''), (''chart_id'', PInt 7)]]" by code_simp
qed

end
