(* ===== verification/Wf_Convert.thy ===== *)
theory Wf_Convert
  imports Wf_Reply
begin

section \<open>The \<open>convert\<close> node (\<open>core/workflow_graph.py\<close>)\<close>

text \<open>
  \<open>convert_value\<close> and its CSV and date readers.  The CSV reader and writer are those of the
  \<open>csv\<close> module with the dialect the source asks for (comma or a detected delimiter, quote
  character, minimal quoting, line feed).  Parameters of the model: the delimiter
  \<open>csv.Sniffer\<close> guesses, and the four date readers of \<open>datetime\<close>, each giving the ISO
  text of the date it reads.  A CSV row longer than its header has its surplus under the key
  \<open>None\<close>, written \<open>null\<close> as \<open>json\<close> writes it.
\<close>

definition MAX_CSV_BYTES :: int where "MAX_CSV_BYTES = 1048576"
definition MAX_CSV_ROWS :: int where "MAX_CSV_ROWS = 10000"

abbreviation value_error :: exn where "value_error \<equiv> PyError ''ValueError''"

subsection \<open>\<open>_rows_to_csv\<close>\<close>

definition dquote :: char where "dquote = char_of (34::nat)"
definition nl :: char where "nl = char_of (10::nat)"
definition cr :: char where "cr = char_of (13::nat)"

definition csv_cell :: "pyval \<Rightarrow> string" where
  "csv_cell v = (case v of PNone \<Rightarrow> [] | _ \<Rightarrow> py_str v)"

definition csv_quoted :: "string \<Rightarrow> string" where
  "csv_quoted s = [dquote] @ concat (map (\<lambda>c. if c = dquote then [dquote, dquote] else [c]) s) @ [dquote]"

definition csv_field :: "string \<Rightarrow> string" where
  "csv_field s = (if list_ex (\<lambda>c. c \<in> {CHR '','', dquote, nl, cr}) s then csv_quoted s else s)"

definition csv_row :: "string list \<Rightarrow> string" where
  "csv_row fs = (if length fs = 1 \<and> hd fs = [] then csv_quoted [] else join '','' (map csv_field fs)) @ [nl]"

definition csv_fieldnames :: "pydict list \<Rightarrow> string list" where
  "csv_fieldnames rows = dedup (concat (map dkeys rows))"

definition rows_to_csv :: "pydict list \<Rightarrow> string res" where
  "rows_to_csv rows = (if MAX_CSV_ROWS < int (length rows) then Inl value_error
     else let names = csv_fieldnames rows;
              text = csv_row names @ concat (map (\<lambda>r. csv_row (map (\<lambda>k.
                csv_cell (get1 r k (PStr []))) names)) rows) in
       if MAX_CSV_BYTES < int (utf8_len text) then Inl value_error else Inr text)"

subsection \<open>The record reader of \<open>csv.reader\<close>\<close>

datatype csv_state = StartRecord | StartField | InField | InQuoted | QuoteInQuoted | EatCrnl

text \<open>State, current field reversed, finished fields reversed; \<open>None\<close> as input ends a line.\<close>

type_synonym csv_pos = "csv_state \<times> string \<times> string list"

definition csv_error :: exn where "csv_error = PyError ''Error''"
definition CSV_FIELD_LIMIT :: int where "CSV_FIELD_LIMIT = 131072"

definition csv_add :: "csv_state \<Rightarrow> char \<Rightarrow> string \<Rightarrow> string list \<Rightarrow> csv_pos res" where
  "csv_add st c f fs = (if CSV_FIELD_LIMIT \<le> int (length f) then Inl csv_error else Inr (st, c # f, fs))"

definition is_nl :: "char \<Rightarrow> bool" where "is_nl c = (c = nl \<or> c = cr)"

fun csv_step :: "char \<Rightarrow> csv_pos \<Rightarrow> char option \<Rightarrow> csv_pos res" where
  "csv_step d (StartRecord, f, fs) x = (case x of
     None \<Rightarrow> Inr (StartRecord, f, fs)
   | Some c \<Rightarrow> if is_nl c then Inr (EatCrnl, f, fs)
       else if c = dquote then Inr (InQuoted, f, fs)
       else if c = d then Inr (StartField, [], [] # fs) else csv_add InField c f fs)"
| "csv_step d (StartField, f, fs) x = (case x of
     None \<Rightarrow> Inr (StartRecord, [], rev f # fs)
   | Some c \<Rightarrow> if is_nl c then Inr (EatCrnl, [], rev f # fs)
       else if c = dquote then Inr (InQuoted, f, fs)
       else if c = d then Inr (StartField, [], rev f # fs) else csv_add InField c f fs)"
| "csv_step d (InField, f, fs) x = (case x of
     None \<Rightarrow> Inr (StartRecord, [], rev f # fs)
   | Some c \<Rightarrow> if is_nl c then Inr (EatCrnl, [], rev f # fs)
       else if c = d then Inr (StartField, [], rev f # fs) else csv_add InField c f fs)"
| "csv_step d (InQuoted, f, fs) x = (case x of
     None \<Rightarrow> Inr (InQuoted, f, fs)
   | Some c \<Rightarrow> if c = dquote then Inr (QuoteInQuoted, f, fs) else csv_add InQuoted c f fs)"
| "csv_step d (QuoteInQuoted, f, fs) x = (case x of
     None \<Rightarrow> Inr (StartRecord, [], rev f # fs)
   | Some c \<Rightarrow> if c = dquote then csv_add InQuoted c f fs
       else if c = d then Inr (StartField, [], rev f # fs)
       else if is_nl c then Inr (EatCrnl, [], rev f # fs) else csv_add InField c f fs)"
| "csv_step d (EatCrnl, f, fs) x = (case x of
     None \<Rightarrow> Inr (StartRecord, f, fs)
   | Some c \<Rightarrow> if is_nl c then Inr (EatCrnl, f, fs) else Inl csv_error)"

text \<open>The lines of \<open>io.StringIO\<close>, each with its line feed.\<close>

fun lines_acc :: "string \<Rightarrow> string \<Rightarrow> string list" where
  "lines_acc acc [] = (if acc = [] then [] else [rev acc])"
| "lines_acc acc (c # s) = (if c = nl then rev (c # acc) # lines_acc [] s else lines_acc (c # acc) s)"

definition csv_line :: "char \<Rightarrow> csv_pos \<Rightarrow> string \<Rightarrow> csv_pos res" where
  "csv_line d p line = efold (csv_step d) p (map Some line @ [None])"

text \<open>
  One call of the iterator per record: a record may span lines inside quotes, and the text may
  end inside one.  A reader error ends the list, since nothing reads past it.
\<close>

fun csv_records :: "char \<Rightarrow> csv_pos \<Rightarrow> string list \<Rightarrow> string list res list" where
  "csv_records d (st, f, fs) [] =
     (if st = StartRecord then []
      else if f \<noteq> [] \<or> st = InQuoted then [Inr (rev (rev f # fs))] else [])"
| "csv_records d p (line # ls) = (case csv_line d p line of
     Inl e \<Rightarrow> [Inl e]
   | Inr (st, f, fs) \<Rightarrow>
       if st = StartRecord then Inr (rev fs) # csv_records d (StartRecord, [], []) ls
       else csv_records d (st, f, fs) ls)"

subsection \<open>\<open>_csv_to_rows\<close>: \<open>csv.DictReader\<close>\<close>

definition dict_row :: "string list \<Rightarrow> string list \<Rightarrow> pydict" where
  "dict_row names row = dupdate
     (dupdate [] (zip names (map PStr row)))
     (if length names < length row then [(''null'', PList (map PStr (drop (length names) row)))]
      else map (\<lambda>k. (k, PNone)) (drop (length row) names))"

fun csv_rows :: "string list \<Rightarrow> pydict list \<Rightarrow> string list res list \<Rightarrow> pydict list res" where
  "csv_rows names acc [] = Inr acc"
| "csv_rows names acc (r # rs) = ebind r (\<lambda>row.
     if row = [] then csv_rows names acc rs
     else if int (length acc) = MAX_CSV_ROWS then Inl value_error
     else csv_rows names (acc @ [dict_row names row]) rs)"

definition csv_to_rows :: "(string \<Rightarrow> char option) \<Rightarrow> string \<Rightarrow> pydict list res" where
  "csv_to_rows sniff text = (if MAX_CSV_BYTES < int (utf8_len text) then Inl value_error
     else let d = (case sniff (take 4096 text) of Some c \<Rightarrow> c | None \<Rightarrow> CHR '','') in
       case csv_records d (StartRecord, [], []) (lines_acc [] text) of
         [] \<Rightarrow> Inr []
       | header # rs \<Rightarrow> ebind header (\<lambda>names. csv_rows names [] rs))"

subsection \<open>\<open>_parse_date\<close>, in ISO form\<close>

record readers =
  r_sniff :: "string \<Rightarrow> char option"
  r_dmy :: "string \<Rightarrow> string option"
  r_iso_date :: "string \<Rightarrow> string option"
  r_iso_datetime :: "string \<Rightarrow> string option"
  r_timestamp :: "pyfloat \<Rightarrow> string res"

definition first_some :: "'a option \<Rightarrow> 'a option \<Rightarrow> 'a option" where
  "first_some x y = (case x of None \<Rightarrow> y | Some _ \<Rightarrow> x)"

definition parse_date :: "readers \<Rightarrow> pyval \<Rightarrow> string res" where
  "parse_date rd v = (case v of
     PInt i \<Rightarrow> ebind (of_opt (PyError ''OverflowError'') (float_of_int i)) (r_timestamp rd)
   | PFloat f \<Rightarrow> r_timestamp rd f
   | PStr s \<Rightarrow> (let text = strip s;
         iso = (if ends_with ''Z'' text then butlast text @ ''+00:00'' else text) in
       if text = [] then Inl value_error
       else of_opt value_error (first_some (r_dmy rd text)
         (first_some (r_iso_date rd iso) (r_iso_datetime rd iso))))
   | _ \<Rightarrow> Inl value_error)"

subsection \<open>\<open>convert_value\<close>\<close>

definition convert_text :: "pyval \<Rightarrow> pyval res" where
  "convert_text v = Inr (PStr (text_of v))"

definition convert_json :: "pyval \<Rightarrow> pyval res" where
  "convert_json v = (if \<not> is_str v then Inr v
     else let p = try_parse_json v in if is_str p then Inl value_error else Inr p)"

definition trunc_float :: "pyfloat \<Rightarrow> pyval" where
  "trunc_float f = (case f of Fin r \<Rightarrow> if is_integer f then PInt \<lfloor>r\<rfloor> else PFloat f | _ \<Rightarrow> PFloat f)"

definition convert_number :: "pyval \<Rightarrow> pyval res" where
  "convert_number v = (case v of
     PBool _ \<Rightarrow> Inl value_error | PInt i \<Rightarrow> Inr v | PFloat f \<Rightarrow> Inr v
   | _ \<Rightarrow> (case float_of_str (replace_char (CHR '','') (CHR ''.'') (strip (py_str v))) of
       None \<Rightarrow> Inl value_error | Some f \<Rightarrow> Inr (trunc_float f)))"

definition TRUE_WORDS :: "string list" where
  "TRUE_WORDS = [''true'', ''yes'', ''oui'', ''1'', ''vrai'']"

definition FALSE_WORDS :: "string list" where
  "FALSE_WORDS = [''false'', ''no'', ''non'', ''0'', ''faux'']"

definition word_bool :: "string \<Rightarrow> pyval res" where
  "word_bool w = (if w \<in> set TRUE_WORDS then Inr (PBool True)
     else if w \<in> set FALSE_WORDS then Inr (PBool False) else Inl value_error)"

definition convert_boolean :: "pyval \<Rightarrow> pyval res" where
  "convert_boolean v = (case v of
     PBool _ \<Rightarrow> Inr v | PInt i \<Rightarrow> Inr (PBool (i \<noteq> 0)) | PFloat f \<Rightarrow> Inr (PBool (f \<noteq> Fin 0))
   | _ \<Rightarrow> word_bool (lower (strip (py_str v))))"

definition convert_list :: "pyval \<Rightarrow> pyval res" where
  "convert_list v = (case v of
     PNone \<Rightarrow> Inr (PList []) | PList _ \<Rightarrow> Inr v
   | PStr s \<Rightarrow> (case try_parse_json v of PList xs \<Rightarrow> Inr (PList xs)
       | _ \<Rightarrow> Inr (PList (map (\<lambda>l. PStr (strip l)) (filter (\<lambda>l. strip l \<noteq> []) (splitlines s)))))
   | _ \<Rightarrow> Inr (PList [v]))"

definition convert_csv :: "readers \<Rightarrow> pyval \<Rightarrow> pyval res" where
  "convert_csv rd v = (case v of
     PStr s \<Rightarrow> map_sum id (\<lambda>rows. PList (map PDict rows)) (csv_to_rows (r_sniff rd) s)
   | PList rs \<Rightarrow> if list_all is_dict rs
       then map_sum id PStr (rows_to_csv (map (\<lambda>r. case r of PDict d \<Rightarrow> d | _ \<Rightarrow> []) rs))
       else Inl value_error
   | _ \<Rightarrow> Inl value_error)"

definition convert_value :: "readers \<Rightarrow> pyval \<Rightarrow> string \<Rightarrow> pyval res" where
  "convert_value rd v dest =
    (if dest = ''text'' then convert_text v
     else if dest = ''json'' then convert_json v
     else if dest = ''number'' then convert_number v
     else if dest = ''boolean'' then convert_boolean v
     else if dest = ''list'' then convert_list v
     else if dest = ''csv'' then convert_csv rd v
     else if dest = ''date'' then map_sum id PStr (parse_date rd v)
     else Inl value_error)"

subsection \<open>What a conversion gives\<close>

definition converted :: "string \<Rightarrow> pyval \<Rightarrow> bool" where
  "converted dest w = (if dest = ''text'' then is_str w else if dest = ''json'' then \<not> is_str w
     else if dest = ''number'' then is_num w \<and> \<not> is_bool w else if dest = ''boolean'' then is_bool w
     else if dest = ''list'' then is_list w else True)"

lemma is_num_trunc [simp]: "is_num (trunc_float f)" "\<not> is_bool (trunc_float f)"
  by (auto simp: trunc_float_def is_num_def is_bool_def split: pyfloat.splits)

lemma convert_number_kind: "convert_number v = Inr w \<Longrightarrow> is_num w \<and> \<not> is_bool w"
  by (auto simp: convert_number_def is_num_def[of "PInt _"] is_num_def[of "PFloat _"]
      is_bool_def[of "PInt _"] is_bool_def[of "PFloat _"] split: pyval.splits option.splits)

lemma word_bool_kind: "word_bool s = Inr w \<Longrightarrow> is_bool w"
  by (auto simp: word_bool_def is_bool_def split: if_splits)

lemma convert_boolean_kind: "convert_boolean v = Inr w \<Longrightarrow> is_bool w"
  by (cases v) (auto simp: convert_boolean_def is_bool_def[of "PBool _"] simp del: py_repr.simps
      dest: word_bool_kind)

lemma convert_list_kind: "convert_list v = Inr w \<Longrightarrow> is_list w"
  by (auto simp: convert_list_def is_list_def split: pyval.splits)

lemma convert_json_kind: "convert_json v = Inr w \<Longrightarrow> \<not> is_str w"
  by (auto simp: convert_json_def Let_def split: if_splits)

lemma convert_value_converted: "convert_value rd v dest = Inr w \<Longrightarrow> converted dest w"
  by (auto simp: convert_value_def converted_def convert_text_def is_str_def[of "PStr _"]
      dest: convert_number_kind convert_boolean_kind convert_list_kind convert_json_kind
      split: if_splits)

lemma fixpoints:
  "is_str w \<Longrightarrow> convert_text w = Inr w" "\<not> is_str w \<Longrightarrow> convert_json w = Inr w"
  "is_num w \<Longrightarrow> \<not> is_bool w \<Longrightarrow> convert_number w = Inr w" "is_bool w \<Longrightarrow> convert_boolean w = Inr w"
  "is_list w \<Longrightarrow> convert_list w = Inr w"
  unfolding convert_text_def convert_json_def convert_number_def convert_boolean_def convert_list_def
  by (simp_all add: is_str_def is_num_def is_bool_def is_list_def split: pyval.splits)

lemma converted_fixpoint:
  assumes "dest \<in> {''text'', ''json'', ''number'', ''boolean'', ''list''}" "converted dest w"
  shows "convert_value rd w dest = Inr w"
proof -
  from assms(1) consider "dest = ''text''" | "dest = ''json''" | "dest = ''number''"
    | "dest = ''boolean''" | "dest = ''list''" by blast
  then show ?thesis using assms(2) by cases (simp_all add: convert_value_def converted_def fixpoints)
qed

subsection \<open>Properties\<close>

text \<open>A conversion gives a value of the kind asked for, and converting its result again
  changes nothing.\<close>

theorem convert_value_stable:
  assumes "convert_value rd v dest = Inr w"
    and "dest \<in> {''text'', ''json'', ''number'', ''boolean'', ''list''}"
  shows "converted dest w \<and> convert_value rd w dest = Inr w"
  using convert_value_converted[OF assms(1)] converted_fixpoint[OF assms(2)] by blast

definition example_readers :: readers where
  "example_readers = \<lparr>r_sniff = (\<lambda>_. None), r_dmy = (\<lambda>_. None), r_iso_date = (\<lambda>_. None),
     r_iso_datetime = (\<lambda>_. None), r_timestamp = (\<lambda>_. Inl value_error)\<rparr>"

lemma convert_value_stable_witness:
  "converted ''boolean'' (PBool True)
    \<and> convert_value example_readers (PBool True) ''boolean'' = Inr (PBool True)"
proof -
  have "convert_value example_readers (PStr '' Oui '') ''boolean'' = Inr (PBool True)" by code_simp
  from convert_value_stable[OF this] show ?thesis by simp
qed

end
