(* ===== verification/Wf_Nodes.thy ===== *)
theory Wf_Nodes
  imports Wf_Validate Wf_Convert
begin

section \<open>What a node computes from its input (\<open>core/workflow_graph.py\<close>)\<close>

text \<open>
  The pure parts of the nodes: prompts and the reading of the agent's answer (classifier,
  extraction), references to files and attachments, values bound to a database row, and the
  contract an agent or a tool may have on its output.
\<close>

subsection \<open>\<open>_asks_question\<close>\<close>

definition question_tail :: "char \<Rightarrow> bool" where
  "question_tail c = (c \<in> set ''*_ )'' \<or> code c \<in> {34, 39, 160, 187})"

definition asks_question :: "pyval \<Rightarrow> bool" where
  "asks_question v = (case v of
     PStr s \<Rightarrow> (let lines = filter (\<lambda>l. l \<noteq> []) (map strip (splitlines (strip s))) in
       lines \<noteq> [] \<and> ends_with ''?'' (rstrip_by question_tail (last lines)))
   | _ \<Rightarrow> False)"

subsection \<open>\<open>_classifier_prompt\<close>, \<open>_pick_route\<close>\<close>

definition newline :: string where "newline = [char_of (10::nat)]"

definition prompt_line :: "pydict \<Rightarrow> string \<Rightarrow> string" where
  "prompt_line d head = ''- '' @ head
     @ (let desc = get0 d ''description'' in if truthy desc then '': '' @ py_str desc else [])"

definition as_dict :: "pyval \<Rightarrow> string \<Rightarrow> pydict res" where
  "as_dict v cls = (case v of PDict d \<Rightarrow> Inr d | _ \<Rightarrow> Inl (PyError cls))"

definition input_lines :: "string \<Rightarrow> string list" where
  "input_lines text = [[], ''<<< INPUT >>>'', text, ''<<< END INPUT >>>'']"

definition classifier_prompt :: "pyval list \<Rightarrow> pyval \<Rightarrow> string res" where
  "classifier_prompt routes input =
     ebind (emap (\<lambda>r. ebind (as_dict r ''AttributeError'') (\<lambda>d.
       ebind (getitem d ''route'') (\<lambda>x. Inr (prompt_line d (py_str x))))) routes) (\<lambda>ls.
     Inr (join newline
       ([''Classify the input below into exactly one of these routes.'',
         ''Answer with the route name only, nothing else.'', []] @ ls
        @ input_lines (leaf_message input []))))"

text \<open>\<open>\w\<close> on Latin-1 text.\<close>

definition is_word :: "char \<Rightarrow> bool" where
  "is_word c = (let n = code c in is_ident_char c
     \<or> n \<in> {170, 178, 179, 181, 185, 186, 188, 189, 190} \<or> (192 \<le> n \<and> n \<noteq> 215 \<and> n \<noteq> 247))"

text \<open>\<open>re.sub(r"[^\w-]+", " ", s)\<close>\<close>

fun squeeze :: "bool \<Rightarrow> string \<Rightarrow> string" where
  "squeeze gap [] = []"
| "squeeze gap (c # s) = (if is_word c \<or> c = CHR ''-'' then c # squeeze False s
     else if gap then squeeze True s else CHR '' '' # squeeze True s)"

definition boundary :: "char option \<Rightarrow> string \<Rightarrow> bool" where
  "boundary prev rest = ((case prev of None \<Rightarrow> False | Some c \<Rightarrow> is_word c)
     \<noteq> (case rest of [] \<Rightarrow> False | c # _ \<Rightarrow> is_word c))"

text \<open>\<open>re.search(rf"\b{re.escape(p)}\b", s)\<close>\<close>

definition word_at :: "string \<Rightarrow> char option \<Rightarrow> string \<Rightarrow> bool" where
  "word_at p prev s = (starts_with p s \<and> boundary prev s
     \<and> boundary (if p = [] then prev else Some (last p)) (drop (length p) s))"

fun word_search :: "string \<Rightarrow> char option \<Rightarrow> string \<Rightarrow> bool" where
  "word_search p prev [] = word_at p prev []"
| "word_search p prev (c # s) = (word_at p prev (c # s) \<or> word_search p (Some c) s)"

definition pick_route :: "pyval \<Rightarrow> string list \<Rightarrow> string option" where
  "pick_route answer routes =
     (let text = lower (strip (squeeze False (py_str answer))) in
      case find (\<lambda>r. text = lower r) routes of
        Some r \<Rightarrow> Some r
      | None \<Rightarrow> (case filter (\<lambda>r. word_search (lower r) None text) routes of
          [r] \<Rightarrow> Some r | _ \<Rightarrow> None))"

subsection \<open>\<open>_extract_prompt\<close>, \<open>_matches_extract_type\<close>, \<open>_extract_result\<close>\<close>

definition extract_line :: "pyval \<Rightarrow> string res" where
  "extract_line f = ebind (as_dict f ''AttributeError'') (\<lambda>d.
     ebind (getitem d ''name'') (\<lambda>name. ebind (getitem d ''type'') (\<lambda>ty.
     Inr (prompt_line d (py_str name @ '' ('' @ py_str ty @ '', ''
       @ (if truthy (get0 d ''required'') then ''required'' else ''optional'') @ '')'')))))"

definition extract_prompt :: "pyval list \<Rightarrow> string \<Rightarrow> string res" where
  "extract_prompt flds text = ebind (emap extract_line flds) (\<lambda>ls.
     Inr (join newline
       ([''Reply with ONLY a JSON object with exactly these fields, nothing else.'', []] @ ls
        @ input_lines text)))"

definition matches_extract_type :: "pyval \<Rightarrow> string \<Rightarrow> bool" where
  "matches_extract_type v ty =
    (if ty = ''string'' then is_str v
     else if ty = ''number'' then is_num v \<and> \<not> is_bool v
     else if ty = ''boolean'' then is_bool v
     else if ty = ''list'' then is_list v
     else if ty = ''object'' then is_dict v else False)"

definition extract_failed :: "string \<Rightarrow> pyval \<Rightarrow> string \<Rightarrow> exn" where
  "extract_failed nid field problem = gcode ''extraction impossible'' ''extract_failed''
     [(''node'', PStr nid), (''field'', field), (''problem'', PStr problem)]"

definition extract_step :: "string \<Rightarrow> pydict \<Rightarrow> pydict \<Rightarrow> pyval \<Rightarrow> pydict res" where
  "extract_step nid parsed acc f = ebind (as_dict f ''TypeError'') (\<lambda>d.
     ebind (getitem d ''name'') (\<lambda>name. ebind (getitem d ''type'') (\<lambda>ty.
     let k = str_of name; v = get0 parsed k in
     if v = PNone then
       (if truthy (get0 d ''required'') then Inl (extract_failed nid name ''missing'')
        else Inr (dset acc k PNone))
     else if \<not> matches_extract_type v (str_of ty) then Inl (extract_failed nid name ''type'')
     else Inr (dset acc k v))))"

definition extract_result :: "string \<Rightarrow> pyval list \<Rightarrow> pyval \<Rightarrow> pydict res" where
  "extract_result nid flds answer = (case try_parse_json answer of
     PDict parsed \<Rightarrow> efold (extract_step nid parsed) [] flds
   | _ \<Rightarrow> Inl (extract_failed nid PNone ''not_json''))"

subsection \<open>\<open>_document_refs\<close>, \<open>_file_refs\<close>, \<open>_db_value\<close>\<close>

definition ref_items :: "pyval \<Rightarrow> pyval list" where
  "ref_items v = filter (\<lambda>i. \<not> py_in i [PNone, PStr []]) (case v of PList xs \<Rightarrow> xs | _ \<Rightarrow> [v])"

definition item_ref :: "exn \<Rightarrow> pyval \<Rightarrow> string res" where
  "item_ref err item = (case (case item of PDict d \<Rightarrow> get0 d ''ref'' | _ \<Rightarrow> item) of
     PStr s \<Rightarrow> if blank s then Inl err else Inr (strip s) | _ \<Rightarrow> Inl err)"

definition MAX_DOCUMENT_FILES :: nat where "MAX_DOCUMENT_FILES = 10"
definition MAX_NOTIFICATION_ATTACHMENTS :: nat where "MAX_NOTIFICATION_ATTACHMENTS = 5"

definition document_refs :: "string \<Rightarrow> pyval \<Rightarrow> string list res" where
  "document_refs nid files = (let items = ref_items files in
     if items = [] then Inl (node_err ''aucune piece jointe a lire'' ''document_no_file'' nid)
     else if MAX_DOCUMENT_FILES < length items
     then Inl (gcode ''trop de pieces jointes'' ''document_too_many''
       [(''node'', PStr nid), (''max'', PStr (nat_str MAX_DOCUMENT_FILES))])
     else emap (item_ref (node_err ''element sans reference'' ''document_bad_ref'' nid)) items)"

definition file_refs :: "string \<Rightarrow> string \<Rightarrow> nat \<Rightarrow> pyval \<Rightarrow> string list res" where
  "file_refs nid prefix limit v = (let items = ref_items v in
     if limit < length items
     then Inl (gcode ''trop de fichiers'' (prefix @ ''_too_many_attachments'')
       [(''node'', PStr nid), (''max'', PStr (nat_str limit))])
     else emap (item_ref (node_err ''element qui n est pas un fichier''
       (prefix @ ''_attachment_bad_ref'') nid)) items)"

definition db_value :: "pyval \<Rightarrow> pyval" where
  "db_value v = (case v of PList _ \<Rightarrow> PStr (json_dumps v) | PDict _ \<Rightarrow> PStr (json_dumps v) | _ \<Rightarrow> v)"

subsection \<open>\<open>_check_contract\<close>\<close>

definition actual_type :: "pyval \<Rightarrow> string" where
  "actual_type v = (case v of PDict _ \<Rightarrow> ''json'' | PList _ \<Rightarrow> ''json'' | PStr _ \<Rightarrow> ''text''
     | PNone \<Rightarrow> ''none'' | _ \<Rightarrow> type_name v)"

definition last_line :: "string \<Rightarrow> string" where
  "last_line s = (case filter (\<lambda>l. \<not> blank l) (splitlines (strip s)) of
     [] \<Rightarrow> [] | ls \<Rightarrow> take 300 (last ls))"

definition check_contract :: "wnode \<Rightarrow> pyval \<Rightarrow> unit res" where
  "check_contract n v =
     (let expected = get1 (n_config n) ''output_type'' (PStr ''any''); actual = actual_type v in checks
      [raise_if (expected \<in> {PStr ''json'', PStr ''text''} \<and> expected \<noteq> PStr actual)
         (gcode ''sortie d un autre type'' ''output_type_mismatch''
           [(''node'', PStr (n_id n)), (''expected'', expected), (''actual'', PStr actual)]),
       raise_if (n_type n = TAgent \<and> cfg0 n ''on_question'' = PStr ''fail'' \<and> asks_question v)
         (gcode ''l agent a pose une question au lieu de repondre'' ''agent_asked_question''
           [(''node'', PStr (n_id n)), (''question'', PStr (last_line (py_str v)))])])"

subsection \<open>Lemmas\<close>

lemma pick_route_in: "pick_route answer routes = Some r \<Longrightarrow> r \<in> set routes"
proof -
  assume p: "pick_route answer routes = Some r"
  define tx where "tx = lower (strip (squeeze False (py_str answer)))"
  show ?thesis
  proof (cases "find (\<lambda>r. tx = lower r) routes")
    case (Some x)
    with p have "x = r" by (simp add: pick_route_def tx_def Let_def)
    with Some show ?thesis by (auto dest: find_Some_iff')
  next
    case None
    with p have "filter (\<lambda>r. word_search (lower r) None tx) routes = [r]"
      by (auto simp: pick_route_def tx_def Let_def split: list.splits)
    then have "r \<in> set (filter (\<lambda>r. word_search (lower r) None tx) routes)" by simp
    then show ?thesis by simp
  qed
qed

lemma emap_item_ref:
  assumes "emap (item_ref err) items = Inr rs" "r \<in> set rs"
  shows "r \<noteq> []"
proof -
  obtain i where "item_ref err i = Inr r" using emap_set[OF assms] by blast
  then obtain s where "\<not> blank s" "r = strip s"
    by (auto simp: item_ref_def split: pyval.split_asm if_split_asm)
  then show ?thesis by (simp add: blank_def)
qed

text \<open>The shape of an extraction: the fields asked for, each absent or of its declared type.\<close>

definition field_ok :: "pyval list \<Rightarrow> string \<Rightarrow> pyval \<Rightarrow> bool" where
  "field_ok flds k v = (\<exists>d. PDict d \<in> set flds \<and> str_of (get0 d ''name'') = k
     \<and> (if v = PNone then \<not> truthy (get0 d ''required'') else matches_extract_type v (str_of (get0 d ''type''))))"

lemma extract_step_Inr:
  assumes "extract_step nid parsed acc f = Inr acc'"
  shows "\<exists>d v. f = PDict d \<and> acc' = dset acc (str_of (get0 d ''name'')) v
    \<and> (if v = PNone then \<not> truthy (get0 d ''required'') else matches_extract_type v (str_of (get0 d ''type'')))"
proof -
  from assms obtain d where f: "f = PDict d"
    by (auto simp: extract_step_def as_dict_def ebind_eq_Inr split: pyval.splits)
  with assms obtain name ty where nt: "dget d ''name'' = Some name" "dget d ''type'' = Some ty"
    by (auto simp: extract_step_def as_dict_def getitem_def ebind_eq_Inr)
  define v where "v = get0 parsed (str_of name)"
  have "acc' = dset acc (str_of name) v \<and> (if v = PNone then \<not> truthy (get0 d ''required'')
      else matches_extract_type v (str_of ty))"
    using assms unfolding extract_step_def f
    by (simp add: as_dict_def getitem_def nt of_opt_def v_def[symmetric] Let_def split: if_split_asm)
  moreover have "get0 d ''name'' = name" "get0 d ''type'' = ty" using nt by (simp_all add: get0_def)
  ultimately show ?thesis using f by metis
qed

lemma extract_fold_ok:
  assumes "efold (extract_step nid parsed) acc fs = Inr out" "set fs \<subseteq> set flds"
    and "\<And>k v. dget acc k = Some v \<Longrightarrow> field_ok flds k v"
  shows "\<forall>k v. dget out k = Some v \<longrightarrow> field_ok flds k v"
proof -
  have "(\<lambda>a. \<forall>k v. dget a k = Some v \<longrightarrow> field_ok flds k v) out"
  proof (rule efold_invariant[OF assms(1)])
    show "\<forall>k v. dget acc k = Some v \<longrightarrow> field_ok flds k v" using assms(3) by blast
  next
    fix a f a' assume f: "f \<in> set fs" "\<forall>k v. dget a k = Some v \<longrightarrow> field_ok flds k v"
      "extract_step nid parsed a f = Inr a'"
    from extract_step_Inr[OF f(3)] obtain d v where d: "f = PDict d"
      "a' = dset a (str_of (get0 d ''name'')) v"
      "if v = PNone then \<not> truthy (get0 d ''required'') else matches_extract_type v (str_of (get0 d ''type''))"
      by blast
    have "field_ok flds (str_of (get0 d ''name'')) v"
      using d f(1) assms(2) unfolding field_ok_def by blast
    with d(2) f(2) show "\<forall>k v. dget a' k = Some v \<longrightarrow> field_ok flds k v" by simp
  qed
  then show ?thesis by simp
qed

lemma extract_fold_keys:
  assumes "efold (extract_step nid parsed) acc fs = Inr out"
  shows "set (dkeys out) = set (dkeys acc) \<union> {str_of (get0 d ''name'') | d. PDict d \<in> set fs}"
  using assms
proof (induction fs arbitrary: acc)
  case (Cons f fs)
  then obtain acc' where a: "extract_step nid parsed acc f = Inr acc'" "efold (extract_step nid parsed) acc' fs = Inr out"
    by (auto simp: ebind_eq_Inr)
  from extract_step_Inr[OF a(1)] obtain d v where "f = PDict d" "acc' = dset acc (str_of (get0 d ''name'')) v" by blast
  with Cons.IH[OF a(2)] show ?case by auto
qed simp

lemma extract_result_Inr:
  assumes "extract_result nid flds answer = Inr out"
  shows "set (dkeys out) = {str_of (get0 d ''name'') | d. PDict d \<in> set flds}
    \<and> (\<forall>k v. dget out k = Some v \<longrightarrow> field_ok flds k v)"
proof -
  from assms obtain parsed where e: "efold (extract_step nid parsed) [] flds = Inr out"
    by (auto simp: extract_result_def split: pyval.splits)
  have "set (dkeys out) = set (dkeys ([]::pydict)) \<union> {str_of (get0 d ''name'') | d. PDict d \<in> set flds}"
    by (rule extract_fold_keys[OF e])
  moreover have "\<forall>k v. dget out k = Some v \<longrightarrow> field_ok flds k v"
    by (rule extract_fold_ok[OF e]) simp_all
  ultimately show ?thesis by (simp add: dkeys_def)
qed

subsection \<open>Properties\<close>

text \<open>An extraction that succeeds has exactly the declared fields, and each value is of its field's
  type or absent from an optional field.\<close>

theorem extract_result_typed:
  assumes "extract_result nid flds answer = Inr out"
  shows "set (dkeys out) = {str_of (get0 d ''name'') | d. PDict d \<in> set flds}
    \<and> (\<forall>k v. dget out k = Some v \<longrightarrow> field_ok flds k v)"
  by (rule extract_result_Inr[OF assms])

definition example_fields :: "pyval list" where
  "example_fields = [PDict [(''name'', PStr ''n''), (''type'', PStr ''number''), (''required'', PBool True)]]"

definition example_answer :: pyval where
  "example_answer = PStr (''Here: {'' @ [dquote] @ ''n'' @ [dquote] @ '': 12}'')"

lemma extract_result_typed_witness:
  "\<exists>out. extract_result ''x'' example_fields example_answer = Inr out \<and> ''n'' \<in> set (dkeys out)"
proof -
  have r: "extract_result ''x'' example_fields example_answer = Inr [(''n'', PInt 12)]" by code_simp
  have "\<exists>d. ''n'' = str_of (get0 d ''name'') \<and> PDict d \<in> set example_fields"
    by (rule exI[of _ "[(''name'', PStr ''n''), (''type'', PStr ''number''), (''required'', PBool True)]"]) code_simp
  then show ?thesis using extract_result_typed[OF r] r by blast
qed

text \<open>The route a classifier's answer picks is one of the declared routes.\<close>

theorem pick_route_declared:
  assumes "pick_route answer routes = Some r"
  shows "r \<in> set routes"
  by (rule pick_route_in[OF assms])

lemma pick_route_declared_witness: "''Refund'' \<in> set [''Refund'', ''Sales'']"
proof -
  have "pick_route (PStr ''the route is **refund**.'') [''Refund'', ''Sales''] = Some ''Refund''" by code_simp
  from pick_route_declared[OF this] show ?thesis .
qed

end
