(* ===== verification/Wf_Files.thy ===== *)
theory Wf_Files
  imports Wf_Nodes
begin

section \<open>Files produced by a run (\<open>core/workflow_files.py\<close>, \<open>storage/filename.py\<close>)\<close>

text \<open>
  The content of a file node: tables to CSV with neutralised formulas, JSON with indentation,
  text, and the bounds checked before anything is built (\<open>_bounded_file_text\<close>,
  \<open>_build_file\<close> of \<open>core/workflow_graph.py\<close>).  Bytes are a list of characters
  0 to 255.  The rendering of xlsx, docx and pdf by their libraries is a parameter.
\<close>

subsection \<open>\<open>sanitize_filename\<close>\<close>

definition printable :: "char \<Rightarrow> bool" where
  "printable c = (let n = code c in 32 \<le> n \<and> \<not> (127 \<le> n \<and> n \<le> 160) \<and> n \<noteq> 173)"

definition basename :: "string \<Rightarrow> string" where
  "basename s = last (split_on (CHR ''/'') s)"

fun replace_dots :: "string \<Rightarrow> string" where
  "replace_dots (c # d # s) = (if c = CHR ''.'' \<and> d = CHR ''.'' then CHR ''_'' # replace_dots s
     else c # replace_dots (d # s))"
| "replace_dots s = s"

definition safe_char :: "char \<Rightarrow> char" where
  "safe_char c = (if is_word c \<or> is_space c \<or> c = CHR ''-'' \<or> c = CHR ''.'' then c else CHR ''_'')"

definition sanitize_filename :: "string \<Rightarrow> string" where
  "sanitize_filename raw = (if raw = [] then ''attachment''
     else let name = map safe_char (replace_dots (filter printable (basename raw)));
              name' = rstrip_by (\<lambda>c. c \<in> set ''. '') (lstrip_by (\<lambda>c. c = CHR ''.'') name) in
       if name' = [] then ''attachment'' else name')"

definition file_ext :: "string \<Rightarrow> string" where
  "file_ext fmt = (if fmt = ''markdown'' then ''.md'' else if fmt = ''text'' then ''.txt'' else CHR ''.'' # fmt)"

definition content_type_of :: "string \<Rightarrow> string" where
  "content_type_of fmt = (if fmt = ''csv'' then ''text/csv''
     else if fmt = ''xlsx'' then ''application/vnd.openxmlformats-officedocument.spreadsheetml.sheet''
     else if fmt = ''json'' then ''application/json''
     else if fmt = ''markdown'' then ''text/markdown''
     else if fmt = ''text'' then ''text/plain''
     else if fmt = ''docx'' then ''application/vnd.openxmlformats-officedocument.wordprocessingml.document''
     else ''application/pdf'')"

definition MAX_FILE_NAME :: nat where "MAX_FILE_NAME = 120"

definition file_name :: "string \<Rightarrow> pyval \<Rightarrow> string \<Rightarrow> string" where
  "file_name nid rendered fmt = (let ext = file_ext fmt;
       raw = (case rendered of PStr s \<Rightarrow> if blank s then nid else s | _ \<Rightarrow> nid);
       name = sanitize_filename (strip raw);
       stem = (if ends_with ext (lower name) then take (length name - length ext) name else name);
       stem' = rstrip_by (\<lambda>c. c \<in> set '' .'') (take (MAX_FILE_NAME - length ext) stem) in
     (if stem' = [] then nid else stem') @ ext)"

subsection \<open>Text: \<open>strip_control\<close>, \<open>depth\<close>, \<open>bounded_text\<close>, \<open>json_value\<close>\<close>

definition is_control :: "char \<Rightarrow> bool" where
  "is_control c = (let n = code c in n \<le> 8 \<or> n = 11 \<or> n = 12 \<or> (14 \<le> n \<and> n \<le> 31))"

definition strip_control :: "string \<Rightarrow> string" where
  "strip_control s = filter (\<lambda>c. \<not> is_control c) s"

definition children :: "pyval \<Rightarrow> pyval list option" where
  "children v = (case v of PDict d \<Rightarrow> Some (map snd d) | PList xs \<Rightarrow> Some xs | _ \<Rightarrow> None)"

lemma children_size: "children v = Some cs \<Longrightarrow> sum_list (map psize cs) < psize v"
  by (auto simp: children_def psize_list_sum psize_items_sum comp_def split: pyval.splits)

text \<open>The walk with an explicit stack, its top first, abandoned once \<open>stop\<close> is passed.\<close>

function depth_loop :: "nat \<Rightarrow> nat \<Rightarrow> (pyval \<times> nat) list \<Rightarrow> nat" where
  "depth_loop stop deepest [] = deepest"
| "depth_loop stop deepest ((item, level) # stack) = (case children item of
     None \<Rightarrow> depth_loop stop deepest stack
   | Some cs \<Rightarrow> (let deepest' = max deepest (Suc level) in
       if stop < deepest' then deepest'
       else depth_loop stop deepest' (rev (map (\<lambda>c. (c, Suc level)) cs) @ stack)))"
  by pat_completeness auto
termination
proof (relation "measure (\<lambda>(_, _, stack). sum_list (map (psize \<circ> fst) stack))", goal_cases)
  case (3 stop deepest item level stack cs d)
  have "sum_list (map (psize \<circ> fst) (rev (map (\<lambda>c. (c, Suc level)) cs))) = sum_list (map psize cs)"
    by (simp add: rev_map[symmetric] comp_def sum_list_rev)
  with children_size[OF 3(1)] show ?case by simp
qed auto

definition depth :: "pyval \<Rightarrow> nat \<Rightarrow> nat" where
  "depth v stop = depth_loop stop 0 [(v, 0)]"

fun nesting :: "pyval \<Rightarrow> nat" where
  "nesting (PDict d) = Suc (fold max (map nesting (map snd d)) 0)"
| "nesting (PList xs) = Suc (fold max (map nesting xs) 0)"
| "nesting v = 0"

definition indent :: "nat \<Rightarrow> string" where
  "indent n = newline @ replicate (2 * n) (CHR '' '')"

text \<open>\<open>json.dumps(v, ensure_ascii=False, indent=2)\<close>\<close>

fun json_pretty :: "nat \<Rightarrow> pyval \<Rightarrow> string"
  and pretty_items :: "nat \<Rightarrow> pyval list \<Rightarrow> string"
  and pretty_members :: "nat \<Rightarrow> (string \<times> pyval) list \<Rightarrow> string" where
  "json_pretty n (PList xs) = (if xs = [] then ''[]''
     else ''['' @ pretty_items (Suc n) xs @ indent n @ '']'')"
| "json_pretty n (PDict d) = (if d = [] then ''{}''
     else ''{'' @ pretty_members (Suc n) d @ indent n @ ''}'')"
| "json_pretty n v = json_dumps v"
| "pretty_items n [] = []"
| "pretty_items n (x # xs) = indent n @ json_pretty n x @ (if xs = [] then [] else '','') @ pretty_items n xs"
| "pretty_members n [] = []"
| "pretty_members n ((k, v) # d) = indent n @ json_str False k @ '': '' @ json_pretty n v
     @ (if d = [] then [] else '','') @ pretty_members n d"

text \<open>\<open>None\<close> is \<open>TextTooLong\<close>.\<close>

definition bounded_text :: "pyval \<Rightarrow> int \<Rightarrow> bool \<Rightarrow> string option" where
  "bounded_text v limit as_json = (let text =
       (if \<not> as_json \<and> is_str v then str_of v else if \<not> as_json \<and> v = PNone then [] else json_pretty 0 v) in
     if limit < int (length text) then None else Some text)"

definition json_value :: "pyval \<Rightarrow> pyval" where
  "json_value v = (case v of PStr s \<Rightarrow> (case json_loads s of Some w \<Rightarrow> w | None \<Rightarrow> v) | _ \<Rightarrow> v)"

subsection \<open>Tables: \<open>parse_table\<close>, \<open>_cell\<close>, \<open>_csv\<close>\<close>

record table =
  t_keys :: "string list option"
  t_header :: "string list"
  t_records :: "pyval list"
  t_width :: nat

definition row_list :: "pyval \<Rightarrow> pyval list" where
  "row_list v = (case v of PList xs \<Rightarrow> xs | _ \<Rightarrow> [])"

definition row_dict :: "pyval \<Rightarrow> pydict" where
  "row_dict v = (case v of PDict d \<Rightarrow> d | _ \<Rightarrow> [])"

definition table_of_rows :: "pyval list \<Rightarrow> table option" where
  "table_of_rows rows = (if rows = [] then None
     else if list_all is_dict rows then
       (let keys = dedup (concat (map (dkeys \<circ> row_dict) rows)) in
        Some \<lparr>t_keys = Some keys, t_header = keys, t_records = rows, t_width = length keys\<rparr>)
     else if list_all is_list rows then
       Some \<lparr>t_keys = None, t_header = map py_str (row_list (hd rows)), t_records = tl rows,
             t_width = Max (set (map (length \<circ> row_list) rows))\<rparr>
     else None)"

text \<open>\<open>None\<close> is \<open>RowsError\<close>.\<close>

definition parse_table :: "pyval \<Rightarrow> table option" where
  "parse_table v = (case (case v of PStr s \<Rightarrow> json_loads s | _ \<Rightarrow> Some v) of
     None \<Rightarrow> None
   | Some (PDict d) \<Rightarrow> table_of_rows [PDict d]
   | Some (PList rows) \<Rightarrow> table_of_rows rows
   | Some _ \<Rightarrow> None)"

definition table_rows :: "table \<Rightarrow> pyval list list" where
  "table_rows t = (case t_keys t of None \<Rightarrow> map row_list (t_records t)
     | Some ks \<Rightarrow> map (\<lambda>r. map (get0 (row_dict r)) ks) (t_records t))"

definition formula_start :: "char \<Rightarrow> bool" where
  "formula_start c = (c \<in> set ''=+@'' \<or> code c = 9 \<or> code c = 13)"

text \<open>\<open>^-?\d+([.,]\d+)?$\<close>\<close>

definition number_text :: "string \<Rightarrow> bool" where
  "number_text = dollar (\<lambda>s. let t = (if starts_with ''-'' s then tl s else s);
     a = takeWhile is_dec t; r = dropWhile is_dec t in
     a \<noteq> [] \<and> (r = [] \<or> (hd r \<in> set ''.,'' \<and> tl r \<noteq> [] \<and> list_all is_dec (tl r))))"

definition neutral_text :: "string \<Rightarrow> string" where
  "neutral_text t = (if t \<noteq> [] \<and> formula_start (hd t) \<or> starts_with ''-'' t \<and> \<not> number_text t
     then char_of (39::nat) # t else t)"

definition cell_text :: "pyval \<Rightarrow> string" where
  "cell_text v = (case v of PNone \<Rightarrow> [] | PBool _ \<Rightarrow> py_str v | PInt _ \<Rightarrow> py_str v
     | PFloat _ \<Rightarrow> py_str v | _ \<Rightarrow> neutral_text (strip_control (text_of v)))"

definition csv_text :: "string list \<Rightarrow> pyval list list \<Rightarrow> string" where
  "csv_text header rows = csv_row (map (\<lambda>h. cell_text (PStr h)) header)
     @ concat (map (\<lambda>r. csv_row (map cell_text r)) rows)"

subsection \<open>\<open>markdown_tables\<close>\<close>

definition bar :: char where "bar = CHR ''|''"

definition sep_cell :: "string \<Rightarrow> bool" where
  "sep_cell s = (let t = strip s;
       t1 = (if starts_with '':'' t then tl t else t);
       t2 = (if ends_with '':'' t1 then butlast t1 else t1) in
     2 \<le> length t2 \<and> list_all (\<lambda>c. c = CHR ''-'') t2)"

definition table_sep :: "string \<Rightarrow> bool" where
  "table_sep s = (let t = strip s;
       t1 = (if starts_with ''|'' t then tl t else t);
       t2 = (if ends_with ''|'' t1 then butlast t1 else t1) in list_all sep_cell (split_on bar t2))"

definition split_row :: "string \<Rightarrow> string list" where
  "split_row line = map strip (split_on bar (strip_by (\<lambda>c. c = bar) (strip line)))"

definition bar_line :: "string \<Rightarrow> bool" where
  "bar_line l = starts_with ''|'' (lstrip_by is_space l)"

function markdown_tables :: "nat \<Rightarrow> nat \<Rightarrow> string list \<Rightarrow> nat \<times> nat" where
  "markdown_tables widest cells [] = (widest, cells)"
| "markdown_tables widest cells (l # ls) =
     (if bar_line l \<and> ls \<noteq> [] \<and> table_sep (hd ls)
      then (let width = length (split_row l); body = takeWhile bar_line (tl ls) in
        markdown_tables (max widest width) (cells + (1 + length body) * width) (dropWhile bar_line (tl ls)))
      else markdown_tables widest cells ls)"
  by pat_completeness auto
termination
proof (relation "measure (\<lambda>(_, _, ls). length ls)", goal_cases)
  case (2 widest cells l ls width body)
  have "length (dropWhile bar_line (tl ls)) \<le> length (tl ls)" by (rule length_dropWhile_le)
  then show ?case by simp
qed auto

subsection \<open>\<open>_bounded_file_text\<close>, \<open>_build_file\<close>\<close>

definition MAX_FILE_BYTES :: int where "MAX_FILE_BYTES = 5242880"
definition MAX_FILE_ROWS :: int where "MAX_FILE_ROWS = 10000"
definition MAX_FILE_COLUMNS :: int where "MAX_FILE_COLUMNS = 1000"
definition MAX_FILE_CELLS :: int where "MAX_FILE_CELLS = 500000"
definition MAX_FILE_TEXT_CHARS :: int where "MAX_FILE_TEXT_CHARS = 200000"
definition MAX_FILE_DEPTH :: nat where "MAX_FILE_DEPTH = 50"
definition MAX_DOC_TABLE_COLUMNS :: int where "MAX_DOC_TABLE_COLUMNS = 63"
definition MAX_DOC_TABLE_CELLS :: int where "MAX_DOC_TABLE_CELLS = 20000"
definition MAX_FILE_TEXT_LINES :: int where "MAX_FILE_TEXT_LINES = 2000"

definition file_max :: "string \<Rightarrow> string \<Rightarrow> string \<Rightarrow> int \<Rightarrow> exn" where
  "file_max m c nid k = gcode m c [(''node'', PStr nid), (''max'', PStr (int_str k))]"

definition rich_text_checks :: "string \<Rightarrow> string \<Rightarrow> unit res" where
  "rich_text_checks nid text = (case markdown_tables 0 0 (splitlines text) of (widest, cells) \<Rightarrow> checks
    [raise_if (MAX_FILE_TEXT_LINES < int (length (splitlines text)))
       (file_max ''trop de lignes'' ''file_too_many_lines'' nid MAX_FILE_TEXT_LINES),
     raise_if (MAX_DOC_TABLE_COLUMNS < int widest)
       (file_max ''trop de colonnes'' ''file_too_many_columns'' nid MAX_DOC_TABLE_COLUMNS),
     raise_if (MAX_DOC_TABLE_CELLS < int cells)
       (file_max ''trop de cellules'' ''file_too_many_cells'' nid MAX_DOC_TABLE_CELLS)])"

definition bounded_file_text :: "string \<Rightarrow> string \<Rightarrow> pyval \<Rightarrow> string res" where
  "bounded_file_text nid fmt value =
    (let v = (if fmt = ''json'' then json_value value else value);
         rich = (fmt \<in> {''docx'', ''pdf''});
         limit = (if rich then MAX_FILE_TEXT_CHARS else MAX_FILE_BYTES) in
     if MAX_FILE_DEPTH < depth v MAX_FILE_DEPTH
     then Inl (file_max ''valeur trop imbriquee'' ''file_too_deep'' nid (int MAX_FILE_DEPTH))
     else case bounded_text v limit (fmt = ''json'') of
       None \<Rightarrow> Inl (if rich then gcode ''texte trop long'' ''file_text_too_long''
           [(''node'', PStr nid), (''format'', PStr fmt), (''max'', PStr (int_str MAX_FILE_TEXT_CHARS))]
         else file_max ''fichier trop grand'' ''file_too_large'' nid MAX_FILE_BYTES)
     | Some text \<Rightarrow>
         if \<not> rich then Inr text
         else ebind (rich_text_checks nid (strip_control text)) (\<lambda>_. Inr (strip_control text)))"

text \<open>UTF-8 of Latin-1 text, and the byte order mark of \<open>utf-8-sig\<close>.\<close>

definition utf8 :: "string \<Rightarrow> string" where
  "utf8 s = concat (map (\<lambda>c. if code c < 128 then [c]
     else [char_of (192 + code c div 64), char_of (128 + code c mod 64)]) s)"

definition bom :: string where "bom = map char_of [239::nat, 187, 191]"

text \<open>The libraries behind xlsx, docx and pdf: bytes, or the exception they raise.\<close>

record renderers =
  rn_xlsx :: "string list \<Rightarrow> pyval list list \<Rightarrow> string option \<Rightarrow> string res"
  rn_docx :: "string \<Rightarrow> string res"
  rn_pdf :: "string \<Rightarrow> string res"

definition table_checks :: "string \<Rightarrow> table \<Rightarrow> unit res" where
  "table_checks nid t = (let rows = int (length (t_records t)) in checks
    [raise_if (MAX_FILE_ROWS < rows) (file_max ''trop de lignes'' ''file_too_many_rows'' nid MAX_FILE_ROWS),
     raise_if (MAX_FILE_COLUMNS < int (t_width t))
       (file_max ''trop de colonnes'' ''file_too_many_columns'' nid MAX_FILE_COLUMNS),
     raise_if (MAX_FILE_CELLS < rows * int (t_width t))
       (file_max ''trop de cellules'' ''file_too_many_cells'' nid MAX_FILE_CELLS)])"

definition build_file ::
  "renderers \<Rightarrow> string \<Rightarrow> string \<Rightarrow> pyval \<Rightarrow> string option \<Rightarrow> (string \<times> nat option) res" where
  "build_file rn nid fmt value sheet =
    (let failed = gcode ''fichier impossible a produire'' ''file_build_failed''
           [(''node'', PStr nid), (''format'', PStr fmt)] in
     if fmt \<in> {''csv'', ''xlsx''} then
       (case parse_table value of
          None \<Rightarrow> Inl (gcode ''attend une liste de lignes'' ''file_bad_rows''
            [(''node'', PStr nid), (''format'', PStr fmt)])
        | Some t \<Rightarrow> ebind (table_checks nid t) (\<lambda>_.
            if fmt = ''csv'' then Inr (bom @ utf8 (csv_text (t_header t) (table_rows t)), Some (length (t_records t)))
            else map_err (\<lambda>_. failed) (map_sum id (\<lambda>b. (b, Some (length (t_records t))))
              (rn_xlsx rn (t_header t) (table_rows t) sheet))))
     else ebind (bounded_file_text nid fmt value) (\<lambda>text.
       if fmt = ''docx'' then map_err (\<lambda>_. failed) (map_sum id (\<lambda>b. (b, None)) (rn_docx rn (strip_control text)))
       else if fmt = ''pdf'' then map_err (\<lambda>_. failed) (map_sum id (\<lambda>b. (b, None)) (rn_pdf rn (strip_control text)))
       else Inr (utf8 text, None)))"

subsection \<open>The walk computes the nesting depth\<close>

lemma fold_max_le: "fold max xs a \<le> k \<longleftrightarrow> a \<le> k \<and> (\<forall>x \<in> set xs. x \<le> (k::nat))"
  by (induction xs arbitrary: a) auto

lemma nesting_children:
  "children v = Some cs \<Longrightarrow> l + nesting v \<le> k \<longleftrightarrow> Suc l \<le> k \<and> (\<forall>c \<in> set cs. Suc l + nesting c \<le> k)"
proof -
  assume "children v = Some cs"
  then have n: "nesting v = Suc (fold max (map nesting cs) 0)"
    by (auto simp: children_def split: pyval.splits)
  show ?thesis
  proof (cases "Suc l \<le> k")
    case True
    then obtain j where "k = Suc (l + j)" using nat_le_iff_add by auto
    then show ?thesis by (auto simp: n fold_max_le)
  qed (simp add: n)
qed

lemma nesting_leaf: "children v = None \<Longrightarrow> nesting v = 0"
  by (cases v) (auto simp: children_def)

lemma depth_loop_le:
  assumes "k \<le> stop" "\<And>v l. (v, l) \<in> set stack \<Longrightarrow> l \<le> d"
  shows "depth_loop stop d stack \<le> k \<longleftrightarrow> d \<le> k \<and> (\<forall>(v, l) \<in> set stack. l + nesting v \<le> k)"
  using assms
proof (induction stop d stack rule: depth_loop.induct)
  case (2 stop d item level stack)
  note lv = 2(4)
  show ?case
  proof (cases "children item")
    case None
    with 2(1)[OF None 2(3)] lv nesting_leaf[OF None] show ?thesis by fastforce
  next
    case (Some cs)
    let ?d = "max d (Suc level)"
    let ?new = "rev (map (\<lambda>c. (c, Suc level)) cs)"
    have lvl: "l \<le> ?d" if "(v, l) \<in> set (?new @ stack)" for v l
      using that lv[of v l] by fastforce
    note nc = nesting_children[OF Some, of level k]
    show ?thesis
    proof (cases "stop < ?d")
      case True
      with Some 2(3) nc show ?thesis by (auto simp: Let_def max_def split: if_splits)
    next
      case False
      have "depth_loop stop ?d (?new @ stack) \<le> k
          \<longleftrightarrow> ?d \<le> k \<and> (\<forall>(v, l) \<in> set (?new @ stack). l + nesting v \<le> k)"
        by (rule 2(2)[OF Some refl False 2(3)]) (use lvl in blast)
      moreover have "(\<forall>(v, l) \<in> set (?new @ stack). l + nesting v \<le> k) \<longleftrightarrow>
          (\<forall>c \<in> set cs. Suc level + nesting c \<le> k) \<and> (\<forall>(v, l) \<in> set stack. l + nesting v \<le> k)"
        by (simp add: ball_Un)
      ultimately show ?thesis using False Some nc by (simp add: Let_def)
    qed
  qed
qed simp

lemma depth_le: "k \<le> stop \<Longrightarrow> depth v stop \<le> k \<longleftrightarrow> nesting v \<le> k"
  unfolding depth_def by (subst depth_loop_le) auto

subsection \<open>Names and cells\<close>

lemma neutral_text_safe:
  "neutral_text t \<noteq> [] \<Longrightarrow> \<not> formula_start (hd (neutral_text t))
    \<and> (starts_with ''-'' (neutral_text t) \<longrightarrow> number_text (neutral_text t))"
proof -
  have q: "\<not> formula_start (char_of (39::nat))" "char_of (39::nat) \<noteq> CHR ''-''" by code_simp+
  then show "neutral_text t \<noteq> [] \<Longrightarrow> ?thesis" by (auto simp: neutral_text_def starts_with_def)
qed

fun two_dots :: "string \<Rightarrow> bool" where
  "two_dots (c # d # s) = (c = CHR ''.'' \<and> d = CHR ''.'' \<or> two_dots (d # s))"
| "two_dots s = False"

lemma replace_dots_ok: "\<not> two_dots (replace_dots s) \<and> (s \<noteq> [] \<longrightarrow> hd s \<noteq> CHR ''.'' \<longrightarrow> hd (replace_dots s) = hd s)
    \<and> (replace_dots s = [] \<longleftrightarrow> s = [])"
proof (induction s rule: replace_dots.induct)
  case (1 c d s)
  show ?case
  proof (cases "c = CHR ''.'' \<and> d = CHR ''.''")
    case True
    then show ?thesis using 1(1) by (cases "replace_dots s") auto
  next
    case False
    then show ?thesis using 1(2)[OF False] by (cases "replace_dots (d # s)") auto
  qed
qed auto

lemma two_dots_append: "\<not> two_dots (xs @ ys) \<Longrightarrow> \<not> two_dots xs \<and> \<not> two_dots ys"
proof (induction xs)
  case (Cons c xs)
  then show ?case by (cases xs; cases ys) auto
qed simp

lemma two_dots_map: "(\<And>c. f c = CHR ''.'' \<longleftrightarrow> c = CHR ''.'') \<Longrightarrow> two_dots (map f s) = two_dots s"
  by (induction s rule: two_dots.induct) auto

lemma two_dots_dropWhile: "\<not> two_dots s \<Longrightarrow> \<not> two_dots (dropWhile P s)"
  using two_dots_append[of "takeWhile P s" "dropWhile P s"] by simp

definition filename_ok :: "string \<Rightarrow> bool" where
  "filename_ok f = (f \<noteq> [] \<and> CHR ''/'' \<notin> set f \<and> \<not> two_dots f \<and> hd f \<noteq> CHR ''.''
     \<and> last f \<notin> set ''. '' \<and> list_all (\<lambda>c. is_word c \<or> is_space c \<or> c \<in> set ''-._'') f)"

lemma safe_char_facts: "safe_char c \<noteq> CHR ''/''" "safe_char c = CHR ''.'' \<longleftrightarrow> c = CHR ''.''"
  "is_word (safe_char c) \<or> is_space (safe_char c) \<or> safe_char c \<in> set ''-._''"
  by (auto simp: safe_char_def is_word_def is_ident_char_def is_space_def is_alpha_def is_dec_def code_def Let_def)

lemma sanitize_filename_ok: "filename_ok (sanitize_filename raw)"
proof -
  have att: "filename_ok ''attachment''" by code_simp
  define name where "name = map safe_char (replace_dots (filter printable (basename raw)))"
  define a where "a = lstrip_by (\<lambda>c. c = CHR ''.'') name"
  define b where "b = rstrip_by (\<lambda>c. c \<in> set ''. '') a"
  obtain t where t: "a = b @ t" using rstrip_prefix[of a] unfolding b_def by blast
  have sub: "set b \<subseteq> set name"
    using t set_dropWhileD[of _ "\<lambda>c. c = CHR ''.''" name] unfolding a_def lstrip_by_def by fastforce
  have chars: "CHR ''/'' \<notin> set name"
    "\<forall>c \<in> set name. is_word c \<or> is_space c \<or> c \<in> set ''-._''"
    using safe_char_facts(1,3) unfolding name_def by fastforce+
  have "\<not> two_dots name" unfolding name_def using replace_dots_ok safe_char_facts(2) by (simp add: two_dots_map)
  then have "\<not> two_dots a" unfolding a_def lstrip_by_def by (rule two_dots_dropWhile)
  then have dots: "\<not> two_dots b" using two_dots_append[of b t] t by simp
  have "filename_ok b" if "b \<noteq> []"
  proof -
    have "hd a = hd b" "a \<noteq> []" using t that by auto
    then have "hd b \<noteq> CHR ''.''" using hd_dropWhile[of "\<lambda>c. c = CHR ''.''" name] by (auto simp: a_def lstrip_by_def)
    moreover have "last b \<notin> set ''. ''" using rstrip_last[of "\<lambda>c. c \<in> set ''. ''" a] that by (simp add: b_def)
    moreover have "list_all (\<lambda>c. is_word c \<or> is_space c \<or> c \<in> set ''-._'') b"
      using chars(2) sub by (auto simp: list_all_iff)
    ultimately show ?thesis using that sub chars(1) dots unfolding filename_ok_def by blast
  qed
  with att show ?thesis
    unfolding sanitize_filename_def Let_def name_def[symmetric] a_def[symmetric] b_def[symmetric] by simp
qed

subsection \<open>Properties\<close>

text \<open>The iterative walk of \<open>depth\<close>, which stops early, agrees with the nesting depth of the
  value: it passes the bound exactly when the nesting does, and is the nesting otherwise.\<close>

theorem depth_is_nesting:
  "(stop < depth v stop) = (stop < nesting v) \<and> (nesting v \<le> stop \<longrightarrow> depth v stop = nesting v)"
  using depth_le[of stop stop v] depth_le[of "nesting v" stop v] depth_le[of "depth v stop" stop v] by force

lemma depth_is_nesting_witness: "depth (PList [PDict [(''a'', PList [])], PNone]) 50 = 3"
proof -
  have "nesting (PList [PDict [(''a'', PList [])], PNone]) = 3" by code_simp
  then show ?thesis using depth_is_nesting[of 50 "PList [PDict [(''a'', PList [])], PNone]"] by simp
qed

text \<open>Whatever name is asked for, the sanitised name is a leaf name: not empty, no slash, no two
  consecutive dots, no leading dot, no trailing dot or space, only word characters, whitespace,
  dashes and dots.\<close>

theorem sanitized_name_is_safe: "filename_ok (sanitize_filename raw)"
  by (rule sanitize_filename_ok)

text \<open>A cell of a produced CSV file that comes from text is never read as a formula: it does not
  start with an equals sign, a plus, an at sign, a tab or a carriage return, and starts with a
  minus only when it is a number.\<close>

theorem csv_cell_is_no_formula:
  assumes "is_str v \<or> is_list v \<or> is_dict v" "cell_text v \<noteq> []"
  shows "\<not> formula_start (hd (cell_text v)) \<and> (starts_with ''-'' (cell_text v) \<longrightarrow> number_text (cell_text v))"
proof -
  have "cell_text v = neutral_text (strip_control (text_of v))"
    using assms(1) by (auto simp: cell_text_def type_tests)
  with assms(2) neutral_text_safe show ?thesis by metis
qed

lemma csv_cell_is_no_formula_witness: "hd (cell_text (PStr ''=1+2'')) \<noteq> CHR ''=''"
proof -
  have a: "is_str (PStr ''=1+2'')" "cell_text (PStr ''=1+2'') \<noteq> []" "formula_start (CHR ''='')" by code_simp+
  show ?thesis using csv_cell_is_no_formula[OF disjI1[OF a(1)] a(2)] a(3) by metis
qed

end
