(* ===== verification/Wf_Http.thy ===== *)
theory Wf_Http
  imports Wf_Nodes
begin

section \<open>The \<open>http\<close> node and its guard against internal addresses\<close>

text \<open>
  \<open>_http_call\<close> and \<open>_read_capped_response\<close> of \<open>core/workflow_graph.py\<close>, with the
  guard they reuse from \<open>routers/rag/validators.py\<close>.  The two URL parsers, the reading of an
  address, the name resolver and the HTTP client are libraries: parameters of the model, the
  resolver and the client with a state of their own, so that a name may resolve differently each
  time it is asked (DNS rebinding).  The state also keeps the list of URLs requests were sent
  to, which the safety theorem is about.
\<close>

subsection \<open>The libraries\<close>

text \<open>What the guard reads of an address of \<open>ipaddress\<close>: its text \<open>str(ip)\<close> and its properties.\<close>

record ip_flags =
  ip_text :: string
  ip_private :: bool
  ip_loopback :: bool
  ip_link_local :: bool
  ip_reserved :: bool
  ip_multicast :: bool
  ip_unspecified :: bool

datatype reply = RTimeout | RFailed | RRaised exn
  | Reply (re_status: int) (re_headers: pydict) (re_redirect: bool) (re_location: "string option")
      (re_bytes: nat) (re_text: string)

text \<open>
  \<open>urlparse\<close>, \<open>httpx.URL\<close>, its \<open>copy_with(host=...)\<close> and its \<open>join\<close> refuse some texts (\<open>None\<close>): the first
  with a \<open>ValueError\<close>, the others with \<open>httpx.InvalidURL\<close>.  The resolver answers or raises.
\<close>

record 'w net =
  n_ip :: "string \<Rightarrow> ip_flags option"
  n_urlparse :: "string \<Rightarrow> (string \<times> string option) option"
  n_url :: "string \<Rightarrow> (string \<times> string \<times> int option) option"
  n_with_host :: "string \<Rightarrow> string \<Rightarrow> string option"
  n_join :: "string \<Rightarrow> string \<Rightarrow> string option"
  n_resolve :: "string \<Rightarrow> 'w \<Rightarrow> (exn + string list) \<times> 'w"
  n_send :: "string \<Rightarrow> string \<Rightarrow> pydict \<Rightarrow> pyval \<Rightarrow> pyval \<Rightarrow> 'w \<Rightarrow> reply \<times> 'w"

type_synonym ('w, 'a) net_act = "('w \<times> string list, exn, 'a) act"

definition resolve_host :: "'w net \<Rightarrow> string \<Rightarrow> ('w, exn + string list) net_act" where
  "resolve_host net host s = (case s of (w, urls) \<Rightarrow> case n_resolve net host w of (r, w') \<Rightarrow> (Inr r, (w', urls)))"

definition send_request ::
  "'w net \<Rightarrow> string \<Rightarrow> string \<Rightarrow> pydict \<Rightarrow> pyval \<Rightarrow> pyval \<Rightarrow> ('w, reply) net_act" where
  "send_request net meth url hs js content s = (case s of (w, urls) \<Rightarrow>
     case n_send net meth url hs js content w of (r, w') \<Rightarrow> (Inr r, (w', urls @ [url])))"

subsection \<open>\<open>_is_disallowed_ip\<close>, \<open>_validate_url_shape\<close>, \<open>_validate_url_not_internal\<close>\<close>

definition disallowed :: "ip_flags \<Rightarrow> bool" where
  "disallowed f = (ip_private f \<or> ip_loopback f \<or> ip_link_local f \<or> ip_reserved f \<or> ip_multicast f
     \<or> ip_unspecified f)"

definition is_hex :: "char \<Rightarrow> bool" where
  "is_hex c = (is_dec c \<or> c \<in> set ''abcdefABCDEF'')"

definition url_tail_ok :: "string \<Rightarrow> bool" where
  "url_tail_ok s = (s = [] \<or> (hd s \<in> set ''/?#'' \<and> list_all (\<lambda>c. \<not> is_space c \<and> code c \<noteq> 92) (tl s)))"

definition url_port_ok :: "string \<Rightarrow> bool" where
  "url_port_ok s = (if starts_with '':'' s
     then (let p = takeWhile is_dec (tl s) in p \<noteq> [] \<and> length p \<le> 5 \<and> url_tail_ok (dropWhile is_dec (tl s)))
     else url_tail_ok s)"

definition url_host_ok :: "string \<Rightarrow> bool" where
  "url_host_ok s = (if starts_with ''['' s
     then (let ok = (\<lambda>c. is_hex c \<or> c \<in> set '':.''); h = takeWhile ok (tl s); r = dropWhile ok (tl s)
           in h \<noteq> [] \<and> starts_with '']'' r \<and> url_port_ok (tl r))
     else (let ok = (\<lambda>c. is_alpha c \<or> is_dec c \<or> c \<in> set ''._~-'') in
       takeWhile ok s \<noteq> [] \<and> url_port_ok (dropWhile ok s)))"

definition url_shape_ok :: "string \<Rightarrow> bool" where
  "url_shape_ok s = (let r = (if lower (take 8 s) = ''https://'' then Some (drop 8 s)
       else if lower (take 7 s) = ''http://'' then Some (drop 7 s) else None) in
     case r of None \<Rightarrow> False
     | Some t \<Rightarrow> CHR ''@'' \<notin> set (takeWhile (\<lambda>c. c \<notin> set ''/?#'') t) \<and> url_host_ok t)"

definition refuse :: "string \<Rightarrow> exn" where
  "refuse reason = HttpError (PStr reason)"

definition validate_url_shape :: "string \<Rightarrow> string res" where
  "validate_url_shape url = (if url_shape_ok url then Inr url
     else Inl (refuse ''URL must be a plain http(s) URL, without credentials, whitespace or backslashes''))"

definition address_allowed :: "'w net \<Rightarrow> string \<Rightarrow> unit res" where
  "address_allowed net a = (case n_ip net a of None \<Rightarrow> Inr ()
     | Some f \<Rightarrow> raise_if (disallowed f) (refuse ''URLs resolving to private networks are not allowed''))"

definition validate_url_not_internal :: "'w net \<Rightarrow> string \<Rightarrow> ('w, string) net_act" where
  "validate_url_not_internal net url0 =
     sbind (slift (validate_url_shape url0)) (\<lambda>url.
     case n_urlparse net url of None \<Rightarrow> sthrow (PyError ''ValueError'') | Some (scheme, hn) \<Rightarrow>
     let hostname = (case hn of None \<Rightarrow> [] | Some h \<Rightarrow> h) in
     if scheme \<notin> {''http'', ''https''} then sthrow (refuse ''Only HTTP/HTTPS URLs are allowed'')
     else if hostname = [] then sthrow (refuse ''URL must include a hostname'')
     else if hostname \<in> {''localhost'', ''0.0.0.0''}
     then sthrow (refuse ''URLs pointing to localhost are not allowed'')
     else (case n_ip net hostname of
       Some f \<Rightarrow> if disallowed f then sthrow (refuse ''URLs pointing to private networks are not allowed'')
         else sret url
     | None \<Rightarrow> sbind (resolve_host net hostname) (\<lambda>r. case r of
         Inl e \<Rightarrow> sthrow (if e = PyError ''gaierror'' then refuse ''Could not resolve URL hostname'' else e)
       | Inr as \<Rightarrow> sbind (slift (eall (address_allowed net) as)) (\<lambda>_. sret url))))"

subsection \<open>\<open>_refused\<close>, \<open>_safe_url\<close>, \<open>_pinned\<close>\<close>

definition refused :: "string \<Rightarrow> string \<Rightarrow> exn" where
  "refused nid reason = gcode ''url refusee'' ''http_url_refused''
     [(''node'', PStr nid), (''reason'', PStr reason)]"

definition refusal :: "string \<Rightarrow> exn \<Rightarrow> exn" where
  "refusal nid e = (case e of HttpError d \<Rightarrow> refused nid (py_str d) | _ \<Rightarrow> e)"

definition safe_url :: "'w net \<Rightarrow> string \<Rightarrow> string \<Rightarrow> ('w, string) net_act" where
  "safe_url net nid url = stry (validate_url_not_internal net url) (\<lambda>r. slift (map_err (refusal nid) r))"

definition host_header_of :: "string \<times> string \<times> int option \<Rightarrow> string" where
  "host_header_of u = (case u of (scheme, host, port) \<Rightarrow>
     let dflt = (if scheme = ''https'' then 443 else 80);
         p = (case port of None \<Rightarrow> dflt | Some p \<Rightarrow> if p = 0 then dflt else p) in
     if p = dflt then host else host @ '':'' @ int_str p)"

text \<open>\<open>except (OSError, ValueError)\<close>; \<open>InvalidURL\<close> is neither, nor an \<open>httpx.HTTPError\<close>, and leaves the call.\<close>

definition resolver_error :: "exn \<Rightarrow> bool" where
  "resolver_error e = (e \<in> PyError ` {''gaierror'', ''OSError'', ''UnicodeError'', ''ValueError''})"

definition invalid_url :: exn where "invalid_url = PyError ''InvalidURL''"

definition pinned :: "'w net \<Rightarrow> string \<Rightarrow> string \<Rightarrow> ('w, string \<times> string) net_act" where
  "pinned net nid url = (case n_url net url of None \<Rightarrow> sthrow invalid_url | Some (scheme, host, port) \<Rightarrow>
     (case n_ip net host of
       Some _ \<Rightarrow> sret (url, host_header_of (scheme, host, port))
     | None \<Rightarrow> sbind (resolve_host net host) (\<lambda>r. case r of
         Inl e \<Rightarrow> sthrow (if resolver_error e then refused nid ''Could not resolve URL hostname'' else e)
       | Inr as \<Rightarrow> (case omap (n_ip net) as of
           None \<Rightarrow> sthrow (refused nid ''Could not resolve URL hostname'')
         | Some fs \<Rightarrow>
             if fs = [] \<or> list_ex disallowed fs
             then sthrow (refused nid ''URLs pointing to private networks are not allowed'')
             else (case n_with_host net url (ip_text (hd fs)) of
                 None \<Rightarrow> sthrow invalid_url
               | Some target \<Rightarrow> sret (target, host_header_of (scheme, host, port)))))))"

subsection \<open>\<open>_read_capped_response\<close>, the loop of \<open>_http_call\<close>\<close>

definition MAX_HTTP_RESPONSE_BYTES :: int where "MAX_HTTP_RESPONSE_BYTES = 1048576"
definition MAX_HTTP_REDIRECTS :: nat where "MAX_HTTP_REDIRECTS = 5"

definition parse_http_body :: "string \<Rightarrow> pyval" where
  "parse_http_body text = (case json_loads text of Some v \<Rightarrow> v | None \<Rightarrow> PStr text)"

definition read_capped_response :: "string \<Rightarrow> int \<Rightarrow> pydict \<Rightarrow> nat \<Rightarrow> string \<Rightarrow> pydict res" where
  "read_capped_response nid status headers bytes text =
    (if MAX_HTTP_RESPONSE_BYTES < int bytes
     then Inl (gcode ''reponse trop grande'' ''http_response_too_large''
       [(''node'', PStr nid), (''max'', PStr (int_str MAX_HTTP_RESPONSE_BYTES))])
     else Inr [(''status'', PInt status), (''headers'', PDict headers), (''body'', parse_http_body text)])"

definition http_timeout :: "string \<Rightarrow> pyval \<Rightarrow> exn" where
  "http_timeout nid seconds = gcode ''delai depasse'' ''http_timeout''
     [(''node'', PStr nid), (''seconds'', PStr (py_str seconds))]"

primrec http_hops ::
  "nat \<Rightarrow> 'w net \<Rightarrow> string \<Rightarrow> string \<Rightarrow> pydict \<Rightarrow> pyval \<Rightarrow> pyval \<Rightarrow> pyval \<Rightarrow> string \<Rightarrow> ('w, pydict) net_act" where
  "http_hops 0 net nid meth hs js content timeout url =
     sthrow (node_err ''trop de redirections'' ''http_failed'' nid)"
| "http_hops (Suc k) net nid meth hs js content timeout url =
     sbind (pinned net nid url) (\<lambda>(target, host).
     sbind (send_request net meth target (dset hs ''Host'' (PStr host)) js content) (\<lambda>r. case r of
       RTimeout \<Rightarrow> sthrow (http_timeout nid timeout)
     | RFailed \<Rightarrow> sthrow (node_err ''echec reseau'' ''http_failed'' nid)
     | RRaised e \<Rightarrow> sthrow e
     | Reply status headers redirect location bytes text \<Rightarrow>
         if redirect \<and> location \<notin> {None, Some []} then
           (case n_join net url (case location of None \<Rightarrow> [] | Some l \<Rightarrow> l) of
               None \<Rightarrow> sthrow invalid_url
             | Some there \<Rightarrow> sbind (safe_url net nid there)
                 (\<lambda>next_url. http_hops k net nid meth hs js content timeout next_url))
         else slift (read_capped_response nid status headers bytes text)))"

subsection \<open>\<open>_http_call\<close>\<close>

definition render_text :: "pydict \<Rightarrow> string \<Rightarrow> pyval \<Rightarrow> string res" where
  "render_text outs nid tmpl = map_sum id text_of (render tmpl outs (Some nid))"

definition header_step :: "pydict \<Rightarrow> string \<Rightarrow> pydict \<Rightarrow> pyval \<Rightarrow> pydict res" where
  "header_step outs nid hs h = (case h of
     PDict d \<Rightarrow> ebind (render_text outs nid (get1 d ''key'' (PStr []))) (\<lambda>key.
       ebind (render_text outs nid (get1 d ''value'' (PStr []))) (\<lambda>val.
       let sent = lower (strip key) in
       if sent \<in> {''authorization'', ''proxy-authorization'', ''cookie'', ''x-api-key'', ''host''}
       then Inl (gcode ''en-tete interdit'' ''http_header_forbidden''
         [(''node'', PStr nid), (''header'', PStr sent)])
       else Inr (dset hs key (PStr val))))
   | _ \<Rightarrow> Inl (PyError ''AttributeError''))"

definition request_body :: "pydict \<Rightarrow> string \<Rightarrow> pyval \<Rightarrow> (pyval \<times> pyval) res" where
  "request_body outs nid raw = (if raw = PNone then Inr (PNone, PNone)
     else ebind (render raw outs (Some nid)) (\<lambda>b.
       Inr (if is_dict b \<or> is_list b then (b, PNone)
         else if b = PNone then (PNone, PNone) else (PNone, PStr (text_of b)))))"

definition http_request ::
  "string \<Rightarrow> pydict \<Rightarrow> pydict \<Rightarrow> (string \<times> string \<times> pydict \<times> pyval \<times> pyval) res" where
  "http_request nid c outs = ebind (getitem c ''method'') (\<lambda>m. ebind (getitem c ''url'') (\<lambda>u.
     ebind (render_text outs nid u) (\<lambda>url. ebind (each c ''headers'') (\<lambda>hl.
     ebind (efold (header_step outs nid) [] hl) (\<lambda>hs.
     ebind (request_body outs nid (get0 c ''body'')) (\<lambda>(js, content).
     Inr (str_of m, url, hs, js, content)))))))"

definition http_start ::
  "'w net \<Rightarrow> string \<Rightarrow> pydict \<Rightarrow> string \<times> string \<times> pydict \<times> pyval \<times> pyval \<Rightarrow> ('w, pydict) net_act" where
  "http_start net nid c rq = (case rq of (meth, url, hs, js, content) \<Rightarrow>
     sbind (safe_url net nid url) (\<lambda>current.
     http_hops (Suc MAX_HTTP_REDIRECTS) net nid meth hs js content (get1 c ''timeout_s'' (PInt 15)) current))"

definition http_call :: "'w net \<Rightarrow> string \<Rightarrow> pydict \<Rightarrow> pydict \<Rightarrow> ('w, pydict) net_act" where
  "http_call net nid c outs = sbind (slift (http_request nid c outs)) (http_start net nid c)"

subsection \<open>Every request goes to a checked address\<close>

definition url_host :: "'w net \<Rightarrow> string \<Rightarrow> string" where
  "url_host net u = (case n_url net u of None \<Rightarrow> [] | Some (scheme, host, port) \<Rightarrow> host)"

definition public_address :: "'w net \<Rightarrow> string \<Rightarrow> bool" where
  "public_address net a = (case n_ip net a of None \<Rightarrow> False | Some f \<Rightarrow> \<not> disallowed f)"

text \<open>
  Where \<open>httpx\<close> reads the host of an allowed URL as an address, \<open>urlparse\<close> reads the same address (their texts
  may differ, and so may names that are no addresses); and a URL whose host was set to a public address
  has that address.
\<close>

definition net_ok :: "'w net \<Rightarrow> bool" where
  "net_ok net =
     ((\<forall>u f scheme hn. url_shape_ok u \<longrightarrow> n_ip net (url_host net u) = Some f \<longrightarrow> n_urlparse net u = Some (scheme, hn) \<longrightarrow>
        (\<exists>h. hn = Some h \<and> n_ip net h = Some f))
     \<and> (\<forall>u a f v. n_ip net a = Some f \<longrightarrow> \<not> disallowed f \<longrightarrow> n_with_host net u (ip_text f) = Some v \<longrightarrow>
        n_ip net (url_host net v) = Some f))"

definition checked :: "'w net \<Rightarrow> string \<Rightarrow> bool" where
  "checked net u = (case n_ip net (url_host net u) of None \<Rightarrow> True | Some f \<Rightarrow> \<not> disallowed f)"

lemmas act_defs = sbind_def sret_def sthrow_def slift_def stry_def

lemma resolve_host_urls: "snd (snd (resolve_host net h s)) = snd s"
  by (auto simp: resolve_host_def split: prod.splits)

lemma validate_url_not_internal_Inr:
  assumes "net_ok net" "validate_url_not_internal net u s = (Inr v, s')"
  shows "v = u \<and> checked net u \<and> snd s' = snd s"
proof -
  have shape: "url_shape_ok u"
    using assms(2) by (auto simp: validate_url_not_internal_def validate_url_shape_def act_defs split: if_splits)
  obtain scheme hn where p: "n_urlparse net u = Some (scheme, hn)"
    using assms(2) shape by (auto simp: validate_url_not_internal_def validate_url_shape_def act_defs split: option.splits)
  from assms(2) shape p obtain h where h: "hn = Some h" "h \<noteq> []"
    by (cases hn) (auto simp: validate_url_not_internal_def validate_url_shape_def act_defs Let_def split: if_splits)
  have same: "n_ip net (url_host net u) = Some f \<Longrightarrow> n_ip net h = Some f" for f
    using assms(1) shape p h(1) by (auto simp: net_ok_def)
  show ?thesis
  proof (cases "n_ip net h")
    case (Some f)
    then have f: "\<not> disallowed f" "v = u" "s' = s"
      using assms(2) shape p h
      by (auto simp: validate_url_not_internal_def validate_url_shape_def act_defs Let_def split: if_splits)
    have "checked net u" using same Some f(1) by (auto simp: checked_def split: option.splits)
    with f show ?thesis by simp
  next
    case None
    obtain r s1 where r: "resolve_host net h s = (r, s1)" by (cases "resolve_host net h s")
    then have "snd s1 = snd s" using resolve_host_urls[of net h s] by simp
    then have "v = u" "snd s' = snd s" using assms(2) shape p h None r
      by (auto simp: validate_url_not_internal_def validate_url_shape_def act_defs Let_def
          split: if_splits sum.splits)
    moreover have "checked net u" using same None by (auto simp: checked_def split: option.splits)
    ultimately show ?thesis by simp
  qed
qed

lemma validate_url_not_internal_urls: "snd (snd (validate_url_not_internal net u s)) = snd s"
proof (cases "n_urlparse net u")
  case (Some p)
  obtain scheme hn where p: "p = (scheme, hn)" by (cases p)
  define h where "h = (case hn of None \<Rightarrow> [] | Some h \<Rightarrow> h)"
  obtain r s1 where r: "resolve_host net h s = (r, s1)" by (cases "resolve_host net h s")
  then have "snd s1 = snd s" using resolve_host_urls[of net h s] by simp
  with r p Some show ?thesis
    by (auto simp: validate_url_not_internal_def validate_url_shape_def act_defs Let_def h_def[symmetric]
        split: if_splits sum.splits option.splits)
qed (auto simp: validate_url_not_internal_def validate_url_shape_def act_defs)

lemma safe_url_Inr:
  "net_ok net \<Longrightarrow> safe_url net nid u s = (Inr v, s') \<Longrightarrow> v = u \<and> checked net u \<and> snd s' = snd s"
  using validate_url_not_internal_Inr[of net u s v s'] by (auto simp: safe_url_def act_defs split: prod.splits)

lemma safe_url_urls: "snd (snd (safe_url net nid u s)) = snd s"
  using validate_url_not_internal_urls[of net u s] by (auto simp: safe_url_def act_defs split: prod.splits)

lemma pinned_urls: "snd (snd (pinned net nid u s)) = snd s"
proof -
  obtain r s1 where r: "resolve_host net (url_host net u) s = (r, s1)"
    by (cases "resolve_host net (url_host net u) s")
  then have "snd s1 = snd s" using resolve_host_urls[of net "url_host net u" s] by simp
  with r show ?thesis
    by (auto simp: pinned_def act_defs url_host_def split: prod.splits option.splits sum.splits)
qed

lemma pinned_public:
  assumes "net_ok net" "checked net u" "pinned net nid u s = (Inr (t, h), s')"
  shows "public_address net (url_host net t)"
proof (cases "n_ip net (url_host net u)")
  case (Some f)
  with assms(2,3) show ?thesis
    by (auto simp: pinned_def act_defs url_host_def checked_def public_address_def split: prod.splits option.splits)
next
  case None
  obtain r s1 where r: "resolve_host net (url_host net u) s = (r, s1)"
    by (cases "resolve_host net (url_host net u) s")
  with None assms(3) obtain as fs where fs: "omap (n_ip net) as = Some fs"
    "fs \<noteq> []" "\<not> list_ex disallowed fs" "n_with_host net u (ip_text (hd fs)) = Some t"
    by (auto simp: pinned_def act_defs url_host_def split: prod.splits option.splits sum.splits if_splits)
  have "\<exists>a \<in> set as. n_ip net a = Some (hd fs)"
    using fs(1,2) list_all2_ex[of _ as fs "hd fs"] by (auto simp: omap_eq_Some)
  moreover have d: "\<not> disallowed (hd fs)" using fs(2,3) by (cases fs) auto
  ultimately have "n_ip net (url_host net t) = Some (hd fs)" using assms(1) fs(4) by (auto simp: net_ok_def)
  with d show ?thesis by (simp add: public_address_def)
qed

definition sent_ok :: "'w net \<Rightarrow> nat \<Rightarrow> 'w \<times> string list \<Rightarrow> bool" where
  "sent_ok net k s = (length (snd s) \<le> k \<and> (\<forall>u \<in> set (snd s). public_address net (url_host net u)))"

lemma send_request_urls: "snd (snd (send_request net meth t hs js content s)) = snd s @ [t]"
  and send_request_Inr: "\<exists>r. fst (send_request net meth t hs js content s) = Inr r"
  by (auto simp: send_request_def split: prod.splits)

lemma http_hops_sent:
  assumes "net_ok net" "checked net url" "sent_ok net m s"
  shows "sent_ok net (m + k) (snd (http_hops k net nid meth hs js content timeout url s))"
  using assms(2,3)
proof (induction k arbitrary: url s m)
  case 0
  then show ?case by (simp add: sthrow_def)
next
  case (Suc k)
  obtain p s1 where p: "pinned net nid url s = (p, s1)" by (cases "pinned net nid url s")
  then have s1: "snd s1 = snd s" using pinned_urls[of net nid url s] by simp
  show ?case
  proof (cases p)
    case (Inl e)
    with p s1 Suc.prems(2) show ?thesis by (simp add: sbind_def sent_ok_def)
  next
    case (Inr th)
    obtain t h where th: "th = (t, h)" by (cases th)
    have pub: "public_address net (url_host net t)" using pinned_public[OF assms(1) Suc.prems(1)] p Inr th by blast
    obtain r s2 where r: "send_request net meth t (dset hs ''Host'' (PStr h)) js content s1 = (Inr r, s2)"
      using send_request_Inr by (metis prod.collapse)
    have s2: "sent_ok net (Suc m) s2"
      using send_request_urls[of net meth t "dset hs ''Host'' (PStr h)" js content s1] r s1 Suc.prems(2) pub
      by (simp add: sent_ok_def)
    then have s2': "sent_ok net (Suc (m + k)) s2" by (simp add: sent_ok_def)
    note run = p Inr th r
    show ?thesis
    proof (cases r)
      case (Reply status headers redirect location bytes tx)
      show ?thesis
      proof (cases "redirect \<and> location \<notin> {None, Some []}")
        case redirected: True
        show ?thesis
        proof (cases "n_join net url (case location of None \<Rightarrow> [] | Some l \<Rightarrow> l)")
          case None
          with run Reply redirected s2' show ?thesis by (simp add: sbind_def sthrow_def)
        next
        case True: (Some there)
        obtain v s3 where v: "safe_url net nid there s2 = (v, s3)" by (cases "safe_url net nid there s2")
        have s3: "snd s3 = snd s2" using safe_url_urls v by (metis snd_conv)
        show ?thesis
        proof (cases v)
          case (Inl e)
          with run Reply redirected True v s3 s2' show ?thesis by (simp add: sbind_def sent_ok_def)
        next
          case (Inr u)
          have "checked net u" using safe_url_Inr[OF assms(1)] v Inr by blast
          moreover have "sent_ok net (Suc m) s3" using s2 s3 by (simp add: sent_ok_def)
          ultimately have "sent_ok net (Suc m + k) (snd (http_hops k net nid meth hs js content timeout u s3))"
            by (rule Suc.IH)
          with run Reply redirected True v Inr show ?thesis by (simp add: sbind_def)
        qed
        qed
      next
        case False
        with run Reply s2' show ?thesis by (auto simp: sbind_def slift_def)
      qed
    qed (use run s2' in \<open>simp_all add: sbind_def sthrow_def\<close>)
  qed
qed

lemma http_start_sent:
  assumes "net_ok net"
  shows "sent_ok net 6 (snd (http_start net nid c rq (w, [])))"
proof -
  obtain meth url hs js content where a: "rq = (meth, url, hs, js, content)" by (cases rq) auto
  obtain v s1 where v: "safe_url net nid url (w, []) = (v, s1)" by (cases "safe_url net nid url (w, [])")
  then have s1: "snd s1 = []" using safe_url_urls[of net nid url "(w, [])"] by simp
  show ?thesis
  proof (cases v)
    case (Inl e)
    with a v s1 show ?thesis by (simp add: http_start_def sbind_def sent_ok_def)
  next
    case (Inr u)
    have "checked net u" using safe_url_Inr[OF assms] v Inr by blast
    moreover have "sent_ok net 0 s1" using s1 by (simp add: sent_ok_def)
    ultimately have "sent_ok net (0 + Suc MAX_HTTP_REDIRECTS) (snd (http_hops (Suc MAX_HTTP_REDIRECTS) net nid
        meth hs js content (get1 c ''timeout_s'' (PInt 15)) u s1))" by (rule http_hops_sent[OF assms])
    with a v Inr show ?thesis
      by (simp add: http_start_def sbind_def MAX_HTTP_REDIRECTS_def del: http_hops.simps)
  qed
qed

lemma http_call_sent: "net_ok net \<Longrightarrow> sent_ok net 6 (snd (http_call net nid c outs (w, [])))"
  using http_start_sent[of net nid c _ w]
  by (auto simp: http_call_def sbind_def slift_def sent_ok_def split: sum.splits)

subsection \<open>Properties\<close>

text \<open>C5. Whatever the names resolve to, and however often they change, every request of an http
  node, redirects included, goes to an address that was read and found public; at most six
  requests are sent.  (Hypothesis: where \<open>httpx\<close> reads the host of an allowed URL as an address,
  \<open>urlparse\<close> reads the same address, and setting the host of a URL to a public address sets it;
  nothing is assumed of hosts that are names.)\<close>

theorem http_requests_stay_public:
  assumes "net_ok net" "http_call net nid c outs (w, []) = (r, (w', urls))"
  shows "length urls \<le> 6 \<and> (\<forall>u \<in> set urls. public_address net (url_host net u))"
  using http_call_sent[OF assms(1), of nid c outs w] assms(2) by (simp add: sent_ok_def)

definition example_net :: "nat net" where
  "example_net = \<lparr>
     n_ip = (\<lambda>a. if a = ''10.0.0.1'' then Some \<lparr>ip_text = a, ip_private = True, ip_loopback = False, ip_link_local = False,
          ip_reserved = False, ip_multicast = False, ip_unspecified = False\<rparr>
        else if a = ''8.8.8.8'' then Some \<lparr>ip_text = a, ip_private = False, ip_loopback = False, ip_link_local = False,
          ip_reserved = False, ip_multicast = False, ip_unspecified = False\<rparr> else None),
     n_urlparse = (\<lambda>u. Some (''https'', Some (drop 8 u))), n_url = (\<lambda>u. Some (''https'', drop 8 u, None)),
     n_with_host = (\<lambda>u h. Some (''https://'' @ h)), n_join = (\<lambda>u l. Some l),
     n_resolve = (\<lambda>h w. (Inr [if w < 2 then ''8.8.8.8'' else ''10.0.0.1''], Suc w)),
     n_send = (\<lambda>m u hs js ct w. (Reply 200 [] False None 2 ''ok'', w))\<rparr>"

definition example_request :: pydict where
  "example_request = [(''method'', PStr ''GET''), (''url'', PStr ''https://api.example.org'')]"

lemma http_requests_stay_public_witness:
  "public_address example_net (url_host example_net ''https://8.8.8.8'')"
proof -
  have ok: "net_ok example_net" by (simp add: net_ok_def example_net_def url_host_def)
  have run: "http_call example_net ''h'' example_request [] (0, []) =
    (Inr [(''status'', PInt 200), (''headers'', PDict []), (''body'', PStr ''ok'')], (2, [''https://8.8.8.8'']))"
    by code_simp
  from http_requests_stay_public[OF ok run] show ?thesis by simp
qed

end
