(* ===== verification/Wf_State.thy ===== *)
theory Wf_State
  imports Wf_Files Wf_Http
begin

section \<open>The state of a run and its surroundings (\<open>_Compiler.__init__\<close>, \<open>error_fields\<close>)\<close>

text \<open>
  The state one \<open>_Compiler\<close> keeps while its graph runs, the exceptions that travel through it,
  the events it emits, and the record \<open>host\<close> of everything a run calls that is not the engine's
  own code: agents, tools, the services of an owner, the resolver of sub-workflows, the clock,
  the cancellation flag, and the agent framework (ADK) that decides which node runs next.
\<close>

subsection \<open>Exceptions in flight\<close>

text \<open>
  \<open>x_chain\<close> is the exception followed by what it was raised from or while handling;
  \<open>x_fields\<close> the fields \<open>error_fields\<close> stored on it; \<open>x_inner\<close>, \<open>x_partial\<close> and
  \<open>x_reported\<close> are the attributes \<open>_apowerb_inner_node\<close>, \<open>_apowerb_partial\<close> and
  \<open>_apowerb_reported\<close>; \<open>x_awaiting\<close> the node and the prompt of the first
  \<open>_AwaitingDecision\<close> of the chain, a class only this module raises.
\<close>

record raised =
  x_chain :: "exn list"
  x_fields :: "pydict option"
  x_inner :: "string option"
  x_partial :: "pyval option"
  x_reported :: bool
  x_awaiting :: "(string \<times> pydict) option"

definition fresh :: "exn \<Rightarrow> raised" where
  "fresh e = \<lparr>x_chain = [e], x_fields = None, x_inner = None, x_partial = None, x_reported = False,
     x_awaiting = None\<rparr>"

text \<open>\<open>raise new from old\<close>, or a new exception while \<open>old\<close> is being handled.\<close>

definition raise_from :: "exn \<Rightarrow> raised \<Rightarrow> raised" where
  "raise_from e old = (fresh e)\<lparr>x_chain := e # x_chain old, x_fields := x_fields old,
     x_awaiting := x_awaiting old\<rparr>"

definition is_cancel :: "raised \<Rightarrow> bool" where
  "is_cancel e = (case x_chain e of c # _ \<Rightarrow> c = WorkflowCancelled | [] \<Rightarrow> False)"

text \<open>The task was cancelled by a deadline: \<open>asyncio.CancelledError\<close>, which no
  \<open>except Exception\<close> catches.\<close>

definition task_cancelled :: exn where "task_cancelled = PyError ''CancelledError''"

definition is_exception :: "raised \<Rightarrow> bool" where
  "is_exception e = (case x_chain e of c # _ \<Rightarrow> c \<noteq> task_cancelled | [] \<Rightarrow> True)"

definition awaiting :: "string \<Rightarrow> pydict \<Rightarrow> raised" where
  "awaiting i prompt = (fresh (PyError ''_AwaitingDecision''))\<lparr>x_awaiting := Some (i, prompt)\<rparr>"

definition is_awaiting :: "raised \<Rightarrow> bool" where
  "is_awaiting e = (case x_chain e of c # _ \<Rightarrow> c = PyError ''_AwaitingDecision'' | [] \<Rightarrow> False)"

definition awaiting_in :: "raised \<Rightarrow> (string \<times> pydict) option" where
  "awaiting_in e = x_awaiting e"

text \<open>An exception of a library or a callback: none of the engine's attributes.\<close>

definition foreign :: "exn list \<Rightarrow> raised" where
  "foreign es = \<lparr>x_chain = es, x_fields = None, x_inner = None, x_partial = None, x_reported = False,
     x_awaiting = None\<rparr>"

subsection \<open>The state of a compiler\<close>

record 'w kst =
  k_outputs :: pydict
  k_routes :: pydict
  k_trace :: "(string \<times> pydict) list"
  k_artifacts :: "(string \<times> pydict list) list"
  k_run_artifacts :: "pydict list"
  k_handled :: "(string \<times> pydict) list"
  k_failed :: "string option"
  k_events :: "pydict list"
  k_world :: 'w

type_synonym ('w, 'a) kact = "('w kst, raised, 'a) act"
type_synonym ('w, 'a) wact = "('w, exn list, 'a) act"

definition new_kst :: "pydict list \<Rightarrow> 'w \<Rightarrow> 'w kst" where
  "new_kst arts w = \<lparr>k_outputs = [], k_routes = [], k_trace = [], k_artifacts = [],
     k_run_artifacts = arts, k_handled = [], k_failed = None, k_events = [], k_world = w\<rparr>"

subsection \<open>What ADK is given and what it decides\<close>

datatype adk_end = AStart | AFn string | AJoin string

record adk_edge =
  a_from :: adk_end
  a_to :: adk_end
  a_routes :: "pyval list"

datatype adk_input = Content | Input pyval
datatype adk_value = Plain pyval | Routed pyval pyval

text \<open>
  A run of ADK over a built workflow, as a tree: it stops, fails on its own, or calls the function
  of a node with an input and goes on according to what the function returns.  One node runs at a
  time (\<open>max_concurrency=1\<close>).
\<close>

datatype sched = Stop | Cut "exn list" | Fire string adk_input "adk_value \<Rightarrow> sched"

primrec run_sched :: "sched \<Rightarrow> (string \<Rightarrow> adk_input \<Rightarrow> ('s, raised, adk_value) act) \<Rightarrow> ('s, raised, unit) act" where
  "run_sched Stop f = sret ()"
| "run_sched (Cut es) f = sthrow (foreign es)"
| "run_sched (Fire i v k) f = sbind (f i v) (\<lambda>r. run_sched (k r) f)"

subsection \<open>The surroundings\<close>

text \<open>
  An agent answers with its output and artifacts, and in any case reports the tools it called.
  \<open>h_links\<close> are the exceptions ADK wraps around a node's exception.
\<close>

record 'w host =
  h_cancelled :: "'w \<Rightarrow> bool"
  h_elapsed :: "'w \<Rightarrow> 'w \<Rightarrow> int"
  h_ref :: "'w \<Rightarrow> string \<times> 'w"
  h_expired :: "string \<Rightarrow> 'w \<Rightarrow> bool"
  h_sleep :: "int \<Rightarrow> ('w, unit) wact"
  h_agent :: "pyval \<Rightarrow> string \<Rightarrow> 'w \<Rightarrow> ((exn list + pyval \<times> pydict list) \<times> pyval list) \<times> 'w"
  h_tool :: "pyval \<Rightarrow> pyval \<Rightarrow> bool \<Rightarrow> ('w, pyval) wact"
  h_rag :: "(pyval \<Rightarrow> string \<Rightarrow> pyval \<Rightarrow> ('w, pyval) wact) option"
  h_notify :: "(string \<Rightarrow> pyval \<Rightarrow> string list \<Rightarrow> string \<Rightarrow> string \<Rightarrow> string list \<Rightarrow> ('w, pyval) wact) option"
  h_document :: "(string \<Rightarrow> ('w, pydict) wact) option"
  h_jev :: "(pydict \<Rightarrow> string \<Rightarrow> pyval \<Rightarrow> pyfloat \<Rightarrow> ('w, pydict) wact) option"
  h_db_write :: "(pyval \<Rightarrow> pyval \<Rightarrow> pydict \<Rightarrow> ('w, pydict) wact) option"
  h_save_file :: "(string \<Rightarrow> string \<Rightarrow> string \<Rightarrow> ('w, pydict) wact) option"
  h_save_drive :: "(pyval \<Rightarrow> string \<Rightarrow> string \<Rightarrow> pyval \<Rightarrow> ('w, pydict) wact) option"
  h_resolve :: "(pyval \<Rightarrow> ('w, wgraph option) wact) option"
  h_answered :: "(string \<Rightarrow> ('w, unit) wact) option"
  h_readers :: readers
  h_renderers :: renderers
  h_net :: "'w net"
  h_venv :: venv
  h_links :: "raised \<Rightarrow> exn list"
  h_adk :: "adk_edge list \<Rightarrow> sched"

text \<open>What one compiler is built with.\<close>

record ctx =
  c_graph :: wgraph
  c_payload :: pyval
  c_nested :: bool
  c_depth :: nat
  c_stack :: "pyval list"
  c_replay_outputs :: pydict
  c_replay_routes :: pydict
  c_replay_handled :: "(string \<times> pydict) list"
  c_answer :: "pydict option"

subsection \<open>Primitive statements\<close>

definition lift :: "'a res \<Rightarrow> ('w, 'a) kact" where
  "lift r = slift (map_err fresh r)"

definition fail :: "exn \<Rightarrow> ('w, 'a) kact" where
  "fail e = sthrow (fresh e)"

definition call :: "('w, 'a) wact \<Rightarrow> ('w, 'a) kact" where
  "call m s = (case m (k_world s) of (r, w) \<Rightarrow> (map_err foreign r, s\<lparr>k_world := w\<rparr>))"

definition emit :: "pydict \<Rightarrow> ('w kst, 'e, unit) act" where
  "emit ev = smod (\<lambda>s. s\<lparr>k_events := k_events s @ [ev]\<rparr>)"

definition event :: "string \<Rightarrow> string \<Rightarrow> pydict \<Rightarrow> pydict" where
  "event kind nid extra = dupdate [(''event'', PStr kind), (''node_id'', PStr nid)] extra"

text \<open>\<open>self._trace.setdefault(node.id, {})[key] = value\<close>\<close>

definition trace_of :: "'w kst \<Rightarrow> string \<Rightarrow> pydict" where
  "trace_of s nid = (case dget (k_trace s) nid of None \<Rightarrow> [] | Some d \<Rightarrow> d)"

definition trace_put :: "string \<Rightarrow> string \<Rightarrow> pyval \<Rightarrow> ('w kst, 'e, unit) act" where
  "trace_put nid key v = smod (\<lambda>s. s\<lparr>k_trace := dset (k_trace s) nid (dset (trace_of s nid) key v)\<rparr>)"

definition pop_trace :: "string \<Rightarrow> ('w kst, 'e, pydict) act" where
  "pop_trace nid s = (Inr (trace_of s nid), s\<lparr>k_trace := ddel (k_trace s) nid\<rparr>)"

subsection \<open>\<open>error_fields\<close>, \<open>_error_output\<close>\<close>

definition coded :: "string option \<Rightarrow> string" where
  "coded c = (case c of None \<Rightarrow> ''workflow_error'' | Some x \<Rightarrow> if x = [] then ''workflow_error'' else x)"

definition link_fields :: "exn \<Rightarrow> pydict option" where
  "link_fields e = (case e of
     GraphError m c ps \<Rightarrow> Some ([(''code'', PStr (coded c)), (''detail'', PStr m)]
       @ (if ps = [] then [] else [(''params'', PDict ps)]))
   | UnsupportedWorkflow m \<Rightarrow> Some [(''code'', PStr ''workflow_error''), (''detail'', PStr m)]
   | HttpError (PStr d) \<Rightarrow> Some [(''code'', PStr ''http_error''), (''detail'', PStr d)]
   | AdkRunError (Some c) d r \<Rightarrow> if c = [] then None
       else Some ([(''code'', PStr c), (''detail'', PStr d)]
         @ (case r of None \<Rightarrow> [] | Some x \<Rightarrow> if x = [] then [] else [(''ref'', PStr x)]))
   | _ \<Rightarrow> None)"

definition internal_fields :: "string \<Rightarrow> pydict" where
  "internal_fields ref = [(''code'', PStr ''internal''),
     (''detail'', PStr (''Internal error during the run (ref. '' @ ref @ '').'')), (''ref'', PStr ref)]"

fun first_fields :: "exn list \<Rightarrow> pydict option" where
  "first_fields [] = None"
| "first_fields (e # es) = (case link_fields e of None \<Rightarrow> first_fields es | Some f \<Rightarrow> Some f)"

text \<open>The fields, and the exception with the fields stored on it.\<close>

definition error_fields :: "'w host \<Rightarrow> raised \<Rightarrow> ('w kst, 'e, pydict \<times> raised) act" where
  "error_fields h e s = (case x_fields e of
     Some f \<Rightarrow> (Inr (f, e), s)
   | None \<Rightarrow> (case first_fields (x_chain e) of
       Some f \<Rightarrow> (Inr (f, e\<lparr>x_fields := Some f\<rparr>), s)
     | None \<Rightarrow> (case h_ref h (k_world s) of (ref, w) \<Rightarrow>
         (Inr (internal_fields ref, e\<lparr>x_fields := Some (internal_fields ref)\<rparr>), s\<lparr>k_world := w\<rparr>))))"

definition error_output :: "'w host \<Rightarrow> raised \<Rightarrow> string option \<Rightarrow> ('w kst, 'e, pydict \<times> raised) act" where
  "error_output h e nid = sbind (error_fields h e) (\<lambda>(f, e'). sret
     ([(''code'', get0 f ''code''), (''detail'', get0 f ''detail''),
       (''params'', por (get0 f ''params'') (PDict [])),
       (''node'', opt_pstr (case x_inner e of Some i \<Rightarrow> if i = [] then nid else Some i | None \<Rightarrow> nid))], e'))"

subsection \<open>\<open>_note_input\<close>, \<open>_artifacts_of\<close>, \<open>_service\<close>\<close>

definition MAX_TRACE_INPUT_CHARS :: int where "MAX_TRACE_INPUT_CHARS = 20000"

definition input_fields :: "pyval \<Rightarrow> pydict" where
  "input_fields v = (let text = text_of v in
     if MAX_TRACE_INPUT_CHARS < int (length text)
     then [(''input'', PStr (take (nat MAX_TRACE_INPUT_CHARS) text)), (''input_truncated'', PBool True),
           (''input_length'', PInt (int (length text)))]
     else [(''input'', v)])"

definition note_input :: "string \<Rightarrow> pyval \<Rightarrow> ('w, unit) kact" where
  "note_input nid v = sbind (smod (\<lambda>s. s\<lparr>k_trace := dset (k_trace s) nid (input_fields v)\<rparr>))
     (\<lambda>_. emit (event ''node_input'' nid (input_fields v)))"

definition read_only_artifact :: "pydict \<Rightarrow> bool" where
  "read_only_artifact a = (get0 a ''tool'' = PStr ''tool_describe_dataset'')"

definition artifacts_of :: "string \<Rightarrow> ('w, pydict) kact" where
  "artifacts_of nid s = (let found = filter (\<lambda>a. \<not> read_only_artifact a)
       (case dget (k_artifacts s) nid of None \<Rightarrow> [] | Some xs \<Rightarrow> xs) in
     (Inr (if found = [] then [] else [(''artifacts'', PList (map PDict found))]),
      s\<lparr>k_artifacts := ddel (k_artifacts s) nid,
        k_run_artifacts := k_run_artifacts s @ map (\<lambda>a. dupdate [(''node_id'', PStr nid)] a) found\<rparr>))"

definition set_artifacts :: "string \<Rightarrow> pydict list \<Rightarrow> ('w, unit) kact" where
  "set_artifacts nid xs = smod (\<lambda>s. s\<lparr>k_artifacts := dset (k_artifacts s) nid xs\<rparr>)"

definition service :: "string \<Rightarrow> string \<Rightarrow> 'f option \<Rightarrow> ('w, 'f) kact" where
  "service nid name f = (case f of Some x \<Rightarrow> sret x
   | None \<Rightarrow> fail (gcode ''service indisponible sur ce serveur'' ''service_unavailable''
       [(''node'', PStr nid), (''service'', PStr name)]))"

end
