(* ===== verification/Wf_Bodies.thy ===== *)
theory Wf_Bodies
  imports Wf_State
begin

section \<open>What each node does (\<open>_Compiler._body\<close> and the methods it calls)\<close>

text \<open>
  One definition per type of node: it takes the surroundings, the compiler's parameters, the node
  and what ADK handed to it, and gives the node's output with its route (\<open>PNone\<close> for none).
  Nodes that run a graph of their own (\<open>loop\<close>, \<open>try\<close>, \<open>subworkflow\<close>) are in \<open>Wf_Nested\<close>.
\<close>

type_synonym ('w, 'a) body = "'w host \<Rightarrow> ctx \<Rightarrow> wnode \<Rightarrow> pyval \<Rightarrow> ('w, 'a) kact"

definition render_cfg :: "wnode \<Rightarrow> pyval \<Rightarrow> ('w, pyval) kact" where
  "render_cfg n tmpl = sbind (sget k_outputs) (\<lambda>outs. lift (render tmpl outs (Some (n_id n))))"

definition render_as_text :: "wnode \<Rightarrow> pyval \<Rightarrow> ('w, string) kact" where
  "render_as_text n tmpl = sbind (render_cfg n tmpl) (\<lambda>v. sret (text_of v))"

definition cfg_item :: "wnode \<Rightarrow> string \<Rightarrow> ('w, pyval) kact" where
  "cfg_item n k = lift (getitem (n_config n) k)"

definition unset :: "pyval \<Rightarrow> bool" where
  "unset v = (v = PNone \<or> v = PStr [])"

definition routeless :: "('w, pyval) kact \<Rightarrow> ('w, pyval \<times> pyval) kact" where
  "routeless m = sbind m (\<lambda>v. sret (v, PNone))"

text \<open>\<open>render(cfg[key]) if cfg.get(key) not in (None, "") else node_input\<close>\<close>

definition input_or :: "wnode \<Rightarrow> string \<Rightarrow> pyval \<Rightarrow> ('w, pyval) kact" where
  "input_or n k inp = (if unset (cfg0 n k) then sret inp else render_cfg n (cfg0 n k))"

subsection \<open>Agents and tools\<close>

definition agent_message :: "wnode \<Rightarrow> pyval \<Rightarrow> ('w, string) kact" where
  "agent_message n inp = (let tpl = cfg0 n ''input'' in
     if tpl \<noteq> PNone \<and> (is_str tpl \<longrightarrow> \<not> blank_or_not_str tpl) then render_as_text n tpl
     else sret (case inp of PStr s \<Rightarrow> if s \<noteq> [] then s else leaf_message inp [] | _ \<Rightarrow> leaf_message inp []))"

text \<open>\<open>collect_tool_calls\<close>: the calls go into the trace whether the agent answers or fails.\<close>

definition agent_call :: "'w host \<Rightarrow> wnode \<Rightarrow> string \<Rightarrow> ('w, pyval \<times> pydict list) kact" where
  "agent_call h n msg = (case dget (n_config n) ''agent_id'' of
     None \<Rightarrow> sbind (trace_put (n_id n) ''tool_calls'' (PList [])) (\<lambda>_. fail (PyError ''KeyError''))
   | Some aid \<Rightarrow> (\<lambda>s. case h_agent h aid msg (k_world s) of ((r, calls), w) \<Rightarrow>
       sbind (trace_put (n_id n) ''tool_calls'' (PList calls)) (\<lambda>_. slift (map_err foreign r)) (s\<lparr>k_world := w\<rparr>)))"

definition agent_body :: "('w, pyval \<times> pyval) body" where
  "agent_body h c n inp =
     sbind (agent_message n inp) (\<lambda>msg.
     sbind (note_input (n_id n) (PStr msg)) (\<lambda>_.
     sbind (agent_call h n msg) (\<lambda>(out, arts).
     sbind (set_artifacts (n_id n) arts) (\<lambda>_. sret (out, PNone)))))"

text \<open>\<open>dict(args)\<close>; a key that is no text, which a JSON object cannot have, counts as an error.\<close>

definition pair_of :: "pyval \<Rightarrow> (string \<times> pyval) res" where
  "pair_of x = (case x of PList [PStr k, v] \<Rightarrow> Inr (k, v) | PStr [a, b] \<Rightarrow> Inr ([a], PStr [b])
     | PDict [(a, _), (b, _)] \<Rightarrow> Inr (a, PStr b) | PList _ \<Rightarrow> Inl (PyError ''ValueError'')
     | PStr _ \<Rightarrow> Inl (PyError ''ValueError'') | PDict _ \<Rightarrow> Inl (PyError ''ValueError'')
     | _ \<Rightarrow> Inl (PyError ''TypeError''))"

definition dict_of :: "pyval \<Rightarrow> pydict res" where
  "dict_of v = (case v of PDict d \<Rightarrow> Inr d
     | _ \<Rightarrow> ebind (py_iter v) (\<lambda>xs. ebind (emap pair_of xs) (\<lambda>ps. Inr (dupdate [] ps))))"

definition tool_args :: "wnode \<Rightarrow> pyval \<Rightarrow> ('w, pyval \<times> bool) kact" where
  "tool_args n inp = (if cfg0 n ''args'' \<noteq> PNone
     then sbind (render_cfg n (cfg0 n ''args'')) (\<lambda>a. sret (a, False))
     else sret (PDict (case inp of PDict d \<Rightarrow> d | _ \<Rightarrow> []), True))"

definition tool_response :: "pyval \<Rightarrow> pyval \<Rightarrow> pyval" where
  "tool_response tool result = PList [PDict [(''content'', PDict [(''parts'', PList [PDict
     [(''functionResponse'', PDict [(''name'', tool), (''response'', result)])]])])]]"

text \<open>The error a tool reports itself, with its result as the partial result.\<close>

definition reported_error :: "wnode \<Rightarrow> pyval \<Rightarrow> pyval \<Rightarrow> string \<Rightarrow> raised" where
  "reported_error n tool result m = (fresh (gcode ''l outil a signale une erreur'' ''tool_reported_error''
     [(''node'', PStr (n_id n)), (''tool'', tool), (''message'', PStr m)]))
     \<lparr>x_partial := Some result, x_reported := True\<rparr>"

definition tool_result :: "wnode \<Rightarrow> pyval \<Rightarrow> pyval \<Rightarrow> ('w, pyval \<times> pyval) kact" where
  "tool_result n tool result = (case tool_reported_error result of
     None \<Rightarrow> sbind (if is_dict result
         then sbind (lift (tool_artifacts (tool_response tool result))) (set_artifacts (n_id n))
         else sret ()) (\<lambda>_. sret (result, PNone))
   | Some m \<Rightarrow> sbind (if on_error n = OContinue
         then sbind (lift (check_contract n result)) (\<lambda>_. trace_put (n_id n) ''reported_error'' (PStr m))
         else sret ()) (\<lambda>_. sthrow (reported_error n tool result m)))"

definition tool_body :: "('w, pyval \<times> pyval) body" where
  "tool_body h c n inp =
     sbind (tool_args n inp) (\<lambda>(args, upstream).
     sbind (lift (dict_of args)) (\<lambda>d.
     sbind (note_input (n_id n) (PDict d)) (\<lambda>_.
     sbind (cfg_item n ''tool'') (\<lambda>tool.
     sbind (call (h_tool h tool args upstream)) (tool_result n tool)))))"

subsection \<open>Routing: router, condition, classifiers\<close>

definition router_route :: "wnode \<Rightarrow> pydict \<Rightarrow> pyval \<Rightarrow> pyval res" where
  "router_route n outs inp = ebind (getitem (n_config n) ''rules'') (\<lambda>rv. ebind (py_iter rv) (\<lambda>rules.
     ebind (efold (\<lambda>found r. case found of Some x \<Rightarrow> Inr (Some x)
       | None \<Rightarrow> ebind (as_dict r ''AttributeError'') (\<lambda>rule. ebind (rule_subject rule outs (n_id n) inp)
           (\<lambda>v. ebind (evaluate_rule rule v) (\<lambda>b. if b then map_sum id Some (getitem rule ''route'') else Inr None))))
       None rules) (\<lambda>found. case found of Some x \<Rightarrow> Inr x
     | None \<Rightarrow> if truthy (cfg0 n ''default_route'') then Inr (cfg0 n ''default_route'')
         else Inl (node_err ''aucune regle ne correspond'' ''no_route'' (n_id n)))))"

definition router_body :: "('w, pyval \<times> pyval) body" where
  "router_body h c n inp = sbind (sget k_outputs) (\<lambda>outs.
     sbind (lift (router_route n outs inp)) (\<lambda>r. sret (inp, r)))"

definition condition_outcome :: "wnode \<Rightarrow> pydict \<Rightarrow> pyval \<Rightarrow> pyval \<Rightarrow> bool res" where
  "condition_outcome n outs inp r = ebind (as_dict r ''AttributeError'') (\<lambda>rule.
     ebind (case por (get0 rule ''field'') (PStr []) of
         PStr s \<Rightarrow> if blank s then Inr inp else render (PStr s) outs (Some (n_id n))
       | _ \<Rightarrow> Inl (PyError ''AttributeError'')) (evaluate_rule rule))"

definition condition_body :: "('w, pyval \<times> pyval) body" where
  "condition_body h c n inp = sbind (sget k_outputs) (\<lambda>outs.
     sbind (lift (ebind (getitem (n_config n) ''rules'') (\<lambda>rv. ebind (py_iter rv) (\<lambda>rules.
       emap (condition_outcome n outs inp) rules)))) (\<lambda>bs.
     sret (inp, PStr (if (if get1 (n_config n) ''match'' (PStr ''all'') = PStr ''all''
       then list_all id bs else list_ex id bs) then ''true'' else ''false''))))"

text \<open>\<open>run_agent\<close>: the answer alone, outside the collection of tool calls.\<close>

definition run_agent :: "'w host \<Rightarrow> pyval \<Rightarrow> string \<Rightarrow> ('w, pyval) kact" where
  "run_agent h aid msg s = (case h_agent h aid msg (k_world s) of
     ((r, _), w) \<Rightarrow> (map_sum foreign fst r, s\<lparr>k_world := w\<rparr>))"

definition route_name :: "pyval \<Rightarrow> string res" where
  "route_name r = ebind (as_dict r ''TypeError'') (\<lambda>d. ebind (getitem d ''route'') (\<lambda>x.
     case x of PStr s \<Rightarrow> Inr s | _ \<Rightarrow> Inl (PyError ''AttributeError'')))"

definition out_of_routes :: "wnode \<Rightarrow> string list \<Rightarrow> exn" where
  "out_of_routes n names = gcode ''reponse du classifieur hors routes'' ''classifier_no_route''
     [(''node'', PStr (n_id n)), (''routes'', PStr (join '', '' names))]"

definition classifier_body :: "('w, pyval \<times> pyval) body" where
  "classifier_body h c n inp =
     sbind (cfg_item n ''routes'') (\<lambda>rv.
     sbind (cfg_item n ''agent_id'') (\<lambda>aid.
     sbind (lift (py_iter rv)) (\<lambda>routes.
     sbind (lift (classifier_prompt routes inp)) (\<lambda>prompt.
     sbind (run_agent h aid prompt) (\<lambda>answer.
     sbind (lift (emap route_name routes)) (\<lambda>names.
     case pick_route answer names of
       Some r \<Rightarrow> sret (inp, PStr r)
     | None \<Rightarrow> fail (out_of_routes n names)))))))"

subsection \<open>\<open>_classify_jev\<close>\<close>

text \<open>The double nearest to 0.7.\<close>

definition DEFAULT_MIN_CONFIDENCE :: pyfloat where
  "DEFAULT_MIN_CONFIDENCE = Fin (6305039478318694 / 9007199254740992)"

definition min_confidence :: "wnode \<Rightarrow> pyfloat res" where
  "min_confidence n = (case get1 (n_config n) ''min_confidence'' (PFloat DEFAULT_MIN_CONFIDENCE) of
     PFloat f \<Rightarrow> Inr f
   | PInt i \<Rightarrow> of_opt (PyError ''OverflowError'') (float_of_int i)
   | PBool b \<Rightarrow> Inr (Fin (if b then 1 else 0))
   | PStr s \<Rightarrow> of_opt (PyError ''ValueError'') (float_of_str s)
   | _ \<Rightarrow> Inl (PyError ''TypeError''))"

definition jev_labels :: "pyval list \<Rightarrow> pydict res" where
  "jev_labels routes = efold (\<lambda>acc r. ebind (route_name r) (\<lambda>k. ebind (as_dict r ''TypeError'') (\<lambda>d.
     ebind (getitem d ''description'') (\<lambda>v. Inr (dset acc k v))))) [] routes"

definition jev_text :: "wnode \<Rightarrow> pyval \<Rightarrow> ('w, string) kact" where
  "jev_text n inp = (if cfg0 n ''text'' \<noteq> PNone then render_as_text n (cfg0 n ''text'')
     else sret (leaf_message inp []))"

definition jev_detail :: "pydict \<Rightarrow> pydict" where
  "jev_detail result = [(''label'', get0 result ''label''), (''confidence'', get0 result ''confidence''),
     (''uncertain'', PBool (truthy (get0 result ''uncertain'')))]
     @ (if truthy (get0 result ''uncertain'') then [(''best_guess'', get0 result ''best_guess'')] else [])
     @ (if get0 result ''usage'' \<noteq> PNone then [(''usage'', get0 result ''usage'')] else [])"

definition jev_trace :: "wnode \<Rightarrow> pydict \<Rightarrow> ('w, unit) kact" where
  "jev_trace n detail = trace_put (n_id n) ''classification'' (PDict detail)"

text \<open>The route is added to the decision in the trace once it is known.\<close>

definition jev_route :: "wgraph \<Rightarrow> wnode \<Rightarrow> string list \<Rightarrow> pydict \<Rightarrow> pyval res" where
  "jev_route g n names result = (if truthy (get0 result ''uncertain'')
     then (if has_edge g (n_id n) ''uncertain'' then Inr (PStr ''uncertain'')
       else Inl (gcode ''Jev hesite et aucune route uncertain n est branchee'' ''classifier_uncertain''
         [(''node'', PStr (n_id n)), (''best_guess'', PStr (py_str (get0 result ''best_guess'')))]))
     else ebind (hashed (get0 result ''label'')) (\<lambda>label.
       if py_in label (map PStr names) then Inr label else Inl (out_of_routes n names)))"

definition classify_jev :: "('w, pyval \<times> pyval) body" where
  "classify_jev h c n inp =
     sbind (service (n_id n) ''jev_classify'' (h_jev h)) (\<lambda>classify.
     sbind (jev_text n inp) (\<lambda>text.
     if blank text then fail (node_err ''rien a classer'' ''classifier_empty_input'' (n_id n))
     else
     sbind (cfg_item n ''routes'') (\<lambda>rv.
     sbind (lift (py_iter rv)) (\<lambda>routes.
     sbind (lift (jev_labels routes)) (\<lambda>labels.
     sbind (lift (min_confidence n)) (\<lambda>conf.
     sbind (call (classify labels text (por (cfg0 n ''instructions'') (PStr [])) conf)) (\<lambda>result.
     sbind (jev_trace n (jev_detail result)) (\<lambda>_.
     sbind (lift (jev_route (c_graph c) n (map fst labels) result)) (\<lambda>route.
     sbind (jev_trace n (dset (jev_detail result) ''route'' route)) (\<lambda>_. sret (inp, route)))))))))))"

subsection \<open>Values: trigger, merge, output, convert, set, extract\<close>

definition trigger_body :: "('w, pyval \<times> pyval) body" where
  "trigger_body h c n inp = sret (c_payload c, PNone)"

definition adk_name :: "string \<Rightarrow> string" where
  "adk_name i = ''n_'' @ map (\<lambda>ch. if ch = CHR ''-'' then CHR ''_'' else ch) i"

definition merge_value :: "wgraph \<Rightarrow> wnode \<Rightarrow> pyval \<Rightarrow> pyval res" where
  "merge_value g n inp = (case por inp (PDict []) of
     PDict d \<Rightarrow> Inr (PDict (map (\<lambda>src. (src, get0 d (adk_name src))) (sort (parents_of g (n_id n)))))
   | _ \<Rightarrow> if parents_of g (n_id n) = [] then Inr (PDict []) else Inl (PyError ''AttributeError''))"

definition merge_body :: "('w, pyval \<times> pyval) body" where
  "merge_body h c n inp = routeless (lift (merge_value (c_graph c) n inp))"

definition output_body :: "('w, pyval \<times> pyval) body" where
  "output_body h c n inp = routeless (input_or n ''value'' inp)"

text \<open>\<open>except (ValueError, TypeError)\<close>: \<open>GraphError\<close> is a \<open>ValueError\<close>.\<close>

definition value_or_type_error :: "exn \<Rightarrow> bool" where
  "value_or_type_error e = (case e of PyError cls \<Rightarrow> cls = ''ValueError'' \<or> cls = ''TypeError''
     | GraphError _ _ _ \<Rightarrow> True | UnsupportedWorkflow _ \<Rightarrow> True | _ \<Rightarrow> False)"

definition convert_failed :: "wnode \<Rightarrow> pyval \<Rightarrow> exn" where
  "convert_failed n dest = gcode ''conversion impossible'' ''convert_failed'' [(''node'', PStr (n_id n)), (''to'', dest)]"

definition convert_body :: "('w, pyval \<times> pyval) body" where
  "convert_body h c n inp = routeless
     (sbind (input_or n ''input'' inp) (\<lambda>v. sbind (cfg_item n ''to'') (\<lambda>dest.
      slift (case convert_value (h_readers h) v (str_of dest) of
        Inl e \<Rightarrow> Inl (if value_or_type_error e then raise_from (convert_failed n dest) (fresh e) else fresh e)
      | Inr w \<Rightarrow> Inr w))))"

definition set_value :: "wnode \<Rightarrow> pydict \<Rightarrow> pyval res" where
  "set_value n outs = ebind (getitem (n_config n) ''fields'') (\<lambda>fv. ebind (py_iter fv) (\<lambda>fs.
     ebind (efold (\<lambda>acc f. ebind (as_dict f ''TypeError'') (\<lambda>d. ebind (getitem d ''key'') (\<lambda>k.
       ebind (render (get0 d ''value'') outs (Some (n_id n))) (\<lambda>v. Inr (dset acc (str_of k) v))))) [] fs)
     (\<lambda>d. Inr (PDict d))))"

definition set_body :: "('w, pyval \<times> pyval) body" where
  "set_body h c n inp = routeless (sbind (sget k_outputs) (\<lambda>outs. lift (set_value n outs)))"

definition extract_body :: "('w, pyval \<times> pyval) body" where
  "extract_body h c n inp = routeless
     (sbind (input_or n ''input'' inp) (\<lambda>v.
      sbind (cfg_item n ''agent_id'') (\<lambda>aid.
      sbind (cfg_item n ''fields'') (\<lambda>fv.
      sbind (lift (py_iter fv)) (\<lambda>fs.
      sbind (lift (extract_prompt fs (text_of v))) (\<lambda>prompt.
      sbind (run_agent h aid prompt) (\<lambda>answer.
      sbind (lift (extract_result (n_id n) fs answer)) (\<lambda>d. sret (PDict d)))))))))"

subsection \<open>The outside: rag, http, notification\<close>

text \<open>A search that fails for its own reasons is blamed on the node; other errors pass.\<close>

definition rag_error :: "wnode \<Rightarrow> raised \<Rightarrow> raised" where
  "rag_error n e = (case x_chain e of
     GraphError m (Some cd) ps # _ \<Rightarrow>
       if cd = ''rag_no_knowledge'' \<or> cd = ''rag_failed''
       then raise_from (GraphError m (Some cd) (dset ps ''node'' (PStr (n_id n)))) e else e
   | _ \<Rightarrow> e)"

definition rag_body :: "('w, pyval \<times> pyval) body" where
  "rag_body h c n inp = routeless
     (sbind (cfg_item n ''query'') (\<lambda>q.
      sbind (render_as_text n q) (\<lambda>query.
      case h_rag h of
        None \<Rightarrow> fail (node_err ''recherche RAG indisponible'' ''rag_failed'' (n_id n))
      | Some search \<Rightarrow> sbind (cfg_item n ''agent_id'') (\<lambda>aid.
          stry (call (search aid query (get1 (n_config n) ''top_k'' (PInt 5))))
            (\<lambda>r. slift (map_err (rag_error n) r))))))"

definition call_net :: "('w \<times> string list, exn, 'a) act \<Rightarrow> ('w, 'a) kact" where
  "call_net m s = (case m (k_world s, []) of (r, w, _) \<Rightarrow> (map_err fresh r, s\<lparr>k_world := w\<rparr>))"

definition error_status :: "wnode \<Rightarrow> pydict \<Rightarrow> bool" where
  "error_status n response = ((case get0 response ''status'' of PInt i \<Rightarrow> 400 \<le> i | _ \<Rightarrow> False)
     \<and> cfg0 n ''accept_error_status'' = PBool False)"

definition http_body :: "('w, pyval \<times> pyval) body" where
  "http_body h c n inp = routeless
     (sbind (sget k_outputs) (\<lambda>outs.
      sbind (call_net (http_call (h_net h) (n_id n) (n_config n) outs)) (\<lambda>response.
      if error_status n response
      then sthrow ((fresh (gcode ''reponse HTTP'' ''http_error_status''
        [(''node'', PStr (n_id n)), (''status'', PStr (py_str (get0 response ''status'')))]))
        \<lparr>x_partial := Some (PDict response)\<rparr>)
      else sret (PDict response))))"

definition attachment_refs :: "wnode \<Rightarrow> ('w, string list) kact" where
  "attachment_refs n = (let v = cfg0 n ''attachments'' in
     if unset v \<or> v = PList [] then sret []
     else sbind (render_cfg n v) (\<lambda>a.
       sbind (lift (file_refs (n_id n) ''notification'' MAX_NOTIFICATION_ATTACHMENTS a)) (\<lambda>refs.
       if refs = [] then fail (node_err ''pieces jointes demandees mais aucun fichier recu''
         ''notification_attachment_missing'' (n_id n))
       else sret refs)))"

definition notification_body :: "('w, pyval \<times> pyval) body" where
  "notification_body h c n inp = routeless
     (sbind (cfg_item n ''channel'') (\<lambda>channel.
      sbind (lift (each (n_config n) ''to'')) (\<lambda>dests.
      sbind (smap (render_as_text n) dests) (\<lambda>dest.
      sbind (render_as_text n (get1 (n_config n) ''subject'' (PStr []))) (\<lambda>subject.
      sbind (render_as_text n (get1 (n_config n) ''body'' (PStr []))) (\<lambda>message.
      case h_notify h of
        None \<Rightarrow> fail (node_err ''notifications indisponibles'' ''notification_unavailable'' (n_id n))
      | Some notify \<Rightarrow>
          sbind (attachment_refs n) (\<lambda>refs.
          sbind (call (notify (n_id n) channel dest subject message refs)) (\<lambda>sent.
          sret (PDict [(''channel'', channel), (''sent'', sent)])))))))))"

subsection \<open>Files and rows: document, db_write, file, file_save\<close>

definition document_entry :: "string \<Rightarrow> pydict \<Rightarrow> pydict" where
  "document_entry ref doc = [(''name'', get0 doc ''name''), (''ref'', PStr ref),
     (''text'', por (get0 doc ''text'') (PStr [])), (''page_count'', get0 doc ''page_count'')]"

definition entry_text :: "pydict \<Rightarrow> string res" where
  "entry_text d = (case get0 d ''text'' of PStr s \<Rightarrow> Inr s | _ \<Rightarrow> Inl (PyError ''TypeError''))"

definition document_body :: "('w, pyval \<times> pyval) body" where
  "document_body h c n inp = routeless
     (sbind (service (n_id n) ''document'' (h_document h)) (\<lambda>read.
      sbind (cfg_item n ''files'') (\<lambda>files.
      sbind (render_cfg n files) (\<lambda>v.
      sbind (lift (document_refs (n_id n) v)) (\<lambda>refs.
      sbind (smap (\<lambda>ref. sbind (call (read ref)) (\<lambda>doc. sret (document_entry ref doc))) refs) (\<lambda>docs.
      sbind (lift (emap entry_text docs)) (\<lambda>texts.
      sret (PDict [(''documents'', PList (map PDict docs)), (''text'', PStr (join (newline @ newline) texts)),
        (''count'', PInt (int (length docs)))]))))))))"

definition db_row :: "wnode \<Rightarrow> pydict \<Rightarrow> pydict res" where
  "db_row n outs = ebind (getitem (n_config n) ''values'') (\<lambda>v. ebind (as_dict v ''AttributeError'') (\<lambda>d.
     emap (\<lambda>(col, tpl). map_sum id (\<lambda>x. (col, db_value x)) (render tpl outs (Some (n_id n)))) d))"

definition db_write_body :: "('w, pyval \<times> pyval) body" where
  "db_write_body h c n inp = routeless
     (sbind (service (n_id n) ''db_write'' (h_db_write h)) (\<lambda>write.
      sbind (sget k_outputs) (\<lambda>outs.
      sbind (lift (db_row n outs)) (\<lambda>row.
      sbind (cfg_item n ''connection'') (\<lambda>conn.
      sbind (cfg_item n ''table'') (\<lambda>tbl.
      sbind (call (write conn tbl row)) (\<lambda>result.
      sret (PDict [(''table'', tbl), (''inserted'', get1 result ''inserted'' (PInt 0))]))))))))"

definition file_checks :: "wnode \<Rightarrow> string \<Rightarrow> unit res" where
  "file_checks n data = checks
     [raise_if (data = []) (node_err ''contenu vide, aucun fichier produit'' ''file_empty'' (n_id n)),
      raise_if (MAX_FILE_BYTES < int (length data))
        (file_max ''fichier trop grand'' ''file_too_large'' (n_id n) MAX_FILE_BYTES)]"

definition file_artifact :: "pydict \<Rightarrow> pydict" where
  "file_artifact out = [(''file_ref'', get0 out ''ref''), (''file_name'', get0 out ''name''),
     (''content_type'', get0 out ''content_type''), (''size'', get0 out ''size'')]"

definition store_file ::
  "wnode \<Rightarrow> (string \<Rightarrow> string \<Rightarrow> string \<Rightarrow> ('w, pydict) wact) \<Rightarrow> string \<Rightarrow> string \<Rightarrow> string \<Rightarrow> nat option \<Rightarrow> ('w, pyval) kact" where
  "store_file n save fmt name data rows =
     sbind (call (save name (content_type_of fmt) data)) (\<lambda>stored.
     sbind (lift (getitem stored ''ref'')) (\<lambda>ref.
     let out = [(''name'', get1 stored ''name'' (PStr name)), (''ref'', ref),
           (''size'', get1 stored ''size'' (PInt (int (length data)))),
           (''content_type'', PStr (content_type_of fmt)), (''format'', PStr fmt),
           (''rows'', case rows of None \<Rightarrow> PNone | Some k \<Rightarrow> PInt (int k))] in
     sbind (set_artifacts (n_id n) [file_artifact out]) (\<lambda>_. sret (PDict out))))"

definition file_body :: "('w, pyval \<times> pyval) body" where
  "file_body h c n inp = routeless
     (sbind (service (n_id n) ''save_file'' (h_save_file h)) (\<lambda>save.
      sbind (cfg_item n ''format'') (\<lambda>fmt.
      sbind (cfg_item n ''content'') (\<lambda>content.
      sbind (render_cfg n content) (\<lambda>v.
      sbind (render_cfg n (cfg0 n ''filename'')) (\<lambda>fname.
      let f = str_of fmt; name = file_name (n_id n) fname f;
          sheet = (case cfg0 n ''sheet_name'' of PStr s \<Rightarrow> if s = [] then None else Some s | _ \<Rightarrow> None) in
      sbind (lift (build_file (h_renderers h) (n_id n) f v sheet)) (\<lambda>(data, rows).
      sbind (lift (file_checks n data)) (\<lambda>_. store_file n save f name data rows))))))))"

definition file_save_body :: "('w, pyval \<times> pyval) body" where
  "file_save_body h c n inp = routeless
     (sbind (service (n_id n) ''save_to_drive'' (h_save_drive h)) (\<lambda>save.
      sbind (cfg_item n ''file'') (\<lambda>file.
      sbind (render_cfg n file) (\<lambda>v.
      sbind (lift (item_ref (node_err ''ce n est pas un fichier'' ''file_save_bad_file'' (n_id n)) v)) (\<lambda>ref.
      sbind (render_cfg n (por (cfg0 n ''folder'') (PStr []))) (\<lambda>fv.
      sbind (lift (check_folder (n_id n) fv)) (\<lambda>folder.
      sbind (cfg_item n ''provider'') (\<lambda>provider.
      sbind (call (save provider ref folder (por (cfg0 n ''conflict'') (PStr ''rename'')))) (\<lambda>result.
      sret (PDict [(''provider'', provider), (''name'', get0 result ''name''),
        (''path'', get0 result ''path''), (''web_url'', get0 result ''web_url'')]))))))))))"

subsection \<open>Human decisions: approval\<close>

text \<open>The answer of a resumed run is taken once, and told to \<open>on_answered\<close> before anything else.\<close>

definition answer_output :: "pydict \<Rightarrow> pyval" where
  "answer_output a = PDict (map (\<lambda>k. (k, get0 a k)) [''choice'', ''text'', ''answered_by'', ''answered_at''])"

definition answer_route :: "wnode \<Rightarrow> pydict \<Rightarrow> pyval" where
  "answer_route n a = (if get0 a ''choice'' \<noteq> PNone then get0 a ''choice''
     else if decision_mode n = PStr ''both'' then PStr ''text'' else PNone)"

definition take_answer :: "'w host \<Rightarrow> wnode \<Rightarrow> pydict \<Rightarrow> ('w, pyval \<times> pyval) kact" where
  "take_answer h n a = sbind (case h_answered h of None \<Rightarrow> sret () | Some f \<Rightarrow> call (f (n_id n)))
     (\<lambda>_. sret (answer_output a, answer_route n a))"

definition choice_entry :: "pydict \<Rightarrow> pyval res" where
  "choice_entry d = ebind (getitem d ''route'') (\<lambda>r. Inr (PDict [(''route'', r), (''label'', por (get0 d ''label'') r)]))"

definition ask_decision :: "wnode \<Rightarrow> ('w, pyval \<times> pyval) kact" where
  "ask_decision n = sbind (cfg_item n ''question'') (\<lambda>q. sbind (render_as_text n q) (\<lambda>question.
     sbind (lift (ebind (decision_choices n) (emap choice_entry))) (\<lambda>cs.
     sthrow (awaiting (n_id n)
       [(''question'', PStr question), (''mode'', decision_mode n), (''choices'', PList cs),
        (''assignee'', por (cfg0 n ''assignee'') PNone),
        (''expires_after_hours'', get1 (n_config n) ''expires_after_hours'' (PInt 168))]))))"

definition approval_body :: "('w, pyval \<times> pyval) body" where
  "approval_body h c n inp = (if c_nested c
     then fail (gcode ''decision humaine impossible ici'' ''approval_nested''
       [(''node'', PStr (n_id n)), (''decision'', PStr (n_id n))])
     else case c_answer c of
       Some a \<Rightarrow> if get0 a ''node_id'' = PStr (n_id n) then take_answer h n a else ask_decision n
     | None \<Rightarrow> ask_decision n)"

subsection \<open>The body of a node, given the bodies of the nodes that run a graph\<close>

definition node_body :: "('w, pyval \<times> pyval) body \<Rightarrow> ('w, pyval \<times> pyval) body" where
  "node_body nested h c n = (case n_type n of
     TTrigger \<Rightarrow> trigger_body h c n | TAgent \<Rightarrow> agent_body h c n | TTool \<Rightarrow> tool_body h c n
   | TRouter \<Rightarrow> router_body h c n
   | TClassifier \<Rightarrow> if cfg0 n ''engine'' = PStr ''jev'' then classify_jev h c n else classifier_body h c n
   | TDocument \<Rightarrow> document_body h c n | TDbWrite \<Rightarrow> db_write_body h c n
   | TFile \<Rightarrow> file_body h c n | TFileSave \<Rightarrow> file_save_body h c n
   | TMerge \<Rightarrow> merge_body h c n | TOutput \<Rightarrow> output_body h c n | TConvert \<Rightarrow> convert_body h c n
   | TSet \<Rightarrow> set_body h c n | TCondition \<Rightarrow> condition_body h c n | TExtract \<Rightarrow> extract_body h c n
   | TRag \<Rightarrow> rag_body h c n | THttp \<Rightarrow> http_body h c n | TNotification \<Rightarrow> notification_body h c n
   | TApproval \<Rightarrow> approval_body h c n | _ \<Rightarrow> nested h c n)"

end
