(* ===== verification/Wf_Wrap.thy ===== *)
theory Wf_Wrap
  imports Wf_Bodies
begin

section \<open>Around the body of a node (\<open>_wrap\<close>, \<open>_timed\<close>, \<open>_handled\<close>, \<open>_replay\<close>, \<open>_hand_over\<close>)\<close>

text \<open>
  The function ADK calls for a node: cancellation first, then the replay of a node done before a
  pause, else its body within its deadline, the absorption of an error by \<open>on_error\<close>, the bound
  on the output, the events, and the value handed back to ADK.
\<close>

subsection \<open>\<open>_hand_over\<close>\<close>

definition is_terminal :: "wgraph \<Rightarrow> string \<Rightarrow> bool" where
  "is_terminal g i = (i \<notin> set (edge_sources g))"

definition success_route :: pyval where "success_route = PStr ''__success__''"

definition inner_route :: "wnode \<Rightarrow> pyval \<Rightarrow> pyval" where
  "inner_route n route = (if route = PNone \<and> routes_on_error n \<and> \<not> is_routed n then success_route else route)"

definition hand_over :: "ctx \<Rightarrow> wnode \<Rightarrow> pyval \<Rightarrow> pyval \<Rightarrow> adk_value" where
  "hand_over c n result route = (if is_terminal (c_graph c) (n_id n) then Plain PNone
     else if inner_route n route = PNone then Plain result else Routed result (inner_route n route))"

subsection \<open>\<open>_replay\<close>\<close>

definition opt_field :: "string \<Rightarrow> pydict option \<Rightarrow> pydict" where
  "opt_field k v = (case v of None \<Rightarrow> [] | Some d \<Rightarrow> [(k, PDict d)])"

definition replayed :: "wnode \<Rightarrow> pydict \<Rightarrow> pydict" where
  "replayed n extra = extra @ [(''node_id'', PStr (n_id n)), (''replayed'', PBool True)]"

definition put_output :: "string \<Rightarrow> pyval \<Rightarrow> ('w, unit) kact" where
  "put_output i v = smod (\<lambda>s. s\<lparr>k_outputs := dset (k_outputs s) i v\<rparr>)"

definition put_route :: "string \<Rightarrow> pyval \<Rightarrow> ('w, unit) kact" where
  "put_route i r = (if r = PNone then sret () else smod (\<lambda>s. s\<lparr>k_routes := dset (k_routes s) i r\<rparr>))"

definition put_handled :: "string \<Rightarrow> pydict \<Rightarrow> ('w, unit) kact" where
  "put_handled i d = smod (\<lambda>s. s\<lparr>k_handled := dset (k_handled s) i d\<rparr>)"

definition replay :: "ctx \<Rightarrow> wnode \<Rightarrow> pyval \<Rightarrow> ('w, adk_value) kact" where
  "replay c n result =
     (let route = get0 (c_replay_routes c) (n_id n); handled = dget (c_replay_handled c) (n_id n) in
     sbind (emit (replayed n [(''event'', PStr ''node_start''), (''type'', PStr (type_str (n_type n)))])) (\<lambda>_.
     sbind (put_output (n_id n) result) (\<lambda>_.
     sbind (case handled of None \<Rightarrow> sret () | Some d \<Rightarrow> put_handled (n_id n) d) (\<lambda>_.
     sbind (emit (replayed n [(''event'', PStr ''node_complete''), (''output'', result),
       (''duration_ms'', PInt 0)] @ opt_field ''handled_error'' handled)) (\<lambda>_.
     sbind (put_route (n_id n) route) (\<lambda>_.
     sbind (if route = PNone then sret ()
       else emit (replayed n [(''event'', PStr ''route''), (''route'', route)]
         @ opt_field ''handled_error'' handled)) (\<lambda>_.
     sret (hand_over c n result route))))))))"

subsection \<open>\<open>_timed\<close>\<close>

definition node_timeout :: "wnode \<Rightarrow> pyval \<Rightarrow> exn" where
  "node_timeout n seconds = gcode ''delai depasse'' ''node_timeout''
     [(''node'', PStr (n_id n)), (''seconds'', PStr (py_str seconds))]"

text \<open>A cancellation the deadline asked for, or a \<open>TimeoutError\<close> once it has expired.\<close>

definition deadline_hit :: "raised \<Rightarrow> bool" where
  "deadline_hit e = (case x_chain e of PyError cls # _ \<Rightarrow> cls = ''CancelledError'' \<or> cls = ''TimeoutError''
     | _ \<Rightarrow> False)"

definition timed :: "'w host \<Rightarrow> wnode \<Rightarrow> ('w, 'a) kact \<Rightarrow> ('w, 'a) kact" where
  "timed h n m = (let seconds = (if n_type n = TSubworkflow then cfg0 n ''timeout_s'' else PNone) in
     if seconds = PNone then m
     else stry m (\<lambda>r. case r of
       Inr x \<Rightarrow> sret x
     | Inl e \<Rightarrow> sbind (sget k_world) (\<lambda>w.
         if deadline_hit e \<and> h_expired h (n_id n) w
         then sthrow (raise_from (node_timeout n seconds) e) else sthrow e)))"

subsection \<open>\<open>_handled\<close>\<close>

definition absorbs :: "wnode \<Rightarrow> raised \<Rightarrow> bool" where
  "absorbs n e = (on_error n \<noteq> OFail \<and> n_type n \<in> set ON_ERROR_TYPES \<and> \<not> is_cancel e
     \<and> \<not> (n_type n = TTool \<and> on_error n = OContinue \<and> \<not> x_reported e))"

definition mode_str :: "on_error_mode \<Rightarrow> string" where
  "mode_str m = (case m of OFail \<Rightarrow> ''fail'' | OContinue \<Rightarrow> ''continue'' | ORoute \<Rightarrow> ''route'')"

definition handled :: "'w host \<Rightarrow> wnode \<Rightarrow> raised \<Rightarrow> ('w, pyval \<times> pyval) kact" where
  "handled h n e = sbind (error_output h e (Some (n_id n))) (\<lambda>(err, e').
     sbind (error_fields h e') (\<lambda>(f, _).
     let entry = dupdate err ([(''on_error'', PStr (mode_str (on_error n)))]
           @ (if truthy (get0 f ''ref'') then [(''ref'', get0 f ''ref'')] else [])) in
     sbind (trace_put (n_id n) ''handled_error'' (PDict entry)) (\<lambda>_.
     sbind (put_handled (n_id n) entry) (\<lambda>_.
     sret (if on_error n = ORoute then (PDict err, PStr ''error'')
       else (case x_partial e of Some v \<Rightarrow> v | None \<Rightarrow> PDict err, PNone))))))"

subsection \<open>\<open>_wrap\<close>\<close>

definition set_failed :: "string \<Rightarrow> ('w, unit) kact" where
  "set_failed i = smod (\<lambda>s. s\<lparr>k_failed := Some i\<rparr>)"

definition node_error :: "'w host \<Rightarrow> string \<Rightarrow> raised \<Rightarrow> pydict \<Rightarrow> ('w, 'a) kact" where
  "node_error h i e trace = sbind (set_failed i) (\<lambda>_. sbind (error_fields h e) (\<lambda>(f, e').
     sbind (emit (dupdate (event ''node_error'' i f) trace)) (\<lambda>_. sthrow e')))"

definition output_size :: "pyval \<Rightarrow> nat" where
  "output_size v = utf8_len (json_dumps v)"

definition too_large :: "wnode \<Rightarrow> raised" where
  "too_large n = fresh (gcode ''sortie trop grande'' ''node_output_too_large''
     [(''node'', PStr (n_id n)), (''max'', PStr (int_str MAX_NODE_OUTPUT_BYTES))])"

definition attempt :: "'w host \<Rightarrow> ctx \<Rightarrow> wnode \<Rightarrow> ('w, pyval \<times> pyval) kact \<Rightarrow> ('w, pyval \<times> pyval) kact" where
  "attempt h c n m = stry
     (sbind (timed h n m) (\<lambda>(result, route).
      sbind (if n_type n \<in> {TAgent, TTool} then lift (check_contract n result) else sret ())
        (\<lambda>_. sret (result, route))))
     (\<lambda>r. case r of
        Inr x \<Rightarrow> sret x
      | Inl e \<Rightarrow>
          if is_awaiting e \<or> \<not> is_exception e then sthrow e
          else if absorbs n e then handled h n e
          else sbind (pop_trace (n_id n)) (node_error h (n_id n) e))"

definition complete_event :: "wnode \<Rightarrow> pyval \<Rightarrow> int \<Rightarrow> pydict \<Rightarrow> pydict \<Rightarrow> pydict" where
  "complete_event n result ms trace arts =
     dupdate (dupdate (dupdate (event ''node_complete'' (n_id n) [(''output'', result), (''duration_ms'', PInt ms)])
       trace) arts)
       (if n_type n = TAgent \<and> asks_question result then [(''asks_question'', PBool True)] else [])"

definition finish :: "'w host \<Rightarrow> ctx \<Rightarrow> wnode \<Rightarrow> 'w \<Rightarrow> pyval \<times> pyval \<Rightarrow> ('w, adk_value) kact" where
  "finish h c n w0 x = (case x of (result, route) \<Rightarrow>
     sbind (pop_trace (n_id n)) (\<lambda>trace.
     if MAX_NODE_OUTPUT_BYTES < int (output_size result)
     then node_error h (n_id n) (too_large n) trace
     else
     sbind (put_output (n_id n) result) (\<lambda>_.
     sbind (put_route (n_id n) route) (\<lambda>_.
     sbind (sget k_world) (\<lambda>w.
     sbind (artifacts_of (n_id n)) (\<lambda>arts.
     sbind (emit (complete_event n result (h_elapsed h w0 w) trace arts)) (\<lambda>_.
     sbind (if route = PNone then sret () else emit (event ''route'' (n_id n) [(''route'', route)])) (\<lambda>_.
     sret (hand_over c n result route)))))))))"

definition execute :: "'w host \<Rightarrow> ctx \<Rightarrow> wnode \<Rightarrow> ('w, pyval \<times> pyval) kact \<Rightarrow> ('w, adk_value) kact" where
  "execute h c n m =
     sbind (emit (event ''node_start'' (n_id n) [(''type'', PStr (type_str (n_type n)))])) (\<lambda>_.
     sbind (sget k_world) (\<lambda>w0.
     sbind (pop_trace (n_id n)) (\<lambda>_.
     sbind (attempt h c n m) (finish h c n w0))))"

definition input_of :: "adk_input \<Rightarrow> pyval" where
  "input_of i = (case i of Content \<Rightarrow> PNone | Input v \<Rightarrow> v)"

definition wrap_node ::
  "'w host \<Rightarrow> ctx \<Rightarrow> (pyval \<Rightarrow> ('w, pyval \<times> pyval) kact) \<Rightarrow> wnode \<Rightarrow> adk_input \<Rightarrow> ('w, adk_value) kact" where
  "wrap_node h c body n inp = sbind (sget k_world) (\<lambda>w.
     if h_cancelled h w then fail WorkflowCancelled
     else case dget (c_replay_outputs c) (n_id n) of
       Some result \<Rightarrow> replay c n result
     | None \<Rightarrow> execute h c n (body (input_of inp)))"

end
