(* ===== verification/Wf_Exec.thy ===== *)
theory Wf_Exec
  imports Wf_Wrap
begin

section \<open>Nodes that run a graph, and the compiler (\<open>_loop\<close>, \<open>_try\<close>, \<open>_subworkflow\<close>, \<open>build\<close>)\<close>

text \<open>
  A loop, a try and a sub-workflow run a graph of their own with a compiler of its own: its state
  is fresh, only the world and the relayed events come back.  The runner of such a graph is an
  argument of their definitions; \<open>exec\<close> ties the knot.  It terminates because a body is smaller
  than the configuration that holds it, and a call to another workflow goes one level deeper,
  which the code allows twice.
\<close>

subsection \<open>\<open>build\<close>\<close>

definition entry_of :: "wnode \<Rightarrow> adk_end" where
  "entry_of n = (if n_type n = TMerge then AJoin (n_id n) else AFn (n_id n))"

text \<open>What building the functions of the nodes raises: a body that is no graph.\<close>

definition body_builds :: "wnode \<Rightarrow> unit res" where
  "body_builds n = (if n_type n \<in> {TLoop, TTry}
     then ebind (getitem (n_config n) ''body'') (\<lambda>v. raise_if (parse_graph v = None) (PyError ''ValidationError''))
     else Inr ())"

definition node_edges :: "wgraph \<Rightarrow> wnode \<Rightarrow> adk_edge list" where
  "node_edges g n =
     (if n_id n \<notin> set (map e_target (g_edges g))
      then [\<lparr>a_from = AStart, a_to = entry_of n, a_routes = []\<rparr>] else [])
     @ (if n_type n = TMerge
      then [\<lparr>a_from = AJoin (n_id n), a_to = AFn (n_id n), a_routes = []\<rparr>] else [])"

text \<open>The edges without a route, and the routes per pair of nodes, in order of appearance.\<close>

definition edge_route :: "wnode \<Rightarrow> wedge \<Rightarrow> pyval" where
  "edge_route src e = inner_route src (opt_pstr (e_route e))"

definition edge_step ::
  "wgraph \<Rightarrow> adk_edge list \<times> ((string \<times> string) \<times> pyval list) list \<Rightarrow> wedge
    \<Rightarrow> (adk_edge list \<times> ((string \<times> string) \<times> pyval list) list) res" where
  "edge_step g st e = (case st of (plain, routed) \<Rightarrow>
     ebind (of_opt (PyError ''KeyError'') (find_node g (e_source e))) (\<lambda>src.
     let r = edge_route src e; k = (e_source e, e_target e) in
     if r \<noteq> PNone then Inr (plain, dset routed k ((case dget routed k of None \<Rightarrow> [] | Some rs \<Rightarrow> rs) @ [r]))
     else ebind (of_opt (PyError ''KeyError'') (find_node g (e_target e))) (\<lambda>dest.
       Inr (plain @ [\<lparr>a_from = AFn (n_id src), a_to = entry_of dest, a_routes = []\<rparr>], routed))))"

definition routed_edge :: "wgraph \<Rightarrow> (string \<times> string) \<times> pyval list \<Rightarrow> adk_edge res" where
  "routed_edge g x = (case x of ((s, t), rs) \<Rightarrow>
     ebind (of_opt (PyError ''KeyError'') (find_node g t)) (\<lambda>dest.
     Inr \<lparr>a_from = AFn s, a_to = entry_of dest, a_routes = rs\<rparr>))"

definition build :: "wgraph \<Rightarrow> adk_edge list res" where
  "build g = ebind (eall body_builds (g_nodes g)) (\<lambda>_.
     ebind (efold (edge_step g) ([], []) (g_edges g)) (\<lambda>(plain, routed).
     ebind (emap (routed_edge g) routed) (\<lambda>res.
     Inr (concat (map (node_edges g) (g_nodes g)) @ plain @ res))))"

subsection \<open>\<open>_final_output\<close>\<close>

definition final_output :: "wgraph \<Rightarrow> pydict \<Rightarrow> pyval" where
  "final_output g outs =
     (let pick = (\<lambda>ids. case ids of [i] \<Rightarrow> get0 outs i | _ \<Rightarrow> PDict (map (\<lambda>i. (i, get0 outs i)) ids));
          done = (\<lambda>n. n_id n \<in> set (dkeys outs));
          explicit = map n_id (filter (\<lambda>n. n_type n = TOutput \<and> done n) (g_nodes g)) in
      if explicit \<noteq> [] then pick explicit
      else pick (map n_id (filter (\<lambda>n. is_terminal g (n_id n) \<and> done n) (g_nodes g))))"

subsection \<open>\<open>_run_body\<close>\<close>

text \<open>The compiler of a body and what came out of ADK: the exception it ended with, if any.\<close>

type_synonym 'w runner = "ctx \<Rightarrow> 'w \<Rightarrow> (raised + unit) \<times> 'w kst"

definition inner_ctx :: "ctx \<Rightarrow> wgraph \<Rightarrow> pyval \<Rightarrow> ctx" where
  "inner_ctx c g payload = c\<lparr>c_graph := g, c_payload := payload, c_nested := True,
     c_replay_outputs := [], c_replay_routes := [], c_replay_handled := [], c_answer := None\<rparr>"

definition relayed :: "string \<Rightarrow> (string \<times> int) option \<Rightarrow> pydict \<Rightarrow> pydict" where
  "relayed nid tag ev = (case dget ev ''node_id'' of None \<Rightarrow> ev
     | Some i \<Rightarrow> (let ev' = dset ev ''node_id'' (PStr (nid @ ''.'' @ py_str i)) in
         case tag of None \<Rightarrow> ev' | Some (k, j) \<Rightarrow> dset ev' k (PInt j)))"

definition last_error_node :: "pydict list \<Rightarrow> string option" where
  "last_error_node evs = (case rev (filter (\<lambda>ev. get0 ev ''event'' = PStr ''node_error'') evs) of
     [] \<Rightarrow> None | ev # _ \<Rightarrow> (case get0 ev ''node_id'' of PStr i \<Rightarrow> Some i | _ \<Rightarrow> None))"

text \<open>A failed run: the task's exception, as ADK wrapped it, blamed on the inner node.\<close>

definition body_failure :: "pydict list \<Rightarrow> raised \<Rightarrow> raised" where
  "body_failure evs e = (if is_exception e then e\<lparr>x_inner := last_error_node evs\<rparr> else e)"

definition run_body ::
  "'w host \<Rightarrow> 'w runner \<Rightarrow> wnode \<Rightarrow> ctx \<Rightarrow> (string \<times> int) option \<Rightarrow> ('w, pyval) kact" where
  "run_body h rn n c tag = sbind (sget k_world) (\<lambda>w.
     if h_cancelled h w then fail WorkflowCancelled
     else (\<lambda>s. case rn c (k_world s) of (r, t) \<Rightarrow>
       (case r of Inl e \<Rightarrow> Inl (body_failure (k_events t) e)
          | Inr _ \<Rightarrow> Inr (final_output (c_graph c) (k_outputs t)),
        s\<lparr>k_world := k_world t, k_events := k_events s @ map (relayed (n_id n) tag) (k_events t)\<rparr>)))"

subsection \<open>\<open>_loop\<close>\<close>

definition as_int :: "pyval \<Rightarrow> int res" where
  "as_int v = (case v of PInt i \<Rightarrow> Inr i | PBool b \<Rightarrow> Inr (if b then 1 else 0) | _ \<Rightarrow> Inl (PyError ''TypeError''))"

text \<open>\<open>items[:cap]\<close>\<close>

definition first_items :: "int \<Rightarrow> 'a list \<Rightarrow> 'a list" where
  "first_items cap xs = take (nat (if cap < 0 then max 0 (int (length xs) + cap) else cap)) xs"

definition loop_capped :: "wnode \<Rightarrow> int \<Rightarrow> pyval \<Rightarrow> pydict" where
  "loop_capped n cap remaining =
     event ''loop_capped'' (n_id n) [(''max_iterations'', PInt cap), (''remaining'', remaining)]"

definition round_payload :: "pyval \<Rightarrow> nat \<Rightarrow> pyval \<Rightarrow> pyval" where
  "round_payload item i previous =
     PDict [(''item'', item), (''index'', PInt (int i)), (''previous'', previous)]"

text \<open>\<open>iter i item previous\<close> is one round: \<open>_iteration\<close>.\<close>

primrec foreach :: "(nat \<Rightarrow> pyval \<Rightarrow> pyval \<Rightarrow> ('w, pyval) kact) \<Rightarrow> nat \<Rightarrow> pyval \<Rightarrow> pyval list \<Rightarrow> ('w, pyval list) kact" where
  "foreach iter i previous [] = sret []"
| "foreach iter i previous (x # xs) = sbind (iter i x previous) (\<lambda>v.
     sbind (foreach iter (Suc i) v xs) (\<lambda>vs. sret (v # vs)))"

text \<open>At most \<open>k\<close> more rounds; the flag says whether the condition was met.\<close>

primrec until_loop ::
  "(nat \<Rightarrow> pyval \<Rightarrow> pyval \<Rightarrow> ('w, pyval) kact) \<Rightarrow> (nat \<Rightarrow> pyval \<Rightarrow> ('w, bool) kact) \<Rightarrow> nat \<Rightarrow> nat \<Rightarrow> pyval
    \<Rightarrow> ('w, bool \<times> pyval) kact" where
  "until_loop iter stop 0 i previous = sret (False, previous)"
| "until_loop iter stop (Suc k) i previous = sbind (iter i PNone previous) (\<lambda>v.
     sbind (stop i v) (\<lambda>b. if b then sret (True, v) else until_loop iter stop k (Suc i) v))"

definition loop_until :: "wnode \<Rightarrow> nat \<Rightarrow> pyval \<Rightarrow> ('w, bool) kact" where
  "loop_until n i v = sbind (cfg_item n ''until'') (\<lambda>u. sbind (sget k_outputs) (\<lambda>outs.
     lift (ebind (as_dict u ''AttributeError'') (\<lambda>rule.
       ebind (rule_subject rule (dset outs ''iteration'' (PDict [(''output'', v), (''index'', PInt (int i))]))
         (n_id n) v) (evaluate_rule rule)))))"

definition loop_foreach ::
  "wnode \<Rightarrow> (nat \<Rightarrow> pyval \<Rightarrow> pyval \<Rightarrow> ('w, pyval) kact) \<Rightarrow> int \<Rightarrow> pyval \<Rightarrow> ('w, pyval) kact" where
  "loop_foreach n iter cap inp = sbind (cfg_item n ''items'') (\<lambda>iv. sbind (render_cfg n iv) (\<lambda>items.
     case items of
       PList xs \<Rightarrow>
         sbind (if cap < int (length xs)
           then emit (loop_capped n cap (PInt (int (length xs) - cap))) else sret ()) (\<lambda>_.
         sbind (foreach iter 0 inp (first_items cap xs)) (\<lambda>vs. sret (PList vs)))
     | _ \<Rightarrow> fail (gcode ''items n est pas une liste'' ''loop_items_not_list''
         [(''node'', PStr (n_id n)), (''type'', PStr (type_name items))])))"

definition loop_body_act ::
  "wnode \<Rightarrow> (nat \<Rightarrow> pyval \<Rightarrow> pyval \<Rightarrow> ('w, pyval) kact) \<Rightarrow> pyval \<Rightarrow> ('w, pyval) kact" where
  "loop_body_act n iter inp = sbind (cfg_item n ''max_iterations'') (\<lambda>cv. sbind (lift (as_int cv)) (\<lambda>cap.
     sbind (cfg_item n ''mode'') (\<lambda>mode.
     if mode = PStr ''foreach'' then loop_foreach n iter cap inp
     else sbind (until_loop iter (loop_until n) (nat cap) 0 inp) (\<lambda>(met, v).
       sbind (if met then sret () else emit (loop_capped n cap PNone)) (\<lambda>_. sret v)))))"

subsection \<open>\<open>_try\<close>\<close>

text \<open>\<open>k\<close> more attempts, the first one numbered \<open>i\<close>; \<open>prev\<close> is the error of the one before.\<close>

primrec attempts ::
  "(nat \<Rightarrow> ('w, pyval) kact) \<Rightarrow> ('w, unit) kact \<Rightarrow> nat \<Rightarrow> nat \<Rightarrow> raised \<Rightarrow> ('w, raised + pyval) kact" where
  "attempts run pause 0 i prev = sret (Inl prev)"
| "attempts run pause (Suc k) i prev =
     sbind (if i = 0 then sret () else pause) (\<lambda>_.
     stry (run i) (\<lambda>r. case r of
       Inr v \<Rightarrow> sret (Inr v)
     | Inl e \<Rightarrow> if is_cancel e \<or> \<not> is_exception e then sthrow e
         else attempts run pause k (Suc i) e))"

definition no_exception :: raised where
  "no_exception = foreign []"

definition try_pause :: "'w host \<Rightarrow> int \<Rightarrow> ('w, unit) kact" where
  "try_pause h delay = (if delay = 0 then sret () else call (h_sleep h delay))"

definition try_body_act :: "'w host \<Rightarrow> wnode \<Rightarrow> (nat \<Rightarrow> ('w, pyval) kact) \<Rightarrow> ('w, pyval \<times> pyval) kact" where
  "try_body_act h n run =
     sbind (lift (as_int (get1 (n_config n) ''retries'' (PInt 0)))) (\<lambda>retries.
     sbind (lift (as_int (get1 (n_config n) ''retry_delay_ms'' (PInt 0)))) (\<lambda>delay.
     sbind (attempts run (try_pause h delay) (nat (retries + 1)) 0 no_exception) (\<lambda>r. case r of
       Inr v \<Rightarrow> sret (v, PStr ''ok'')
     | Inl e \<Rightarrow> sbind (error_output h e None) (\<lambda>(err, _). sret (PDict err, PStr ''error'')))))"

subsection \<open>\<open>_subworkflow\<close>\<close>

definition sub_error :: "wnode \<Rightarrow> string \<Rightarrow> string \<Rightarrow> pyval \<Rightarrow> exn" where
  "sub_error n m cd target = gcode m cd [(''node'', PStr (n_id n)), (''workflow'', target)]"

text \<open>The guards come before the resolver is called: a cycle, then the depth.\<close>

definition sub_guards :: "ctx \<Rightarrow> wnode \<Rightarrow> pyval \<Rightarrow> unit res" where
  "sub_guards c n target = checks
     [raise_if (py_in target (c_stack c)) (sub_error n ''cycle de sous-workflow'' ''subworkflow_cycle'' target),
      raise_if (MAX_SUBWORKFLOW_DEPTH < c_depth c + 1)
        (gcode ''profondeur de sous-workflow depassee'' ''subworkflow_too_deep''
          [(''node'', PStr (n_id n)), (''max'', PInt (int MAX_SUBWORKFLOW_DEPTH))])]"

definition sub_valid :: "'w host \<Rightarrow> pyval \<Rightarrow> wgraph \<Rightarrow> (raised + unit)" where
  "sub_valid h target g =
    (case validate_graph ((h_venv h)\<lparr>v_workflow := Some (str_of target), v_owner := None\<rparr>) g of
       Inl (GraphError m cd ps) \<Rightarrow> Inl (raise_from (gerr (''(sous-workflow) : '' @ m)) (fresh (GraphError m cd ps)))
     | Inl e \<Rightarrow> Inl (fresh e) | Inr u \<Rightarrow> Inr u)"

definition sub_ctx :: "ctx \<Rightarrow> pyval \<Rightarrow> wgraph \<Rightarrow> pyval \<Rightarrow> ctx" where
  "sub_ctx c target g payload = (inner_ctx c g payload)
     \<lparr>c_stack := c_stack c @ [target], c_depth := c_depth c + 1\<rparr>"

definition sub_body_act :: "'w host \<Rightarrow> 'w runner \<Rightarrow> ctx \<Rightarrow> wnode \<Rightarrow> pyval \<Rightarrow> ('w, pyval) kact" where
  "sub_body_act h rn c n inp = sbind (cfg_item n ''workflow_id'') (\<lambda>target.
     case h_resolve h of
       None \<Rightarrow> fail (sub_error n ''sous-workflows indisponibles'' ''subworkflow_not_found'' target)
     | Some resolve \<Rightarrow>
         sbind (lift (sub_guards c n target)) (\<lambda>_.
         sbind (call (resolve target)) (\<lambda>found. case found of
           None \<Rightarrow> fail (sub_error n ''workflow introuvable'' ''subworkflow_not_found'' target)
         | Some g \<Rightarrow>
             sbind (slift (sub_valid h target g)) (\<lambda>_.
             sbind (lift (refuse_nested_decision n g)) (\<lambda>_.
             sbind (if cfg0 n ''input'' \<noteq> PNone then render_cfg n (cfg0 n ''input'') else sret inp)
               (\<lambda>payload. run_body h rn n (sub_ctx c target g payload) None))))))"

subsection \<open>The bodies that run a graph, and one compiler\<close>

definition body_of :: "wnode \<Rightarrow> wgraph option" where
  "body_of n = parse_graph (cfg0 n ''body'')"

definition run_of :: "'w host \<Rightarrow> 'w runner \<Rightarrow> ctx \<Rightarrow> wnode \<Rightarrow> wgraph \<Rightarrow> string \<Rightarrow> nat \<Rightarrow> pyval \<Rightarrow> ('w, pyval) kact" where
  "run_of h rn c n g key i payload = run_body h rn n (inner_ctx c g payload) (Some (key, int i))"

definition nested_body :: "'w runner \<Rightarrow> ('w, pyval \<times> pyval) body" where
  "nested_body rn h c n inp = (case (n_type n, body_of n) of
     (TLoop, Some g) \<Rightarrow> routeless (loop_body_act n
       (\<lambda>i item previous. run_of h rn c n g ''iteration'' i (round_payload item i previous)) inp)
   | (TTry, Some g) \<Rightarrow> try_body_act h n (\<lambda>i. run_of h rn c n g ''attempt'' i inp)
   | (TSubworkflow, _) \<Rightarrow> routeless (sub_body_act h rn c n inp)
   | _ \<Rightarrow> fail (PyError ''ValidationError''))"

text \<open>What the task of a run ends with: ADK may wrap the exception of a node.\<close>

definition rewrap :: "'w host \<Rightarrow> raised \<Rightarrow> raised" where
  "rewrap h e = (if \<not> is_exception e \<or> h_links h e = [] then e
     else (foreign (h_links h e @ x_chain e))\<lparr>x_fields := x_fields e, x_awaiting := x_awaiting e\<rparr>)"

definition node_fn :: "'w host \<Rightarrow> ctx \<Rightarrow> 'w runner \<Rightarrow> string \<Rightarrow> adk_input \<Rightarrow> ('w, adk_value) kact" where
  "node_fn h c rn i inp = (case find_node (c_graph c) i of
     None \<Rightarrow> sret (Plain PNone)
   | Some n \<Rightarrow> wrap_node h c (node_body (nested_body rn) h c n) n inp)"

definition run_level :: "'w runner \<Rightarrow> 'w host \<Rightarrow> ctx \<Rightarrow> 'w kst \<Rightarrow> (raised + unit) \<times> 'w kst" where
  "run_level rn h c s = (case build (c_graph c) of
     Inl e \<Rightarrow> (Inl (fresh e), s)
   | Inr es \<Rightarrow> stry (run_sched (h_adk h es) (node_fn h c rn)) (\<lambda>r. slift (map_err (rewrap h) r)) s)"

text \<open>
  The contexts a run may start: a body, smaller and otherwise the same; another workflow, not yet on
  the stack, one level deeper.
\<close>

definition deeper :: "ctx \<Rightarrow> ctx \<Rightarrow> bool" where
  "deeper c c' = (c_depth c' = Suc (c_depth c) \<and> c_depth c' \<le> MAX_SUBWORKFLOW_DEPTH
     \<and> (\<exists>t. \<not> py_in t (c_stack c) \<and> c_stack c' = c_stack c @ [t]))"

definition below :: "ctx \<Rightarrow> ctx \<Rightarrow> bool" where
  "below c c' = (c_nested c' \<and> (deeper c c'
     \<or> c_depth c' = c_depth c \<and> c_stack c' = c_stack c \<and> graph_size (c_graph c') < graph_size (c_graph c)))"

subsection \<open>Termination\<close>

lemma body_of_size: "body_of n = Some g \<Longrightarrow> graph_size g < node_size n"
proof -
  assume b: "body_of n = Some g"
  then obtain w where w: "dget (n_config n) ''body'' = Some w"
    by (cases "dget (n_config n) ''body''") (auto simp: body_of_def get0_def parse_graph_def)
  then show ?thesis
    using b parse_graph_size[of w g] psize_dget[OF w] by (simp add: body_of_def get0_def node_size_def)
qed

lemma sbind_lift [simp]:
  "sbind (lift (Inl e)) f = fail e" "sbind (lift (Inr x)) f = f x"
  by (simp_all add: fun_eq_iff sbind_def lift_def slift_def fail_def sthrow_def map_err_def)

lemma run_body_cong:
  assumes "\<And>w. rn c w = rn' c w"
  shows "run_body h rn n c tag = run_body h rn' n c tag"
proof -
  have "rn c = rn' c" using assms by (rule ext)
  then show ?thesis by (simp only: run_body_def)
qed

lemma sub_body_act_cong:
  assumes rn: "\<And>c' w. c_nested c' \<Longrightarrow> deeper c c' \<Longrightarrow> rn c' w = rn' c' w"
  shows "sub_body_act h rn c n inp = sub_body_act h rn' c n inp"
proof -
  define rest where "rest rn resolve target = sbind (call (resolve target)) (\<lambda>found. case found of
      None \<Rightarrow> fail (sub_error n ''workflow introuvable'' ''subworkflow_not_found'' target)
    | Some g \<Rightarrow> sbind (slift (sub_valid h target g)) (\<lambda>_. sbind (lift (refuse_nested_decision n g)) (\<lambda>_.
        sbind (if cfg0 n ''input'' \<noteq> PNone then render_cfg n (cfg0 n ''input'') else sret inp)
          (\<lambda>payload. run_body h rn n (sub_ctx c target g payload) None))))" for rn and resolve :: "pyval \<Rightarrow> ('a, wgraph option) wact" and target
  have "sbind (lift (sub_guards c n t)) (\<lambda>_. rest rn resolve t) = sbind (lift (sub_guards c n t)) (\<lambda>_. rest rn' resolve t)" for t resolve
  proof (cases "sub_guards c n t")
    case (Inr u)
    then have "\<not> py_in t (c_stack c)" "Suc (c_depth c) \<le> MAX_SUBWORKFLOW_DEPTH"
      by (auto simp: sub_guards_def raise_if_def ebind_def split: if_splits)
    then have "run_body h rn n (sub_ctx c t g p) None = run_body h rn' n (sub_ctx c t g p) None" for g p
      by (intro run_body_cong rn) (auto simp: sub_ctx_def inner_ctx_def deeper_def)
    then show ?thesis by (simp only: rest_def)
  qed simp
  then show ?thesis unfolding sub_body_act_def rest_def[symmetric] by (simp only:)
qed

lemma nested_body_cong:
  assumes "\<And>c' w. c_nested c' \<Longrightarrow> deeper c c' \<Longrightarrow> rn c' w = rn' c' w"
    and "\<And>c' w. c_nested c' \<Longrightarrow> c_depth c' = c_depth c \<Longrightarrow> c_stack c' = c_stack c \<Longrightarrow> body_of n = Some (c_graph c') \<Longrightarrow> rn c' w = rn' c' w"
  shows "nested_body rn h c n inp = nested_body rn' h c n inp"
proof -
  have r: "run_of h rn c n g key = run_of h rn' c n g key" if "body_of n = Some g" for g key
    unfolding run_of_def by (intro ext, rule fun_cong[OF run_body_cong], rule assms(2)) (simp_all add: inner_ctx_def that)
  show ?thesis
    using r sub_body_act_cong[of c rn rn' h n inp, OF assms(1)]
    by (cases "n_type n"; cases "body_of n") (simp_all add: nested_body_def)
qed

lemma node_body_cong:
  assumes "\<And>inp. nested h c n inp = nested' h c n inp"
  shows "node_body nested h c n inp = node_body nested' h c n inp"
  using assms by (cases "n_type n") (simp_all add: node_body_def)

lemma run_level_cong [fundef_cong]:
  assumes "h = h'" "c = c'" "s = s'" and rn: "\<And>c2 w. below c' c2 \<Longrightarrow> rn c2 w = rn' c2 w"
  shows "run_level rn h c s = run_level rn' h' c' s'"
proof -
  have nb: "node_body (nested_body rn) h' c' n = node_body (nested_body rn') h' c' n"
    if "find_node (c_graph c') i = Some n" for n i
  proof (intro ext, rule fun_cong[OF node_body_cong], rule nested_body_cong; rule rn)
    have "node_size n \<le> graph_size (c_graph c')"
      using that by (auto dest!: find_node_Some simp: node_size_le)
    then show "below c' c2" if "c_nested c2" "c_depth c2 = c_depth c'" "c_stack c2 = c_stack c'" "body_of n = Some (c_graph c2)" for c2
      using body_of_size[OF that(4)] that by (simp add: below_def)
  qed (simp add: below_def)
  have "node_fn h' c' rn = node_fn h' c' rn'"
    by (intro ext) (simp add: node_fn_def nb cong: option.case_cong split: option.split)
  then show ?thesis unfolding run_level_def assms(1-3) by (rule ssubst) (rule refl)
qed

function exec :: "'w host \<Rightarrow> 'w runner" where
  "exec h c w = run_level (\<lambda>c' w'. exec h c' w') h c (new_kst [] w)"
  by pat_completeness auto
termination
  by (relation "measures [\<lambda>(h, c, w). MAX_SUBWORKFLOW_DEPTH - c_depth c, \<lambda>(h, c, w). graph_size (c_graph c)]")
    (auto simp: below_def deeper_def)

declare exec.simps [simp del]

end
