(* ===== verification/Wf_Run.thy ===== *)
theory Wf_Run
  imports Wf_Exec "HOL-Library.Product_Lexorder"
begin

section \<open>A run from the outside (\<open>run_graph\<close>, \<open>_pause\<close>, \<open>_save_failure\<close>, \<open>retry_mismatch\<close>)\<close>

text \<open>
  \<open>run_graph\<close> validates the graph, runs it and closes the stream of events with one terminal
  event; a run that stops at a human decision or at a failed node hands a snapshot to its caller,
  from which a later run resumes.
\<close>

subsection \<open>\<open>model_dump\<close> of a graph\<close>

definition opt_pdict :: "pydict option \<Rightarrow> pyval" where
  "opt_pdict x = (case x of None \<Rightarrow> PNone | Some d \<Rightarrow> PDict d)"

definition dump_node :: "wnode \<Rightarrow> pyval" where
  "dump_node n = PDict [(''id'', PStr (n_id n)), (''type'', PStr (type_str (n_type n))),
     (''label'', opt_pstr (n_label n)), (''config'', PDict (n_config n)), (''position'', opt_pdict (n_position n))]"

definition dump_edge :: "wedge \<Rightarrow> pyval" where
  "dump_edge e = PDict [(''id'', opt_pstr (e_id e)), (''source'', PStr (e_source e)),
     (''target'', PStr (e_target e)), (''route'', opt_pstr (e_route e))]"

definition sub_dict :: "pyval \<Rightarrow> pydict" where
  "sub_dict v = (case v of PDict d \<Rightarrow> d | _ \<Rightarrow> [])"

definition dump_output :: "pyval \<Rightarrow> pyval" where
  "dump_output v = (case v of PDict d \<Rightarrow> PDict [(''mode'', get0 d ''mode''), (''value'', get0 d ''value'')] | _ \<Rightarrow> PNone)"

definition dump_test :: "pyval \<Rightarrow> pyval" where
  "dump_test v = (let d = sub_dict v; e = sub_dict (get0 d ''expect'') in
     PDict [(''id'', get0 d ''id''), (''name'', get0 d ''name''), (''payload'', get0 d ''payload''),
       (''expect'', PDict [(''status'', get0 e ''status''), (''routes'', get0 e ''routes''),
          (''output'', dump_output (get0 e ''output''))])])"

definition dump_settings :: "bool option option \<Rightarrow> pyval" where
  "dump_settings s = (case s of None \<Rightarrow> PNone
     | Some b \<Rightarrow> PDict [(''notify_on_failure'', case b of None \<Rightarrow> PNone | Some x \<Rightarrow> PBool x)])"

definition dump_graph :: "wgraph \<Rightarrow> pyval" where
  "dump_graph g = PDict [(''version'', PInt 1), (''nodes'', PList (map dump_node (g_nodes g))),
     (''edges'', PList (map dump_edge (g_edges g))),
     (''tests'', case g_tests g of None \<Rightarrow> PNone | Some ts \<Rightarrow> PList (map dump_test ts)),
     (''settings'', dump_settings (g_settings g))]"

subsection \<open>What a run is asked\<close>

record 'w request =
  q_payload :: pyval
  q_workflow :: "string option"
  q_until :: "string option"
  q_run_id :: pyval
  q_resume :: pydict
  q_on_await :: "(pydict \<Rightarrow> ('w, unit) wact) option"
  q_on_fail :: "(pydict \<Rightarrow> ('w, unit) wact) option"

definition resume_ctx :: "'w request \<Rightarrow> wgraph \<Rightarrow> ctx" where
  "resume_ctx q g = (let field = (\<lambda>k. sub_dict (get0 (q_resume q) k)) in
     \<lparr>c_graph = g, c_payload = q_payload q, c_nested = False, c_depth = 1,
      c_stack = (case q_workflow q of None \<Rightarrow> [] | Some i \<Rightarrow> if i = [] then [] else [PStr i]),
      c_replay_outputs = field ''outputs'', c_replay_routes = field ''routes'',
      c_replay_handled = map (\<lambda>(k, v). (k, sub_dict v)) (field ''handled_errors''),
      c_answer = (case get0 (q_resume q) ''answer'' of PDict d \<Rightarrow> Some d | _ \<Rightarrow> None)\<rparr>)"

definition resume_artifacts :: "'w request \<Rightarrow> pydict list" where
  "resume_artifacts q = (case get0 (q_resume q) ''artifacts'' of PList xs \<Rightarrow> map sub_dict xs | _ \<Rightarrow> [])"

subsection \<open>Snapshots: \<open>_pause\<close>, \<open>_save_failure\<close>\<close>

definition MAX_PAUSED_STATE_BYTES :: int where "MAX_PAUSED_STATE_BYTES = 8388608"

definition snapshot :: "wgraph \<Rightarrow> 'w request \<Rightarrow> 'w kst \<Rightarrow> pydict \<Rightarrow> pydict" where
  "snapshot g q s first = first @ [(''graph'', dump_graph g), (''payload'', q_payload q),
     (''outputs'', PDict (k_outputs s)), (''routes'', PDict (k_routes s)),
     (''artifacts'', PList (map PDict (k_run_artifacts s))),
     (''handled_errors'', PDict (map (\<lambda>(k, d). (k, PDict d)) (k_handled s))),
     (''until'', opt_pstr (q_until q))]"

definition snapshot_fits :: "pydict \<Rightarrow> bool" where
  "snapshot_fits d = (int (utf8_len (json_dumps (PDict d))) \<le> MAX_PAUSED_STATE_BYTES)"

definition save_failure :: "wgraph \<Rightarrow> 'w request \<Rightarrow> string \<Rightarrow> ('w, bool) kact" where
  "save_failure g q failed = (case q_on_fail q of
     None \<Rightarrow> sret False
   | Some save \<Rightarrow> sbind (sget (\<lambda>s. snapshot g q s [(''failed_node'', PStr failed)])) (\<lambda>snap.
       if \<not> snapshot_fits snap then sret False
       else stry (call (save snap)) (\<lambda>r. case r of Inr _ \<Rightarrow> sret True
         | Inl e \<Rightarrow> if is_exception e then sret False else sthrow e)))"

definition error_event :: "'w host \<Rightarrow> raised \<Rightarrow> ('w, pydict) kact" where
  "error_event h e = sbind (error_fields h e) (\<lambda>(f, _). sret (dupdate [(''event'', PStr ''error'')] f))"

definition awaiting_event :: "'w request \<Rightarrow> string \<Rightarrow> pydict \<Rightarrow> pydict" where
  "awaiting_event q i prompt = dupdate
     [(''event'', PStr ''awaiting_input''), (''run_id'', q_run_id q), (''node_id'', PStr i)] prompt"

definition pause :: "'w host \<Rightarrow> wgraph \<Rightarrow> 'w request \<Rightarrow> string \<Rightarrow> pydict \<Rightarrow> ('w, pydict) kact" where
  "pause h g q i prompt = (case q_on_await q of
     None \<Rightarrow> error_event h (fresh (node_err ''ce run ne peut pas attendre une decision'' ''decision_unavailable'' i))
   | Some save \<Rightarrow> sbind (sget (\<lambda>s. snapshot g q s [(''node_id'', PStr i), (''prompt'', PDict prompt)])) (\<lambda>snap.
       if \<not> snapshot_fits snap
       then error_event h (fresh (gcode ''run trop lourd pour attendre'' ''decision_state_too_large''
         [(''node'', PStr i), (''max'', PStr (int_str MAX_PAUSED_STATE_BYTES))]))
       else stry (call (save snap)) (\<lambda>r. case r of
         Inr _ \<Rightarrow> sret (awaiting_event q i prompt)
       | Inl e \<Rightarrow> if is_exception e
           then error_event h (raise_from (node_err ''la decision n a pas pu etre enregistree'' ''decision_not_saved'' i) e)
           else sthrow e)))"

subsection \<open>\<open>run_graph\<close>\<close>

definition invalid_event :: "string \<Rightarrow> string option \<Rightarrow> pydict \<Rightarrow> pydict" where
  "invalid_event m cd ps = [(''event'', PStr ''error''), (''code'', PStr ''invalid_graph''), (''detail'', PStr m)]
     @ (case cd of None \<Rightarrow> [] | Some x \<Rightarrow> if x = [] then [] else [(''cause'', PStr x), (''params'', PDict ps)])"

definition run_checks :: "'w host \<Rightarrow> 'w request \<Rightarrow> wgraph \<Rightarrow> unit res" where
  "run_checks h q g = checks
     [validate_graph ((h_venv h)\<lparr>v_workflow := q_workflow q, v_owner := None\<rparr>) g,
      (case q_until q of None \<Rightarrow> Inr ()
       | Some u \<Rightarrow> raise_if (u \<notin> set (node_ids g)) (node_err ''noeud inconnu pour un test partiel'' ''until_unknown_node'' u))]"

definition MAX_RUN_ARTIFACTS :: nat where "MAX_RUN_ARTIFACTS = 50"

definition done_event :: "wgraph \<Rightarrow> 'w request \<Rightarrow> 'w kst \<Rightarrow> pydict" where
  "done_event g q s = (case q_until q of
       None \<Rightarrow> [(''event'', PStr ''done''), (''output'', final_output g (k_outputs s))]
     | Some u \<Rightarrow> [(''event'', PStr ''done''), (''output'', get0 (k_outputs s) u), (''until'', PStr u),
         (''partial'', PBool True)])
     @ (if k_run_artifacts s = [] then []
        else [(''artifacts'', PList (map PDict (take MAX_RUN_ARTIFACTS (k_run_artifacts s))))])"

definition failure_event :: "'w host \<Rightarrow> wgraph \<Rightarrow> 'w request \<Rightarrow> raised \<Rightarrow> ('w, pydict) kact" where
  "failure_event h g q e = sbind (error_event h e) (\<lambda>ev. sbind (sget k_failed) (\<lambda>f. case f of
     None \<Rightarrow> sret ev
   | Some i \<Rightarrow> sbind (save_failure g q i) (\<lambda>ok.
       sret (dupdate ev [(''failed_node'', PStr i), (''retryable'', PBool ok)]))))"

definition terminal_event :: "'w host \<Rightarrow> wgraph \<Rightarrow> 'w request \<Rightarrow> raised option \<Rightarrow> ('w, pydict) kact" where
  "terminal_event h g q exc = sbind (sget id) (\<lambda>s.
     if h_cancelled h (k_world s) \<or> (case exc of None \<Rightarrow> False | Some e \<Rightarrow> is_cancel e)
     then sret [(''event'', PStr ''cancelled'')]
     else case exc of
       Some e \<Rightarrow> (case awaiting_in e of Some (i, prompt) \<Rightarrow> pause h g q i prompt | None \<Rightarrow> failure_event h g q e)
     | None \<Rightarrow> (case q_until q of
         Some u \<Rightarrow> if u \<notin> set (dkeys (k_outputs s))
           then sret [(''event'', PStr ''error''), (''code'', PStr ''until_not_reached''),
             (''detail'', PStr (u @ '' n a pas ete atteint'')), (''params'', PDict [(''node'', PStr u)])]
           else sret (done_event g q s)
       | None \<Rightarrow> sret (done_event g q s)))"

text \<open>The events, the exception that left the generator (a cancelled task), and the world.\<close>

definition run_graph ::
  "'w host \<Rightarrow> 'w request \<Rightarrow> wgraph \<Rightarrow> 'w \<Rightarrow> pydict list \<times> raised option \<times> 'w" where
  "run_graph h q g w = (case run_checks h q g of
     Inl (GraphError m cd ps) \<Rightarrow> ([invalid_event m cd ps], None, w)
   | Inl e \<Rightarrow> ([], Some (fresh e), w)
   | Inr _ \<Rightarrow>
       (let g' = (case q_until q of None \<Rightarrow> g | Some u \<Rightarrow> until_subgraph g u) in
        case build g' of Inl e \<Rightarrow> ([], Some (fresh e), w)
        | Inr _ \<Rightarrow>
       (case run_level (exec h) h (resume_ctx q g') (new_kst (resume_artifacts q) w) of (r, s) \<Rightarrow>
        (case r of
           Inl e \<Rightarrow> if \<not> is_exception e then (k_events s, Some e, k_world s)
             else (case terminal_event h g q (Some e) s of
               (Inl x, s') \<Rightarrow> (k_events s, Some x, k_world s')
             | (Inr t, s') \<Rightarrow> (k_events s @ [t], None, k_world s'))
         | Inr _ \<Rightarrow> (case terminal_event h g q None s of
               (Inl x, s') \<Rightarrow> (k_events s, Some x, k_world s')
             | (Inr t, s') \<Rightarrow> (k_events s @ [t], None, k_world s'))))))"

definition sse :: "pydict \<Rightarrow> string" where
  "sse ev = ''data: '' @ json_dumps (PDict ev) @ newline @ newline"

subsection \<open>\<open>retry_mismatch\<close>\<close>

fun sort_keys :: "pyval \<Rightarrow> pyval" where
  "sort_keys (PDict d) = PDict (sort_key fst (map (\<lambda>(k, v). (k, sort_keys v)) d))"
| "sort_keys (PList xs) = PList (map sort_keys xs)"
| "sort_keys v = v"

definition signature :: "wgraph \<Rightarrow> string \<Rightarrow> (node_type \<times> string \<times> (string \<times> string) list) option" where
  "signature g i = map_option (\<lambda>n. (n_type n, json_dumps_ascii (sort_keys (PDict (n_config n))),
     sort (map (\<lambda>e. (e_source e, case e_route e of None \<Rightarrow> [] | Some r \<Rightarrow> r))
       (filter (\<lambda>e. e_target e = i) (g_edges g))))) (find_node g i)"

definition retry_mismatch :: "pyval \<Rightarrow> wgraph \<Rightarrow> string list \<Rightarrow> string list res" where
  "retry_mismatch saved now replay_ids = ebind (of_opt (PyError ''ValidationError'') (parse_graph saved)) (\<lambda>old.
     Inr (filter (\<lambda>i. signature old i \<noteq> signature now i) (sort replay_ids)))"

end
