(* ===== verification/Act_Logic.thy ===== *)
theory Act_Logic
  imports Wf_State
begin

section \<open>Reasoning about stateful operations\<close>

text \<open>
  \<open>holds P m Q E\<close>: from a state with \<open>P\<close> the operation \<open>m\<close> ends in a state with \<open>P\<close>, with a
  result in \<open>Q\<close> or an exception in \<open>E\<close>.  The collection \<open>holds_intros\<close> follows the structure of
  an operation; where a result matters to what comes next, \<open>holds_then\<close> names its property.
\<close>

named_theorems holds_intros \<open>structural rules for holds\<close>

definition holds :: "('s \<Rightarrow> bool) \<Rightarrow> ('s, 'e, 'a) act \<Rightarrow> ('a \<Rightarrow> bool) \<Rightarrow> ('e \<Rightarrow> bool) \<Rightarrow> bool" where
  "holds P m Q E = (\<forall>s. P s \<longrightarrow>
     P (snd (m s)) \<and> (\<forall>x. fst (m s) = Inr x \<longrightarrow> Q x) \<and> (\<forall>e. fst (m s) = Inl e \<longrightarrow> E e))"

lemma holdsI:
  "(\<And>s. P s \<Longrightarrow> P (snd (m s)) \<and> (\<forall>x. fst (m s) = Inr x \<longrightarrow> Q x) \<and> (\<forall>e. fst (m s) = Inl e \<longrightarrow> E e)) \<Longrightarrow> holds P m Q E"
  by (simp add: holds_def)

lemma holdsD:
  assumes "holds P m Q E" "P s" "m s = (r, t)"
  shows "P t" "r = Inr x \<Longrightarrow> Q x" "r = Inl e \<Longrightarrow> E e"
  using assms unfolding holds_def by force+

lemma holds_mono:
  "holds P m Q E \<Longrightarrow> (\<And>x. Q x \<Longrightarrow> Q' x) \<Longrightarrow> (\<And>e. E e \<Longrightarrow> E' e) \<Longrightarrow> holds P m Q' E'"
  unfolding holds_def by meson

lemma holds_sret [holds_intros]: "Q x \<Longrightarrow> holds P (sret x) Q E"
  by (simp add: holds_def sret_def)

lemma holds_sthrow [holds_intros]: "E e \<Longrightarrow> holds P (sthrow e) Q E"
  by (simp add: holds_def sthrow_def)

lemma holds_slift: "(\<And>x. r = Inr x \<Longrightarrow> Q x) \<Longrightarrow> (\<And>e. r = Inl e \<Longrightarrow> E e) \<Longrightarrow> holds P (slift r) Q E"
  by (simp add: holds_def slift_def)

lemma holds_sget [holds_intros]: "(\<And>s. P s \<Longrightarrow> Q (f s)) \<Longrightarrow> holds P (sget f) Q E"
  by (simp add: holds_def sget_def)

lemma holds_smod [holds_intros]: "(\<And>s. P s \<Longrightarrow> P (f s)) \<Longrightarrow> Q () \<Longrightarrow> holds P (smod f) Q E"
  by (simp add: holds_def smod_def)

lemma holds_then:
  "holds P m R E \<Longrightarrow> (\<And>x. R x \<Longrightarrow> holds P (f x) Q E) \<Longrightarrow> holds P (sbind m f) Q E"
  unfolding holds_def sbind_def by (auto split: prod.splits sum.splits)

lemma holds_sbind [holds_intros]:
  "holds P m (\<lambda>_. True) E \<Longrightarrow> (\<And>x. holds P (f x) Q E) \<Longrightarrow> holds P (sbind m f) Q E"
  by (rule holds_then)

lemma holds_stry:
  "holds P m R E' \<Longrightarrow> (\<And>x. R x \<Longrightarrow> holds P (f (Inr x)) Q E) \<Longrightarrow> (\<And>e. E' e \<Longrightarrow> holds P (f (Inl e)) Q E)
    \<Longrightarrow> holds P (stry m f) Q E"
  unfolding holds_def stry_def by (auto split: prod.splits) (metis fst_conv snd_conv obj_sumE)+

lemma holds_smap [holds_intros]:
  "(\<And>x. holds P (f x) (\<lambda>_. True) E) \<Longrightarrow> (\<And>ys. Q ys) \<Longrightarrow> holds P (smap f xs) Q E"
  by (induction xs arbitrary: Q) (auto intro!: holds_intros)

lemma holds_if [holds_intros]:
  "(b \<Longrightarrow> holds P m Q E) \<Longrightarrow> (\<not> b \<Longrightarrow> holds P n Q E) \<Longrightarrow> holds P (if b then m else n) Q E"
  by simp

lemma holds_prod [holds_intros]: "(\<And>a b. x = (a, b) \<Longrightarrow> holds P (f a b) Q E) \<Longrightarrow> holds P (case x of (a, b) \<Rightarrow> f a b) Q E"
  by (cases x) simp

lemma holds_option [holds_intros]:
  "(x = None \<Longrightarrow> holds P m Q E) \<Longrightarrow> (\<And>y. x = Some y \<Longrightarrow> holds P (f y) Q E)
    \<Longrightarrow> holds P (case x of None \<Rightarrow> m | Some y \<Rightarrow> f y) Q E"
  by (cases x) simp_all

lemma holds_sum [holds_intros]:
  "(\<And>e. x = Inl e \<Longrightarrow> holds P (f e) Q E) \<Longrightarrow> (\<And>y. x = Inr y \<Longrightarrow> holds P (g y) Q E)
    \<Longrightarrow> holds P (case x of Inl e \<Rightarrow> f e | Inr y \<Rightarrow> g y) Q E"
  by (cases x) simp_all

lemma holds_let [holds_intros]: "holds P (f x) Q E \<Longrightarrow> holds P (Let x f) Q E"
  by simp

lemma holds_run_sched:
  "(\<And>i v. holds P (f i v) (\<lambda>_. True) E) \<Longrightarrow> (\<And>es. E (foreign es)) \<Longrightarrow> holds P (run_sched t f) (\<lambda>_. True) E"
  by (induction t) (auto intro!: holds_intros)

end
