(* ===== verification/Wf_Invariant.thy ===== *)
theory Wf_Invariant
  imports Wf_Run Act_Logic
begin

section \<open>Invariants of a run, under any schedule\<close>

text \<open>
  Two locales state what a property of the compiler's state has to be closed under: \<open>body_inv\<close>
  for the bodies of nodes, which touch only the trace, the artifacts, the world and the events,
  and \<open>run_inv\<close> for the whole function of a node.  Their lemmas, proved once, say that every
  node, and with \<open>run_sched\<close> every order ADK may choose, preserves such a property.
\<close>

subsection \<open>Events of nodes, fields of errors\<close>

definition NODE_EVENTS :: "pyval list" where
  "NODE_EVENTS = map PStr [''node_start'', ''node_input'', ''node_complete'', ''node_error'', ''route'', ''loop_capped'']"

definition node_event :: "pydict \<Rightarrow> bool" where
  "node_event ev = (get0 ev ''event'' \<in> set NODE_EVENTS)"

definition plain :: "pydict \<Rightarrow> bool" where
  "plain d = (''event'' \<notin> set (dkeys d) \<and> ''node_id'' \<notin> set (dkeys d))"

definition raised_ok :: "raised \<Rightarrow> bool" where
  "raised_ok e = ((\<forall>f. x_fields e = Some f \<longrightarrow> plain f)
     \<and> (\<forall>i p. x_awaiting e = Some (i, p) \<longrightarrow> plain p))"

abbreviation anything :: "'a \<Rightarrow> bool" where "anything \<equiv> \<lambda>_. True"

lemma dget_dupdate_notin: "k \<notin> set (dkeys e) \<Longrightarrow> dget (dupdate d e) k = dget d k"
proof (induction e arbitrary: d)
  case (Cons p e)
  then show ?case by (cases p) (simp add: dupdate_def dkeys_def)
qed (simp add: dupdate_def)

lemma dkeys_dupdate: "set (dkeys (dupdate d e)) = set (dkeys d) \<union> set (dkeys e)"
proof (induction e arbitrary: d)
  case (Cons p e)
  have "dupdate d (p # e) = dupdate (dset d (fst p) (snd p)) e" by (cases p) (simp add: dupdate_def)
  then show ?case using Cons by (simp add: dkeys_def[of "p # e"] dkeys_def[of e])
qed (simp add: dupdate_def dkeys_def)

lemma plain_Nil [simp]: "plain []" by (simp add: plain_def dkeys_def)

lemma plain_Cons [simp]: "plain ((k, v) # d) = (k \<noteq> ''event'' \<and> k \<noteq> ''node_id'' \<and> plain d)"
  by (auto simp: plain_def dkeys_def)

lemma plain_append [simp]: "plain (d @ e) = (plain d \<and> plain e)"
  by (auto simp: plain_def dkeys_def)

lemma plain_dset: "plain d \<Longrightarrow> k \<noteq> ''event'' \<Longrightarrow> k \<noteq> ''node_id'' \<Longrightarrow> plain (dset d k v)"
  by (simp add: plain_def)

lemma plain_dupdate: "plain d \<Longrightarrow> plain e \<Longrightarrow> plain (dupdate d e)"
  by (simp add: plain_def dkeys_dupdate)

lemma node_event_dupdate: "plain e \<Longrightarrow> node_event (dupdate d e) = node_event d"
  by (simp add: node_event_def plain_def get0_def dget_dupdate_notin)

lemma node_event_dset: "k \<noteq> ''event'' \<Longrightarrow> node_event (dset d k v) = node_event d"
  by (simp add: node_event_def get0_def)

lemma node_event_Cons [simp]: "node_event ((''event'', v) # d) = (v \<in> set NODE_EVENTS)"
  by (simp add: node_event_def get0_def dget_def)

lemma NODE_EVENTS_mem [simp]:
  "PStr ''node_start'' \<in> set NODE_EVENTS" "PStr ''node_input'' \<in> set NODE_EVENTS"
  "PStr ''node_complete'' \<in> set NODE_EVENTS" "PStr ''node_error'' \<in> set NODE_EVENTS"
  "PStr ''route'' \<in> set NODE_EVENTS" "PStr ''loop_capped'' \<in> set NODE_EVENTS"
  by (simp_all add: NODE_EVENTS_def)

lemma node_event_event: "PStr kind \<in> set NODE_EVENTS \<Longrightarrow> plain d \<Longrightarrow> node_event (event kind i d)"
  by (simp add: event_def node_event_dupdate)

lemma raised_ok_fresh [simp]: "raised_ok (fresh e)" "raised_ok (foreign es)"
  by (simp_all add: raised_ok_def fresh_def foreign_def)

lemma raised_ok_from: "raised_ok e \<Longrightarrow> raised_ok (raise_from x e)"
  by (simp add: raised_ok_def raise_from_def fresh_def)

lemma raised_ok_update [simp]:
  "raised_ok (e\<lparr>x_partial := p\<rparr>) = raised_ok e" "raised_ok (e\<lparr>x_reported := b\<rparr>) = raised_ok e"
  "raised_ok (e\<lparr>x_inner := i\<rparr>) = raised_ok e"
  by (simp_all add: raised_ok_def)

lemma plain_link_fields: "link_fields e = Some f \<Longrightarrow> plain f"
  by (auto simp: link_fields_def split: exn.splits pyval.splits option.splits if_splits)

lemma plain_first_fields: "first_fields es = Some f \<Longrightarrow> plain f"
  by (induction es) (auto split: option.splits dest: plain_link_fields)

lemma plain_internal [simp]: "plain (internal_fields ref)"
  by (simp add: internal_fields_def)

lemma plain_input_fields [simp]: "plain (input_fields v)"
  by (simp add: input_fields_def Let_def)

lemma holds_lift [holds_intros]:
  "(\<And>x. r = Inr x \<Longrightarrow> Q x) \<Longrightarrow> holds P (lift r) Q raised_ok"
  unfolding lift_def by (rule holds_slift) (auto simp: map_err_def split: sum.splits)

lemma holds_fail [holds_intros]: "holds P (fail e) Q raised_ok"
  unfolding fail_def by (intro holds_intros) simp

lemma holds_cfg_item [holds_intros]: "holds P (cfg_item n k) anything raised_ok"
  unfolding cfg_item_def by (auto intro!: holds_intros)

lemma holds_render_cfg [holds_intros]: "holds P (render_cfg n t) anything raised_ok"
  unfolding render_cfg_def by (auto intro!: holds_intros)

lemma holds_render_as_text [holds_intros]: "holds P (render_as_text n t) anything raised_ok"
  unfolding render_as_text_def by (auto intro!: holds_intros)

lemma holds_service [holds_intros]: "holds P (service i k f) anything raised_ok"
  unfolding service_def by (auto intro!: holds_intros)

lemma holds_input_or [holds_intros]: "holds P (input_or n k v) anything raised_ok"
  unfolding input_or_def by (auto intro!: holds_intros)

lemma holds_routeless [holds_intros]: "holds P m anything E \<Longrightarrow> holds P (routeless m) anything E"
  unfolding routeless_def by (auto intro!: holds_intros)

subsection \<open>Properties the bodies of nodes preserve\<close>

definition runner_ok :: "'w runner \<Rightarrow> bool" where
  "runner_ok rn = (\<forall>c w r t. rn c w = (r, t) \<longrightarrow>
     list_all node_event (k_events t) \<and> (\<forall>e. r = Inl e \<longrightarrow> raised_ok e))"

definition tag_ok :: "(string \<times> int) option \<Rightarrow> bool" where
  "tag_ok tag = (case tag of None \<Rightarrow> True | Some (k, _) \<Rightarrow> k \<noteq> ''event'')"

lemma node_event_relayed: "tag_ok tag \<Longrightarrow> node_event ev \<Longrightarrow> node_event (relayed i tag ev)"
  by (auto simp: relayed_def tag_ok_def Let_def node_event_dset split: option.splits)

locale body_inv =
  fixes I :: "'w kst \<Rightarrow> bool"
  assumes world: "I s \<Longrightarrow> I (s\<lparr>k_world := w\<rparr>)"
    and trace: "I s \<Longrightarrow> plain d \<Longrightarrow> I (s\<lparr>k_trace := dset (k_trace s) i d\<rparr>)"
    and traced: "I s \<Longrightarrow> plain (trace_of s i)"
    and artifacts: "I s \<Longrightarrow> I (s\<lparr>k_artifacts := a\<rparr>)"
    and emitted: "I s \<Longrightarrow> node_event ev \<Longrightarrow> I (s\<lparr>k_events := k_events s @ [ev]\<rparr>)"
begin

lemma call [holds_intros]: "holds I (call m) anything raised_ok"
  by (rule holdsI) (auto simp: call_def world map_err_def split: prod.splits sum.splits)

lemma emit [holds_intros]: "node_event ev \<Longrightarrow> holds I (emit ev) anything E"
  unfolding emit_def by (auto intro!: holds_intros emitted)

lemma trace_put [holds_intros]: "k \<noteq> ''event'' \<Longrightarrow> k \<noteq> ''node_id'' \<Longrightarrow> holds I (trace_put i k v) anything E"
  unfolding trace_put_def by (auto intro!: holds_intros trace plain_dset traced)

lemma set_artifacts [holds_intros]: "holds I (set_artifacts i a) anything E"
  unfolding set_artifacts_def by (auto intro!: holds_intros artifacts)

lemma note_input [holds_intros]: "holds I (note_input i v) anything E"
  unfolding note_input_def by (auto intro!: holds_intros trace node_event_event)

lemma error_fields: "raised_ok e \<Longrightarrow> holds I (error_fields h e) (\<lambda>(f, e'). plain f \<and> raised_ok e') E"
  by (rule holdsI) (auto simp: error_fields_def world raised_ok_def dest: plain_first_fields
      split: option.splits prod.splits)

lemma error_output: "raised_ok e \<Longrightarrow> holds I (error_output h e i) (\<lambda>(f, e'). plain f \<and> raised_ok e') E"
  unfolding error_output_def by (rule holds_then[OF error_fields]) (auto intro!: holds_intros)

lemma relays: "I s \<Longrightarrow> list_all node_event evs \<Longrightarrow> I (s\<lparr>k_events := k_events s @ evs\<rparr>)"
proof (induction evs rule: rev_induct)
  case (snoc ev evs)
  then show ?case using emitted[of "s\<lparr>k_events := k_events s @ evs\<rparr>" ev] by simp
qed simp

lemma call_net [holds_intros]: "holds I (call_net m) anything raised_ok"
  by (rule holdsI) (auto simp: call_net_def world map_err_def split: prod.splits sum.splits)

lemma run_agent [holds_intros]: "holds I (run_agent h a m) anything raised_ok"
  by (rule holdsI) (auto simp: run_agent_def world map_sum_def split: prod.splits sum.splits)

lemma agent_call: "holds I (agent_call h n msg) anything raised_ok"
proof -
  have "holds I (sbind (trace_put (n_id n) ''tool_calls'' v) (\<lambda>_. slift (map_err foreign r))) anything raised_ok" for v and r :: "exn list + 'x"
    by (auto intro!: holds_intros holds_slift simp: map_err_def split: sum.splits)
  note put = this
  show ?thesis
  proof (cases "dget (n_config n) ''agent_id''")
    case None
    then show ?thesis by (auto intro!: holds_intros simp: agent_call_def)
  next
    case (Some aid)
    show ?thesis
    proof (rule holdsI)
      fix s assume "I s"
      obtain r calls w where a: "h_agent h aid msg (k_world s) = ((r, calls), w)" by (metis prod.exhaust)
      show "I (snd (agent_call h n msg s)) \<and> (\<forall>x. fst (agent_call h n msg s) = Inr x \<longrightarrow> True)
          \<and> (\<forall>e. fst (agent_call h n msg s) = Inl e \<longrightarrow> raised_ok e)"
        using put[of "PList calls" r] world[OF \<open>I s\<close>, of w] unfolding holds_def agent_call_def Some
        by (simp add: a)
    qed
  qed
qed

lemma agent_body: "holds I (agent_body h c n inp) anything raised_ok"
  unfolding agent_body_def agent_message_def by (auto intro!: holds_intros agent_call simp: Let_def)

lemma tool_result [holds_intros]: "holds I (tool_result n tool v) anything raised_ok"
  unfolding tool_result_def by (auto intro!: holds_intros simp: reported_error_def)

lemma tool_body: "holds I (tool_body h c n inp) anything raised_ok"
  unfolding tool_body_def tool_args_def by (auto intro!: holds_intros)

lemma routing_bodies:
  "holds I (router_body h c n inp) anything raised_ok" "holds I (condition_body h c n inp) anything raised_ok"
  "holds I (classifier_body h c n inp) anything raised_ok" "holds I (classify_jev h c n inp) anything raised_ok"
  unfolding router_body_def condition_body_def classifier_body_def classify_jev_def jev_text_def jev_trace_def
  by (auto intro!: holds_intros)

lemma value_bodies:
  "holds I (trigger_body h c n inp) anything raised_ok" "holds I (merge_body h c n inp) anything raised_ok"
  "holds I (output_body h c n inp) anything raised_ok" "holds I (set_body h c n inp) anything raised_ok"
  "holds I (extract_body h c n inp) anything raised_ok"
  unfolding trigger_body_def merge_body_def output_body_def set_body_def extract_body_def
  by (auto intro!: holds_intros)

lemma convert_body: "holds I (convert_body h c n inp) anything raised_ok"
  unfolding convert_body_def
  by (auto intro!: holds_intros holds_slift raised_ok_from split: sum.splits if_splits)

lemma rag_body: "holds I (rag_body h c n inp) anything raised_ok"
proof -
  have "raised_ok e \<Longrightarrow> raised_ok (rag_error n e)" for e
    by (auto simp: rag_error_def raised_ok_from split: list.splits exn.splits option.splits)
  then show ?thesis
    unfolding rag_body_def
    by (auto intro!: holds_intros holds_slift holds_stry[OF call] simp: map_err_def)
qed

lemma outside_bodies:
  "holds I (http_body h c n inp) anything raised_ok" "holds I (notification_body h c n inp) anything raised_ok"
  unfolding http_body_def notification_body_def attachment_refs_def Let_def by (auto intro!: holds_intros)

lemma file_bodies:
  "holds I (document_body h c n inp) anything raised_ok" "holds I (db_write_body h c n inp) anything raised_ok"
  "holds I (file_body h c n inp) anything raised_ok" "holds I (file_save_body h c n inp) anything raised_ok"
  unfolding document_body_def db_write_body_def file_body_def file_save_body_def store_file_def Let_def
  by (auto intro!: holds_intros)

lemma approval_body: "holds I (approval_body h c n inp) anything raised_ok"
  unfolding approval_body_def ask_decision_def take_answer_def
  by (auto intro!: holds_intros simp: raised_ok_def awaiting_def fresh_def)

lemma run_body:
  assumes "runner_ok rn" "tag_ok tag"
  shows "holds I (run_body h rn n c tag) anything raised_ok"
proof -
  have "holds I (\<lambda>s. case rn c (k_world s) of (r, t) \<Rightarrow>
       (case r of Inl e \<Rightarrow> Inl (body_failure (k_events t) e)
          | Inr _ \<Rightarrow> Inr (final_output (c_graph c) (k_outputs t)),
        s\<lparr>k_world := k_world t, k_events := k_events s @ map (relayed (n_id n) tag) (k_events t)\<rparr>))
      anything raised_ok" (is "holds I ?m _ _")
  proof (rule holdsI)
    fix s assume I: "I s"
    obtain r t where r: "rn c (k_world s) = (r, t)" by (cases "rn c (k_world s)")
    have "list_all node_event (k_events t)" and e: "r = Inl e \<Longrightarrow> raised_ok e" for e
      using assms(1) r by (auto simp: runner_ok_def)
    then have "list_all node_event (map (relayed (n_id n) tag) (k_events t))"
      using node_event_relayed[OF assms(2)] by (auto simp: list_all_iff)
    then have "I (s\<lparr>k_world := k_world t, k_events := k_events s @ map (relayed (n_id n) tag) (k_events t)\<rparr>)"
      using relays[OF world[OF I, of "k_world t"]] by simp
    then show "I (snd (?m s)) \<and> (\<forall>x. fst (?m s) = Inr x \<longrightarrow> True) \<and> (\<forall>e. fst (?m s) = Inl e \<longrightarrow> raised_ok e)"
      using e by (auto simp: r body_failure_def split: sum.splits)
  qed
  then show ?thesis unfolding run_body_def by (auto intro!: holds_intros)
qed

lemma foreach:
  "(\<And>i x p. holds I (iter i x p) anything raised_ok) \<Longrightarrow> holds I (foreach iter i p xs) anything raised_ok"
  by (induction xs arbitrary: i p) (auto intro!: holds_intros)

lemma until_loop:
  "(\<And>i x p. holds I (iter i x p) anything raised_ok) \<Longrightarrow> holds I (until_loop iter (loop_until n) k i p) anything raised_ok"
  by (induction k arbitrary: i p) (auto intro!: holds_intros simp: loop_until_def)

lemma loop_body_act:
  assumes "\<And>i x p. holds I (iter i x p) anything raised_ok"
  shows "holds I (loop_body_act n iter inp) anything raised_ok"
  unfolding loop_body_act_def loop_foreach_def loop_capped_def
  by (auto intro!: holds_intros foreach until_loop assms node_event_event split: pyval.splits)

lemma attempts:
  assumes "\<And>i. holds I (run i) anything raised_ok" "holds I wt anything raised_ok"
  shows "raised_ok p \<Longrightarrow> holds I (attempts run wt k i p) (\<lambda>r. \<forall>e. r = Inl e \<longrightarrow> raised_ok e) raised_ok"
  by (induction k arbitrary: i p) (auto intro!: holds_intros holds_stry[OF assms(1)] assms(2))

lemma try_body_act:
  assumes "\<And>i. holds I (run i) anything raised_ok"
  shows "holds I (try_body_act h n run) anything raised_ok"
  unfolding try_body_act_def
proof (rule holds_sbind[OF holds_lift[OF TrueI]], rule holds_sbind[OF holds_lift[OF TrueI]])
  fix retries delay :: int
  have "holds I (try_pause h delay) anything raised_ok"
    unfolding try_pause_def by (auto intro!: holds_intros)
  then have "holds I (attempts run (try_pause h delay) (nat (retries + 1)) 0 no_exception)
      (\<lambda>r. \<forall>e. r = Inl e \<longrightarrow> raised_ok e) raised_ok"
    by (intro attempts assms) (simp_all add: no_exception_def)
  then show "holds I (sbind (attempts run (try_pause h delay) (nat (retries + 1)) 0 no_exception) (\<lambda>r. case r of
       Inr v \<Rightarrow> sret (v, PStr ''ok'')
     | Inl e \<Rightarrow> sbind (error_output h e None) (\<lambda>(err, _). sret (PDict err, PStr ''error'')))) anything raised_ok"
    by (rule holds_then) (auto intro!: holds_intros holds_then[OF error_output])
qed

lemma sub_body_act: "runner_ok rn \<Longrightarrow> holds I (sub_body_act h rn c n inp) anything raised_ok"
  unfolding sub_body_act_def
  by (auto intro!: holds_intros holds_slift run_body
      simp: sub_valid_def tag_ok_def raised_ok_from split: sum.splits exn.splits)

lemma nested_body:
  assumes "runner_ok rn"
  shows "holds I (nested_body rn h c n inp) anything raised_ok"
proof -
  have "holds I (run_of h rn c n g key i p) anything raised_ok" if "key \<noteq> ''event''" for g key i p
    unfolding run_of_def using that by (intro run_body assms) (simp add: tag_ok_def)
  then show ?thesis
    unfolding nested_body_def
    by (auto intro!: holds_intros loop_body_act try_body_act sub_body_act assms split: node_type.splits)
qed

lemma node_body:
  assumes "runner_ok rn"
  shows "holds I (node_body (nested_body rn) h c n inp) anything raised_ok"
  unfolding node_body_def
  using nested_body[OF assms] agent_body tool_body routing_bodies value_bodies convert_body rag_body
    outside_bodies file_bodies approval_body
  by (cases "n_type n") simp_all

end

subsection \<open>Properties a whole run preserves\<close>

lemma holds_timed:
  assumes "holds P m anything raised_ok"
  shows "holds P (timed h n m) anything raised_ok"
proof -
  have "holds P (stry m (\<lambda>r. case r of Inr x \<Rightarrow> sret x
     | Inl e \<Rightarrow> sbind (sget k_world) (\<lambda>w. if deadline_hit e \<and> h_expired h (n_id n) w
         then sthrow (raise_from (node_timeout n seconds) e) else sthrow e))) anything raised_ok" for seconds
    by (rule holds_stry[OF assms]) (auto intro!: holds_intros raised_ok_from)
  then show ?thesis using assms by (simp add: timed_def Let_def)
qed

lemma raised_ok_rewrap: "raised_ok e \<Longrightarrow> raised_ok (rewrap h e)"
  by (simp add: rewrap_def raised_ok_def foreign_def)

locale attempt_inv = body_inv I for I :: "'w kst \<Rightarrow> bool" +
  assumes untraced: "I s \<Longrightarrow> I (s\<lparr>k_trace := ddel (k_trace s) i\<rparr>)"
    and absorbed: "I s \<Longrightarrow> I (s\<lparr>k_handled := l\<rparr>)"
begin

lemma pop_trace: "holds I (pop_trace i) plain E"
  by (rule holdsI) (simp add: pop_trace_def untraced traced)

lemma put_handled [holds_intros]: "holds I (put_handled i d) anything E"
  unfolding put_handled_def by (auto intro!: holds_intros absorbed)

lemma handled: "raised_ok e \<Longrightarrow> holds I (handled h n e) anything raised_ok"
  unfolding handled_def
  by (rule holds_then[OF error_output]) (auto intro!: holds_intros holds_then[OF error_fields] simp: Let_def)

end

locale run_inv = attempt_inv I for I :: "'w kst \<Rightarrow> bool" +
  fixes rep :: pydict
  assumes run_artifacts: "I s \<Longrightarrow> I (s\<lparr>k_artifacts := a, k_run_artifacts := b\<rparr>)"
    and routes: "I s \<Longrightarrow> I (s\<lparr>k_routes := d\<rparr>)"
    and failed: "I s \<Longrightarrow> I (s\<lparr>k_failed := f\<rparr>)"
    and stored: "I s \<Longrightarrow> int (output_size v) \<le> MAX_NODE_OUTPUT_BYTES \<Longrightarrow> I (s\<lparr>k_outputs := dset (k_outputs s) i v\<rparr>)"
    and restored: "I s \<Longrightarrow> dget rep i = Some v \<Longrightarrow> I (s\<lparr>k_outputs := dset (k_outputs s) i v\<rparr>)"
begin

lemma put_route [holds_intros]: "holds I (put_route i r) anything E"
  unfolding put_route_def by (auto intro!: holds_intros routes)

lemma set_failed [holds_intros]: "holds I (set_failed i) anything E"
  unfolding set_failed_def by (auto intro!: holds_intros failed)

lemma artifacts_of: "holds I (artifacts_of i) plain E"
  by (rule holdsI) (simp add: artifacts_of_def Let_def run_artifacts)

lemma node_error: "raised_ok e \<Longrightarrow> plain d \<Longrightarrow> holds I (node_error h i e d) anything raised_ok"
  unfolding node_error_def
  by (auto intro!: holds_intros holds_then[OF error_fields] node_event_event simp: node_event_dupdate)

lemma attempt:
  assumes "holds I m anything raised_ok"
  shows "holds I (attempt h c n m) anything raised_ok"
  unfolding attempt_def
  by (rule holds_stry[where R = anything and E' = raised_ok])
    (auto intro!: holds_intros holds_timed[OF assms] handled holds_then[OF pop_trace] node_error)

lemma finish: "holds I (finish h c n w0 x) anything raised_ok"
proof -
  have put: "holds I (put_output (n_id n) v) anything E" if "\<not> MAX_NODE_OUTPUT_BYTES < int (output_size v)" for v E
    unfolding put_output_def using that by (auto intro!: holds_intros stored)
  have "plain d \<Longrightarrow> plain a \<Longrightarrow> node_event (complete_event n v ms d a)" for v ms d a
    by (auto simp: complete_event_def node_event_dupdate intro!: node_event_event)
  then show ?thesis
    unfolding finish_def
    by (auto intro!: holds_intros holds_then[OF pop_trace] holds_then[OF artifacts_of] node_error put node_event_event
        simp: too_large_def)
qed

lemma replay: "dget rep (n_id n) = Some v \<Longrightarrow> holds I (replay c n v) anything E"
  unfolding replay_def Let_def put_output_def
  by (auto intro!: holds_intros restored simp: replayed_def opt_field_def split: option.splits)

lemma wrap_node:
  assumes "\<And>v. holds I (body v) anything raised_ok" "c_replay_outputs c = rep"
  shows "holds I (wrap_node h c body n inp) anything raised_ok"
  unfolding wrap_node_def execute_def
  by (auto intro!: holds_intros node_event_event replay holds_then[OF pop_trace] holds_sbind[OF attempt[OF assms(1)] finish]
      simp: assms(2))

lemma run_level:
  assumes "runner_ok rn" "c_replay_outputs c = rep" "I s" "run_level rn h c s = (r, t)"
  shows "I t" "r = Inl e \<Longrightarrow> raised_ok e"
proof -
  have f: "holds I (node_fn h c rn i v) anything raised_ok" for i v
    unfolding node_fn_def using assms(2) by (auto intro!: holds_intros wrap_node node_body[OF assms(1)])
  have "holds I (stry (run_sched k (node_fn h c rn)) (\<lambda>r. slift (map_err (rewrap h) r))) anything raised_ok" for k
    by (rule holds_stry[OF holds_run_sched[OF f]]) (auto intro!: holds_slift simp: map_err_def raised_ok_rewrap)
  from holdsD[OF this assms(3)] show "I t" "r = Inl e \<Longrightarrow> raised_ok e"
    using assms(3,4) by (auto simp: run_level_def split: sum.splits)
qed

end

end
