(* ===== verification/Wf_Example.thy ===== *)
theory Wf_Example
  imports Wf_Run Wf_Accept
begin

section \<open>A small run, for the witnesses\<close>

text \<open>
  Surroundings that answer: an agent that echoes its message, a tool that returns its arguments, a
  world that counts the calls, and a framework that follows the edges of a graph without branches.
  The graph takes its payload through an agent to an output.
\<close>

primrec walk :: "nat \<Rightarrow> adk_edge list \<Rightarrow> adk_end \<Rightarrow> adk_input \<Rightarrow> sched" where
  "walk 0 es from inp = Stop"
| "walk (Suc k) es from inp = (case find (\<lambda>e. a_from e = from) es of None \<Rightarrow> Stop
     | Some e \<Rightarrow> (case a_to e of AFn i \<Rightarrow> Fire i inp (\<lambda>v. walk k es (AFn i)
         (case v of Plain x \<Rightarrow> Input x | Routed x r \<Rightarrow> Input x)) | _ \<Rightarrow> Stop))"

definition example_host :: "nat host" where
  "example_host = \<lparr>h_cancelled = (\<lambda>_. False), h_elapsed = (\<lambda>_ _. 1), h_ref = (\<lambda>w. (''00000000'', w)),
     h_expired = (\<lambda>_ _. False), h_sleep = (\<lambda>_ w. (Inr (), w)),
     h_agent = (\<lambda>_ m w. ((Inr (PStr m, []), []), Suc w)), h_tool = (\<lambda>_ a _ w. (Inr a, Suc w)),
     h_rag = None, h_notify = None, h_document = None, h_jev = None, h_db_write = None, h_save_file = None,
     h_save_drive = None, h_resolve = Some (\<lambda>_ w. (Inr None, Suc w)), h_answered = None,
     h_readers = \<lparr>r_sniff = (\<lambda>_. None), r_dmy = (\<lambda>_. None), r_iso_date = (\<lambda>_. None),
       r_iso_datetime = (\<lambda>_. None), r_timestamp = (\<lambda>_. Inl (PyError ''ValueError''))\<rparr>,
     h_renderers = \<lparr>rn_xlsx = (\<lambda>_ _ _. Inr ''x''), rn_docx = (\<lambda>_. Inr ''d''), rn_pdf = (\<lambda>_. Inr ''p'')\<rparr>,
     h_net = \<lparr>n_ip = (\<lambda>_. None), n_urlparse = (\<lambda>_. None), n_url = (\<lambda>_. None),
       n_with_host = (\<lambda>u _. None), n_join = (\<lambda>u _. None), n_resolve = (\<lambda>_ w. (Inl (PyError ''gaierror''), w)),
       n_send = (\<lambda>_ _ _ _ _ w. (RFailed, w))\<rparr>,
     h_venv = example_env, h_links = (\<lambda>_. []), h_adk = (\<lambda>es. walk 10 es AStart Content)\<rparr>"

definition example_trigger :: wnode where
  "example_trigger = mk_node ''t'' TTrigger []"

definition example_flow :: wgraph where
  "example_flow = mk_graph [example_trigger] []"

definition example_query :: "nat request" where
  "example_query = \<lparr>q_payload = PStr ''hello'', q_workflow = None, q_until = None, q_run_id = PNone,
     q_resume = [], q_on_await = None, q_on_fail = None\<rparr>"

definition example_ctx :: ctx where
  "example_ctx = resume_ctx example_query example_flow"

lemma example_build: "build example_flow = Inr [\<lparr>a_from = AStart, a_to = AFn ''t'', a_routes = []\<rparr>]"
  by code_simp

lemma example_size: "output_size (PStr ''hello'') = 7"
  by code_simp

lemma example_walk:
  "walk 10 [\<lparr>a_from = AStart, a_to = AFn ''t'', a_routes = []\<rparr>] AStart Content = Fire ''t'' Content (\<lambda>v. Stop)"
  by (simp add: numeral_eq_Suc)

lemma example_graph_ctx: "c_graph example_ctx = example_flow" "c_payload example_ctx = PStr ''hello''"
  "c_replay_outputs example_ctx = []"
  by (simp_all add: example_ctx_def resume_ctx_def example_query_def Let_def get0_def sub_dict_def)

lemma example_find: "find_node example_flow ''t'' = Some example_trigger"
  by code_simp

lemma example_trigger_simps: "n_id example_trigger = ''t''" "n_type example_trigger = TTrigger" "n_config example_trigger = []"
  by (simp_all add: example_trigger_def mk_node_def)

lemma example_h: "h_adk example_host = (\<lambda>es. walk 10 es AStart Content)" "h_cancelled example_host = (\<lambda>_. False)"
  by (simp_all add: example_host_def)

lemma example_step:
  "\<exists>v t. node_fn example_host example_ctx rn ''t'' Content (new_kst [] 0) = (Inr v, t) \<and> k_outputs t = [(''t'', PStr ''hello'')]"
proof -
  have node: "node_fn example_host example_ctx rn ''t'' Content
      = execute example_host example_ctx example_trigger (sret (PStr ''hello'', PNone))"
    by (rule ext) (simp add: node_fn_def example_graph_ctx example_find wrap_node_def example_h sbind_def sget_def
        example_trigger_simps input_of_def node_body_def trigger_body_def)
  have "k_outputs (snd (execute example_host example_ctx example_trigger (sret (PStr ''hello'', PNone)) (new_kst [] 0)))
      = [(''t'', PStr ''hello'')]"
    "\<exists>v. fst (execute example_host example_ctx example_trigger (sret (PStr ''hello'', PNone)) (new_kst [] 0)) = Inr v"
    by (simp_all add: execute_def attempt_def timed_def finish_def sbind_def stry_def sret_def sget_def smod_def emit_def
        pop_trace_def put_output_def put_route_def artifacts_of_def new_kst_def example_trigger_simps Let_def
        example_size MAX_NODE_OUTPUT_BYTES_def split: prod.split)
  then show ?thesis unfolding node by (metis prod.collapse)
qed

lemma example_run:
  "k_outputs (snd (run_level rn example_host example_ctx (new_kst [] 0))) = [(''t'', PStr ''hello'')]"
proof -
  obtain v t where vt: "node_fn example_host example_ctx rn ''t'' Content (new_kst [] 0) = (Inr v, t)"
    "k_outputs t = [(''t'', PStr ''hello'')]"
    using example_step by blast
  then show ?thesis
    by (simp add: run_level_def example_graph_ctx example_build example_h example_walk stry_def sbind_def slift_def sret_def)
qed

end
