(* ===== verification/Wf_Safety.thy ===== *)
theory Wf_Safety
  imports Wf_Invariant Wf_Example
begin

section \<open>What every run keeps\<close>

text \<open>
  The interpretations of the two locales of \<open>Wf_Invariant\<close> on the compiler's state, and what they
  give for whole runs: the stream of events, the bound on the stored outputs, the outcome of a
  node.
\<close>

definition traces_ok :: "'w kst \<Rightarrow> bool" where
  "traces_ok s = (\<forall>i. plain (trace_of s i))"

definition outputs_ok :: "pydict \<Rightarrow> 'w kst \<Rightarrow> bool" where
  "outputs_ok rep s = (\<forall>i v. dget (k_outputs s) i = Some v \<longrightarrow>
     int (output_size v) \<le> MAX_NODE_OUTPUT_BYTES \<or> dget rep i = Some v)"

definition kept :: "pydict \<Rightarrow> 'w kst \<Rightarrow> bool" where
  "kept rep s = (list_all node_event (k_events s) \<and> traces_ok s \<and> outputs_ok rep s)"

text \<open>The frame of a node's body: outputs, routes, and the failed node are not its business.\<close>

definition untouched :: "pydict \<Rightarrow> pydict \<Rightarrow> string option \<Rightarrow> 'w kst \<Rightarrow> bool" where
  "untouched outs rts bad s = (k_outputs s = outs \<and> k_routes s = rts \<and> k_failed s = bad \<and> traces_ok s)"

lemma traces_ok_simps [simp]:
  "traces_ok (s\<lparr>k_world := w\<rparr>) = traces_ok s" "traces_ok (s\<lparr>k_artifacts := a\<rparr>) = traces_ok s"
  "traces_ok (s\<lparr>k_events := ev\<rparr>) = traces_ok s" "traces_ok (s\<lparr>k_run_artifacts := b\<rparr>) = traces_ok s"
  "traces_ok (s\<lparr>k_routes := r\<rparr>) = traces_ok s" "traces_ok (s\<lparr>k_handled := l\<rparr>) = traces_ok s"
  "traces_ok (s\<lparr>k_failed := f\<rparr>) = traces_ok s" "traces_ok (s\<lparr>k_outputs := d\<rparr>) = traces_ok s"
  by (simp_all add: traces_ok_def trace_of_def)

lemma traces_ok_dset: "traces_ok s \<Longrightarrow> plain d \<Longrightarrow> traces_ok (s\<lparr>k_trace := dset (k_trace s) i d\<rparr>)"
  by (simp add: traces_ok_def trace_of_def)

lemma traces_ok_ddel: "traces_ok s \<Longrightarrow> traces_ok (s\<lparr>k_trace := ddel (k_trace s) i\<rparr>)"
  by (simp add: traces_ok_def trace_of_def)

lemma traces_okD: "traces_ok s \<Longrightarrow> plain (trace_of s i)"
  by (simp add: traces_ok_def)

interpretation kept: run_inv "kept rep" rep for rep
  by unfold_locales (auto simp: kept_def outputs_ok_def traces_ok_dset traces_ok_ddel traces_okD split: if_splits)

interpretation frame: attempt_inv "untouched outs rts bad" for outs rts bad
  by unfold_locales (auto simp: untouched_def traces_ok_dset traces_ok_ddel traces_okD)

lemma kept_new: "kept rep (new_kst arts w)"
  by (simp add: kept_def new_kst_def outputs_ok_def traces_ok_def trace_of_def)

lemma exec_ok: "runner_ok (exec h)"
proof -
  have "list_all node_event (k_events (snd (exec h c w)))
      \<and> (\<forall>e. fst (exec h c w) = Inl e \<longrightarrow> raised_ok e)" for c w
  proof (induction h c w rule: exec.induct)
    case (1 h c w)
    define rn where "rn c' w' = (if below c c' then exec h c' w' else (Inr (), new_kst [] w'))" for c' w'
    have ok: "runner_ok rn"
      unfolding runner_ok_def
    proof (intro allI impI)
      fix c' w' r t assume "rn c' w' = (r, t)"
      then show "list_all node_event (k_events t) \<and> (\<forall>e. r = Inl e \<longrightarrow> raised_ok e)"
        using 1[of c' w'] by (cases "below c c'") (auto simp: rn_def new_kst_def)
    qed
    have eq: "exec h c w = run_level rn h c (new_kst [] w)"
      by (subst exec.simps) (rule run_level_cong, simp_all add: rn_def)
    obtain r t where rt: "run_level rn h c (new_kst [] w) = (r, t)" by (cases "run_level rn h c (new_kst [] w)")
    from kept.run_level[OF ok refl kept_new rt] show ?case by (auto simp: eq rt kept_def)
  qed
  then show ?thesis by (auto simp: runner_ok_def) (metis fst_conv snd_conv)+
qed

subsection \<open>The outcome of a node\<close>

definition error_of :: "string \<Rightarrow> pydict \<Rightarrow> bool" where
  "error_of i ev = (get0 ev ''event'' = PStr ''node_error'' \<and> get0 ev ''node_id'' = PStr i)"

text \<open>A node that does not deliver: nothing stored, and blamed unless the run pauses or is cut.\<close>

definition not_delivered :: "wnode \<Rightarrow> 'w kst \<Rightarrow> raised \<Rightarrow> 'w kst \<Rightarrow> bool" where
  "not_delivered n s e t = (k_outputs t = k_outputs s \<and> k_routes t = k_routes s
     \<and> (if is_awaiting e \<or> \<not> is_exception e then k_failed t = k_failed s
        else k_failed t = Some (n_id n) \<and> k_events t \<noteq> [] \<and> error_of (n_id n) (last (k_events t))))"

lemma get0_dupdate_plain: "plain e \<Longrightarrow> k \<in> {''event'', ''node_id''} \<Longrightarrow> get0 (dupdate d e) k = get0 d k"
  by (auto simp: plain_def get0_def dget_dupdate_notin)

lemma error_of_event: "plain f \<Longrightarrow> plain d \<Longrightarrow> error_of i (dupdate (event ''node_error'' i f) d)"
  by (simp add: error_of_def get0_dupdate_plain event_def) (simp add: get0_def dget_def)

lemma error_fields_cases:
  assumes "raised_ok e"
  shows "\<exists>f e' w. error_fields h e s = (Inr (f, e') :: 'e + _, s\<lparr>k_world := w\<rparr>) \<and> plain f \<and> x_chain e' = x_chain e"
proof -
  have "\<exists>w. s = s\<lparr>k_world := w\<rparr>" by (rule exI[of _ "k_world s"]) simp
  then show ?thesis
    using assms by (auto simp: error_fields_def raised_ok_def dest: plain_first_fields
        split: option.splits prod.splits)
qed

lemma node_error_result:
  assumes "raised_ok e" "plain d" "is_exception e" "\<not> is_awaiting e" "node_error h (n_id n) e d s = (r, t)"
  shows "\<exists>e'. r = Inl e' \<and> not_delivered n s e' t"
proof -
  let ?s = "s\<lparr>k_failed := Some (n_id n)\<rparr>"
  obtain f e' w where x: "error_fields h e ?s = (Inr (f, e') :: raised + _, ?s\<lparr>k_world := w\<rparr>)"
    and f: "plain f" and ch: "x_chain e' = x_chain e"
    using error_fields_cases[OF assms(1), where 'e = raised and s = ?s and h = h] by (elim exE conjE) (rule that)
  have rt: "r = Inl e'" "t = s\<lparr>k_failed := Some (n_id n), k_world := w,
      k_events := k_events s @ [dupdate (event ''node_error'' (n_id n) f) d]\<rparr>"
    using assms(5) x by (simp_all add: node_error_def sbind_def set_failed_def smod_def emit_def sthrow_def)
  have "is_exception e'" "\<not> is_awaiting e'" using assms(3,4) ch by (simp_all add: is_exception_def is_awaiting_def)
  then show ?thesis using error_of_event[OF f assms(2)] by (simp add: rt not_delivered_def)
qed

lemma handled_Inr: "\<exists>y t. handled h n e s = (Inr y, t)"
proof -
  have f: "\<exists>f e' t. error_fields h e s = (Inr (f, e') :: raised + _, t)" for e and s :: "'a kst"
    by (auto simp: error_fields_def split: option.splits prod.splits)
  obtain f1 e1 t1 where 1: "error_fields h e s = (Inr (f1, e1) :: raised + _, t1)" using f by blast
  obtain f2 e2 t2 where 2: "error_fields h e1 t1 = (Inr (f2, e2) :: raised + _, t2)" using f by blast
  show ?thesis
    by (simp add: handled_def error_output_def sbind_def 1 2 sret_def Let_def trace_put_def put_handled_def smod_def)
qed

lemma attempt_outcome:
  assumes m: "\<And>outs rts bad. holds (untouched outs rts bad) m anything raised_ok"
    and s: "traces_ok s" and run: "attempt h c n m s = (x, t)"
  shows "case x of Inr _ \<Rightarrow> untouched (k_outputs s) (k_routes s) (k_failed s) t | Inl e \<Rightarrow> not_delivered n s e t"
proof -
  let ?U = "untouched (k_outputs s) (k_routes s) (k_failed s)"
  let ?first = "sbind (timed h n m) (\<lambda>(result, route).
      sbind (if n_type n \<in> {TAgent, TTool} then lift (check_contract n result) else sret ())
        (\<lambda>_. sret (result, route)))"
  have U: "?U s" using s by (simp add: untouched_def)
  have first: "holds ?U ?first anything raised_ok"
    by (rule holds_then[OF holds_timed[OF m]]) (auto intro!: holds_intros)
  obtain r u where ru: "?first s = (r, u)" by (cases "?first s")
  note u = holdsD[OF first U ru]
  show ?thesis
  proof (cases r)
    case (Inr y)
    then show ?thesis using u run ru by (auto simp: attempt_def stry_def sret_def)
  next
    case (Inl e)
    have e: "raised_ok e" using u Inl by simp
    consider "is_awaiting e \<or> \<not> is_exception e" | "\<not> is_awaiting e" "is_exception e" "absorbs n e"
      | "\<not> is_awaiting e" "is_exception e" "\<not> absorbs n e" by blast
    then show ?thesis
    proof cases
      case 1
      then show ?thesis using u run ru Inl
        by (auto simp: attempt_def stry_def sthrow_def not_delivered_def untouched_def)
    next
      case 2
      then have "handled h n e u = (x, t)" using run ru Inl by (simp add: attempt_def stry_def)
      from holdsD[OF frame.handled[OF e] u(1) this] handled_Inr[of h n e u] this show ?thesis
        by (auto simp: not_delivered_def untouched_def split: sum.splits)
    next
      case 3
      obtain d v where pop: "pop_trace (n_id n) u = (Inr d :: raised + _, v)" by (simp add: pop_trace_def)
      from holdsD[OF frame.pop_trace u(1) pop] have v: "?U v" "plain d" by auto
      have "node_error h (n_id n) e d v = (x, t)" using run ru Inl 3 pop by (simp add: attempt_def stry_def sbind_def)
      from node_error_result[OF e v(2) 3(2,1) this] show ?thesis
        using v(1) by (auto simp: not_delivered_def untouched_def)
    qed
  qed
qed

definition with_route :: "pydict \<Rightarrow> string \<Rightarrow> pyval \<Rightarrow> pydict" where
  "with_route d i route = (if route = PNone then d else dset d i route)"

definition delivered :: "ctx \<Rightarrow> wnode \<Rightarrow> 'w kst \<Rightarrow> adk_value \<Rightarrow> 'w kst \<Rightarrow> bool" where
  "delivered c n s v t = (\<exists>x route. v = hand_over c n x route
     \<and> int (output_size x) \<le> MAX_NODE_OUTPUT_BYTES
     \<and> k_outputs t = dset (k_outputs s) (n_id n) x \<and> k_failed t = k_failed s
     \<and> k_routes t = with_route (k_routes s) (n_id n) route)"

lemma deliveredI:
  "v = hand_over c n x route \<Longrightarrow> int (output_size x) \<le> MAX_NODE_OUTPUT_BYTES
    \<Longrightarrow> k_outputs t = dset (k_outputs s) (n_id n) x \<Longrightarrow> k_failed t = k_failed s
    \<Longrightarrow> k_routes t = with_route (k_routes s) (n_id n) route \<Longrightarrow> delivered c n s v t"
  unfolding delivered_def by blast

definition outcome :: "ctx \<Rightarrow> wnode \<Rightarrow> 'w kst \<Rightarrow> (raised + adk_value) \<times> 'w kst \<Rightarrow> bool" where
  "outcome c n s y = (case y of (Inr v, t) \<Rightarrow> delivered c n s v t | (Inl e, t) \<Rightarrow> not_delivered n s e t)"

lemma outcome_untouched:
  assumes "untouched (k_outputs s) (k_routes s) (k_failed s) u"
  shows "outcome c n u y \<Longrightarrow> outcome c n s y"
  using assms by (auto simp: outcome_def delivered_def not_delivered_def untouched_def split: prod.splits sum.splits)

lemma finish_outcome:
  assumes "traces_ok s"
  shows "outcome c n s (finish h c n w0 x s)"
proof -
  obtain result route where x: "x = (result, route)" by (cases x)
  define u where "u = s\<lparr>k_trace := ddel (k_trace s) (n_id n)\<rparr>"
  have pop: "pop_trace (n_id n) s = (Inr (trace_of s (n_id n)), u)" by (simp add: pop_trace_def u_def)
  show ?thesis
  proof (cases "MAX_NODE_OUTPUT_BYTES < int (output_size result)")
    case True
    then have f: "finish h c n w0 x s = node_error h (n_id n) (too_large n) (trace_of s (n_id n)) u"
      by (simp add: finish_def x sbind_def pop)
    obtain r t where rt: "node_error h (n_id n) (too_large n) (trace_of s (n_id n)) u = (r :: raised + adk_value, t)"
      by (cases "node_error h (n_id n) (too_large n) (trace_of s (n_id n)) u :: (raised + adk_value) \<times> _")
    have ok: "raised_ok (too_large n)" "is_exception (too_large n)" "\<not> is_awaiting (too_large n)"
      by (simp_all add: too_large_def is_exception_def is_awaiting_def task_cancelled_def fresh_def raised_ok_def)
    have "not_delivered n u e t \<Longrightarrow> not_delivered n s e t" for e
      by (simp add: not_delivered_def u_def)
    then show ?thesis
      using node_error_result[OF ok(1) traces_okD[OF assms] ok(2,3) rt] by (auto simp: f rt outcome_def)
  next
    case False
    define t where "t = (let v = k_world s in snd (finish h c n w0 x s))"
    have "k_outputs t = dset (k_outputs s) (n_id n) result" "k_failed t = k_failed s"
      "k_routes t = with_route (k_routes s) (n_id n) route"
      using False by (simp_all add: t_def finish_def x sbind_def pop put_output_def with_route_def
          put_route_def smod_def sget_def sret_def artifacts_of_def Let_def emit_def u_def)
    then have "outcome c n s (Inr (hand_over c n result route), t)"
      using False deliveredI[of "hand_over c n result route" c n result route t s] by (simp add: outcome_def)
    moreover have "finish h c n w0 x s = (Inr (hand_over c n result route), t)"
      using False by (simp add: t_def finish_def x sbind_def pop put_output_def
          put_route_def smod_def sget_def sret_def artifacts_of_def Let_def emit_def)
    ultimately show ?thesis by simp
  qed
qed

lemma execute_outcome:
  assumes m: "\<And>outs rts bad. holds (untouched outs rts bad) m anything raised_ok" and s: "traces_ok s"
  shows "outcome c n s (execute h c n m s)"
proof -
  define u where "u = s\<lparr>k_events := k_events s @ [event ''node_start'' (n_id n) [(''type'', PStr (type_str (n_type n)))]],
    k_trace := ddel (k_trace s) (n_id n)\<rparr>"
  have u: "traces_ok u" "untouched (k_outputs s) (k_routes s) (k_failed s) u"
    using s traces_ok_ddel[of "s\<lparr>k_events := k_events s @ [event ''node_start'' (n_id n) [(''type'', PStr (type_str (n_type n)))]]\<rparr>" "n_id n"]
    by (simp_all add: u_def untouched_def)
  have ex: "execute h c n m s = sbind (attempt h c n m) (finish h c n (k_world s)) u"
    by (simp add: execute_def sbind_def emit_def smod_def sget_def pop_trace_def u_def split: prod.split sum.split)
  obtain r t where rt: "attempt h c n m u = (r, t)" by (cases "attempt h c n m u")
  have at: "case r of Inr _ \<Rightarrow> untouched (k_outputs u) (k_routes u) (k_failed u) t | Inl e \<Rightarrow> not_delivered n u e t"
    by (rule attempt_outcome[OF m u(1) rt])
  have "outcome c n u (execute h c n m s)"
  proof (cases r)
    case (Inl e)
    then show ?thesis using at by (simp add: ex sbind_def rt outcome_def)
  next
    case (Inr x)
    then have t: "untouched (k_outputs u) (k_routes u) (k_failed u) t" using at by simp
    then have "outcome c n t (finish h c n (k_world s) x t)" by (intro finish_outcome) (simp add: untouched_def)
    from outcome_untouched[OF t this] show ?thesis using Inr by (simp add: ex sbind_def rt)
  qed
  then show ?thesis by (rule outcome_untouched[OF u(2)])
qed

subsection \<open>The stream of events\<close>

definition TERMINAL_EVENTS :: "pyval list" where
  "TERMINAL_EVENTS = map PStr [''done'', ''cancelled'', ''error'', ''awaiting_input'']"

definition closing :: "pydict \<Rightarrow> bool" where
  "closing ev = (get0 ev ''event'' \<in> set TERMINAL_EVENTS)"

lemma closing_dupdate: "plain f \<Longrightarrow> closing (dupdate d f) = closing d"
  by (simp add: closing_def plain_def get0_def dget_dupdate_notin)

lemma closing_Cons: "k = ''event'' \<Longrightarrow> closing ((k, v) # d) = (v \<in> set TERMINAL_EVENTS)"
  by (simp add: closing_def get0_def dget_def)

lemma closing_literals:
  "closing ((''event'', PStr ''done'') # d)" "closing ((''event'', PStr ''cancelled'') # d)"
  "closing ((''event'', PStr ''error'') # d)" "closing ((''event'', PStr ''awaiting_input'') # d)"
  by (simp_all add: closing_Cons TERMINAL_EVENTS_def)

lemma error_event_closing: "raised_ok e \<Longrightarrow> holds (kept rep) (error_event h e) closing E"
  unfolding error_event_def
  by (rule holds_then[OF kept.error_fields]) (auto intro!: holds_intros simp: closing_dupdate closing_literals)

lemma terminal_event_closing:
  assumes "\<And>e. exc = Some e \<Longrightarrow> raised_ok e"
  shows "holds (kept rep) (terminal_event h g q exc) closing (\<lambda>e. \<not> is_exception e)"
proof -
  have p: "holds (kept rep) (pause h g q i prompt) closing (\<lambda>e. \<not> is_exception e)" if "plain prompt" for i prompt
  proof -
    have "holds (kept rep) (stry (call (save snap)) (\<lambda>r. case r of
         Inr _ \<Rightarrow> sret (awaiting_event q i prompt)
       | Inl e \<Rightarrow> if is_exception e
           then error_event h (raise_from (node_err ''la decision n a pas pu etre enregistree'' ''decision_not_saved'' i) e)
           else sthrow e)) closing (\<lambda>e. \<not> is_exception e)" for save snap
      by (rule holds_stry[OF kept.call])
        (auto intro!: holds_intros error_event_closing raised_ok_from
          simp: awaiting_event_def closing_dupdate[OF that] closing_literals)
    note saving = this
    show ?thesis unfolding pause_def by (auto intro!: holds_intros error_event_closing saving)
  qed
  have sf: "holds (kept rep) (save_failure g q i) anything (\<lambda>e. \<not> is_exception e)" for i
  proof -
    have "holds (kept rep) (stry (call (save snap)) (\<lambda>r. case r of Inr _ \<Rightarrow> sret True
         | Inl e \<Rightarrow> if is_exception e then sret False else sthrow e)) anything (\<lambda>e. \<not> is_exception e)" for save snap
      by (rule holds_stry[OF kept.call]) (auto intro!: holds_intros)
    note saving = this
    show ?thesis unfolding save_failure_def by (auto intro!: holds_intros saving)
  qed
  have f: "holds (kept rep) (failure_event h g q e) closing (\<lambda>e. \<not> is_exception e)" if "raised_ok e" for e
    unfolding failure_event_def
    by (rule holds_then[OF error_event_closing[OF that]])
      (auto intro!: holds_intros sf simp: closing_dupdate)
  show ?thesis
    unfolding terminal_event_def
    using assms
    by (auto intro!: holds_intros p f closing_literals simp: awaiting_in_def done_event_def raised_ok_def
        split: option.splits)
qed

text \<open>C1. Every run of a graph, whatever the agents, tools and services answer and whatever order ADK
  chooses, produces events of its nodes and then exactly one closing event (\<open>done\<close>, \<open>cancelled\<close>,
  \<open>error\<close> or \<open>awaiting_input\<close>), the last.  It leaves with an exception instead in two cases only: a
  \<open>CancelledError\<close>, which no \<open>except Exception\<close> catches, reaches it (in a node, or while a pause or a failure is
  being saved); or the checks before the run raise something else than a \<open>GraphError\<close>, or the
  compilation of the graph raises, and then nothing was emitted and nothing called.\<close>

theorem one_closing_event:
  "case run_graph h q g w of (evs, left, w') \<Rightarrow>
     (case left of
        None \<Rightarrow> \<exists>es t. evs = es @ [t] \<and> list_all node_event es \<and> closing t
      | Some e \<Rightarrow> list_all node_event evs \<and>
          (if is_exception e
           then evs = [] \<and> w' = w \<and> (\<exists>x. e = fresh x \<and> (case run_checks h q g of
               Inl y \<Rightarrow> y = x \<and> (case y of GraphError _ _ _ \<Rightarrow> False | _ \<Rightarrow> True)
             | Inr _ \<Rightarrow> build (case q_until q of None \<Rightarrow> g | Some u \<Rightarrow> until_subgraph g u) = Inl x))
           else True))"
proof -
  define g' where "g' = (case q_until q of None \<Rightarrow> g | Some u \<Rightarrow> until_subgraph g u)"
  obtain r s where rs: "run_level (exec h) h (resume_ctx q g') (new_kst (resume_artifacts q) w) = (r, s)"
    by (cases "run_level (exec h) h (resume_ctx q g') (new_kst (resume_artifacts q) w)")
  have s: "kept (c_replay_outputs (resume_ctx q g')) s" and e: "\<And>e. r = Inl e \<Longrightarrow> raised_ok e"
    using kept.run_level[OF exec_ok refl kept_new rs] by blast+
  define exc where "exc = (case r of Inl e \<Rightarrow> Some e | Inr _ \<Rightarrow> None)"
  have t: "holds (kept (c_replay_outputs (resume_ctx q g'))) (terminal_event h g q exc) closing (\<lambda>e. \<not> is_exception e)"
    using e by (intro terminal_event_closing) (auto simp: exc_def split: sum.splits)
  obtain r2 s2 where rs2: "terminal_event h g q exc s = (r2, s2)" by (cases "terminal_event h g q exc s")
  have c: "r2 = Inr x \<Longrightarrow> closing x" "r2 = Inl y \<Longrightarrow> \<not> is_exception y" for x y using holdsD(2,3)[OF t s rs2] by simp_all
  have ev: "list_all node_event (k_events s)" using s by (simp add: kept_def)
  show ?thesis
    using ev c rs rs2
    by (auto simp: run_graph_def invalid_event_def closing_literals exc_def g'_def[symmetric] Let_def
        split: sum.splits exn.splits)
qed

subsection \<open>Outputs and outcomes\<close>

text \<open>C2. A node whose function ADK calls, on a run not cancelled and not already done before a pause,
  either delivers (its output, bounded in size, and its route are stored and handed over, and no
  failure is noted) or stores nothing at all; in the latter case it is noted as the failed node and
  the last event is its \<open>node_error\<close>, unless it waits for a human decision or was cut.\<close>

theorem node_delivers_or_fails:
  assumes "\<not> h_cancelled h (k_world s)" "dget (c_replay_outputs c) (n_id n) = None" "traces_ok s"
  shows "outcome c n s (wrap_node h c (node_body (nested_body (exec h)) h c n) n inp s)"
  using execute_outcome[OF frame.node_body[OF exec_ok] assms(3)] assms(1,2)
  by (simp add: wrap_node_def sbind_def sget_def)

lemma node_delivers_or_fails_witness:
  "outcome example_ctx example_trigger (new_kst [] (0::nat)) (wrap_node example_host example_ctx
     (node_body (nested_body (exec example_host)) example_host example_ctx example_trigger) example_trigger Content (new_kst [] 0))"
  by (rule node_delivers_or_fails) (simp_all add: example_graph_ctx example_host_def new_kst_def traces_ok_def trace_of_def)

text \<open>C6. At the end of any run, every stored output is at most one megabyte of JSON, or is one that was
  restored unchanged from before a pause.\<close>

theorem stored_outputs_bounded:
  assumes "dget (k_outputs (snd (run_level (exec h) h c (new_kst arts w)))) i = Some v"
  shows "int (output_size v) \<le> MAX_NODE_OUTPUT_BYTES \<or> dget (c_replay_outputs c) i = Some v"
proof -
  obtain r t where rt: "run_level (exec h) h c (new_kst arts w) = (r, t)"
    by (cases "run_level (exec h) h c (new_kst arts w)")
  from kept.run_level(1)[OF exec_ok refl kept_new rt] show ?thesis
    using assms by (auto simp: rt kept_def outputs_ok_def)
qed

lemma stored_outputs_bounded_witness: "int (output_size (PStr ''hello'')) \<le> MAX_NODE_OUTPUT_BYTES"
proof -
  have "dget (k_outputs (snd (run_level (exec example_host) example_host example_ctx (new_kst [] 0)))) ''t'' = Some (PStr ''hello'')"
    by (simp add: example_run dget_def)
  from stored_outputs_bounded[OF this] show ?thesis by (simp add: example_graph_ctx)
qed

text \<open>What a run of nodes keeps for a node that was done before a pause, whose output was \<open>v\<close>.\<close>

definition settled :: "pydict \<Rightarrow> string \<Rightarrow> pyval \<Rightarrow> 'w kst \<Rightarrow> bool" where
  "settled rep i v s = (kept rep s \<and> k_failed s \<noteq> Some i \<and> dget (k_outputs s) i \<in> {None, Some v})"

lemma replay_result:
  "replay c n v s = (Inr (hand_over c n v (get0 (c_replay_routes c) (n_id n))),
     s\<lparr>k_outputs := dset (k_outputs s) (n_id n) v,
       k_handled := (case dget (c_replay_handled c) (n_id n) of None \<Rightarrow> k_handled s | Some d \<Rightarrow> dset (k_handled s) (n_id n) d),
       k_routes := with_route (k_routes s) (n_id n) (get0 (c_replay_routes c) (n_id n)),
       k_events := k_events s @
         [replayed n [(''event'', PStr ''node_start''), (''type'', PStr (type_str (n_type n)))],
          replayed n [(''event'', PStr ''node_complete''), (''output'', v), (''duration_ms'', PInt 0)]
            @ opt_field ''handled_error'' (dget (c_replay_handled c) (n_id n))] @
         (if get0 (c_replay_routes c) (n_id n) = PNone then []
          else [replayed n [(''event'', PStr ''route''), (''route'', get0 (c_replay_routes c) (n_id n))]
            @ opt_field ''handled_error'' (dget (c_replay_handled c) (n_id n))])\<rparr>)"
  by (simp add: replay_def Let_def sbind_def emit_def smod_def put_output_def put_handled_def put_route_def
      sret_def with_route_def split: option.split)

lemma wrap_node_settled:
  assumes "dget (c_replay_outputs c) i = Some v" "settled (c_replay_outputs c) i v s"
    "wrap_node h c (node_body (nested_body (exec h)) h c n) n inp s = (x, t)"
  shows "settled (c_replay_outputs c) i v t"
proof -
  have "holds (kept (c_replay_outputs c)) (wrap_node h c (node_body (nested_body (exec h)) h c n) n inp) anything raised_ok"
    by (intro kept.wrap_node kept.node_body exec_ok refl)
  from holdsD(1)[OF this _ assms(3)] have k: "kept (c_replay_outputs c) t" using assms(2) by (simp add: settled_def)
  show ?thesis
  proof (cases "h_cancelled h (k_world s)")
    case True then show ?thesis using assms(2,3) k
      by (auto simp: wrap_node_def sbind_def sget_def fail_def sthrow_def)
  next
    case False
    show ?thesis
    proof (cases "dget (c_replay_outputs c) (n_id n)")
      case (Some y)
      then have "replay c n y s = (x, t)" using assms(3) False by (simp add: wrap_node_def sbind_def sget_def)
      then have "k_outputs t = dset (k_outputs s) (n_id n) y" "k_failed t = k_failed s"
        by (auto simp: replay_result)
      then show ?thesis using k assms(1,2) Some by (auto simp: settled_def)
    next
      case None
      then have n: "n_id n \<noteq> i" using assms(1) by auto
      have "traces_ok s" using assms(2) by (simp add: settled_def kept_def)
      then have "outcome c n s (execute h c n (node_body (nested_body (exec h)) h c n (input_of inp)) s)"
        by (rule execute_outcome[OF frame.node_body[OF exec_ok]])
      then have "outcome c n s (wrap_node h c (node_body (nested_body (exec h)) h c n) n inp s)"
        using None False by (simp add: wrap_node_def sbind_def sget_def)
      then show ?thesis using k n assms(2,3)
        by (auto simp: outcome_def delivered_def not_delivered_def settled_def split: sum.splits if_splits)
    qed
  qed
qed

lemma run_level_settled:
  assumes "dget (c_replay_outputs c) i = Some v" "settled (c_replay_outputs c) i v s" "run_level (exec h) h c s = (r, t)"
  shows "settled (c_replay_outputs c) i v t"
proof -
  have step: "node_fn h c (exec h) j inp u = (x, u') \<Longrightarrow> settled (c_replay_outputs c) i v u \<Longrightarrow> settled (c_replay_outputs c) i v u'"
    for j inp u x u'
    unfolding node_fn_def using wrap_node_settled[OF assms(1)] by (auto simp: sret_def split: option.splits)
  have "run_sched k (node_fn h c (exec h)) u = (x, u') \<Longrightarrow> settled (c_replay_outputs c) i v u \<Longrightarrow> settled (c_replay_outputs c) i v u'"
    for k u x u'
    by (induction k arbitrary: u) (auto simp: sret_def sthrow_def sbind_def dest: step split: prod.splits sum.splits)
  then show ?thesis using assms(2,3)
    by (auto simp: run_level_def stry_def slift_def split: sum.splits prod.splits)
qed

lemma replayed_fields:
  "get0 (replayed n ((''event'', k) # e) @ f) ''event'' = k"
  "get0 (replayed n [(''event'', k), (''type'', ty)]) ''node_id'' = PStr (n_id n)"
  "get0 (replayed n [(''event'', k), (''type'', ty)]) ''event'' = k"
  "get0 (replayed n [(''event'', k), (''type'', ty)]) ''replayed'' = PBool True"
  "get0 (replayed n [(''event'', k), (''output'', x), (''duration_ms'', d)] @ f) ''node_id'' = PStr (n_id n)"
  "get0 (replayed n [(''event'', k), (''output'', x), (''duration_ms'', d)] @ f) ''replayed'' = PBool True"
  "get0 (replayed n [(''event'', k), (''route'', x)] @ f) ''node_id'' = PStr (n_id n)"
  "get0 (replayed n [(''event'', k), (''route'', x)] @ f) ''replayed'' = PBool True"
  by (simp_all add: replayed_def get0_def dget_def)

text \<open>C12. A node done before a pause is replayed, never executed.  In a resumed run, under every schedule, it is
  never the failed node and no other output than the one of before is ever stored for it.  When its turn comes
  and the run is not cancelled, then whatever its body is, nothing outside is called, the state changes by its
  stored output, its route and the error it had absorbed, and exactly its events follow, \<open>node_start\<close>,
  \<open>node_complete\<close> and, if it chose one, \<open>route\<close>, each with the mark \<open>replayed\<close>.\<close>

theorem replay_executes_nothing:
  assumes "dget (c_replay_outputs c) (n_id n) = Some v"
  shows "(case run_level (exec h) h c (new_kst arts w) of (r, t) \<Rightarrow>
       k_failed t \<noteq> Some (n_id n) \<and> dget (k_outputs t) (n_id n) \<in> {None, Some v})
    \<and> (\<not> h_cancelled h (k_world s) \<longrightarrow> (let route = get0 (c_replay_routes c) (n_id n) in
        \<exists>evs. wrap_node h c body n inp s = (Inr (hand_over c n v route),
           s\<lparr>k_outputs := dset (k_outputs s) (n_id n) v,
             k_handled := (case dget (c_replay_handled c) (n_id n) of None \<Rightarrow> k_handled s | Some d \<Rightarrow> dset (k_handled s) (n_id n) d),
             k_routes := with_route (k_routes s) (n_id n) route, k_events := k_events s @ evs\<rparr>)
         \<and> map (\<lambda>ev. (get0 ev ''event'', get0 ev ''node_id'', get0 ev ''replayed'')) evs
            = map (\<lambda>k. (PStr k, PStr (n_id n), PBool True))
                ([''node_start'', ''node_complete''] @ (if route = PNone then [] else [''route'']))))"
proof -
  obtain r t where rt: "run_level (exec h) h c (new_kst arts w) = (r, t)" by fastforce
  have "settled (c_replay_outputs c) (n_id n) v (new_kst arts w)"
    using kept_new by (simp add: settled_def) (simp add: new_kst_def)
  from run_level_settled[OF assms this rt] have "settled (c_replay_outputs c) (n_id n) v t" .
  moreover have "\<not> h_cancelled h (k_world s) \<Longrightarrow> wrap_node h c body n inp s = replay c n v s"
    using assms by (simp add: wrap_node_def sbind_def sget_def)
  ultimately show ?thesis
    by (auto simp: rt settled_def replay_result Let_def replayed_fields)
qed

lemma replay_executes_nothing_witness:
  "k_failed (snd (run_level (exec example_host) example_host (example_ctx\<lparr>c_replay_outputs := [(''t'', PInt 3)]\<rparr>) (new_kst [] 0))) \<noteq> Some ''t''"
proof -
  have "dget (c_replay_outputs (example_ctx\<lparr>c_replay_outputs := [(''t'', PInt 3)]\<rparr>)) (n_id example_trigger) = Some (PInt 3)"
    by (simp add: example_trigger_simps dget_def)
  from conjunct1[OF replay_executes_nothing[OF this, of example_host "[]" 0]] show ?thesis
    by (auto simp: example_trigger_simps split: prod.splits)
qed

end
