(* ===== verification/Wf_Control.thy ===== *)
theory Wf_Control
  imports Wf_Safety
begin

section \<open>Loops, tries, sub-workflows, schedules\<close>

subsection \<open>How often a loop and a try run their body\<close>

text \<open>
  That a construct runs its body at most \<open>k\<close> times is stated by independence: two runners that agree
  on the first \<open>k\<close> rounds cannot be told apart.
\<close>

lemma sbind_sret [simp]: "sbind (sret x) f = f x"
  by (simp add: sbind_def sret_def fun_eq_iff)

lemma foreach_cong:
  "(\<And>j x p. j < i + length xs \<Longrightarrow> iter j x p = iter' j x p) \<Longrightarrow> foreach iter i p xs = foreach iter' i p xs"
proof (induction xs arbitrary: i p)
  case (Cons x xs)
  then have 1: "iter i x p = iter' i x p" and 2: "\<And>v. foreach iter (Suc i) v xs = foreach iter' (Suc i) v xs" by simp_all
  show ?case unfolding foreach.simps 1 2 ..
qed simp

lemma until_loop_cong:
  "(\<And>j x p. j < i + k \<Longrightarrow> iter j x p = iter' j x p) \<Longrightarrow> until_loop iter stop k i p = until_loop iter' stop k i p"
proof (induction k arbitrary: i p)
  case (Suc k)
  then have 1: "iter i PNone p = iter' i PNone p"
    and 2: "\<And>v. until_loop iter stop k (Suc i) v = until_loop iter' stop k (Suc i) v" by simp_all
  show ?case unfolding until_loop.simps 1 2 ..
qed simp

lemma foreach_length: "foreach iter i p xs s = (Inr vs, t) \<Longrightarrow> length vs = length xs"
  by (induction xs arbitrary: i p s vs t)
    (auto simp: sret_def sbind_def split: prod.splits sum.splits)

lemma loop_foreach_cong:
  assumes "\<And>j x p. int j < cap \<Longrightarrow> iter j x p = iter' j x p" "0 \<le> cap"
  shows "loop_foreach n iter cap inp = loop_foreach n iter' cap inp"
proof -
  have eq: "foreach iter 0 inp (first_items cap xs) = foreach iter' 0 inp (first_items cap xs)" for xs
    using assms by (intro foreach_cong) (auto simp: first_items_def)
  show ?thesis unfolding loop_foreach_def eq ..
qed

text \<open>C10. A loop with cap \<open>k\<close> runs its body at most \<open>k\<close> times, whatever the items, the condition and the
  rounds give, and a \<open>foreach\<close> that ends gives one result for each item it kept.\<close>

theorem loop_rounds_bounded:
  assumes "cfg0 n ''max_iterations'' = PInt cap" "0 \<le> cap"
    and "\<And>j x p. int j < cap \<Longrightarrow> iter j x p = iter' j x p"
  shows "loop_body_act n iter inp = loop_body_act n iter' inp
    \<and> (\<forall>vs s t. foreach iter 0 inp (first_items cap items) s = (Inr vs, t) \<longrightarrow> int (length vs) = min cap (int (length items)))"
proof
  have "getitem (n_config n) ''max_iterations'' = Inr (PInt cap)"
    using assms(1) by (cases "dget (n_config n) ''max_iterations''") (auto simp: getitem_def get0_def of_opt_def)
  then have c: "cfg_item n ''max_iterations'' = sret (PInt cap)"
    by (simp add: cfg_item_def lift_def map_err_def slift_def sret_def fun_eq_iff)
  have i: "lift (as_int (PInt cap)) = sret cap"
    by (simp add: as_int_def lift_def map_err_def slift_def sret_def fun_eq_iff)
  have u: "until_loop iter (loop_until n) (nat cap) 0 inp = until_loop iter' (loop_until n) (nat cap) 0 inp"
    by (rule until_loop_cong) (simp add: assms(3))
  have f: "loop_foreach n iter cap inp = loop_foreach n iter' cap inp"
    by (rule loop_foreach_cong[OF assms(3,2)])
  show "loop_body_act n iter inp = loop_body_act n iter' inp"
    unfolding loop_body_act_def c sbind_sret i u f ..
  show "\<forall>vs s t. foreach iter 0 inp (first_items cap items) s = (Inr vs, t) \<longrightarrow> int (length vs) = min cap (int (length items))"
    using assms(2) by (auto dest!: foreach_length simp: first_items_def)
qed

lemma attempts_cong:
  "(\<And>j. j < i + k \<Longrightarrow> run j = run' j) \<Longrightarrow> attempts run wt k i p = attempts run' wt k i p"
proof (induction k arbitrary: i p)
  case (Suc k)
  then have 1: "run i = run' i" and 2: "\<And>e. attempts run wt k (Suc i) e = attempts run' wt k (Suc i) e" by simp_all
  show ?case unfolding attempts.simps 1 2 ..
qed simp

definition cut :: "raised \<Rightarrow> bool" where
  "cut e = (is_cancel e \<or> \<not> is_exception e)"

text \<open>
  \<open>reaches j u\<close>: attempt \<open>j\<close> starts in state \<open>u\<close>; every attempt before it failed with an error that is no
  cancellation, and was followed by the pause.
\<close>

inductive reaches :: "(nat \<Rightarrow> ('w, pyval) kact) \<Rightarrow> ('w, unit) kact \<Rightarrow> 'w kst \<Rightarrow> nat \<Rightarrow> 'w kst \<Rightarrow> bool"
  for run wt s where
  first: "reaches run wt s 0 s"
| again: "reaches run wt s j u \<Longrightarrow> run j u = (Inl e, t) \<Longrightarrow> \<not> cut e \<Longrightarrow> wt t = (Inr x, v) \<Longrightarrow> reaches run wt s (Suc j) v"

definition attempted :: "(nat \<Rightarrow> ('w, pyval) kact) \<Rightarrow> ('w, unit) kact \<Rightarrow> 'w kst \<Rightarrow> nat \<Rightarrow> (raised + (raised + pyval)) \<times> 'w kst \<Rightarrow> bool" where
  "attempted run wt s n y = (case y of
     (Inr (Inr v), t) \<Rightarrow> \<exists>j u. j < n \<and> reaches run wt s j u \<and> run j u = (Inr v, t)
   | (Inr (Inl e), t) \<Rightarrow> \<exists>u. reaches run wt s (n - 1) u \<and> run (n - 1) u = (Inl e, t) \<and> \<not> cut e
   | (Inl e, t) \<Rightarrow> cut e \<and> (\<exists>j u. j < n \<and> reaches run wt s j u \<and>
       (run j u = (Inl e, t) \<or>
        (\<exists>e0 t0. Suc j < n \<and> run j u = (Inl e0, t0) \<and> \<not> cut e0 \<and> wt t0 = (Inl e, t)))))"

lemma attempts_attempted:
  assumes wt: "\<And>s e t. wt s = (Inl e, t) \<Longrightarrow> cut e"
  shows "i + k = n \<Longrightarrow> 0 < n \<Longrightarrow>
    (if i = 0 then u = s else \<exists>v. reaches run wt s (i - 1) v \<and> run (i - 1) v = (Inl p, u) \<and> \<not> cut p) \<Longrightarrow>
    attempted run wt s n (attempts run wt k i p u)"
proof (induction k arbitrary: i p u)
  case 0
  then show ?case by (simp add: attempted_def sret_def)
next
  case (Suc k)
  obtain r u1 where r: "(if i = 0 then sret () else wt) u = (r, u1)" by fastforce
  show ?case
  proof (cases r)
    case (Inl e)
    with r have i: "i \<noteq> 0" and w: "wt u = (Inl e, u1)" by (auto simp: sret_def split: if_splits)
    obtain v where v: "reaches run wt s (i - 1) v" "run (i - 1) v = (Inl p, u)" "\<not> cut p" using Suc.prems(3) i by auto
    have "attempts run wt (Suc k) i p u = (Inl e, u1)" using r Inl by (simp add: sbind_def)
    moreover have "\<exists>j u. j < n \<and> reaches run wt s j u \<and> (run j u = (Inl e, u1) \<or>
        (\<exists>e0 t0. Suc j < n \<and> run j u = (Inl e0, t0) \<and> \<not> cut e0 \<and> wt t0 = (Inl e, u1)))"
    proof (intro exI conjI)
      show "i - 1 < n" using Suc.prems(1) i by auto
      show "reaches run wt s (i - 1) v" by (rule v(1))
      have "Suc (i - 1) < n" using Suc.prems(1) i by auto
      then show "run (i - 1) v = (Inl e, u1) \<or>
        (\<exists>e0 t0. Suc (i - 1) < n \<and> run (i - 1) v = (Inl e0, t0) \<and> \<not> cut e0 \<and> wt t0 = (Inl e, u1))"
        using v(2,3) w by blast
    qed
    ultimately show ?thesis using wt[OF w] by (simp add: attempted_def)
  next
    case (Inr x)
    have here: "reaches run wt s i u1"
    proof (cases "i = 0")
      case True then show ?thesis using Suc.prems(3) r by (simp add: sret_def reaches.first)
    next
      case False
      then obtain v where "reaches run wt s (i - 1) v" "run (i - 1) v = (Inl p, u)" "\<not> cut p" using Suc.prems(3) by auto
      moreover have "wt u = (Inr x, u1)" using r Inr False by simp
      ultimately have "reaches run wt s (Suc (i - 1)) u1" by (rule reaches.again)
      then show ?thesis using False by simp
    qed
    obtain y v where y: "run i u1 = (y, v)" by fastforce
    have step: "attempts run wt (Suc k) i p u = (case y of Inr w \<Rightarrow> (Inr (Inr w), v)
       | Inl e \<Rightarrow> if cut e then (Inl e, v) else attempts run wt k (Suc i) e v)"
      using r Inr y by (auto simp: sbind_def stry_def sret_def sthrow_def cut_def split: sum.splits)
    have n: "i < n" using Suc.prems(1) by simp
    show ?thesis
    proof (cases y)
      case (Inr w)
      have "attempted run wt s n (Inr (Inr w), v)" unfolding attempted_def using here n y Inr by auto
      then show ?thesis using step Inr by simp
    next
      case (Inl e)
      show ?thesis
      proof (cases "cut e")
        case True
        then have "attempted run wt s n (Inl e, v)" unfolding attempted_def using here n y Inl by auto
        then show ?thesis using step Inl True by simp
      next
        case False
        have "attempted run wt s n (attempts run wt k (Suc i) e v)"
          using Suc.prems here y Inl False by (intro Suc.IH) auto
        then show ?thesis using step Inl False by simp
      qed
    qed
  qed
qed

text \<open>Waiting between two attempts can only be cancelled.\<close>

definition sleep_ok :: "'w host \<Rightarrow> bool" where
  "sleep_ok h = (\<forall>d w es w'. h_sleep h d w = (Inl es, w') \<longrightarrow> es = [task_cancelled])"

text \<open>C9. A try whose configuration holds an integer of retries \<open>r\<close>, not negative, and an integer delay runs its
  body at most \<open>r + 1\<close> times, each attempt after the failure of the one before and its pause, and never fails
  (when a pause can only be cancelled).  On the route \<open>ok\<close> it gives the result of the first attempt that
  delivers; on the route \<open>error\<close> the readable form of the error of attempt \<open>r + 1\<close>, once all have failed; and it
  lets through only the cancellation of the run or of its task, raised by an attempt or by a pause.\<close>

theorem try_never_fails:
  assumes "cfg0 n ''retries'' = PInt (int r)" "get1 (n_config n) ''retry_delay_ms'' (PInt 0) = PInt d"
    and "sleep_ok h" "\<And>j. j \<le> r \<Longrightarrow> run j = run' j"
  shows "try_body_act h n run = try_body_act h n run'
    \<and> (case try_body_act h n run s of
         (Inr (v, route), t) \<Rightarrow>
           (route = PStr ''ok'' \<and> (\<exists>j u. j \<le> r \<and> reaches run (try_pause h d) s j u \<and> run j u = (Inr v, t))) \<or>
           (route = PStr ''error'' \<and> (\<exists>u e t0 err e'. reaches run (try_pause h d) s r u \<and> run r u = (Inl e, t0) \<and> \<not> cut e \<and>
              error_output h e None t0 = (Inr (err, e') :: raised + _, t) \<and> v = PDict err))
       | (Inl e, t) \<Rightarrow> cut e \<and> (\<exists>j u. j \<le> r \<and> reaches run (try_pause h d) s j u \<and>
           (run j u = (Inl e, t) \<or> (\<exists>e0 t0. j < r \<and> run j u = (Inl e0, t0) \<and> \<not> cut e0 \<and> try_pause h d t0 = (Inl e, t)))))"
proof -
  have r: "get1 (n_config n) ''retries'' (PInt 0) = PInt (int r)"
    using assms(1) by (auto simp: get0_def get1_def split: option.splits)
  let ?as = "\<lambda>run. attempts run (try_pause h d) (Suc r) 0 no_exception"
  have same: "?as run = ?as run'" by (intro attempts_cong assms(4)) auto
  have nat: "nat (int r + 1) = Suc r" by simp
  have act: "try_body_act h n run = sbind (?as run) (\<lambda>r. case r of
       Inr v \<Rightarrow> sret (v, PStr ''ok'')
     | Inl e \<Rightarrow> sbind (error_output h e None) (\<lambda>(err, _). sret (PDict err, PStr ''error'')))" for run
    unfolding try_body_act_def r assms(2) by (simp add: as_int_def nat del: attempts.simps)
  have wt: "try_pause h d s = (Inl e, t) \<Longrightarrow> cut e" for s e t
  proof -
    assume p: "try_pause h d s = (Inl e, t)"
    then obtain es w where "h_sleep h d (k_world s) = (Inl es, w)" "e = foreign es"
      by (auto simp: try_pause_def sret_def call_def map_err_def split: if_splits prod.splits sum.splits)
    moreover from this have "es = [task_cancelled]" using assms(3) unfolding sleep_ok_def by blast
    ultimately show "cut e" by (simp add: cut_def is_exception_def foreign_def)
  qed
  obtain x t where xt: "?as run s = (x, t)" by fastforce
  have "attempted run (try_pause h d) s (Suc r) (?as run s)"
    by (rule attempts_attempted[OF wt]) simp_all
  then have spec: "attempted run (try_pause h d) s (Suc r) (x, t)" by (simp only: xt)
  show ?thesis
  proof (cases x)
    case (Inl e)
    then have "try_body_act h n run s = (Inl e, t)" using xt by (simp add: act sbind_def del: attempts.simps)
    then show ?thesis using spec same Inl by (auto simp: attempted_def act less_Suc_eq_le Suc_le_eq del: attempts.simps)
  next
    case (Inr y)
    show ?thesis
    proof (cases y)
      case (Inl e)
      have "\<exists>q u. error_output h e None t = (Inr q :: raised + _, u)"
        by (auto simp: error_output_def error_fields_def sbind_def sret_def split: option.splits prod.splits)
      then obtain err e' t' where o: "error_output h e None t = (Inr (err, e') :: raised + _, t')" by (metis prod.exhaust)
      then have "try_body_act h n run s = (Inr (PDict err, PStr ''error''), t')"
        using xt Inr Inl by (simp add: act sbind_def sret_def del: attempts.simps)
      then show ?thesis using spec same Inr Inl o by (auto simp: attempted_def act del: attempts.simps)
    next
      case (Inr v)
      then have "try_body_act h n run s = (Inr (v, PStr ''ok''), t)"
        using xt \<open>x = Inr y\<close> by (simp add: act sbind_def sret_def del: attempts.simps)
      then show ?thesis using spec same Inr \<open>x = Inr y\<close> by (auto simp: attempted_def act less_Suc_eq_le Suc_le_eq del: attempts.simps)
    qed
  qed
qed

text \<open>Instances: a body that echoes for two rounds and then fails is the same as one that always echoes.\<close>

definition echo :: "nat \<Rightarrow> pyval \<Rightarrow> pyval \<Rightarrow> (nat, pyval) kact" where
  "echo i x p = sret x"

definition echo_twice :: "nat \<Rightarrow> pyval \<Rightarrow> pyval \<Rightarrow> (nat, pyval) kact" where
  "echo_twice i x p = (if i < 2 then sret x else fail WorkflowCancelled)"

lemma loop_rounds_bounded_witness:
  "loop_body_act (mk_node ''l'' TLoop [(''max_iterations'', PInt 2), (''mode'', PStr ''foreach'')]) echo PNone
   = loop_body_act (mk_node ''l'' TLoop [(''max_iterations'', PInt 2), (''mode'', PStr ''foreach'')]) echo_twice PNone"
  using loop_rounds_bounded[of "mk_node ''l'' TLoop [(''max_iterations'', PInt 2), (''mode'', PStr ''foreach'')]" 2 echo echo_twice PNone "[]"]
  by (simp add: mk_node_def get0_def dget_def echo_def echo_twice_def)

definition failing :: "nat \<Rightarrow> (nat, pyval) kact" where
  "failing i = fail (PyError ''KeyError'')"

lemma try_never_fails_witness:
  "try_body_act example_host (mk_node ''y'' TTry [(''retries'', PInt 2)]) failing
   = try_body_act example_host (mk_node ''y'' TTry [(''retries'', PInt 2)]) (\<lambda>i. if i < 3 then failing i else sret PNone)"
proof -
  let ?n = "mk_node ''y'' TTry [(''retries'', PInt 2)]"
  have "cfg0 ?n ''retries'' = PInt (int 2)" "get1 (n_config ?n) ''retry_delay_ms'' (PInt 0) = PInt 0" "sleep_ok example_host"
    by (simp_all add: mk_node_def get0_def get1_def dget_def sleep_ok_def example_host_def)
  from conjunct1[OF try_never_fails[OF this, of failing "\<lambda>i. if i < 3 then failing i else sret PNone" "new_kst [] 0"]]
  show ?thesis by simp
qed

subsection \<open>Calls to other workflows\<close>

fun no_repeat :: "pyval list \<Rightarrow> bool" where
  "no_repeat [] = True"
| "no_repeat (x # xs) = (\<not> py_in x xs \<and> no_repeat xs)"

lemma run_level_below:
  "(\<And>c' w. below c c' \<Longrightarrow> rn c' w = rn' c' w) \<Longrightarrow> run_level rn h c s = run_level rn' h c s"
  by (rule run_level_cong) simp_all

lemma wf_below: "wf {(c', c). below c c'}"
  by (rule wf_subset[OF wf_measures[of "[\<lambda>c. MAX_SUBWORKFLOW_DEPTH - c_depth c, \<lambda>c. graph_size (c_graph c)]"]])
    (auto simp: below_def deeper_def)

lemma below_invariant:
  assumes "below\<^sup>*\<^sup>* c c'" "length (c_stack c) \<le> c_depth c" "c_depth c \<le> MAX_SUBWORKFLOW_DEPTH" "no_repeat (rev (c_stack c))"
  shows "length (c_stack c') \<le> c_depth c' \<and> c_depth c' \<le> MAX_SUBWORKFLOW_DEPTH \<and> no_repeat (rev (c_stack c'))"
  using assms
proof (induction rule: rtranclp_induct)
  case (step c1 c2)
  have "py_in t (rev xs) = py_in t xs" for t xs by (simp add: py_in_def)
  with step show ?case by (auto simp: below_def deeper_def)
qed simp

text \<open>C7. A run nests finitely: it starts only smaller bodies, or workflows not already on the stack of
  calls and at most three levels deep, its result depends on nothing else, and along any such
  chain the stack has no repetition and at most three entries.\<close>

theorem nested_runs_bounded:
  assumes "\<And>c' w. below c c' \<Longrightarrow> rn c' w = rn' c' w"
  shows "run_level rn h c s = run_level rn' h c s \<and> wf {(c', c). below c c'}
    \<and> (\<forall>c'. below\<^sup>*\<^sup>* c c' \<longrightarrow> length (c_stack c) \<le> c_depth c \<longrightarrow> c_depth c \<le> 3 \<longrightarrow> no_repeat (rev (c_stack c))
        \<longrightarrow> length (c_stack c') \<le> 3 \<and> no_repeat (rev (c_stack c')))"
proof (intro conjI allI impI)
  show "run_level rn h c s = run_level rn' h c s" by (rule run_level_below[OF assms])
  fix c' assume "below\<^sup>*\<^sup>* c c'" "length (c_stack c) \<le> c_depth c" "c_depth c \<le> 3" "no_repeat (rev (c_stack c))"
  from below_invariant[OF this(1,2) _ this(4)] this(3)
  show "length (c_stack c') \<le> 3" "no_repeat (rev (c_stack c'))" by (auto simp: MAX_SUBWORKFLOW_DEPTH_def)
qed (rule wf_below)

lemma nested_runs_bounded_witness:
  "run_level (exec example_host) example_host example_ctx (new_kst [] 0)
   = run_level (\<lambda>c w. if c_nested c then exec example_host c w else (Inr (), new_kst [] 7)) example_host example_ctx (new_kst [] 0)"
  using nested_runs_bounded[of example_ctx "exec example_host"
      "\<lambda>c w. if c_nested c then exec example_host c w else (Inr (), new_kst [] 7)" example_host "new_kst [] 0"]
  by (simp add: below_def)

text \<open>C11. A sub-workflow that would call a workflow already running, or go deeper than the third level,
  fails before anything is resolved: neither the resolver nor anything else outside is called.\<close>

theorem subworkflow_guards_first:
  assumes "dget (n_config n) ''workflow_id'' = Some target" "h_resolve h = Some resolve"
    and "py_in target (c_stack c) \<or> MAX_SUBWORKFLOW_DEPTH \<le> c_depth c"
  shows "\<exists>m cd ps. sub_body_act h rn c n inp s = (Inl (fresh (GraphError m (Some cd) ps)), s)
    \<and> cd = (if py_in target (c_stack c) then ''subworkflow_cycle'' else ''subworkflow_too_deep'')"
proof -
  have c: "cfg_item n ''workflow_id'' = sret target"
    using assms(1) by (simp add: cfg_item_def getitem_def of_opt_def lift_def map_err_def slift_def sret_def fun_eq_iff)
  have "\<exists>m cd ps. sub_guards c n target = Inl (GraphError m (Some cd) ps)
      \<and> cd = (if py_in target (c_stack c) then ''subworkflow_cycle'' else ''subworkflow_too_deep'')"
    using assms(3) by (auto simp: sub_guards_def sub_error_def raise_if_def ebind_def)
  then obtain m cd ps where g: "sub_guards c n target = Inl (GraphError m (Some cd) ps)"
    and cd: "cd = (if py_in target (c_stack c) then ''subworkflow_cycle'' else ''subworkflow_too_deep'')" by blast
  have "sub_body_act h rn c n inp s = (Inl (fresh (GraphError m (Some cd) ps)), s)"
    by (simp add: sub_body_act_def c assms(2) g fail_def sthrow_def)
  with cd show ?thesis by blast
qed

lemma subworkflow_guards_first_witness:
  "\<exists>m cd ps. sub_body_act example_host (exec example_host) (example_ctx\<lparr>c_stack := [PStr ''w'']\<rparr>)
     (mk_node ''s'' TSubworkflow [(''workflow_id'', PStr ''w'')]) PNone (new_kst [] 0)
   = (Inl (fresh (GraphError m (Some cd) ps)), new_kst [] 0) \<and> cd = ''subworkflow_cycle''"
proof -
  have "dget (n_config (mk_node ''s'' TSubworkflow [(''workflow_id'', PStr ''w'')])) ''workflow_id'' = Some (PStr ''w'')"
    by (simp add: mk_node_def dget_def)
  moreover have "h_resolve example_host = Some (\<lambda>_ w. (Inr None, Suc w))" by (simp add: example_host_def)
  moreover have p: "py_in (PStr ''w'') (c_stack (example_ctx\<lparr>c_stack := [PStr ''w'']\<rparr>))" by (simp add: py_in_def)
  ultimately show ?thesis
    using subworkflow_guards_first[of "mk_node ''s'' TSubworkflow [(''workflow_id'', PStr ''w'')]" "PStr ''w''"
        example_host "\<lambda>_ w. (Inr None, Suc w)" "example_ctx\<lparr>c_stack := [PStr ''w'']\<rparr>" "exec example_host" PNone "new_kst [] 0"]
    by simp
qed

end
