(* ===== verification/Wf_Schedule.thy ===== *)
theory Wf_Schedule
  imports Wf_Control
begin

section \<open>Runs as sequences of steps, and the identity of failures\<close>

text \<open>
  \<open>run_sched\<close> runs a schedule to its end.  Seen from outside, a run is a sequence of steps, each the
  call of one node's function.  The relation \<open>fires\<close> states one such step; a finished run is a path
  of steps, and what holds initially and after each step holds in every state the run passes
  through.
\<close>

inductive fires :: "(string \<Rightarrow> adk_input \<Rightarrow> ('s, raised, adk_value) act) \<Rightarrow> sched \<times> 's \<Rightarrow> sched \<times> 's \<Rightarrow> bool"
  for f where
  fire: "f i v s = (Inr r, s') \<Longrightarrow> fires f (Fire i v k, s) (k r, s')"

inductive_cases fires_elims: "fires f (Stop, s) y" "fires f (Cut es, s) y" "fires f (Fire i v k, s) y"

inductive_simps fires_simps: "fires f (Stop, s) y" "fires f (Cut es, s) y" "fires f (Fire i v k, s) y"

definition stuck :: "(string \<Rightarrow> adk_input \<Rightarrow> ('s, raised, adk_value) act) \<Rightarrow> sched \<times> 's \<Rightarrow> (raised + unit) \<times> 's \<Rightarrow> bool" where
  "stuck f x y = (case x of
     (Stop, s) \<Rightarrow> y = (Inr (), s)
   | (Cut es, s) \<Rightarrow> y = (Inl (foreign es), s)
   | (Fire i v k, s) \<Rightarrow> (\<exists>e s'. f i v s = (Inl e, s') \<and> y = (Inl e, s')))"

lemma run_sched_steps:
  "\<exists>x. (fires f)\<^sup>*\<^sup>* (t, s) x \<and> stuck f x (run_sched t f s)"
proof (induction t arbitrary: s)
  case (Fire i v k)
  obtain r s' where r: "f i v s = (r, s')" by fastforce
  show ?case
  proof (cases r)
    case (Inl e)
    then show ?thesis using r by (intro exI[of _ "(Fire i v k, s)"]) (simp add: stuck_def sbind_def)
  next
    case (Inr a)
    obtain x where x: "(fires f)\<^sup>*\<^sup>* (k a, s') x" "stuck f x (run_sched (k a) f s')" using Fire by blast
    have "fires f (Fire i v k, s) (k a, s')" using r Inr by (simp add: fires.fire)
    from converse_rtranclp_into_rtranclp[of "fires f", OF this x(1)] x(2) show ?thesis
      using r Inr by (intro exI[of _ x]) (simp add: sbind_def)
  qed
next
  case Stop
  then show ?case by (intro exI[of _ "(Stop, s)"]) (simp add: stuck_def sret_def)
next
  case (Cut es)
  then show ?case by (intro exI[of _ "(Cut es, s)"]) (simp add: stuck_def sthrow_def)
qed

lemma fires_deterministic: "fires f x y \<Longrightarrow> fires f x z \<Longrightarrow> y = z"
  by (induction rule: fires.induct) (auto elim: fires_elims)

lemma stuck_final: "stuck f x y \<Longrightarrow> \<not> fires f x z"
  by (cases x; cases "fst x") (auto simp: stuck_def elim: fires_elims)

lemma steps_run: "(fires f)\<^sup>*\<^sup>* x y \<Longrightarrow> run_sched (fst x) f (snd x) = run_sched (fst y) f (snd y)"
proof (induction rule: converse_rtranclp_induct)
  case (step x z)
  from step.hyps(1) show ?case using step.IH by (cases rule: fires.cases) (simp add: sbind_def)
qed simp

lemma stuck_unique: "stuck f x y \<Longrightarrow> run_sched (fst x) f (snd x) = y"
  by (cases x; cases "fst x") (auto simp: stuck_def sret_def sthrow_def sbind_def)

lemma run_sched_iff: "run_sched t f s = y \<longleftrightarrow> (\<exists>x. (fires f)\<^sup>*\<^sup>* (t, s) x \<and> stuck f x y)"
  using run_sched_steps[of f t s] steps_run stuck_unique by (metis fst_conv snd_conv)

text \<open>Running a graph is the same as taking steps, one call of a node's function at a time in the order the
  framework chooses, until it stops or a node raises: the run ends with a result exactly when a path
  of steps from the framework's first point leads to one that is final with that result.\<close>

theorem run_is_sequence_of_steps:
  assumes "build (c_graph c) = Inr es"
  shows "run_level (exec h) h c s = (r, t) \<longleftrightarrow> (\<exists>x r'. (fires (node_fn h c (exec h)))\<^sup>*\<^sup>* (h_adk h es, s) x
    \<and> stuck (node_fn h c (exec h)) x (r', t) \<and> r = map_err (rewrap h) r')"
proof -
  have "run_level (exec h) h c s = (r, t) \<longleftrightarrow> (\<exists>r'. run_sched (h_adk h es) (node_fn h c (exec h)) s = (r', t) \<and> r = map_err (rewrap h) r')"
    by (auto simp: run_level_def assms stry_def slift_def split: prod.split)
  then show ?thesis by (simp add: run_sched_iff) blast
qed

lemma run_is_sequence_of_steps_witness:
  "\<exists>x r' t. (fires (node_fn example_host example_ctx (exec example_host)))\<^sup>*\<^sup>* (Fire ''t'' Content (\<lambda>v. Stop), new_kst [] 0) x
     \<and> stuck (node_fn example_host example_ctx (exec example_host)) x (r', t) \<and> k_outputs t = [(''t'', PStr ''hello'')]"
proof -
  obtain r t where rt: "run_level (exec example_host) example_host example_ctx (new_kst [] 0) = (r, t)" by fastforce
  then have "k_outputs t = [(''t'', PStr ''hello'')]" using example_run[of "exec example_host"] by simp
  then show ?thesis
    using run_is_sequence_of_steps[of example_ctx _ example_host "new_kst [] 0" r t, unfolded example_graph_ctx, OF example_build] rt
    by (auto simp: example_h example_walk)
qed

text \<open>At every point of a run, between any two nodes and under any schedule, only events of nodes have
  been produced and every stored output is within its bound or restored from before a pause.\<close>

theorem every_point_keeps_invariant:
  assumes "(fires (node_fn h c (exec h)))\<^sup>*\<^sup>* (t, new_kst arts w) (t', s)"
  shows "list_all node_event (k_events s) \<and> outputs_ok (c_replay_outputs c) s"
proof -
  have "kept (c_replay_outputs c) (snd x)" if "(fires (node_fn h c (exec h)))\<^sup>*\<^sup>* (t, new_kst arts w) x" for x
    using that
  proof (induction rule: rtranclp_induct)
    case (step y z)
    have "holds (kept (c_replay_outputs c)) (node_fn h c (exec h) i v) anything raised_ok" for i v
      unfolding node_fn_def by (auto intro!: holds_intros kept.wrap_node kept.node_body[OF exec_ok])
    with step.hyps(2) step.IH show ?case by (cases rule: fires.cases) (auto dest: holdsD(1))
  qed (simp add: kept_new)
  from this[OF assms] show ?thesis by (simp add: kept_def)
qed

lemma every_point_keeps_invariant_witness:
  "\<exists>t :: nat kst. k_outputs t = [(''t'', PStr ''hello'')] \<and> list_all node_event (k_events t) \<and> outputs_ok [] t"
proof -
  obtain v t where vt: "node_fn example_host example_ctx (exec example_host) ''t'' Content (new_kst [] 0) = (Inr v, t)"
    "k_outputs t = [(''t'', PStr ''hello'')]"
    using example_step by blast
  then have "(fires (node_fn example_host example_ctx (exec example_host)))\<^sup>*\<^sup>*
      (Fire ''t'' Content (\<lambda>v. Stop), new_kst [] 0) (Stop, t)"
    by (intro r_into_rtranclp) (simp add: fires_simps)
  from every_point_keeps_invariant[OF this] vt(2) show ?thesis by (auto simp: example_graph_ctx)
qed

subsection \<open>One failure is one reference\<close>

text \<open>What an error event says of an exception no error class of the program speaks for depends on
  nothing but a fresh reference: two such exceptions, whatever their messages, are reported alike.
  And once reported, the same fields (with the same reference) are found again on the exception,
  also after the framework has wrapped it in its own.\<close>

theorem one_failure_one_reference:
  assumes "error_fields h e s = (Inr (f, e') :: raised + _, t)"
  shows "error_fields h e' u = (Inr (f, e') :: raised + _, u)
    \<and> (is_exception e \<longrightarrow> (\<exists>e2. error_fields h (rewrap h e') u = (Inr (f, e2) :: raised + _, u)))
    \<and> (x_fields e = None \<longrightarrow> first_fields (x_chain e) = None \<longrightarrow> f = internal_fields (fst (h_ref h (k_world s))))"
proof -
  have x: "x_fields e' = Some f" using assms by (auto simp: error_fields_def split: option.splits prod.splits)
  then have "error_fields h e' u = (Inr (f, e') :: raised + _, u)" by (simp add: error_fields_def)
  moreover have "x_fields (rewrap h e') = Some f" using x by (simp add: rewrap_def foreign_def)
  then have "error_fields h (rewrap h e') u = (Inr (f, rewrap h e') :: raised + _, u)" by (simp add: error_fields_def)
  moreover have "x_fields e = None \<longrightarrow> first_fields (x_chain e) = None \<longrightarrow> f = internal_fields (fst (h_ref h (k_world s)))"
    using assms by (auto simp: error_fields_def split: prod.splits)
  ultimately show ?thesis by blast
qed

lemma one_failure_one_reference_witness:
  "error_fields example_host (foreign [PyError ''KeyError'']\<lparr>x_fields := Some (internal_fields ''00000000'')\<rparr>) (new_kst [] 5)
    = (Inr (internal_fields ''00000000'', foreign [PyError ''KeyError'']\<lparr>x_fields := Some (internal_fields ''00000000'')\<rparr>) :: raised + _, new_kst [] 5)"
proof -
  have "error_fields example_host (foreign [PyError ''KeyError'']) (new_kst [] 0)
    = (Inr (internal_fields ''00000000'', foreign [PyError ''KeyError'']\<lparr>x_fields := Some (internal_fields ''00000000'')\<rparr>) :: raised + _, new_kst [] 0)"
    by (simp add: error_fields_def foreign_def example_host_def link_fields_def new_kst_def)
  from one_failure_one_reference[OF this] show ?thesis by blast
qed

end
