(* ===== verification/Wf_Snapshot.thy ===== *)
theory Wf_Snapshot
  imports Wf_Safety
begin

section \<open>Snapshots, resumption, and the event stream as text\<close>

subsection \<open>Snapshots are bounded\<close>

lemma snapshot_callbacks [simp]:
  "snapshot g (q\<lparr>q_on_fail := x\<rparr>) s d = snapshot g q s d"
  "snapshot g (q\<lparr>q_on_await := x\<rparr>) s d = snapshot g q s d"
  "awaiting_event (q\<lparr>q_on_await := x\<rparr>) i p = awaiting_event q i p"
  by (simp_all add: snapshot_def awaiting_event_def)

text \<open>The callback is only ever applied to a snapshot that fits.\<close>

lemma guarded_callback:
  assumes "\<And>snap. snapshot_fits snap \<Longrightarrow> f snap = f' snap"
  shows "(if \<not> snapshot_fits snap then a else stry (call (f snap)) b)
    = (if \<not> snapshot_fits snap then a else stry (call (f' snap)) b)"
  using assms[of snap] by (cases "snapshot_fits snap") simp_all

text \<open>A snapshot is handed to \<open>on_await\<close> or \<open>on_fail\<close> only when its JSON is at most eight megabytes:
  two callbacks that agree on those cannot be told apart.\<close>

theorem snapshots_bounded:
  assumes "\<And>snap. snapshot_fits snap \<Longrightarrow> f snap = f' snap"
  shows "pause h g (q\<lparr>q_on_await := Some f\<rparr>) i p = pause h g (q\<lparr>q_on_await := Some f'\<rparr>) i p
    \<and> save_failure g (q\<lparr>q_on_fail := Some f\<rparr>) j = save_failure g (q\<lparr>q_on_fail := Some f'\<rparr>) j"
proof -
  note if_fits = guarded_callback[of f f', OF assms]
  have "save_failure g (q\<lparr>q_on_fail := Some f\<rparr>) j = save_failure g (q\<lparr>q_on_fail := Some f'\<rparr>) j"
    by (simp add: save_failure_def, simp only: if_fits)
  moreover have "pause h g (q\<lparr>q_on_await := Some f\<rparr>) i p = pause h g (q\<lparr>q_on_await := Some f'\<rparr>) i p"
    unfolding pause_def snapshot_callbacks by (simp, simp only: if_fits)
  ultimately show ?thesis by simp
qed

definition keep_all :: "pydict \<Rightarrow> (nat, unit) wact" where
  "keep_all snap w = (Inr (), Suc w)"

definition keep_fitting :: "pydict \<Rightarrow> (nat, unit) wact" where
  "keep_fitting snap w = (if snapshot_fits snap then (Inr (), Suc w) else (Inl [], w))"

lemma snapshots_bounded_witness:
  "pause example_host example_flow (example_query\<lparr>q_on_await := Some keep_all\<rparr>) ''t'' []
   = pause example_host example_flow (example_query\<lparr>q_on_await := Some keep_fitting\<rparr>) ''t'' []"
  using snapshots_bounded[of keep_all keep_fitting example_host example_flow example_query "''t''" "[]" "''t''"]
  by (simp add: keep_all_def keep_fitting_def fun_eq_iff)

subsection \<open>A dumped graph reads back\<close>

lemma parse_dump_edge: "parse_edge (dump_edge e) = Some e"
  by (cases e) (simp add: parse_edge_def dump_edge_def opt_str_def req_str_def dget_def opt_pstr_def split: option.splits)

lemma parse_dump_node: "node_id_ok (n_id n) \<Longrightarrow> parse_node (dump_node n) = Some n"
  by (cases n) (simp add: parse_node_def dump_node_def opt_str_def req_str_def opt_dict_def dict_or_empty_def
      dget_def opt_pstr_def opt_pdict_def split: option.splits)

lemma omap_map: "(\<And>x. x \<in> set xs \<Longrightarrow> f (g x) = Some x) \<Longrightarrow> omap f (map g xs) = Some xs"
  by (induction xs) auto

lemma dump_test_ok: "test_case_ok v \<Longrightarrow> test_case_ok (dump_test v) \<and> test_id (dump_test v) = test_id v"
proof -
  assume ok: "test_case_ok v"
  then obtain d where v: "v = PDict d" by (auto simp: test_case_ok_def split: pyval.splits)
  with ok obtain e where e: "get0 d ''expect'' = PDict e" by (auto simp: test_case_ok_def expectation_ok_def split: pyval.splits)
  have f: "get0 [(''id'', a), (''name'', b), (''payload'', p), (''expect'', c)] ''id'' = a"
    "get0 [(''id'', a), (''name'', b), (''payload'', p), (''expect'', c)] ''name'' = b"
    "get0 [(''id'', a), (''name'', b), (''payload'', p), (''expect'', c)] ''expect'' = c"
    "get0 [(''status'', a), (''routes'', b), (''output'', c)] ''status'' = a"
    "get0 [(''status'', a), (''routes'', b), (''output'', c)] ''routes'' = b"
    "get0 [(''status'', a), (''routes'', b), (''output'', c)] ''output'' = c" for a b c p
    by (simp_all add: get0_def dget_def)
  have out: "output_expectation_ok x \<Longrightarrow> output_expectation_ok (dump_output x)" for x
    by (auto simp: output_expectation_ok_def dump_output_def get0_def dget_def split: pyval.splits)
  from ok show ?thesis
    by (simp add: v e dump_test_def test_case_ok_def test_id_def expectation_ok_def sub_dict_def Let_def f out)
qed

lemma parse_graph_facts:
  assumes "parse_graph v = Some g"
  shows "\<forall>n \<in> set (g_nodes g). node_id_ok (n_id n)"
    "\<forall>ts. g_tests g = Some ts \<longrightarrow> list_all test_case_ok ts" "unique_test_ids (g_tests g)"
proof -
  have n: "parse_node x = Some n \<Longrightarrow> node_id_ok (n_id n)" for x n
    by (auto simp: parse_node_def split: pyval.splits option.splits if_splits)
  obtain d xs where "omap parse_node xs = Some (g_nodes g)" and t: "parse_tests d = Some (g_tests g)"
    and u: "unique_test_ids (g_tests g)"
    using assms by (auto simp: parse_graph_def split: pyval.splits option.splits if_splits bind_splits)
  then have "list_all2 (\<lambda>x n. parse_node x = Some n) xs (g_nodes g)" by (simp add: omap_eq_Some)
  then have "list_all2 (\<lambda>x n. node_id_ok (n_id n)) xs (g_nodes g)" by (rule list_all2_mono) (rule n)
  then show "\<forall>n \<in> set (g_nodes g). node_id_ok (n_id n)" by (auto simp: list_all2_conv_all_nth in_set_conv_nth)
  show "\<forall>ts. g_tests g = Some ts \<longrightarrow> list_all test_case_ok ts"
    using t by (auto simp: parse_tests_def split: option.splits pyval.splits if_splits)
  show "unique_test_ids (g_tests g)" by (rule u)
qed

lemma parse_dump_graph:
  assumes "parse_graph v = Some g"
  shows "parse_graph (dump_graph g) = Some (g\<lparr>g_tests := map_option (map dump_test) (g_tests g)\<rparr>)"
proof -
  note f = parse_graph_facts[OF assms]
  let ?d = "[(''version'', PInt 1), (''nodes'', PList (map dump_node (g_nodes g))),
     (''edges'', PList (map dump_edge (g_edges g))),
     (''tests'', case g_tests g of None \<Rightarrow> PNone | Some ts \<Rightarrow> PList (map dump_test ts)),
     (''settings'', dump_settings (g_settings g))]"
  have n: "Option.bind (list_or_empty ?d ''nodes'') (omap parse_node) = Some (g_nodes g)"
    using f(1) by (simp add: list_or_empty_def dget_def omap_map parse_dump_node)
  have e: "Option.bind (list_or_empty ?d ''edges'') (omap parse_edge) = Some (g_edges g)"
    by (simp add: list_or_empty_def dget_def omap_map parse_dump_edge)
  have t: "parse_tests ?d = Some (map_option (map dump_test) (g_tests g))"
    using f(2) dump_test_ok by (auto simp: parse_tests_def dget_def list_all_iff split: option.splits)
  have s: "parse_settings ?d = Some (g_settings g)"
    by (auto simp: parse_settings_def dget_def dump_settings_def lax_bool_def split: option.splits)
  have "unique_test_ids (map_option (map dump_test) (g_tests g))"
    using f(2,3) dump_test_ok by (auto simp: unique_test_ids_def list_all_iff comp_def split: option.splits cong: map_cong)
  then show ?thesis
    unfolding dump_graph_def parse_graph_def using n e t s by (cases g) (simp add: version_ok_def dget_def)
qed

text \<open>C8. The graph of a snapshot reads back as the graph that ran, its test cases reduced to the fields the
  program knows: a paused or failed run resumes on the same nodes, edges and settings.\<close>

theorem dumped_graph_reads_back:
  assumes "parse_graph v = Some g"
  shows "parse_graph (dump_graph g) = Some (g\<lparr>g_tests := map_option (map dump_test) (g_tests g)\<rparr>)"
  using assms by (rule parse_dump_graph)

lemma dumped_graph_reads_back_witness:
  "parse_graph (dump_graph \<lparr>g_nodes = [mk_node ''t'' TTrigger [], mk_node ''c'' TConvert [(''to'', PStr ''text'')]],
     g_edges = [mk_edge ''t'' ''c'' None], g_tests = None, g_settings = None\<rparr>)
   = Some \<lparr>g_nodes = [mk_node ''t'' TTrigger [], mk_node ''c'' TConvert [(''to'', PStr ''text'')]],
     g_edges = [mk_edge ''t'' ''c'' None], g_tests = None, g_settings = None\<rparr>"
proof -
  have "parse_graph example_body = Some \<lparr>g_nodes = [mk_node ''t'' TTrigger [], mk_node ''c'' TConvert [(''to'', PStr ''text'')]],
     g_edges = [mk_edge ''t'' ''c'' None], g_tests = None, g_settings = None\<rparr>" by code_simp
  from dumped_graph_reads_back[OF this] show ?thesis by simp
qed

subsection \<open>Resuming a failed run\<close>

lemma signature_tests [simp]: "signature (g\<lparr>g_tests := ts\<rparr>) i = signature g i"
  by (simp add: signature_def find_node_def)

text \<open>\<open>Resume here\<close> accepts the nodes done before the failure exactly when each is still there with the
  same type, configuration and incoming edges (or gone on both sides); on the graph the snapshot
  was taken from, nothing is refused.\<close>

theorem retry_mismatch_exact:
  assumes "parse_graph v = Some old"
  shows "(retry_mismatch v now ids = Inr [] \<longleftrightarrow> (\<forall>i \<in> set ids. signature old i = signature now i))
    \<and> retry_mismatch (dump_graph old) old ids = Inr []"
  by (simp add: retry_mismatch_def assms parse_dump_graph[OF assms] of_opt_def ebind_def filter_empty_conv)

lemma retry_mismatch_exact_witness:
  "\<exists>g. parse_graph example_body = Some g \<and> retry_mismatch (dump_graph g) g [''t'', ''c''] = Inr []"
proof -
  have "parse_graph example_body \<noteq> None" by code_simp
  then obtain g where "parse_graph example_body = Some g" by blast
  with retry_mismatch_exact[OF this] show ?thesis by blast
qed

end
