(* ===== verification/Py_Time.thy ===== *)
theory Py_Time
  imports Py_Float "HOL-Library.List_Lexorder" "HOL-Library.Char_ord"
begin

section \<open>Instants and their texts\<close>

text \<open>
  A point in time is its number of microseconds since the first day of year 1 (day number 1, as in
  Python's \<open>datetime\<close>).  \<open>stamp\<close> is \<open>strftime("%Y-%m-%d %H:%M:%S.%f")\<close>, \<open>iso\<close> is \<open>isoformat()\<close> of a UTC
  instant.  The tables of the program store times as such texts and compare them as texts:
  \<open>stamp_less\<close> and \<open>iso_less\<close> show that the order of the texts is the order of the instants.
\<close>

subsection \<open>Years\<close>

definition days_before_year :: "int \<Rightarrow> int" where
  "days_before_year y = (let k = y - 1 in k * 365 + k div 4 - k div 100 + k div 400)"

definition year_of :: "int \<Rightarrow> int" where
  "year_of n = (let n0 = n - 1; n400 = n0 div 146097; r = n0 mod 146097; n100 = r div 36524; s = r mod 36524;
       n4 = s div 1461; u = s mod 1461; n1 = u div 365
     in 400 * n400 + 100 * n100 + 4 * n4 + n1 + (if n1 = 4 \<or> n100 = 4 then 0 else 1))"

lemma days_before_year_parts:
  assumes "0 \<le> b" "b \<le> 3" "0 \<le> c" "c \<le> 24" "0 \<le> e" "e \<le> 3"
  shows "days_before_year (400 * a + 100 * b + 4 * c + e + 1) = 146097 * a + 36524 * b + 1461 * c + 365 * e"
proof -
  have "(e + 4 * (100 * a + 25 * b + c)) div 4 = 100 * a + 25 * b + c" using assms by simp
  then have 1: "(400 * a + 100 * b + 4 * c + e) div 4 = 100 * a + 25 * b + c" by (simp add: algebra_simps)
  have "(4 * c + e + 100 * (4 * a + b)) div 100 = 4 * a + b" using assms by simp
  then have 2: "(400 * a + 100 * b + 4 * c + e) div 100 = 4 * a + b" by (simp add: algebra_simps)
  have "(100 * b + 4 * c + e + 400 * a) div 400 = a" using assms by simp
  then have 3: "(400 * a + 100 * b + 4 * c + e) div 400 = a" by (simp add: algebra_simps)
  show ?thesis using 1 2 3 by (simp add: days_before_year_def Let_def)
qed

lemma days_before_year_Suc: "days_before_year (y + 1) = days_before_year y + 365 + (y div 4 - (y - 1) div 4) - (y div 100 - (y - 1) div 100) + (y div 400 - (y - 1) div 400)"
  by (simp add: days_before_year_def Let_def)

lemma div_step: "0 < k \<Longrightarrow> (y::int) div k = (y - 1) div k + (if y mod k = 0 then 1 else 0)"
proof -
  assume k: "0 < k"
  show ?thesis
  proof (cases "y mod k = 0")
    case True
    then obtain q where q: "y = k * q" by (auto simp: mod_eq_0_iff_dvd)
    have "(k * q - 1) div k = q - 1"
    proof -
      have "k * q - 1 = (k - 1) + (q - 1) * k" by (simp add: algebra_simps)
      then show ?thesis using k by (simp only: div_mult_self1) (simp add: div_pos_pos_trivial)
    qed
    then show ?thesis using q True k by simp
  next
    case False
    then have m: "1 \<le> y mod k" using k by (smt (verit) pos_mod_sign)
    have "y - 1 = (y mod k - 1) + (y div k) * k" by simp
    then have "(y - 1) div k = y div k" using m k pos_mod_bound[of k y]
      by (simp only: div_mult_self1) (smt (verit) div_pos_pos_trivial)
    then show ?thesis using False by simp
  qed
qed

definition is_leap :: "int \<Rightarrow> bool" where
  "is_leap y = (y mod 4 = 0 \<and> (y mod 100 \<noteq> 0 \<or> y mod 400 = 0))"

lemma year_length: "days_before_year (y + 1) = days_before_year y + (if is_leap y then 366 else 365)"
proof -
  have "y mod 100 = 0 \<Longrightarrow> y mod 4 = 0" "y mod 400 = 0 \<Longrightarrow> y mod 100 = 0"
    by (auto simp: mod_eq_0_iff_dvd elim!: dvd_trans[rotated])
  moreover have "y div k - (y - 1) div k = (if y mod k = 0 then 1 else 0)" if "0 < k" for k :: int
    using div_step[OF that, of y] by linarith
  ultimately show ?thesis
    unfolding days_before_year_Suc by (simp only: is_leap_def zero_less_numeral) (cases "y mod 4 = 0"; cases "y mod 100 = 0"; cases "y mod 400 = 0"; simp)
qed

lemma days_before_year_mono: "y \<le> z \<Longrightarrow> days_before_year y \<le> days_before_year z"
proof (induction z rule: int_ge_induct[consumes 1])
  case (step z)
  have "days_before_year z \<le> days_before_year (z + 1)" unfolding year_length by simp
  with step.IH show ?case by (rule order_trans)
qed simp

lemma year_of_bounds:
  shows "days_before_year (year_of n) < n \<and> n \<le> days_before_year (year_of n + 1)"
proof -
  define a r where ar: "a = (n - 1) div 146097" "r = (n - 1) mod 146097"
  define b s where bs: "b = r div 36524" "s = r mod 36524"
  define c u where cu: "c = s div 1461" "u = s mod 1461"
  define e v where ev: "e = u div 365" "v = u mod 365"
  have r: "0 \<le> r" "r \<le> 146096" by (simp_all add: ar)
  have s: "0 \<le> s" "s \<le> 36523" by (simp_all add: bs)
  have u: "0 \<le> u" "u \<le> 1460" by (simp_all add: cu)
  have v: "0 \<le> v" "v \<le> 364" by (simp_all add: ev)
  have n: "n = 146097 * a + 36524 * b + 1461 * c + 365 * e + v + 1"
    using mult_div_mod_eq[of 146097 "n - 1"] mult_div_mod_eq[of 36524 r] mult_div_mod_eq[of 1461 s] mult_div_mod_eq[of 365 u]
    by (simp add: ar bs cu ev)
  have rr: "r = 36524 * b + s" "s = 1461 * c + u" "u = 365 * e + v"
    using mult_div_mod_eq[of 36524 r] mult_div_mod_eq[of 1461 s] mult_div_mod_eq[of 365 u] by (simp_all add: bs cu ev)
  have b: "0 \<le> b" "b \<le> 4" using r rr s by linarith+
  have c: "0 \<le> c" "c \<le> 24" using s rr u by linarith+
  have e: "0 \<le> e" "e \<le> 4" using u rr v by linarith+
  have y: "year_of n = 400 * a + 100 * b + 4 * c + e + (if e = 4 \<or> b = 4 then 0 else 1)"
    by (simp add: year_of_def Let_def ar bs cu ev)
  show ?thesis
  proof (cases "b = 4")
    case True
    then have z: "s = 0" "c = 0" "e = 0" "v = 0" using r s rr c e v u by linarith+
    have "year_of n = 400 * a + 100 * 3 + 4 * 24 + 3 + 1" using y True z by simp
    moreover have "year_of n + 1 = 400 * (a + 1) + 100 * 0 + 4 * 0 + 0 + 1" using y True z by simp
    ultimately show ?thesis using days_before_year_parts[of 3 24 3 a] days_before_year_parts[of 0 0 0 "a + 1"] n True z by simp
  next
    case nb: False
    with b have b3: "b \<le> 3" by simp
    show ?thesis
    proof (cases "e = 4")
      case True
      then have z: "v = 0" using u rr v by linarith
      have c23: "b = 3 \<or> c \<le> 23 \<or> c = 24" using c by linarith
      have y4: "year_of n = 400 * a + 100 * b + 4 * c + 3 + 1" using y True by simp
      have lt: "c \<le> 23" using True s rr v by linarith
      have "year_of n + 1 = 400 * a + 100 * b + 4 * (c + 1) + 0 + 1" using y4 by simp
      then show ?thesis using days_before_year_parts[of b c 3 a] days_before_year_parts[of b "c + 1" 0 a] n True z b b3 c lt y4 by simp
    next
      case False
      then have e3: "e \<le> 3" using e by simp
      have "year_of n = 400 * a + 100 * b + 4 * c + e + 1" using y nb False by simp
      then have "days_before_year (year_of n) = 146097 * a + 36524 * b + 1461 * c + 365 * e"
        using days_before_year_parts[of b c e a] b b3 c e e3 by simp
      then show ?thesis using year_length[of "year_of n"] n v by auto
    qed
  qed
qed

lemma year_of_mono: "n \<le> n' \<Longrightarrow> year_of n \<le> year_of n'"
proof (rule ccontr)
  assume "n \<le> n'" "\<not> year_of n \<le> year_of n'"
  then have "days_before_year (year_of n' + 1) \<le> days_before_year (year_of n)"
    by (intro days_before_year_mono) simp
  with year_of_bounds[of n] year_of_bounds[of n'] \<open>n \<le> n'\<close> show False by linarith
qed

subsection \<open>Months and days\<close>

definition month_lengths :: "int \<Rightarrow> int list" where
  "month_lengths y = [31, if is_leap y then 29 else 28, 31, 30, 31, 30, 31, 31, 30, 31, 30, 31]"

fun split_month :: "int \<Rightarrow> int list \<Rightarrow> int \<Rightarrow> int list" where
  "split_month m [] d = [m, d]"
| "split_month m (x # xs) d = (if d \<le> x then [m, d] else split_month (m + 1) xs (d - x))"

definition date_of :: "int \<Rightarrow> int list" where
  "date_of n = year_of n # split_month 1 (month_lengths (year_of n)) (n - days_before_year (year_of n))"

lemma length_split_month [simp]: "length (split_month m xs d) = 2"
  by (induction m xs d rule: split_month.induct) auto

lemma split_month_ge: "m \<le> hd (split_month m xs d)"
  by (induction m xs d rule: split_month.induct) (auto intro: order_trans)

lemma split_month_less: "d < d' \<Longrightarrow> split_month m xs d < split_month m xs d'"
proof (induction m xs d arbitrary: d' rule: split_month.induct)
  case (2 m x xs d)
  have "[m, d] < split_month (m + 1) xs (d' - x)"
    using split_month_ge[of "m + 1" xs "d' - x"] length_split_month[of "m + 1" xs "d' - x"] by (cases "split_month (m + 1) xs (d' - x)") auto
  with 2 show ?case by auto
qed simp

lemma date_of_less: "n < n' \<Longrightarrow> date_of n < date_of n'"
  using year_of_mono[of n n'] by (cases "year_of n = year_of n'") (auto simp: date_of_def split_month_less)

lemma length_date_of [simp]: "length (date_of n) = 3"
  by (simp add: date_of_def)

subsection \<open>The fields of an instant\<close>

abbreviation DAY :: int where "DAY \<equiv> 86400000000"

definition clock_of :: "int \<Rightarrow> int list" where
  "clock_of s = [s div 3600000000, s mod 3600000000 div 60000000, s mod 60000000 div 1000000, s mod 1000000]"

definition time_fields :: "int \<Rightarrow> int list" where
  "time_fields t = date_of (t div DAY + 1) @ clock_of (t mod DAY)"

lemma append_less:
  fixes xs ys :: "'a :: linorder list"
  assumes "length xs = length xs'"
  shows "xs @ ys < xs' @ ys' \<longleftrightarrow> xs < xs' \<or> xs = xs' \<and> ys < ys'"
  using assms by (induction xs xs' rule: list_induct2) auto

lemma div_mod_less:
  assumes "0 < k" "(a::int) < b"
  shows "a div k < b div k \<or> a div k = b div k \<and> a mod k < b mod k"
proof (cases "a div k = b div k")
  case True
  have "a = k * (b div k) + a mod k" by (simp flip: True)
  moreover have "b = k * (b div k) + b mod k" by simp
  ultimately show ?thesis using assms(2) True by linarith
qed (use assms zdiv_mono1[of a b k] in simp)

lemma clock_of_less:
  assumes "a < b"
  shows "clock_of a < clock_of b"
proof -
  have m: "x mod 60000000 = (x mod 3600000000) mod 60000000" "x mod 1000000 = (x mod 60000000) mod 1000000" for x :: int
    by (simp_all add: mod_mod_cancel)
  show ?thesis
    using div_mod_less[of 3600000000 a b, OF _ assms]
      div_mod_less[of 60000000 "a mod 3600000000" "b mod 3600000000"]
      div_mod_less[of 1000000 "a mod 60000000" "b mod 60000000"]
    unfolding clock_of_def by (auto simp: m(1)[symmetric] m(2)[symmetric])
qed

lemma fields_less_mono: "t < t' \<Longrightarrow> time_fields t < time_fields t'"
  using div_mod_less[of DAY t t'] by (auto simp: time_fields_def append_less date_of_less clock_of_less)

lemma fields_less: "time_fields t < time_fields t' \<longleftrightarrow> t < t'"
  using fields_less_mono[of t t'] fields_less_mono[of t' t] by (cases t t' rule: linorder_cases) auto

lemma fields_inject: "time_fields t = time_fields t' \<longleftrightarrow> t = t'"
  using fields_less[of t t'] fields_less[of t' t] by (cases t t' rule: linorder_cases) auto

subsection \<open>Fixed width\<close>

fun fixed :: "nat \<Rightarrow> int \<Rightarrow> string" where
  "fixed 0 n = []"
| "fixed (Suc k) n = fixed k (n div 10) @ [char_of (48 + nat (n mod 10))]"

lemma length_fixed [simp]: "length (fixed k n) = k"
  by (induction k arbitrary: n) auto

lemma digit_less: "0 \<le> a \<Longrightarrow> a < 10 \<Longrightarrow> 0 \<le> b \<Longrightarrow> b < 10 \<Longrightarrow>
  (char_of (48 + nat a) :: char) < char_of (48 + nat b) \<longleftrightarrow> a < b"
  by (auto simp: less_char_def)

lemma fixed_less_mono: "0 \<le> a \<Longrightarrow> b < 10 ^ k \<Longrightarrow> a < b \<Longrightarrow> fixed k a < fixed k b"
proof (induction k arbitrary: a b)
  case (Suc k)
  have "b div 10 < 10 ^ k" using Suc.prems(2) by simp
  moreover have "0 \<le> a div 10" using Suc.prems(1) by (simp add: pos_imp_zdiv_nonneg_iff)
  ultimately show ?case using Suc.IH[of "a div 10" "b div 10"] Suc.prems
      div_mod_less[of 10 a b] by (auto simp: append_less digit_less)
qed simp

definition fields_text :: "(nat \<times> string) list \<Rightarrow> int list \<Rightarrow> string" where
  "fields_text shape xs = concat (map2 (\<lambda>(k, sep) x. fixed k x @ sep) shape xs)"

definition fits :: "(nat \<times> string) list \<Rightarrow> int list \<Rightarrow> bool" where
  "fits = list_all2 (\<lambda>(k, sep) x. 0 \<le> x \<and> x < 10 ^ k)"

lemma fields_text_less_mono:
  "fits shape xs \<Longrightarrow> fits shape ys \<Longrightarrow> xs < ys \<Longrightarrow> fields_text shape xs < fields_text shape ys"
proof (induction shape arbitrary: xs ys)
  case (Cons p shape)
  obtain k sep where p: "p = (k, sep)" by fastforce
  obtain x xs' y ys' where xy: "xs = x # xs'" "ys = y # ys'" "fits shape xs'" "fits shape ys'"
    "0 \<le> x" "x < 10 ^ k" "0 \<le> y" "y < 10 ^ k"
    using Cons.prems(1,2) by (auto simp: fits_def p list_all2_Cons1)
  show ?case
  proof (cases "x = y")
    case True
    then show ?thesis using Cons xy by (simp add: fields_text_def p append_less)
  next
    case False
    then have "fixed k x < fixed k y" using Cons.prems(3) xy by (auto intro: fixed_less_mono)
    then show ?thesis using xy by (simp add: fields_text_def p append_less)
  qed
qed (simp add: fits_def)

lemma fields_text_less:
  assumes "fits shape xs" "fits shape ys"
  shows "fields_text shape xs < fields_text shape ys \<longleftrightarrow> xs < ys"
  using fields_text_less_mono[OF assms] fields_text_less_mono[OF assms(2,1)]
  by (cases xs ys rule: linorder_cases) auto

subsection \<open>Reading fixed width fields\<close>

definition read_digits :: "nat \<Rightarrow> string \<Rightarrow> int option" where
  "read_digits k s = (if length s = k \<and> list_all is_dec s
     then Some (foldl (\<lambda>n c. 10 * n + (int (of_char c) - 48)) 0 s) else None)"

fun read_fields :: "(nat \<times> string) list \<Rightarrow> string \<Rightarrow> (int list \<times> string) option" where
  "read_fields [] s = Some ([], s)"
| "read_fields ((k, sep) # shape) s = (case read_digits k (take k s) of None \<Rightarrow> None
     | Some x \<Rightarrow> (if starts_with sep (drop k s)
         then map_option (\<lambda>(xs, r). (x # xs, r)) (read_fields shape (drop (k + length sep) s)) else None))"

lemma fixed_dec: "list_all is_dec (fixed k m)"
proof (induction k m rule: fixed.induct)
  case (2 k m)
  have "nat (m mod 10) < 10" by simp
  with 2 show ?case by (simp add: is_dec_def code_def)
qed simp

lemma read_fixed: "0 \<le> n \<Longrightarrow> n < 10 ^ k \<Longrightarrow> read_digits k (fixed k n) = Some n"
proof -
  assume "0 \<le> n" "n < 10 ^ k"
  moreover have "0 \<le> m \<Longrightarrow> m < 10 ^ k \<Longrightarrow> foldl (\<lambda>n c. 10 * n + (int (of_char c) - 48)) 0 (fixed k m) = m" for k and m :: int
  proof (induction k m rule: fixed.induct)
    case (2 k m)
    have "m div 10 < 10 ^ k" "0 \<le> m div 10" using 2(2,3) by (simp_all add: pos_imp_zdiv_nonneg_iff)
    moreover have "nat (m mod 10) < 10" by simp
    ultimately show ?case using 2(1) by simp
  qed simp
  ultimately show ?thesis by (simp add: read_digits_def fixed_dec)
qed

lemma read_fields_text: "fits shape xs \<Longrightarrow> read_fields shape (fields_text shape xs @ r) = Some (xs, r)"
proof (induction shape arbitrary: xs)
  case (Cons p shape)
  obtain k sep where p: "p = (k, sep)" by fastforce
  obtain x xs' where xs: "xs = x # xs'" "fits shape xs'" "0 \<le> x" "x < 10 ^ k"
    using Cons.prems by (auto simp: fits_def p list_all2_Cons1)
  then show ?case using Cons.IH[OF xs(2)] by (simp add: fields_text_def p read_fixed starts_with_def)
qed (simp add: fields_text_def fits_def)

subsection \<open>Texts of instants\<close>

definition MAX_TIME :: int where "MAX_TIME = 3652059 * DAY"

definition date_shape :: "string \<Rightarrow> (nat \<times> string) list" where
  "date_shape sep = [(4, ''-''), (2, ''-''), (2, sep), (2, '':''), (2, '':'')]"

definition stamp_shape :: "(nat \<times> string) list" where
  "stamp_shape = date_shape '' '' @ [(2, ''.''), (6, [])]"

definition stamp :: "int \<Rightarrow> string" where
  "stamp t = fields_text stamp_shape (time_fields t)"

definition iso :: "int \<Rightarrow> string" where
  "iso t = fields_text (date_shape ''T'' @ [(2, [])]) (butlast (time_fields t))
     @ (if t mod 1000000 = 0 then [] else ''.'' @ fixed 6 (t mod 1000000)) @ ''+00:00''"

lemma split_month_bounds:
  "1 \<le> d \<Longrightarrow> d \<le> sum_list xs \<Longrightarrow> \<exists>i < length xs. \<exists>e. split_month m xs d = [m + int i, e] \<and> 1 \<le> e \<and> e \<le> xs ! i
     \<and> d = sum_list (take i xs) + e"
proof (induction m xs d rule: split_month.induct)
  case (2 m x xs d)
  show ?case
  proof (cases "d \<le> x")
    case True
    then show ?thesis using 2 by (intro exI[of _ 0]) simp
  next
    case False
    then obtain i e where i: "i < length xs" "split_month (m + 1) xs (d - x) = [m + 1 + int i, e]"
      "1 \<le> e" "e \<le> xs ! i" "d - x = sum_list (take i xs) + e"
      using 2 by auto
    then show ?thesis using False by (intro exI[of _ "Suc i"]) auto
  qed
qed simp

lemma sum_month_lengths: "sum_list (month_lengths y) = (if is_leap y then 366 else 365)"
  by (simp add: month_lengths_def)

lemma length_month_lengths [simp]: "length (month_lengths y) = 12"
  by (simp add: month_lengths_def)

lemma date_of_parts:
  "\<exists>i < 12. \<exists>d. date_of n = [year_of n, 1 + int i, d] \<and> 1 \<le> d \<and> d \<le> month_lengths (year_of n) ! i
     \<and> n = days_before_year (year_of n) + sum_list (take i (month_lengths (year_of n))) + d"
proof -
  have "1 \<le> n - days_before_year (year_of n)" "n - days_before_year (year_of n) \<le> sum_list (month_lengths (year_of n))"
    using year_of_bounds[of n] year_length[of "year_of n"] by (auto simp: sum_month_lengths)
  then obtain i d where i: "i < 12" "split_month 1 (month_lengths (year_of n)) (n - days_before_year (year_of n)) = [1 + int i, d]"
    "1 \<le> d" "d \<le> month_lengths (year_of n) ! i"
    "n - days_before_year (year_of n) = sum_list (take i (month_lengths (year_of n))) + d"
    using split_month_bounds[of "n - days_before_year (year_of n)" "month_lengths (year_of n)" 1] by auto
  then show ?thesis by (intro exI[of _ i] conjI exI[of _ d]) (simp_all add: date_of_def)
qed

lemma days_before_year_10000: "days_before_year 10000 = 3652059"
  by (simp add: days_before_year_def)

lemma year_range: "1 \<le> n \<Longrightarrow> n \<le> 3652059 \<Longrightarrow> 1 \<le> year_of n \<and> year_of n \<le> 9999"
proof -
  assume n: "1 \<le> n" "n \<le> 3652059"
  have "\<not> year_of n \<le> 0"
    using days_before_year_mono[of "year_of n + 1" 1] year_of_bounds[of n] n by (auto simp: days_before_year_def)
  moreover have "\<not> 10000 \<le> year_of n"
    using days_before_year_mono[of 10000 "year_of n"] year_of_bounds[of n] n by (auto simp: days_before_year_10000)
  ultimately show ?thesis by simp
qed

lemma month_length_le: "i < 12 \<Longrightarrow> month_lengths y ! i \<le> 31"
  using nth_mem[of i "month_lengths y"] by (auto simp: month_lengths_def simp del: nth_mem)

definition in_time :: "int \<Rightarrow> bool" where "in_time t = (0 \<le> t \<and> t < MAX_TIME)"

lemma in_time_day: "in_time t \<Longrightarrow> 1 \<le> t div DAY + 1 \<and> t div DAY + 1 \<le> 3652059"
  by (simp add: in_time_def MAX_TIME_def pos_imp_zdiv_nonneg_iff) linarith

lemma div_lt: "0 < k \<Longrightarrow> x < m * k \<Longrightarrow> (x::int) div k < m"
proof -
  assume k: "0 < k" and x: "x < m * k"
  have "x div k * k \<le> x" using k by (simp add: minus_mod_eq_div_mult[symmetric])
  with x have "x div k * k < m * k" by linarith
  with k show ?thesis by (simp add: mult_less_cancel_right)
qed

lemma clock_of_bounds:
  assumes "0 \<le> s" "s < DAY"
  shows "list_all2 (\<lambda>k x. 0 \<le> x \<and> x < k) [24, 60, 60, 1000000] (clock_of s)"
proof -
  have "s mod 3600000000 < 3600000000" "s mod 60000000 < 60000000" by simp_all
  then have "s div 3600000000 < 24" "s mod 3600000000 div 60000000 < 60" "s mod 60000000 div 1000000 < 60"
    using assms by (auto intro!: div_lt)
  then show ?thesis using assms(1) by (simp add: clock_of_def pos_imp_zdiv_nonneg_iff)
qed

lemma clock_of_sum:
  assumes "clock_of s = [h, mi, se, us]"
  shows "s = h * 3600000000 + mi * 60000000 + se * 1000000 + us"
proof -
  have "s = s div 3600000000 * 3600000000 + s mod 3600000000" by simp
  moreover have "s mod 3600000000 = s mod 3600000000 div 60000000 * 60000000 + s mod 3600000000 mod 60000000" by simp
  moreover have "s mod 3600000000 mod 60000000 = s mod 60000000" by (simp add: mod_mod_cancel)
  moreover have "s mod 60000000 = s mod 60000000 div 1000000 * 1000000 + s mod 60000000 mod 1000000" by simp
  moreover have "s mod 60000000 mod 1000000 = s mod 1000000" by (simp add: mod_mod_cancel)
  moreover have "s div 3600000000 = h" "s mod 3600000000 div 60000000 = mi" "s mod 60000000 div 1000000 = se" "s mod 1000000 = us"
    using assms by (simp_all add: clock_of_def)
  ultimately show ?thesis by linarith
qed

lemma fields_parts:
  assumes "in_time t"
  obtains y mo d h mi se us where "time_fields t = [y, mo, d, h, mi, se, us]" "1 \<le> y" "y \<le> 9999" "1 \<le> mo" "mo \<le> 12"
    "1 \<le> d" "d \<le> month_lengths y ! nat (mo - 1)" "0 \<le> h" "h < 24" "0 \<le> mi" "mi < 60" "0 \<le> se" "se < 60" "0 \<le> us" "us < 1000000"
    "t = (days_before_year y + sum_list (take (nat (mo - 1)) (month_lengths y)) + d - 1) * DAY
      + h * 3600000000 + mi * 60000000 + se * 1000000 + us" "us = t mod 1000000"
proof -
  define n s where ns: "n = t div DAY + 1" "s = t mod DAY"
  have f: "time_fields t = date_of n @ clock_of s" and t: "t = (n - 1) * DAY + s" by (simp_all add: time_fields_def ns)
  have n: "1 \<le> year_of n" "year_of n \<le> 9999" using year_range[of n] in_time_day[OF assms] by (auto simp: ns)
  obtain i d where i: "i < 12" "date_of n = [year_of n, 1 + int i, d]" "1 \<le> d" "d \<le> month_lengths (year_of n) ! i"
    "n = days_before_year (year_of n) + sum_list (take i (month_lengths (year_of n))) + d"
    using date_of_parts[of n] by blast
  obtain h mi se us where c: "clock_of s = [h, mi, se, us]" unfolding clock_of_def by blast
  have "list_all2 (\<lambda>k x. 0 \<le> x \<and> x < k) [24, 60, 60, 1000000] (clock_of s)"
    by (rule clock_of_bounds) (simp_all add: ns)
  then have b: "0 \<le> h" "h < 24" "0 \<le> mi" "mi < 60" "0 \<le> se" "se < 60" "0 \<le> us" "us < 1000000" by (simp_all add: c)
  have us: "us = t mod 1000000" using c by (simp add: clock_of_def ns mod_mod_cancel)
  have T: "t = (days_before_year (year_of n) + sum_list (take i (month_lengths (year_of n))) + d - 1) * DAY
      + h * 3600000000 + mi * 60000000 + se * 1000000 + us"
    (is "_ = (?N - 1) * DAY + _ + _ + _ + _")
  proof -
    have N: "?N = n" using i(5) by simp
    have "t = (n - 1) * DAY + h * 3600000000 + mi * 60000000 + se * 1000000 + us" using t clock_of_sum[OF c] by linarith
    then show ?thesis unfolding N .
  qed
  have k: "nat (1 + int i - 1) = i" "1 \<le> 1 + int i" "1 + int i \<le> 12" using i(1) by simp_all
  have g: "time_fields t = [year_of n, 1 + int i, d, h, mi, se, us]" using f c i(2) by simp
  show thesis by (rule that[of "year_of n" "1 + int i" d h mi se us, unfolded k(1), OF g n k(2,3) i(3,4) b T us])
qed

subsection \<open>The order of the texts\<close>

lemma fields_fit: "in_time t \<Longrightarrow> fits (date_shape sep @ [(2, sep2)]) (butlast (time_fields t)) \<and> fits stamp_shape (time_fields t)"
proof -
  assume "in_time t"
  then obtain y mo d h mi se us where f: "time_fields t = [y, mo, d, h, mi, se, us]" "1 \<le> y" "y \<le> 9999" "1 \<le> mo" "mo \<le> 12"
    "1 \<le> d" "d \<le> month_lengths y ! nat (mo - 1)" "0 \<le> h" "h < 24" "0 \<le> mi" "mi < 60" "0 \<le> se" "se < 60" "0 \<le> us" "us < 1000000"
    by (rule fields_parts)
  have "month_lengths y ! nat (mo - 1) \<le> 31" using f by (intro month_length_le) simp
  with f show ?thesis by (simp add: fits_def date_shape_def stamp_shape_def)
qed

lemma stamp_less: "in_time t \<Longrightarrow> in_time u \<Longrightarrow> stamp t < stamp u \<longleftrightarrow> t < u"
  by (simp add: stamp_def fields_text_less fields_fit fields_less)

lemma stamp_le: "in_time t \<Longrightarrow> in_time u \<Longrightarrow> stamp t \<le> stamp u \<longleftrightarrow> t \<le> u"
  using stamp_less[of u t] by (auto simp: not_less[symmetric])

lemma length_fields_text: "length shape = length xs \<Longrightarrow> length (fields_text shape xs) = sum_list (map (\<lambda>(k, sep). k + length sep) shape)"
  by (induction shape xs rule: list_induct2) (auto simp: fields_text_def)

lemma length_fields [simp]: "length (time_fields t) = 7"
  by (simp add: time_fields_def clock_of_def)

lemma last_fields: "last (time_fields t) = t mod 1000000"
  by (simp add: time_fields_def clock_of_def mod_mod_cancel)

text \<open>The texts of \<open>isoformat\<close> leave the microseconds out when they are zero; \<open>+\<close> comes before \<open>.\<close>.\<close>

lemma iso_less_mono:
  assumes "in_time t" "in_time u" "t < u"
  shows "iso t < iso u"
proof -
  have l: "time_fields x = butlast (time_fields x) @ [x mod 1000000]" for x
    using last_fields[of x] length_fields[of x] by (metis append_butlast_last_id length_0_conv zero_neq_numeral)
  have "butlast (time_fields t) < butlast (time_fields u) \<or> butlast (time_fields t) = butlast (time_fields u) \<and> t mod 1000000 < u mod 1000000"
    using assms(3) fields_less[of t u] l[of t] l[of u] append_less[of "butlast (time_fields t)" "butlast (time_fields u)" "[t mod 1000000]" "[u mod 1000000]"]
    by auto
  then show ?thesis
  proof
    assume "butlast (time_fields t) < butlast (time_fields u)"
    then have P: "fields_text (date_shape ''T'' @ [(2, [])]) (butlast (time_fields t)) < fields_text (date_shape ''T'' @ [(2, [])]) (butlast (time_fields u))"
      by (simp add: fields_text_less fields_fit assms)
    have L: "length (fields_text (date_shape ''T'' @ [(2, [])]) (butlast (time_fields t)))
        = length (fields_text (date_shape ''T'' @ [(2, [])]) (butlast (time_fields u)))"
      by (simp add: length_fields_text date_shape_def)
    show ?thesis by (simp only: iso_def append_less[OF L]) (simp add: P)
  next
    assume e: "butlast (time_fields t) = butlast (time_fields u) \<and> t mod 1000000 < u mod 1000000"
    have "fixed 6 (t mod 1000000) < fixed 6 (u mod 1000000)" using e by (intro fixed_less_mono) simp_all
    moreover have "u mod 1000000 \<noteq> 0" using e pos_mod_sign[of 1000000 t] by linarith
    ultimately show ?thesis using e by (simp add: iso_def append_less less_char_def)
  qed
qed

lemma iso_less: "in_time t \<Longrightarrow> in_time u \<Longrightarrow> iso t < iso u \<longleftrightarrow> t < u"
  using iso_less_mono[of t u] iso_less_mono[of u t] by (cases t u rule: linorder_cases) auto

lemma iso_le: "in_time t \<Longrightarrow> in_time u \<Longrightarrow> iso t \<le> iso u \<longleftrightarrow> t \<le> u"
  using iso_less[of u t] by (auto simp: not_less[symmetric])

lemma iso_inject: "in_time t \<Longrightarrow> in_time u \<Longrightarrow> iso t = iso u \<longleftrightarrow> t = u"
  using iso_less[of t u] iso_less[of u t] by (cases t u rule: linorder_cases) auto

subsection \<open>Reading the texts back\<close>

text \<open>\<open>fromisoformat\<close> on the texts the program writes; \<open>read_iso\<close> also says whether an offset is given.\<close>

definition instant_of :: "int list \<Rightarrow> int option" where
  "instant_of xs = (case xs of
     [y, mo, d, h, mi, se, us] \<Rightarrow>
       if 1 \<le> y \<and> 1 \<le> mo \<and> mo \<le> 12 \<and> 1 \<le> d \<and> d \<le> month_lengths y ! nat (mo - 1)
          \<and> 0 \<le> h \<and> h < 24 \<and> 0 \<le> mi \<and> mi < 60 \<and> 0 \<le> se \<and> se < 60
       then Some ((days_before_year y + sum_list (take (nat (mo - 1)) (month_lengths y)) + d - 1) * DAY
         + h * 3600000000 + mi * 60000000 + se * 1000000 + us)
       else None
   | _ \<Rightarrow> None)"

definition read_stamp :: "string \<Rightarrow> int option" where
  "read_stamp s = (case read_fields stamp_shape s of Some (xs, []) \<Rightarrow> instant_of xs | _ \<Rightarrow> None)"

definition read_offset :: "string \<Rightarrow> bool option" where
  "read_offset s = (if s = [] then Some False else if s = ''+00:00'' then Some True else None)"

definition read_iso :: "string \<Rightarrow> (int \<times> bool) option" where
  "read_iso s = (case read_fields (date_shape ''T'' @ [(2, [])]) s of None \<Rightarrow> None
     | Some (xs, r) \<Rightarrow>
         (if starts_with ''.'' r
          then (case (read_digits 6 (take 6 (drop 1 r)), read_offset (drop 7 r)) of
              (Some us, Some z) \<Rightarrow> map_option (\<lambda>t. (t, z)) (instant_of (xs @ [us])) | _ \<Rightarrow> None)
          else (case read_offset r of Some z \<Rightarrow> map_option (\<lambda>t. (t, z)) (instant_of (xs @ [0])) | None \<Rightarrow> None)))"

lemma instant_of_fields: "in_time t \<Longrightarrow> instant_of (time_fields t) = Some t"
proof -
  assume "in_time t"
  then obtain y mo d h mi se us where f: "time_fields t = [y, mo, d, h, mi, se, us]" "1 \<le> y" "1 \<le> mo" "mo \<le> 12"
    "1 \<le> d" "d \<le> month_lengths y ! nat (mo - 1)" "0 \<le> h" "h < 24" "0 \<le> mi" "mi < 60" "0 \<le> se" "se < 60"
    and t: "t = (days_before_year y + sum_list (take (nat (mo - 1)) (month_lengths y)) + d - 1) * DAY
      + h * 3600000000 + mi * 60000000 + se * 1000000 + us"
    by (rule fields_parts)
  from f have "instant_of (time_fields t) = Some ((days_before_year y + sum_list (take (nat (mo - 1)) (month_lengths y)) + d - 1) * DAY
      + h * 3600000000 + mi * 60000000 + se * 1000000 + us)" by (simp add: instant_of_def)
  then show ?thesis unfolding t[symmetric] .
qed

lemma read_stamp [simp]: "in_time t \<Longrightarrow> read_stamp (stamp t) = Some t"
  using read_fields_text[of stamp_shape "time_fields t" "[]"] fields_fit[of t] instant_of_fields[of t]
  by (simp add: read_stamp_def stamp_def)

lemma read_iso [simp]: "in_time t \<Longrightarrow> read_iso (iso t) = Some (t, True)"
proof -
  assume t: "in_time t"
  have l: "butlast (time_fields t) @ [t mod 1000000] = time_fields t"
    using last_fields[of t] length_fields[of t] by (metis append_butlast_last_id length_0_conv zero_neq_numeral)
  have us: "read_digits 6 (fixed 6 (t mod 1000000)) = Some (t mod 1000000)" by (rule read_fixed) simp_all
  show ?thesis
  proof (cases "t mod 1000000 = 0")
    case True
    then show ?thesis
      using read_fields_text[OF fields_fit[OF t, THEN conjunct1], of "''T''" "[]" "''+00:00''"] l instant_of_fields[OF t]
      by (simp add: read_iso_def iso_def starts_with_def read_offset_def)
  next
    case False
    then show ?thesis
      using read_fields_text[OF fields_fit[OF t, THEN conjunct1], of "''T''" "[]" "''.'' @ fixed 6 (t mod 1000000) @ ''+00:00''"]
        l instant_of_fields[OF t] us
      by (simp add: read_iso_def iso_def starts_with_def read_offset_def)
  qed
qed

lemma stamp_no_T: "in_time t \<Longrightarrow> CHR ''T'' \<notin> set (stamp t)"
proof -
  assume "in_time t"
  then obtain y mo d h mi se us where f: "time_fields t = [y, mo, d, h, mi, se, us]" by (rule fields_parts)
  have "CHR ''T'' \<notin> set (fixed k m)" for k m
    using fixed_dec[of k m] by (auto simp: list_all_iff is_dec_def code_def)
  then show ?thesis by (simp add: stamp_def f fields_text_def stamp_shape_def date_shape_def)
qed

end
