(* ===== verification/Run_Store.thy ===== *)
theory Run_Store
  imports Py_Time Json Wf_Config
begin

section \<open>The table of runs\<close>

text \<open>
  The tables \<open>agent_runs\<close> and \<open>agent_runs_traces\<close> (\<open>agent_store/run_store.py\<close>), the statements of \<open>core/run_main.py\<close> over it,
  and the surroundings of that module: clock, time zone, cipher, file store.  A statement sees the table
  as a list of rows; an \<open>UPDATE\<close> changes the rows its \<open>WHERE\<close> selects and reports their number.
\<close>

datatype run_status = SRunning | SSuccess | SError | SCancelled | SAwaiting

definition status_str :: "run_status \<Rightarrow> string" where
  "status_str s = (case s of SRunning \<Rightarrow> ''running'' | SSuccess \<Rightarrow> ''success'' | SError \<Rightarrow> ''error''
     | SCancelled \<Rightarrow> ''cancelled'' | SAwaiting \<Rightarrow> ''awaiting'')"

record run_row =
  u_id :: string
  u_trigger :: string
  u_owner :: string
  u_org :: "string option"
  u_agents :: "string option"
  u_config :: "string option"
  u_file_name :: "string option"
  u_file_path :: "string option"
  u_status :: run_status
  u_attempts :: int
  u_error :: "string option"
  u_created :: "string option"
  u_finished :: "string option"
  u_replay :: "string option"
  u_tools :: "string option"
  u_paused :: "string option"
  u_assignee :: "string option"
  u_decision :: "string option"
  u_resumed :: "string option"
  u_expires :: "string option"
  u_remind :: "string option"
  u_notified :: "string option"
  u_reminded :: "string option"
  u_end_notice :: "string option"
  u_workflow :: "string option"
  u_info :: "string option"
  u_failure :: "string option"
  u_failed_node :: "string option"
  u_alert :: "string option"

datatype run_error = Refused int pyval | Failed exn

record 'w renv =
  e_utc :: "'w \<Rightarrow> int \<times> 'w"
  e_local :: "int \<Rightarrow> int"
  e_instant :: "int \<Rightarrow> int"
  e_encrypt :: "string \<Rightarrow> string res"
  e_decrypt :: "string \<Rightarrow> string res"
  e_nanoid :: "'w \<Rightarrow> string \<times> 'w"
  e_versions :: "pyval list \<Rightarrow> pydict"
  e_store_file :: "string \<Rightarrow> string \<Rightarrow> string \<Rightarrow> string option"
  e_read_file :: "string \<Rightarrow> string option"
  e_learn :: "pydict \<Rightarrow> 'w \<Rightarrow> 'w"
  e_workflow :: "string \<Rightarrow> string \<Rightarrow> pydict option"
  e_venv :: venv
  e_workflow_at :: "string \<Rightarrow> pyval \<Rightarrow> string \<Rightarrow> pyval option"

record trace_row =
  w_id :: string
  w_events :: "string option"
  w_truncated :: bool
  w_updated :: "string option"

record 'w db =
  d_runs :: "run_row list"
  d_traces :: "trace_row list"
  d_world :: 'w

type_synonym ('w, 'a) tact = "('w db, run_error, 'a) act"

subsection \<open>Statements\<close>

definition changed :: "('r \<Rightarrow> bool) \<Rightarrow> ('r \<Rightarrow> 'r) \<Rightarrow> 'r list \<Rightarrow> 'r list" where
  "changed p f rows = map (\<lambda>r. if p r then f r else r) rows"

definition select :: "(run_row \<Rightarrow> bool) \<Rightarrow> ('w, run_row list) tact" where
  "select p = sget (\<lambda>s. filter p (d_runs s))"

definition fetch_run :: "string \<Rightarrow> ('w, run_row option) tact" where
  "fetch_run i = sget (\<lambda>s. find (\<lambda>r. u_id r = i) (d_runs s))"

text \<open>A block \<open>with engine.begin()\<close>: an exception that leaves it undoes its statements.\<close>

definition atomic :: "('w, 'a) tact \<Rightarrow> ('w, 'a) tact" where
  "atomic m s = (case m s of (Inl e, t) \<Rightarrow> (Inl e, t\<lparr>d_runs := d_runs s, d_traces := d_traces s\<rparr>) | (Inr x, t) \<Rightarrow> (Inr x, t))"

definition reject :: "int \<Rightarrow> pyval \<Rightarrow> ('w, 'a) tact" where
  "reject n d = sthrow (Refused n d)"

definition liftr :: "'a res \<Rightarrow> ('w, 'a) tact" where
  "liftr r = slift (map_err Failed r)"

subsection \<open>The statements that write\<close>

text \<open>
  One constructor per \<open>INSERT\<close> and \<open>UPDATE\<close> of the module, with the values it is given; \<open>where_of\<close> and
  \<open>set_of\<close> are its \<open>WHERE\<close> and its \<open>SET\<close>.  A comparison with \<open>NULL\<close> does not hold.
\<close>

datatype stmt =
    Insert run_row
  | Finish string run_status "string option" string
  | Give_back string string "string option"
  | Info string string
  | Tools string string
  | Reopen string
  | Settle string string string bool
  | Expire string string string
  | Release_dead string
  | Pause string string string "string option" string string
  | Unreadable string string
  | Take string string
  | Decided string "string option"
  | Release string
  | Abandon string string
  | Stop string "string option" string
  | Keep_failure string string "string option"
  | Purge string
  | Forget string
  | Consume string

definition EXPIRED_MESSAGE :: string where "EXPIRED_MESSAGE = ''Decision humaine expiree : personne n'a repondu avant l'echeance.''"
definition UNREADABLE_MESSAGE :: string where "UNREADABLE_MESSAGE = 
    ''Decision humaine illisible : l'instantane ne se dechiffre plus (ENCRYPT_KEY changee depuis la pause ?).''"
definition ABANDONED_MESSAGE :: string where "ABANDONED_MESSAGE = ''Decision humaine abandonnee''"
definition STOPPED_MESSAGE :: string where
  "STOPPED_MESSAGE = ''Decision humaine abandonnee : run arrete avant que la reponse soit prise.''"

definition at_most :: "string option \<Rightarrow> string \<Rightarrow> bool" where
  "at_most c x = (case c of None \<Rightarrow> False | Some y \<Rightarrow> y \<le> x)"

definition resumed_as :: "run_row \<Rightarrow> string option \<Rightarrow> bool" where
  "resumed_as r c = (c = None \<or> u_resumed r = c)"

fun where_of :: "stmt \<Rightarrow> run_row \<Rightarrow> bool" where
  "where_of (Insert _) r = False"
| "where_of (Finish i _ _ _) r = (u_id r = i \<and> u_status r \<noteq> SAwaiting)"
| "where_of (Give_back i _ _) r = (u_id r = i \<and> u_status r = SError \<and> u_failure r = None)"
| "where_of (Info i _) r = (u_id r = i \<and> u_status r = SError)"
| "where_of (Tools i _) r = (u_id r = i)"
| "where_of (Reopen i) r = (u_id r = i \<and> u_status r = SRunning)"
| "where_of (Settle i _ _ _) r = (u_id r = i \<and> u_status r = SRunning)"
| "where_of (Expire i e _) r = (u_id r = i \<and> u_status r = SAwaiting \<and> u_expires r = Some e)"
| "where_of (Release_dead stale) r =
     (u_status r = SRunning \<and> u_paused r \<noteq> None \<and> at_most (u_resumed r) stale)"
| "where_of (Pause i _ _ _ _ _) r = (u_id r = i)"
| "where_of (Unreadable i _) r = (u_id r = i \<and> u_status r = SAwaiting)"
| "where_of (Take i _) r = (u_id r = i \<and> u_status r = SAwaiting)"
| "where_of (Decided i c) r = (u_id r = i \<and> u_status r = SRunning \<and> resumed_as r c)"
| "where_of (Release i) r = (u_id r = i \<and> u_status r = SRunning \<and> u_paused r \<noteq> None)"
| "where_of (Abandon i _) r = (u_id r = i \<and> u_status r = SAwaiting)"
| "where_of (Stop i c _) r = (u_id r = i \<and> u_status r = SRunning \<and> u_paused r \<noteq> None \<and> resumed_as r c)"
| "where_of (Keep_failure i _ _) r = (u_id r = i)"
| "where_of (Purge cutoff) r = (u_failure r \<noteq> None \<and> at_most (u_finished r) cutoff)"
| "where_of (Forget i) r = (u_id r = i)"
| "where_of (Consume i) r = (u_id r = i \<and> u_failure r \<noteq> None)"

fun set_of :: "stmt \<Rightarrow> run_row \<Rightarrow> run_row" where
  "set_of (Insert _) r = r"
| "set_of (Finish _ st m t) r = (let r' = r\<lparr>u_status := st, u_error := m, u_info := None, u_finished := Some t,
     u_paused := None, u_assignee := None, u_decision := None\<rparr> in
     if st = SError then r' else r'\<lparr>u_failure := None, u_failed_node := None\<rparr>)"
| "set_of (Give_back _ x n) r = r\<lparr>u_failure := Some x, u_failed_node := n\<rparr>"
| "set_of (Info _ x) r = r\<lparr>u_info := Some x\<rparr>"
| "set_of (Tools _ x) r = r\<lparr>u_tools := Some x\<rparr>"
| "set_of (Reopen _) r = r\<lparr>u_status := SAwaiting, u_resumed := None\<rparr>"
| "set_of (Settle _ m t clear) r = (let r' = r\<lparr>u_status := SError, u_error := Some m, u_finished := Some t\<rparr> in
     if clear then r'\<lparr>u_failure := None, u_failed_node := None\<rparr> else r')"
| "set_of (Expire _ _ t) r = r\<lparr>u_status := SError, u_error := Some EXPIRED_MESSAGE, u_finished := Some t,
     u_paused := None, u_decision := None, u_end_notice := Some ''pending''\<rparr>"
| "set_of (Release_dead _) r = r\<lparr>u_status := SAwaiting, u_resumed := None\<rparr>"
| "set_of (Pause _ sealed dec who expires remind) r = r\<lparr>u_status := SAwaiting, u_paused := Some sealed,
     u_decision := Some dec, u_assignee := who, u_expires := Some expires, u_finished := None, u_resumed := None,
     u_remind := Some remind, u_notified := None, u_reminded := None, u_end_notice := None\<rparr>"
| "set_of (Unreadable _ t) r = r\<lparr>u_status := SError, u_error := Some UNREADABLE_MESSAGE, u_finished := Some t,
     u_paused := None, u_decision := None, u_end_notice := Some ''pending''\<rparr>"
| "set_of (Take _ t) r = r\<lparr>u_status := SRunning, u_resumed := Some t\<rparr>"
| "set_of (Decided _ _) r = r\<lparr>u_paused := None, u_decision := None, u_assignee := None\<rparr>"
| "set_of (Release _) r = r\<lparr>u_status := SAwaiting, u_resumed := None\<rparr>"
| "set_of (Abandon _ t) r = r\<lparr>u_status := SCancelled, u_paused := None, u_decision := None,
     u_error := Some ABANDONED_MESSAGE, u_finished := Some t, u_end_notice := Some ''pending''\<rparr>"
| "set_of (Stop _ _ t) r = r\<lparr>u_status := SCancelled, u_paused := None, u_decision := None,
     u_error := Some STOPPED_MESSAGE, u_finished := Some t, u_end_notice := Some ''pending''\<rparr>"
| "set_of (Keep_failure _ x n) r = r\<lparr>u_failure := Some x, u_failed_node := n\<rparr>"
| "set_of (Purge _) r = r\<lparr>u_failure := None\<rparr>"
| "set_of (Forget _) r = r\<lparr>u_failure := None, u_failed_node := None\<rparr>"
| "set_of (Consume _) r = r\<lparr>u_failure := None\<rparr>"

definition run_stmt :: "stmt \<Rightarrow> run_row list \<Rightarrow> run_row list" where
  "run_stmt q rows = (case q of
     Insert r \<Rightarrow> if u_id r \<in> u_id ` set rows then rows else rows @ [r]
   | _ \<Rightarrow> changed (where_of q) (set_of q) rows)"

text \<open>The row count of an \<open>UPDATE\<close>; an \<open>INSERT\<close> of an identifier in use raises.\<close>

definition commit :: "stmt \<Rightarrow> ('w, nat) tact" where
  "commit q s = (Inr (length (filter (where_of q) (d_runs s))), s\<lparr>d_runs := run_stmt q (d_runs s)\<rparr>)"

definition insert_row :: "run_row \<Rightarrow> ('w, nat) tact" where
  "insert_row r = sbind (sget (\<lambda>s. u_id r \<in> u_id ` set (d_runs s))) (\<lambda>taken.
     if taken then sthrow (Failed (PyError ''IntegrityError'')) else commit (Insert r))"

subsection \<open>Clock: \<open>_now\<close>, \<open>datetime.now\<close>\<close>

definition utc_now :: "'w renv \<Rightarrow> ('w, int) tact" where
  "utc_now v s = (case e_utc v (d_world s) of (t, w) \<Rightarrow> (Inr t, s\<lparr>d_world := w\<rparr>))"

definition local_now :: "'w renv \<Rightarrow> ('w, int) tact" where
  "local_now v = sbind (utc_now v) (\<lambda>t. sret (e_local v t))"

definition now_text :: "'w renv \<Rightarrow> ('w, string) tact" where
  "now_text v = sbind (local_now v) (\<lambda>t. sret (stamp t))"

definition HOUR :: int where "HOUR = 3600000000"

definition RUN_STALE_AFTER :: int where "RUN_STALE_AFTER = 6 * HOUR"

definition RETRY_STATE_TTL :: int where "RETRY_STATE_TTL = 7 * 24 * HOUR"

subsection \<open>JSON columns\<close>

definition loads_or :: "string \<Rightarrow> string option \<Rightarrow> pyval res" where
  "loads_or dflt c = of_opt (PyError ''JSONDecodeError'')
     (json_loads (case c of None \<Rightarrow> dflt | Some s \<Rightarrow> if s = [] then dflt else s))"

text \<open>\<open>json.loads(config or "{}")\<close>, read as a dict.\<close>

definition config_of :: "run_row \<Rightarrow> pydict res" where
  "config_of r = ebind (loads_or ''{}'' (u_config r)) (\<lambda>v. case v of PDict d \<Rightarrow> Inr d | _ \<Rightarrow> Inl (PyError ''AttributeError''))"

definition filled :: "string option \<Rightarrow> bool" where
  "filled c = (c \<noteq> None \<and> c \<noteq> Some [])"

subsection \<open>\<open>_instant\<close>, \<open>_iso\<close>, \<open>_utc_iso\<close>\<close>

definition instant_at :: "'w renv \<Rightarrow> string \<Rightarrow> int option" where
  "instant_at v s = (if contains_str ''T'' s then map_option fst (read_iso s)
     else map_option (e_instant v) (read_stamp s))"

definition seconds_text :: "int \<Rightarrow> string" where
  "seconds_text t = fields_text (date_shape ''T'' @ [(2, [])]) (butlast (time_fields t))"

definition utc_iso :: "'w renv \<Rightarrow> string option \<Rightarrow> string option" where
  "utc_iso v c = (case c of None \<Rightarrow> None
     | Some s \<Rightarrow> if s = [] then Some s else (case instant_at v s of None \<Rightarrow> Some s
         | Some t \<Rightarrow> Some (seconds_text t @ ''.'' @ fixed 3 (t mod 1000000 div 1000) @ ''+00:00'')))"

subsection \<open>\<open>_seal\<close>, \<open>_unseal\<close>\<close>

definition seal :: "'w renv \<Rightarrow> pydict \<Rightarrow> string res" where
  "seal v st = e_encrypt v (json_dumps (PDict st))"

definition unseal :: "'w renv \<Rightarrow> string \<Rightarrow> pydict res" where
  "unseal v raw = ebind (if starts_with ''{'' (lstrip_by is_space raw) then Inr raw else e_decrypt v raw) (\<lambda>x.
     ebind (of_opt (PyError ''JSONDecodeError'') (json_loads x)) (\<lambda>j.
     case j of PDict d \<Rightarrow> Inr d | _ \<Rightarrow> Inl (PyError ''AttributeError'')))"

text \<open>\<open>except (InvalidToken, ValueError)\<close>\<close>

definition unreadable :: "exn \<Rightarrow> bool" where
  "unreadable e = (e \<in> {PyError ''InvalidToken'', PyError ''ValueError'', PyError ''JSONDecodeError''})"

end
