(* ===== verification/Run_Upkeep.thy ===== *)
theory Run_Upkeep
  imports Run_Store
begin

section \<open>What reading a run keeps up to date\<close>

text \<open>
  Reads of \<open>core/run_main.py\<close> first settle what no process settled: decisions past their deadline,
  resumptions that died before they took the answer, snapshots of failures that are too old, runs that
  never recorded their end.
\<close>

definition sdo :: "('w, 'a) tact \<Rightarrow> ('w, unit) tact" where
  "sdo m = sbind m (\<lambda>_. sret ())"

subsection \<open>\<open>_expire_due\<close>\<close>

text \<open>A deadline that cannot be read is skipped.\<close>

definition expire_one :: "'w renv \<Rightarrow> int \<Rightarrow> run_row \<Rightarrow> ('w, unit) tact" where
  "expire_one v now r = (case u_expires r of None \<Rightarrow> sret ()
     | Some e \<Rightarrow> (case instant_at v e of None \<Rightarrow> sret ()
       | Some t \<Rightarrow> if t \<le> now then sbind (now_text v) (\<lambda>x. sdo (commit (Expire (u_id r) e x))) else sret ()))"

definition expire_due_at :: "'w renv \<Rightarrow> int \<Rightarrow> ('w, unit) tact" where
  "expire_due_at v now = sbind (select (\<lambda>r. u_status r = SAwaiting \<and> u_expires r \<noteq> None)) (\<lambda>pending.
     sdo (smap (expire_one v now) pending))"

definition expire_due :: "'w renv \<Rightarrow> ('w, unit) tact" where
  "expire_due v = sbind (utc_now v) (expire_due_at v)"

subsection \<open>\<open>_release_dead_resumptions\<close>, \<open>_purge_failure_states\<close>\<close>

definition release_dead_resumptions :: "'w renv \<Rightarrow> ('w, unit) tact" where
  "release_dead_resumptions v = sbind (local_now v) (\<lambda>now.
     sdo (commit (Release_dead (stamp (now - RUN_STALE_AFTER)))))"

definition purge_failure_states :: "'w renv \<Rightarrow> ('w, unit) tact" where
  "purge_failure_states v = sbind (local_now v) (\<lambda>now. sdo (commit (Purge (stamp (now - RETRY_STATE_TTL)))))"

subsection \<open>\<open>_give_back_retry\<close>\<close>

text \<open>\<open>"retry_from" in json.loads(config or "{}")\<close>\<close>

definition is_retry :: "run_row \<Rightarrow> bool res" where
  "is_retry r = ebind (loads_or ''{}'' (u_config r)) (\<lambda>c. case c of
     PDict d \<Rightarrow> Inr (''retry_from'' \<in> set (dkeys d))
   | PList xs \<Rightarrow> Inr (py_in (PStr ''retry_from'') xs)
   | PStr s \<Rightarrow> Inr (contains_str ''retry_from'' s)
   | _ \<Rightarrow> Inl (PyError ''TypeError''))"

definition give_back_retry :: "string \<Rightarrow> ('w, unit) tact" where
  "give_back_retry i = sbind (fetch_run i) (\<lambda>found. case found of
     None \<Rightarrow> sret ()
   | Some r \<Rightarrow> (case (u_replay r, u_failure r) of
       (Some orig, Some x) \<Rightarrow>
         if orig = [] \<or> x = [] then sret ()
         else sbind (liftr (is_retry r)) (\<lambda>retry.
           if retry then sdo (commit (Give_back orig x (u_failed_node r))) else sret ())
     | _ \<Rightarrow> sret ()))"

subsection \<open>\<open>_reconcile_if_orphaned\<close>\<close>

definition SETTLED_MESSAGE :: string where
  "SETTLED_MESSAGE = ''Run settled by reconciliation: no completion was recorded within 6h; its actual outcome is unknown.''"

definition or_text :: "string option \<Rightarrow> string option \<Rightarrow> string option" where
  "or_text a b = (if filled a then a else b)"

text \<open>The start of the run, or of its resumption, when it is old enough to call the run lost.\<close>

definition lost_since :: "int \<Rightarrow> run_row \<Rightarrow> bool" where
  "lost_since now r = (u_status r = SRunning \<and>
     (case or_text (u_resumed r) (u_created r) of None \<Rightarrow> False
      | Some c \<Rightarrow> c \<noteq> [] \<and> (case read_stamp c of None \<Rightarrow> False | Some t \<Rightarrow> RUN_STALE_AFTER \<le> now - t)))"

definition reconcile :: "'w renv \<Rightarrow> run_row option \<Rightarrow> ('w, run_row option) tact" where
  "reconcile v row = (case row of None \<Rightarrow> sret None
   | Some r \<Rightarrow>
     if u_status r \<noteq> SRunning \<or> \<not> filled (or_text (u_resumed r) (u_created r)) then sret (Some r)
     else sbind (local_now v) (\<lambda>now.
       if \<not> lost_since now r then sret (Some r)
       else if filled (u_paused r) then sbind (commit (Reopen (u_id r))) (\<lambda>_. fetch_run (u_id r))
       else sbind (liftr (is_retry r)) (\<lambda>retry.
         sbind (if retry then give_back_retry (u_id r) else sret ()) (\<lambda>_.
         sbind (now_text v) (\<lambda>t.
         sbind (commit (Settle (u_id r) SETTLED_MESSAGE t retry)) (\<lambda>_.
         fetch_run (u_id r)))))))"

end
