(* ===== verification/Run_Record.thy ===== *)
theory Run_Record
  imports Run_Upkeep
begin

section \<open>Recording runs\<close>

text \<open>
  The part of \<open>core/run_main.py\<close> that opens and closes the record of a run, tells it to its
  owner, and opens its replay.
\<close>

subsection \<open>\<open>start_run\<close>, \<open>start_run_safely\<close>\<close>

record start_args =
  s_trigger :: string
  s_owner :: string
  s_agents :: "pyval list"
  s_config :: pydict
  s_file :: "string option"
  s_file_name :: "string option"
  s_run_id :: "string option"
  s_org :: "string option"
  s_replay :: "string option"

definition new_id :: "'w renv \<Rightarrow> ('w, string) tact" where
  "new_id v s = (case e_nanoid v (d_world s) of (i, w) \<Rightarrow> (Inr i, s\<lparr>d_world := w\<rparr>))"

text \<open>The input is lost, not the run, when the disk refuses it.\<close>

definition stored_input :: "'w renv \<Rightarrow> string \<Rightarrow> start_args \<Rightarrow> string option" where
  "stored_input v i a = (case (s_file a, s_file_name a) of
     (Some bytes, Some name) \<Rightarrow> if name = [] then None else e_store_file v i bytes name
   | _ \<Rightarrow> None)"

definition pinned_config :: "'w renv \<Rightarrow> start_args \<Rightarrow> pydict" where
  "pinned_config v a = (let cfg = ddel (s_config a) ''_agent_versions''; vs = e_versions v (s_agents a) in
     if vs = [] then cfg else dset cfg ''_agent_versions'' (PDict vs))"

definition new_row :: "'w renv \<Rightarrow> start_args \<Rightarrow> string \<Rightarrow> string \<Rightarrow> run_row" where
  "new_row v a i now = (let cfg = pinned_config v a; wid = get0 cfg ''workflow_id'' in
     \<lparr>u_id = i, u_trigger = s_trigger a, u_owner = s_owner a, u_org = s_org a,
      u_agents = Some (json_dumps_ascii (PList (s_agents a))), u_config = Some (json_dumps_ascii (PDict cfg)),
      u_file_name = s_file_name a, u_file_path = stored_input v i a, u_status = SRunning, u_attempts = 1,
      u_error = None, u_created = Some now, u_finished = None, u_replay = s_replay a, u_tools = None,
      u_paused = None, u_assignee = None, u_decision = None, u_resumed = None, u_expires = None,
      u_remind = None, u_notified = None, u_reminded = None, u_end_notice = None,
      u_workflow = (if truthy wid then Some (py_str wid) else None), u_info = None, u_failure = None,
      u_failed_node = None, u_alert = None\<rparr>)"

text \<open>An identifier in use is replaced by a fresh one.\<close>

definition start_run :: "'w renv \<Rightarrow> start_args \<Rightarrow> ('w, string) tact" where
  "start_run v a = sbind (case s_run_id a of Some i \<Rightarrow> (if i = [] then new_id v else sret i) | None \<Rightarrow> new_id v) (\<lambda>i.
     sbind (now_text v) (\<lambda>now.
     let row = new_row v a i now in
     stry (atomic (insert_row row)) (\<lambda>r. case r of
       Inr _ \<Rightarrow> sret i
     | Inl (Failed (PyError cls)) \<Rightarrow>
         if cls = ''IntegrityError''
         then sbind (new_id v) (\<lambda>j. sbind (atomic (insert_row (row\<lparr>u_id := j\<rparr>))) (\<lambda>_. sret j))
         else sthrow (Failed (PyError cls))
     | Inl e \<Rightarrow> sthrow e)))"

definition start_run_safely :: "'w renv \<Rightarrow> start_args \<Rightarrow> ('w, string option) tact" where
  "start_run_safely v a = stry (start_run v a) (\<lambda>r. case r of Inr i \<Rightarrow> sret (Some i) | Inl _ \<Rightarrow> sret None)"

subsection \<open>\<open>finish_run\<close>, \<open>record_failure\<close>, \<open>record_tools_executed\<close>\<close>

definition finish_run :: "'w renv \<Rightarrow> string \<Rightarrow> run_status \<Rightarrow> string option \<Rightarrow> ('w, unit) tact" where
  "finish_run v i st m = atomic (sbind (if st = SCancelled then give_back_retry i else sret ()) (\<lambda>_.
     sbind (now_text v) (\<lambda>t. sdo (commit (Finish i st m t)))))"

definition STRUCTURAL_PARAMS :: "string list" where
  "STRUCTURAL_PARAMS = [''node'', ''field'', ''max'', ''seconds'', ''limit'', ''status'', ''days'', ''run_id'',
     ''tool'', ''tool_name'', ''agent'', ''workflow'', ''workflow_id'', ''connection'', ''service'', ''provider'',
     ''transport'', ''table'', ''sqlstate'', ''header'', ''format'', ''type'', ''kind'', ''mode'', ''route'', ''routes'',
     ''triggers'', ''to'', ''expected'', ''actual'', ''value'', ''options'', ''problem'', ''reason'', ''ref'']"

definition MASKED_PARAM :: pyval where "MASKED_PARAM = PStr ''...''"

definition safe_error_params :: "pyval \<Rightarrow> pydict option" where
  "safe_error_params ps = (case ps of
     PDict d \<Rightarrow> Some (map (\<lambda>(k, x). (k, if k \<in> set STRUCTURAL_PARAMS then x else MASKED_PARAM)) d)
   | _ \<Rightarrow> None)"

definition failure_info :: "pydict \<Rightarrow> pydict" where
  "failure_info e = [(k, get0 e k). k \<leftarrow> [''code'', ''ref'', ''failed_node''], get0 e k \<noteq> PNone]
     @ (case safe_error_params (get0 e ''params'') of None \<Rightarrow> []
        | Some ps \<Rightarrow> if ps = [] then [] else [(''params'', PDict ps)])"

definition record_failure :: "string \<Rightarrow> pydict option \<Rightarrow> ('w, unit) tact" where
  "record_failure i err = (case err of None \<Rightarrow> sret ()
     | Some e \<Rightarrow> if e = [] \<or> failure_info e = [] then sret ()
         else sdo (commit (Info i (json_dumps (PDict (failure_info e))))))"

definition record_tools_executed :: "string \<Rightarrow> pyval list option \<Rightarrow> ('w, unit) tact" where
  "record_tools_executed i tools = (case tools of None \<Rightarrow> sret ()
     | Some ts \<Rightarrow> sdo (commit (Tools i (json_dumps_ascii (PList ts)))))"

subsection \<open>\<open>_trigger_kind\<close>, \<open>_duration_ms\<close>, \<open>_row_to_dict\<close>\<close>

definition trigger_alias :: "string \<Rightarrow> string" where
  "trigger_alias t = (if t = ''workflow'' then ''manual''
     else if t = ''workflow_simulated_email'' then ''simulated_email'' else t)"

definition trigger_kind :: "string \<Rightarrow> pyval \<times> pyval" where
  "trigger_kind t = (case (if starts_with ''{'' t then json_loads t else None) of
     Some (PDict d) \<Rightarrow>
       if truthy (get0 d ''kind'')
       then (PStr (py_str (get0 d ''kind'')), if is_dict (get0 d ''detail'') then get0 d ''detail'' else PNone)
       else (PStr (trigger_alias t), PNone)
   | _ \<Rightarrow> (PStr (trigger_alias t), PNone))"

text \<open>\<open>round(delta.total_seconds() * 1000)\<close>\<close>

definition round_ms :: "int \<Rightarrow> int" where
  "round_ms us = (case round_double (of_int us / 1000000) of
     Fin q \<Rightarrow> (case round_double (q * 1000) of Fin r \<Rightarrow> round_half_even r | _ \<Rightarrow> 0) | _ \<Rightarrow> 0)"

definition duration_ms :: "string option \<Rightarrow> string option \<Rightarrow> pyval" where
  "duration_ms a b = (if \<not> filled a \<or> \<not> filled b then PNone
     else case (Option.bind a read_stamp, Option.bind b read_stamp) of
       (Some x, Some y) \<Rightarrow> PInt (max 0 (round_ms (y - x))) | _ \<Rightarrow> PNone)"

definition AGENT_TRIGGERS :: "string list" where "AGENT_TRIGGERS = [''schedule'', ''chat'']"

definition input_available :: "run_row \<Rightarrow> pyval list \<Rightarrow> pydict \<Rightarrow> bool" where
  "input_available r agents cfg = (
     if u_trigger r \<in> set AGENT_TRIGGERS then truthy (get0 cfg ''agent_name'') \<and> truthy (get0 cfg ''new_message'')
     else if agents = [] \<and> ''workflow_id'' \<in> set (dkeys cfg) \<and> ''version'' \<in> set (dkeys cfg) then True
     else filled (u_file_path r))"

definition shown_config :: "run_row \<Rightarrow> pydict" where
  "shown_config r = (case loads_or ''{}'' (u_config r) of Inr (PDict d) \<Rightarrow> d | _ \<Rightarrow> [])"

definition row_to_dict :: "'w renv \<Rightarrow> run_row \<Rightarrow> pydict res" where
  "row_to_dict v r =
     ebind (if u_status r = SAwaiting \<and> filled (u_decision r)
       then map_sum id Some (of_opt (PyError ''JSONDecodeError'') (Option.bind (u_decision r) json_loads)) else Inr None) (\<lambda>dec.
     ebind (loads_or ''[]'' (u_agents r)) (\<lambda>agents.
     ebind (if filled (u_tools r) then of_opt (PyError ''JSONDecodeError'') (Option.bind (u_tools r) json_loads) else Inr PNone) (\<lambda>tools.
     let cfg = shown_config r; (kind, detail) = trigger_kind (u_trigger r) in
     Inr ([(''run_id'', PStr (u_id r)), (''trigger'', PStr (u_trigger r)), (''owner_id'', PStr (u_owner r)),
       (''organization_id'', opt_pstr (u_org r)), (''agent_ids'', agents), (''config'', PDict cfg),
       (''input_file_name'', opt_pstr (u_file_name r)), (''status'', PStr (status_str (u_status r))),
       (''attempts'', PInt (u_attempts r)), (''error_message'', opt_pstr (u_error r)),
       (''created_at'', opt_pstr (utc_iso v (u_created r))), (''finished_at'', opt_pstr (utc_iso v (u_finished r))),
       (''replay_of'', opt_pstr (u_replay r)), (''tools_executed'', tools), (''expires_at'', opt_pstr (u_expires r)),
       (''remind_at'', opt_pstr (u_remind r)), (''notified_at'', opt_pstr (u_notified r)),
       (''reminded_at'', opt_pstr (u_reminded r)), (''end_notice'', opt_pstr (u_end_notice r)),
       (''failure_alert'', opt_pstr (u_alert r)),
       (''workflow_id'', opt_pstr (u_workflow r)), (''failure_node'', opt_pstr (u_failed_node r)),
       (''retry_available'', PBool (filled (u_failure r) \<and> u_status r = SError))]
       @ (case dec of None \<Rightarrow> [] | Some d \<Rightarrow> [(''decision'', d)])
       @ [(''error'', if filled (u_info r) then (case Option.bind (u_info r) json_loads of Some j \<Rightarrow> j | None \<Rightarrow> PNone) else PNone),
       (''trigger_kind'', kind), (''trigger_detail'', detail), (''duration_ms'', duration_ms (u_created r) (u_finished r)),
       (''input_available'', PBool (input_available r (case agents of PList xs \<Rightarrow> xs | _ \<Rightarrow> []) cfg))]))))"

subsection \<open>\<open>settle_run\<close>\<close>

definition learn_case :: "'w renv \<Rightarrow> string \<Rightarrow> ('w, unit) tact" where
  "learn_case v i = sbind (fetch_run i) (\<lambda>found. case Option.bind found (\<lambda>r. case row_to_dict v r of Inr d \<Rightarrow> Some d | Inl _ \<Rightarrow> None) of
     None \<Rightarrow> sret () | Some d \<Rightarrow> smod (\<lambda>s. s\<lparr>d_world := e_learn v d (d_world s)\<rparr>))"

definition settle_run ::
  "'w renv \<Rightarrow> string option \<Rightarrow> run_status \<Rightarrow> string option \<Rightarrow> pyval list option \<Rightarrow> ('w, unit) tact" where
  "settle_run v i st m tools = (case i of None \<Rightarrow> sret ()
     | Some j \<Rightarrow> stry (sbind (finish_run v j st m) (\<lambda>_. atomic (record_tools_executed j tools)))
         (\<lambda>r. case r of Inl _ \<Rightarrow> sret () | Inr _ \<Rightarrow> learn_case v j))"

subsection \<open>\<open>get_run\<close>, \<open>list_runs\<close>\<close>

text \<open>The row of a run that belongs to this owner, reconciled.\<close>

definition owned_run :: "'w renv \<Rightarrow> string \<Rightarrow> string \<Rightarrow> ('w, run_row option) tact" where
  "owned_run v i owner = sbind (select (\<lambda>r. u_id r = i \<and> u_owner r = owner)) (\<lambda>rows.
     reconcile v (case rows of [] \<Rightarrow> None | r # _ \<Rightarrow> Some r))"

definition get_run :: "'w renv \<Rightarrow> string \<Rightarrow> string \<Rightarrow> ('w, pydict option) tact" where
  "get_run v i owner = sbind (atomic (sbind (expire_due v) (\<lambda>_. sbind (purge_failure_states v) (\<lambda>_.
     owned_run v i owner)))) (\<lambda>row.
     case row of None \<Rightarrow> sret None | Some r \<Rightarrow> sbind (liftr (row_to_dict v r)) (\<lambda>d. sret (Some d)))"

definition RUN_STATUSES :: "string list" where
  "RUN_STATUSES = map status_str [SRunning, SSuccess, SError, SCancelled, SAwaiting]"

definition newest_first :: "run_row list \<Rightarrow> run_row list" where
  "newest_first rows = rev (sort_key (\<lambda>r. (case u_created r of None \<Rightarrow> [] | Some c \<Rightarrow> c)) (sort_key u_id rows))"

definition list_runs :: "'w renv \<Rightarrow> string \<Rightarrow> nat \<Rightarrow> nat \<Rightarrow> string option \<Rightarrow> string list option \<Rightarrow> ('w, pydict list) tact" where
  "list_runs v owner limit offset wid statuses =
     (let ss = (case statuses of None \<Rightarrow> [] | Some xs \<Rightarrow> xs) in
     if \<exists>x \<in> set ss. x \<notin> set RUN_STATUSES then sthrow (Failed (PyError ''ValueError''))
     else sbind (atomic (sbind (expire_due v) (\<lambda>_. sbind (purge_failure_states v) (\<lambda>_.
       sbind (select (\<lambda>r. u_owner r = owner \<and> (wid = None \<or> u_workflow r = wid)
         \<and> (ss = [] \<or> status_str (u_status r) \<in> set ss))) (\<lambda>rows.
       smap (\<lambda>r. reconcile v (Some r)) (take limit (drop offset (newest_first rows)))))))) (\<lambda>found.
     smap (\<lambda>r. liftr (row_to_dict v r)) (concat (map (\<lambda>r. case r of None \<Rightarrow> [] | Some x \<Rightarrow> [x]) found))))"

subsection \<open>\<open>_refuse_if_side_effects\<close>, \<open>prepare_replay\<close>\<close>

definition refuse_if_side_effects :: "string option \<Rightarrow> ('w, unit) tact" where
  "refuse_if_side_effects tools = (case tools of
     None \<Rightarrow> reject 409 (PStr ''It is unknown whether this run called any tool before failing.'')
   | Some t \<Rightarrow> sbind (liftr (loads_or ''[]'' (Some t))) (\<lambda>ts.
       if truthy ts then reject 409 (PStr ''This run already called tools before failing.'') else sret ()))"

definition replayable :: "run_row \<Rightarrow> bool \<Rightarrow> ('w, unit) tact" where
  "replayable r force = (
     if u_status r = SAwaiting then reject 409 (PStr ''This run is waiting for a human decision.'')
     else if u_status r \<notin> {SError, SCancelled} \<and> \<not> force
     then reject 409 (PStr (if u_status r = SRunning then ''This run is still in flight.'' else ''This run already ended.''))
     else if \<not> force \<and> u_trigger r \<in> set AGENT_TRIGGERS then refuse_if_side_effects (u_tools r)
     else sret ())"

definition kept_input :: "'w renv \<Rightarrow> run_row \<Rightarrow> ('w, string option) tact" where
  "kept_input v r = (case u_file_path r of None \<Rightarrow> sret None
     | Some p \<Rightarrow> if p = [] then sret None else (case e_read_file v p of Some b \<Rightarrow> sret (Some b)
         | None \<Rightarrow> reject 410 (PStr ''The preserved input for this run is no longer on disk.'')))"

definition replay_args :: "run_row \<Rightarrow> string \<Rightarrow> pyval list \<Rightarrow> pydict \<Rightarrow> string option \<Rightarrow> start_args" where
  "replay_args r owner agents cfg file = \<lparr>s_trigger = (if u_trigger r = [] then ''workflow'' else u_trigger r), s_owner = owner,
     s_agents = agents, s_config = ddel cfg ''retry_from'', s_file = file, s_file_name = u_file_name r,
     s_run_id = None, s_org = u_org r, s_replay = Some (u_id r)\<rparr>"

definition prepare_replay :: "'w renv \<Rightarrow> string \<Rightarrow> string \<Rightarrow> bool \<Rightarrow> ('w, string \<times> start_args) tact" where
  "prepare_replay v i owner force = sbind (atomic (sbind (expire_due v) (\<lambda>_. owned_run v i owner))) (\<lambda>row.
     case row of None \<Rightarrow> reject 404 (PStr ''Run not found, or you do not have permission to replay it.'')
     | Some r \<Rightarrow>
       sbind (replayable r force) (\<lambda>_.
       sbind (kept_input v r) (\<lambda>file.
       sbind (liftr (loads_or ''[]'' (u_agents r))) (\<lambda>agents.
       let a = replay_args r owner (case agents of PList xs \<Rightarrow> xs | _ \<Rightarrow> []) (shown_config r) file in
       sbind (start_run v a) (\<lambda>j. sret (j, a))))))"

end
