(* ===== verification/Run_Decision.thy ===== *)
theory Run_Decision
  imports Run_Record
begin

section \<open>Human decisions\<close>

text \<open>
  The pause of a run on a human decision, its answer, and the ways it ends without one
  (\<open>core/run_main.py\<close>).  Each \<open>with engine.begin()\<close> block is one \<open>atomic\<close>.
\<close>

subsection \<open>\<open>pause_run\<close>\<close>

definition DEFAULT_DECISION_HOURS :: int where "DEFAULT_DECISION_HOURS = 168"

text \<open>\<open>timedelta(hours=h)\<close> for the whole numbers of hours a valid node holds.\<close>

definition decision_hours :: "pydict \<Rightarrow> int res" where
  "decision_hours prompt = (case por (get0 prompt ''expires_after_hours'') (PInt DEFAULT_DECISION_HOURS) of
     PInt h \<Rightarrow> Inr h | PBool b \<Rightarrow> Inr (if b then 1 else 0) | _ \<Rightarrow> Inl (PyError ''TypeError''))"

text \<open>\<open>delay / 2\<close> rounds to even.\<close>

definition half :: "int \<Rightarrow> int" where
  "half d = round_half_even (of_int d / 2)"

definition remind_moment :: "int \<Rightarrow> int \<Rightarrow> int" where
  "remind_moment paused expires = expires - min (24 * HOUR) (half (expires - paused))"

text \<open>\<open>snapshot.get("prompt") or {}\<close>, whose \<open>get\<close> is asked next: what is no dict raises.\<close>

definition prompt_of :: "pydict \<Rightarrow> pydict res" where
  "prompt_of snap = (case por (get0 snap ''prompt'') (PDict []) of PDict d \<Rightarrow> Inr d | _ \<Rightarrow> Inl (PyError ''AttributeError''))"

definition decision_of :: "pydict \<Rightarrow> pydict \<Rightarrow> pydict" where
  "decision_of snap prompt = dupdate [(''node_id'', get0 snap ''node_id'')] prompt"

definition assignee_of :: "pydict \<Rightarrow> string option" where
  "assignee_of prompt = (case get0 prompt ''assignee'' of PStr s \<Rightarrow> Some (lower (strip s)) | _ \<Rightarrow> None)"

definition pause_run :: "'w renv \<Rightarrow> string \<Rightarrow> pydict \<Rightarrow> ('w, unit) tact" where
  "pause_run v i snap = sbind (liftr (prompt_of snap)) (\<lambda>prompt.
     sbind (utc_now v) (\<lambda>paused. sbind (liftr (decision_hours prompt)) (\<lambda>hours.
     let expires = paused + hours * HOUR; snap' = dset snap ''paused_at'' (PStr (iso paused));
         dec = dupdate (decision_of snap' prompt) [(''paused_at'', PStr (iso paused)), (''expires_at'', PStr (iso expires))] in
     sbind (liftr (seal v snap')) (\<lambda>sealed.
     sbind (commit (Pause i sealed (json_dumps (PDict dec)) (assignee_of prompt) (iso expires)
       (iso (remind_moment paused expires)))) (\<lambda>k.
     if k = 1 then sret () else sthrow (Failed (PyError ''LookupError'')))))))"

subsection \<open>\<open>_may_decide\<close>, \<open>_awaiting_row\<close>\<close>

definition may_decide :: "run_row \<Rightarrow> string \<Rightarrow> bool" where
  "may_decide r user = (u_owner r = user \<or> (case u_assignee r of None \<Rightarrow> [] | Some a \<Rightarrow> a) = lower user)"

definition code_detail :: "string \<Rightarrow> pyval" where
  "code_detail c = PDict [(''code'', PStr c)]"

definition closed_code :: "run_row \<Rightarrow> string option" where
  "closed_code r = (if u_error r = Some EXPIRED_MESSAGE then Some ''decision_expired''
     else if u_error r = Some UNREADABLE_MESSAGE then Some ''decision_state_unreadable'' else None)"

text \<open>\<open>_iso\<close> of a deadline: its instant, or an error the caller does not catch.\<close>

definition expired_detail :: "'w renv \<Rightarrow> run_row \<Rightarrow> pyval res" where
  "expired_detail v r = (if \<not> filled (u_expires r) then Inr (PDict [(''code'', PStr ''decision_expired''), (''expires_at'', opt_pstr (u_expires r))])
     else map_sum id (\<lambda>t. PDict [(''code'', PStr ''decision_expired''), (''expires_at'', PStr (iso t))])
       (of_opt (PyError ''ValueError'') (Option.bind (u_expires r) (instant_at v))))"

definition awaiting_row :: "'w renv \<Rightarrow> string \<Rightarrow> string \<Rightarrow> ('w, run_row) tact" where
  "awaiting_row v i user = sbind (fetch_run i) (\<lambda>found. case found of
     None \<Rightarrow> reject 404 (PStr ''Unknown run'')
   | Some r \<Rightarrow>
       if \<not> may_decide r user then reject 404 (PStr ''Unknown run'')
       else (case (if u_status r = SError then closed_code r else None) of
         Some c \<Rightarrow> if c = ''decision_expired'' then sbind (liftr (expired_detail v r)) (reject 409)
           else reject 409 (code_detail c)
       | None \<Rightarrow>
           if u_status r \<noteq> SAwaiting \<or> \<not> filled (u_paused r)
           then reject 409 (PDict [(''code'', PStr ''decision_already_answered''), (''status'', PStr (status_str (u_status r)))])
           else sret r))"

subsection \<open>\<open>list_awaiting\<close>\<close>

definition awaiting_entry :: "string \<Rightarrow> run_row \<Rightarrow> pydict res" where
  "awaiting_entry user r = ebind (config_of r) (\<lambda>cfg. ebind (loads_or ''{}'' (u_decision r)) (\<lambda>d.
     case d of PDict dec \<Rightarrow> Inr (dupdate [(''run_id'', PStr (u_id r)), (''owner_id'', PStr (u_owner r)),
         (''mine'', PBool (u_owner r = user)), (''workflow_id'', get0 cfg ''workflow_id'')] dec)
     | _ \<Rightarrow> Inl (PyError ''TypeError'')))"

definition list_awaiting :: "'w renv \<Rightarrow> string \<Rightarrow> ('w, pydict list) tact" where
  "list_awaiting v user = sbind (atomic (sbind (release_dead_resumptions v) (\<lambda>_. sbind (expire_due v) (\<lambda>_.
     select (\<lambda>r. u_status r = SAwaiting \<and> (u_owner r = user \<or> u_assignee r = Some (lower user))))))) (\<lambda>rows.
     smap (\<lambda>r. liftr (awaiting_entry user r)) (newest_first rows))"

subsection \<open>\<open>claim_paused_run\<close>\<close>

text \<open>The three transactions of a claim: settle what is due, read and open the snapshot, take the run.\<close>

definition settle_due :: "'w renv \<Rightarrow> ('w, unit) tact" where
  "settle_due v = atomic (sbind (release_dead_resumptions v) (\<lambda>_. expire_due v))"

definition read_claim :: "'w renv \<Rightarrow> string \<Rightarrow> string \<Rightarrow> ('w, run_row \<times> pydict option) tact" where
  "read_claim v i user = atomic (sbind (awaiting_row v i user) (\<lambda>r.
     case unseal v (case u_paused r of None \<Rightarrow> [] | Some x \<Rightarrow> x) of
       Inr st \<Rightarrow> sret (r, Some st)
     | Inl e \<Rightarrow> if unreadable e
         then sbind (now_text v) (\<lambda>t. sbind (commit (Unreadable i t)) (\<lambda>_. sret (r, None)))
         else sthrow (Failed e)))"

definition checked_answer :: "pydict \<Rightarrow> string option \<Rightarrow> string option \<Rightarrow> ('w, string option \<times> string option) tact" where
  "checked_answer prompt choice txt = (case check_decision_answer prompt choice txt of
     Inr a \<Rightarrow> sret a
   | Inl (GraphError m c ps) \<Rightarrow> reject 422 (PDict [(''code'', opt_pstr c), (''params'', PDict ps)])
   | Inl e \<Rightarrow> sthrow (Failed e))"

definition take_run :: "string \<Rightarrow> string \<Rightarrow> ('w, unit) tact" where
  "take_run i resumed_at = sbind (commit (Take i resumed_at)) (\<lambda>k.
     if k = 1 then sret () else reject 409 (code_detail ''decision_already_answered''))"

record claim =
  cl_run :: run_row
  cl_state :: pydict
  cl_answer :: pydict
  cl_resumed :: string

definition claim_paused_run ::
  "'w renv \<Rightarrow> string \<Rightarrow> string \<Rightarrow> string option \<Rightarrow> string option \<Rightarrow> ('w, claim) tact" where
  "claim_paused_run v i user choice txt =
     sbind (settle_due v) (\<lambda>_.
     sbind (now_text v) (\<lambda>resumed_at.
     sbind (read_claim v i user) (\<lambda>(r, st). case st of
       None \<Rightarrow> reject 409 (code_detail ''decision_state_unreadable'')
     | Some state \<Rightarrow>
         sbind (atomic (sbind (liftr (prompt_of state)) (\<lambda>prompt.
           sbind (checked_answer prompt choice txt) (\<lambda>(c, t).
           sbind (take_run i resumed_at) (\<lambda>_. sret (c, t)))))) (\<lambda>(c, t).
         sbind (utc_now v) (\<lambda>now.
         sbind (liftr (config_of r)) (\<lambda>_.
         sret \<lparr>cl_run = r, cl_state = state,
           cl_answer = [(''node_id'', get0 state ''node_id''), (''choice'', opt_pstr c), (''text'', opt_pstr t),
             (''answered_by'', PStr user), (''answered_at'', PStr (iso now))],
           cl_resumed = resumed_at\<rparr>))))))"

subsection \<open>\<open>mark_decided\<close>, \<open>release_paused_run\<close>, \<open>abandon_paused_run\<close>, \<open>stop_unanswered_resume\<close>\<close>

definition mark_decided :: "string \<Rightarrow> string option \<Rightarrow> ('w, bool) tact" where
  "mark_decided i resumed_at = sbind (commit (Decided i resumed_at)) (\<lambda>k. sret (k = 1))"

definition release_paused_run :: "string \<Rightarrow> ('w, unit) tact" where
  "release_paused_run i = sdo (commit (Release i))"

definition abandon_paused_run :: "'w renv \<Rightarrow> string \<Rightarrow> string \<Rightarrow> ('w, unit) tact" where
  "abandon_paused_run v i user = sbind (settle_due v) (\<lambda>_.
     atomic (sbind (awaiting_row v i user) (\<lambda>r.
     if u_owner r \<noteq> user then reject 403 (PStr ''Only the owner of the run can abandon it'')
     else sbind (now_text v) (\<lambda>t. sbind (commit (Abandon i t)) (\<lambda>k.
       if k = 1 then sret () else reject 409 (code_detail ''decision_already_answered''))))))"

definition stop_unanswered_resume :: "'w renv \<Rightarrow> string \<Rightarrow> string option \<Rightarrow> ('w, bool) tact" where
  "stop_unanswered_resume v i resumed_at = sbind (now_text v) (\<lambda>t.
     sbind (commit (Stop i resumed_at t)) (\<lambda>k. sret (k = 1)))"

end
