(* ===== verification/Run_Retry.thy ===== *)
theory Run_Retry
  imports Run_Decision Wf_Run
begin

section \<open>Resuming a failed run\<close>

text \<open>
  \<open>save_failure\<close> and \<open>prepare_retry\<close> of \<open>core/run_main.py\<close>: the snapshot of a run that failed, and
  the new run that starts from it; \<open>parse_graph\<close> and \<open>check_workflow\<close> of \<open>core/workflow_main.py\<close>.
\<close>

subsection \<open>\<open>parse_graph\<close>, \<open>check_workflow\<close>\<close>

definition INVALID_WORKFLOW :: exn where "INVALID_WORKFLOW = GraphError ''invalid workflow'' None []"

definition parsed_graph :: "pyval \<Rightarrow> wgraph res" where
  "parsed_graph g = of_opt INVALID_WORKFLOW (parse_graph g)"

text \<open>\<open>None\<close> for a valid graph; otherwise the message and, where the error has one, its code.\<close>

definition check_workflow :: "venv \<Rightarrow> pyval \<Rightarrow> string option \<Rightarrow> string option \<Rightarrow> (string \<times> (string \<times> pydict) option) option res" where
  "check_workflow env g wid owner =
     (case ebind (parsed_graph g) (validate_graph (env\<lparr>v_workflow := wid, v_owner := owner\<rparr>)) of
        Inr _ \<Rightarrow> Inr None
      | Inl (GraphError m c ps) \<Rightarrow> Inr (Some (m, case c of None \<Rightarrow> None | Some x \<Rightarrow> if x = [] then None else Some (x, ps)))
      | Inl e \<Rightarrow> Inl e)"

subsection \<open>\<open>save_failure\<close>\<close>

definition keep_failure :: "'w renv \<Rightarrow> string \<Rightarrow> pydict \<Rightarrow> ('w, unit) tact" where
  "keep_failure v i snap = sbind (atomic (sbind (purge_failure_states v) (\<lambda>_. sbind (liftr (seal v snap)) (\<lambda>sealed.
     commit (Keep_failure i sealed (case get0 snap ''failed_node'' of PStr n \<Rightarrow> Some n | _ \<Rightarrow> None)))))) (\<lambda>k.
     if k = 1 then sret () else sthrow (Failed (PyError ''LookupError'')))"

subsection \<open>\<open>_retry_refusal\<close>\<close>

definition refuse_code :: "string \<Rightarrow> pydict \<Rightarrow> ('w, 'a) tact" where
  "refuse_code c ps = reject 409 (PDict ([(''code'', PStr c)] @ (if ps = [] then [] else [(''params'', PDict ps)])))"

fun first_retry :: "run_row list \<Rightarrow> run_row option res" where
  "first_retry [] = Inr None"
| "first_retry (r # rs) = ebind (is_retry r) (\<lambda>b. if b then Inr (Some r) else first_retry rs)"

definition retry_refusal :: "'w renv \<Rightarrow> run_row \<Rightarrow> ('w, 'a) tact" where
  "retry_refusal v r = sbind (select (\<lambda>x. u_replay x = Some (u_id r))) (\<lambda>children.
     sbind (liftr (first_retry (newest_first children))) (\<lambda>found. case found of
       Some c \<Rightarrow> refuse_code ''retry_already_started'' [(''run_id'', PStr (u_id c))]
     | None \<Rightarrow> sbind (local_now v) (\<lambda>now.
         if filled (u_failed_node r) \<and> filled (u_finished r) \<and> at_most (u_finished r) (stamp (now - RETRY_STATE_TTL))
         then refuse_code ''retry_expired'' [(''days'', PInt 7)]
         else if filled (u_failed_node r) then refuse_code ''retry_already_started'' []
         else refuse_code ''retry_unavailable'' [])))"

subsection \<open>\<open>prepare_retry\<close>\<close>

definition is_triggered :: "string \<Rightarrow> bool" where
  "is_triggered t = (case json_loads t of Some (PDict _) \<Rightarrow> True | _ \<Rightarrow> False)"

text \<open>The run to resume and its snapshot, which is forgotten when it cannot be opened.\<close>

definition failed_state :: "'w renv \<Rightarrow> string \<Rightarrow> string \<Rightarrow> ('w, run_row \<times> pydict option) tact" where
  "failed_state v i owner = atomic (sbind (owned_run v i owner) (\<lambda>row. case row of
     None \<Rightarrow> reject 404 (PStr ''Unknown run'')
   | Some r \<Rightarrow>
       if u_status r \<noteq> SError
       then refuse_code ''retry_not_failed'' [(''status'', PStr (status_str (u_status r)))]
       else (case u_failure r of
         Some x \<Rightarrow>
           if x = [] then retry_refusal v r
           else (case unseal v x of
             Inr st \<Rightarrow> sret (r, Some st)
           | Inl e \<Rightarrow> if unreadable e then sbind (commit (Forget i)) (\<lambda>_. sret (r, None)) else sthrow (Failed e))
       | None \<Rightarrow> retry_refusal v r)))"

text \<open>The workflow as it is now; for a triggered run, never a draft.\<close>

definition current_workflow :: "'w renv \<Rightarrow> run_row \<Rightarrow> pydict \<Rightarrow> string \<Rightarrow> pydict option" where
  "current_workflow v r cfg owner = (let wid = get0 cfg ''workflow_id'' in
     case (if truthy wid then e_workflow v (py_str wid) owner else None) of
       None \<Rightarrow> None
     | Some flow \<Rightarrow>
         if is_triggered (u_trigger r) \<and> get0 flow ''status'' \<noteq> PStr ''published''
         then map_option (\<lambda>raw. dset (dset flow ''graph'' raw) ''version'' (get0 cfg ''version''))
           (e_workflow_at v (py_str wid) (get0 cfg ''version'') owner)
         else Some flow)"

definition checked_graph :: "'w renv \<Rightarrow> pyval \<Rightarrow> pyval \<Rightarrow> ('w, wgraph) tact" where
  "checked_graph v g wid = sbind (liftr (check_workflow (e_venv v) g (case wid of PStr i \<Rightarrow> Some i | _ \<Rightarrow> None) None)) (\<lambda>rep. case rep of
     Some (m, c) \<Rightarrow> reject 422 (case c of None \<Rightarrow> PStr m
       | Some (x, ps) \<Rightarrow> PDict [(''code'', PStr x), (''params'', PDict ps), (''message'', PStr m)])
   | None \<Rightarrow> liftr (parsed_graph g))"

definition replayed_ids :: "pydict \<Rightarrow> string list" where
  "replayed_ids st = (case por (get0 st ''outputs'') (PDict []) of PDict d \<Rightarrow> dkeys d | _ \<Rightarrow> [])"

text \<open>The nodes that changed, and the failed node or the \<open>until\<close> node when they are gone.\<close>

definition missing_nodes :: "wgraph \<Rightarrow> pydict \<Rightarrow> string list \<Rightarrow> string list" where
  "missing_nodes g st ch = fold (\<lambda>k acc. case get0 st k of
     PStr i \<Rightarrow> if i \<notin> set (node_ids g) \<and> i \<notin> set acc then acc @ [i] else acc | _ \<Rightarrow> acc)
     [''failed_node'', ''until''] ch"

definition changed_nodes :: "wgraph \<Rightarrow> pydict \<Rightarrow> string list res" where
  "changed_nodes g st = ebind (getitem st ''graph'') (\<lambda>old. map_sum id (missing_nodes g st) (retry_mismatch old g (replayed_ids st)))"

definition retry_config :: "pydict \<Rightarrow> pydict \<Rightarrow> pydict \<Rightarrow> pydict" where
  "retry_config cfg flow st = [(''workflow_id'', get0 cfg ''workflow_id''), (''version'', get0 flow ''version''),
     (''payload'', get0 st ''payload'')] @ (if get0 st ''until'' = PNone then [] else [(''until'', get0 st ''until'')])
     @ [(''retry_from'', get0 st ''failed_node'')]"

definition retry_args :: "run_row \<Rightarrow> string \<Rightarrow> pydict \<Rightarrow> start_args" where
  "retry_args r owner cfg = \<lparr>s_trigger = (if u_trigger r = [] then ''workflow'' else u_trigger r), s_owner = owner,
     s_agents = [], s_config = cfg, s_file = None, s_file_name = None, s_run_id = None, s_org = u_org r,
     s_replay = Some (u_id r)\<rparr>"

definition consume_failure :: "'w renv \<Rightarrow> run_row \<Rightarrow> ('w, unit) tact" where
  "consume_failure v r = atomic (sbind (commit (Consume (u_id r))) (\<lambda>k.
     if k = 1 then sret () else retry_refusal v r))"

record retry =
  rt_run :: string
  rt_graph :: wgraph
  rt_state :: pydict
  rt_config :: pydict

definition prepare_retry :: "'w renv \<Rightarrow> string \<Rightarrow> string \<Rightarrow> ('w, retry) tact" where
  "prepare_retry v i owner =
     sbind (atomic (purge_failure_states v)) (\<lambda>_.
     sbind (failed_state v i owner) (\<lambda>(r, found). case found of
       None \<Rightarrow> refuse_code ''retry_state_unreadable'' []
     | Some st \<Rightarrow>
       sbind (liftr (config_of r)) (\<lambda>cfg.
       case current_workflow v r cfg owner of
         None \<Rightarrow> refuse_code ''retry_workflow_missing'' []
       | Some flow \<Rightarrow>
         sbind (checked_graph v (get0 flow ''graph'') (get0 cfg ''workflow_id'')) (\<lambda>g.
         sbind (liftr (changed_nodes g st)) (\<lambda>ch.
         if ch \<noteq> [] then refuse_code ''retry_graph_changed'' [(''nodes'', PList (map PStr ch))]
         else sbind (consume_failure v r) (\<lambda>_.
           let cfg' = retry_config cfg flow st; st' = dset st ''graph'' (dump_graph g) in
           sbind (start_run v (retry_args r owner cfg')) (\<lambda>j.
           sbind (stry (keep_failure v j st') (\<lambda>_. sret ())) (\<lambda>_.
           sret \<lparr>rt_run = j, rt_graph = g, rt_state = st', rt_config = cfg'\<rparr>))))))))"

end
