(* ===== verification/Trg_Store.thy ===== *)
theory Trg_Store
  imports Run_Retry Wf_Cron Wf_Convert
begin

section \<open>The table of triggers\<close>

text \<open>
  \<open>workflow_triggers\<close> (\<open>agent_store/workflow_trigger_store.py\<close>) and the part of
  \<open>core/workflow_triggers.py\<close> that keeps it in step with the workflows.  The state is the table, the
  files seen by the polls, and the records of runs of \<open>Run_Store\<close>.
\<close>

record trigger =
  y_workflow :: string
  y_owner :: string
  y_kind :: string
  y_config :: string
  y_active :: bool
  y_hash :: "string option"
  y_token :: "string option"
  y_hmac :: bool
  y_secret :: "string option"
  y_next :: "string option"
  y_fired :: "string option"
  y_status :: "string option"
  y_run :: "string option"
  y_created :: "string option"
  y_updated :: "string option"

record seen_file =
  sf_workflow :: string
  sf_id :: pyval
  sf_modified :: pyval
  sf_at :: string

record 'w flows =
  fl_triggers :: "trigger list"
  fl_seen :: "seen_file list"
  fl_db :: "'w db"

type_synonym ('w, 'a) fact = "('w flows, run_error, 'a) act"

text \<open>
  Surroundings: the digest and the entropy of the standard library, the tables of users, integrations
  and subscriptions, the addresses of the settings, the zones, what a run needs before it starts,
  and the listing of a folder.
\<close>

record 'w tenv =
  z_run :: "'w renv"
  z_digest :: "string \<Rightarrow> string"
  z_hmac :: "string \<Rightarrow> string \<Rightarrow> string"
  z_secret :: "'w \<Rightarrow> string \<times> 'w"
  z_integration :: "'w \<Rightarrow> string \<Rightarrow> string \<Rightarrow> bool"
  z_subscribed :: "'w \<Rightarrow> string \<Rightarrow> string \<Rightarrow> bool"
  z_api_url :: string
  z_app_url :: string
  z_wall :: "string \<Rightarrow> int \<Rightarrow> int"
  z_instant :: "string \<Rightarrow> int \<Rightarrow> int"
  z_bindings :: "string \<Rightarrow> 'w \<Rightarrow> unit res \<times> 'w"
  z_list :: "pyval \<Rightarrow> string \<Rightarrow> pyval \<Rightarrow> 'w \<Rightarrow> pydict list res \<times> 'w"

definition on_db :: "('w, 'a) tact \<Rightarrow> ('w, 'a) fact" where
  "on_db m s = (case m (fl_db s) of (r, d) \<Rightarrow> (r, s\<lparr>fl_db := d\<rparr>))"

definition liftf :: "'a res \<Rightarrow> ('w, 'a) fact" where
  "liftf r = slift (map_err Failed r)"

text \<open>\<open>_now_iso\<close>\<close>

definition iso_micro :: "int \<Rightarrow> string" where
  "iso_micro t = seconds_text t @ ''.'' @ fixed 6 (t mod 1000000) @ ''+00:00''"

definition now_iso :: "'w tenv \<Rightarrow> ('w, string) fact" where
  "now_iso z = sbind (on_db (utc_now (z_run z))) (\<lambda>t. sret (iso_micro t))"

subsection \<open>Statements\<close>

datatype tfield = Next "string option" | Status "string option" | Active bool | Last_run string | Fired string

datatype tstmt =
    Arm trigger
  | Remove string
  | Reserve string "string option" "string option" string
  | Assign string "tfield list" string

fun assign :: "tfield \<Rightarrow> trigger \<Rightarrow> trigger" where
  "assign (Next x) r = r\<lparr>y_next := x\<rparr>"
| "assign (Status x) r = r\<lparr>y_status := x\<rparr>"
| "assign (Active b) r = r\<lparr>y_active := b\<rparr>"
| "assign (Last_run i) r = r\<lparr>y_run := Some i\<rparr>"
| "assign (Fired x) r = r\<lparr>y_fired := Some x\<rparr>"

text \<open>The \<open>UPDATE\<close> of a synchronisation: what a run left on the row is kept, and its date of creation.\<close>

definition rearm :: "trigger \<Rightarrow> trigger \<Rightarrow> trigger" where
  "rearm new r = new\<lparr>y_fired := y_fired r, y_status := y_status r, y_run := y_run r, y_created := y_created r\<rparr>"

text \<open>The rows an \<open>UPDATE\<close> selects; \<open>next_run_at == None\<close> is \<open>IS NULL\<close>.\<close>

fun picks :: "tstmt \<Rightarrow> trigger \<Rightarrow> bool" where
  "picks (Arm new) r = (y_workflow r = y_workflow new)"
| "picks (Remove w) r = (y_workflow r = w)"
| "picks (Reserve w prior next now) r = (y_workflow r = w \<and> y_next r = prior)"
| "picks (Assign w fs now) r = (y_workflow r = w)"

fun trg_stmt :: "tstmt \<Rightarrow> trigger list \<Rightarrow> trigger list" where
  "trg_stmt (Arm new) rows = (if \<exists>r \<in> set rows. y_workflow r = y_workflow new
     then changed (picks (Arm new)) (rearm new) rows else rows @ [new])"
| "trg_stmt (Remove w) rows = filter (\<lambda>r. y_workflow r \<noteq> w) rows"
| "trg_stmt (Reserve w prior next now) rows =
     changed (picks (Reserve w prior next now)) (\<lambda>r. r\<lparr>y_next := next, y_updated := Some now\<rparr>) rows"
| "trg_stmt (Assign w fs now) rows =
     changed (picks (Assign w fs now)) (\<lambda>r. (fold assign fs r)\<lparr>y_updated := Some now\<rparr>) rows"

definition apply_stmt :: "tstmt \<Rightarrow> ('w, nat) fact" where
  "apply_stmt q s = (Inr (length (filter (picks q) (fl_triggers s))), s\<lparr>fl_triggers := trg_stmt q (fl_triggers s)\<rparr>)"

definition find_trigger :: "(trigger \<Rightarrow> bool) \<Rightarrow> ('w, trigger option) fact" where
  "find_trigger p = sget (\<lambda>s. find p (fl_triggers s))"

definition all_triggers :: "(trigger \<Rightarrow> bool) \<Rightarrow> ('w, trigger list) fact" where
  "all_triggers p = sget (\<lambda>s. filter p (fl_triggers s))"

text \<open>\<open>_update_trigger_row\<close>\<close>

definition update_trigger_row :: "'w tenv \<Rightarrow> string \<Rightarrow> tfield list \<Rightarrow> ('w, unit) fact" where
  "update_trigger_row z w fs = sbind (now_iso z) (\<lambda>now. sbind (apply_stmt (Assign w fs now)) (\<lambda>_. sret ()))"

text \<open>\<open>json.loads(row["config"] or "{}")\<close>, read as a dict.\<close>

definition trigger_cfg :: "trigger \<Rightarrow> pydict res" where
  "trigger_cfg r = ebind (loads_or ''{}'' (Some (y_config r))) (\<lambda>v. case v of PDict d \<Rightarrow> Inr d | _ \<Rightarrow> Inl (PyError ''AttributeError''))"

subsection \<open>Tokens\<close>

definition new_secret :: "'w tenv \<Rightarrow> ('w, string) fact" where
  "new_secret z s = (case z_secret z (d_world (fl_db s)) of (x, w) \<Rightarrow>
     (Inr x, s\<lparr>fl_db := (fl_db s)\<lparr>d_world := w\<rparr>\<rparr>))"

definition verify_token :: "'w tenv \<Rightarrow> string \<Rightarrow> string option \<Rightarrow> bool" where
  "verify_token z token stored = (case stored of None \<Rightarrow> False | Some h \<Rightarrow> h \<noteq> [] \<and> z_digest z token = h)"

definition verify_hmac_signature :: "'w tenv \<Rightarrow> string \<Rightarrow> string \<Rightarrow> string \<Rightarrow> bool" where
  "verify_hmac_signature z secret body header =
     (starts_with ''sha256='' header \<and> z_hmac z secret body = drop 7 header)"

definition token_url :: "'w tenv \<Rightarrow> string \<Rightarrow> string \<Rightarrow> string" where
  "token_url z kind token = (if kind = ''webhook''
     then rstrip_by (\<lambda>c. c = CHR ''/'') (z_api_url z) @ ''/api/hooks/workflows/'' @ token
     else rstrip_by (\<lambda>c. c = CHR ''/'') (z_app_url z) @ ''/forms/'' @ token)"

subsection \<open>\<open>compute_active\<close>, \<open>subscription_reason\<close>\<close>

definition AUTOMATABLE_KINDS :: "string list" where
  "AUTOMATABLE_KINDS = [''webhook'', ''schedule'', ''email'', ''agent_tool'', ''form'', ''file'', ''workflow_done'']"

definition mail_provider :: "pyval \<Rightarrow> string option" where
  "mail_provider p = (if p = PStr ''outlook'' then Some ''microsoft_outlook''
     else if p = PStr ''gmail'' then Some ''google_gmail'' else None)"

definition file_provider :: "pyval \<Rightarrow> string option" where
  "file_provider p = (if p = PStr ''onedrive'' then Some ''microsoft_onedrive''
     else if p = PStr ''google_drive'' then Some ''google_drive'' else None)"

definition compute_active ::
  "'w tenv \<Rightarrow> 'w \<Rightarrow> pydict \<Rightarrow> pyval \<Rightarrow> string option \<Rightarrow> (bool \<times> string option) res" where
  "compute_active z w cfg status owner = (let kind = get1 cfg ''kind'' (PStr ''manual'') in
     if kind = PStr ''manual'' then Inr (False, None)
     else ebind (in_set_res kind AUTOMATABLE_KINDS) (\<lambda>known.
       if \<not> known then Inr (False, Some ''not_available'')
       else if status \<noteq> PStr ''published'' then Inr (False, Some ''unpublished'')
       else (case owner of None \<Rightarrow> Inr (True, None)
         | Some o' \<Rightarrow>
             if kind \<noteq> PStr ''email'' \<and> kind \<noteq> PStr ''file'' then Inr (True, None)
             else ebind (hashed (get0 cfg ''provider'')) (\<lambda>p.
               case (if kind = PStr ''email'' then mail_provider p else file_provider p) of
                 Some q \<Rightarrow> if z_integration z w o' q then Inr (True, None) else Inr (False, Some ''integration_missing'')
               | None \<Rightarrow> Inr (True, None)))))"

definition subscription_reason :: "'w tenv \<Rightarrow> 'w \<Rightarrow> pydict \<Rightarrow> string \<Rightarrow> string option" where
  "subscription_reason z w cfg owner = (
     if get0 cfg ''kind'' \<noteq> PStr ''email'' \<or> get0 cfg ''provider'' \<noteq> PStr ''outlook'' then None
     else if z_subscribed z w owner ''microsoft_outlook'' then None else Some ''subscription_pending'')"

subsection \<open>\<open>compute_next_run\<close>\<close>

definition MINUTE :: int where "MINUTE = 60000000"

text \<open>The minutes of \<open>Wf_Cron\<close> count from 1970, the instants of \<open>Py_Time\<close> from the year 1.\<close>

definition EPOCH_MINUTE :: int where "EPOCH_MINUTE = 719162 * 1440"

definition zone_of :: "'w tenv \<Rightarrow> pydict \<Rightarrow> string res" where
  "zone_of z cfg = (case por (get0 cfg ''timezone'') (PStr ''Europe/Paris'') of
     PStr tz \<Rightarrow> if v_tz_known (e_venv (z_run z)) tz then Inr tz else Inl (PyError ''ZoneInfoNotFoundError'')
   | _ \<Rightarrow> Inl (PyError ''TypeError''))"

definition next_at :: "'w tenv \<Rightarrow> string \<Rightarrow> pyval \<Rightarrow> int \<Rightarrow> int option res" where
  "next_at z tz when after = (case when of
     PStr s \<Rightarrow> map_sum id (\<lambda>t. if after < t then Some t else None)
       (of_opt (PyError ''ValueError'') (v_instant (e_venv (z_run z)) s tz))
   | _ \<Rightarrow> Inl (PyError ''TypeError''))"

text \<open>The search is over the minutes of the local calendar.\<close>

definition next_of_cron :: "'w tenv \<Rightarrow> string \<Rightarrow> cron \<Rightarrow> int \<Rightarrow> int option" where
  "next_of_cron z tz f after = map_option (\<lambda>m. z_instant z tz ((m + EPOCH_MINUTE) * MINUTE))
     (next_cron f (z_wall z tz after div MINUTE - EPOCH_MINUTE))"

definition compute_next_run :: "'w tenv \<Rightarrow> pydict \<Rightarrow> int \<Rightarrow> int option res" where
  "compute_next_run z cfg after = ebind (zone_of z cfg) (\<lambda>tz.
     if truthy (get0 cfg ''at'') then next_at z tz (get0 cfg ''at'') after
     else ebind (getitem cfg ''cron'') (\<lambda>c. case c of
       PStr s \<Rightarrow> ebind (parse_cron s) (\<lambda>f. Inr (next_of_cron z tz f after))
     | _ \<Rightarrow> Inl (PyError ''AttributeError'')))"

definition next_text :: "'w tenv \<Rightarrow> pydict \<Rightarrow> int \<Rightarrow> string option res" where
  "next_text z cfg after = map_sum id (map_option iso) (compute_next_run z cfg after)"

subsection \<open>\<open>sync_trigger_for_workflow\<close>, \<open>remove_trigger_for_workflow\<close>\<close>

text \<open>\<open>int(v)\<close> for the values a graph can hold.\<close>

definition py_int :: "pyval \<Rightarrow> int res" where
  "py_int v = (case v of
     PInt n \<Rightarrow> Inr n | PBool b \<Rightarrow> Inr (if b then 1 else 0)
   | PFloat (Fin q) \<Rightarrow> Inr (if 0 \<le> q then \<lfloor>q\<rfloor> else \<lceil>q\<rceil>)
   | PFloat NaN \<Rightarrow> Inl (PyError ''ValueError'') | PFloat _ \<Rightarrow> Inl (PyError ''OverflowError'')
   | PStr s \<Rightarrow> of_opt (PyError ''ValueError'') (int_of_digits (strip s))
   | _ \<Rightarrow> Inl (PyError ''TypeError''))"

text \<open>A new token, or the one of the row when the kind has not changed.\<close>

definition token_pair :: "'w tenv \<Rightarrow> string \<Rightarrow> trigger option \<Rightarrow> ('w, string option \<times> string option) fact" where
  "token_pair z kind old = (if kind \<noteq> ''webhook'' \<and> kind \<noteq> ''form'' then sret (None, None)
     else (case old of
       Some r \<Rightarrow> if y_kind r = kind \<and> filled (y_hash r) then sret (y_hash r, y_token r)
         else sbind (new_secret z) (\<lambda>t. sbind (liftf (e_encrypt (z_run z) t)) (\<lambda>x. sret (Some (z_digest z t), Some x)))
     | None \<Rightarrow> sbind (new_secret z) (\<lambda>t. sbind (liftf (e_encrypt (z_run z) t)) (\<lambda>x. sret (Some (z_digest z t), Some x)))))"

definition hmac_secret :: "'w tenv \<Rightarrow> string \<Rightarrow> bool \<Rightarrow> trigger option \<Rightarrow> ('w, string option) fact" where
  "hmac_secret z kind wanted old = (if kind \<noteq> ''webhook'' \<or> \<not> wanted then sret None
     else (case Option.bind old (\<lambda>r. if y_hmac r \<and> filled (y_secret r) then y_secret r else None) of
       Some x \<Rightarrow> sret (Some x)
     | None \<Rightarrow> sbind (new_secret z) (\<lambda>t. sbind (liftf (e_encrypt (z_run z) t)) (\<lambda>x. sret (Some x)))))"

definition first_deadline :: "'w tenv \<Rightarrow> string \<Rightarrow> bool \<Rightarrow> pydict \<Rightarrow> ('w, string option) fact" where
  "first_deadline z kind active spec = (
     if \<not> active then sret None
     else if kind = ''schedule'' then sbind (on_db (utc_now (z_run z))) (\<lambda>now. liftf (next_text z spec now))
     else if kind = ''file'' then sbind (liftf (py_int (por (get0 spec ''interval_min'') (PInt 15)))) (\<lambda>n.
       sbind (on_db (utc_now (z_run z))) (\<lambda>now. sret (Some (iso (now + n * MINUTE)))))
     else sret None)"

definition kind_text :: "pydict \<Rightarrow> string res" where
  "kind_text spec = (case get1 spec ''kind'' (PStr ''manual'') of PStr k \<Rightarrow> Inr k | _ \<Rightarrow> Inl (PyError ''StatementError''))"

text \<open>A block \<open>with engine.begin()\<close> over the triggers.\<close>

definition in_block :: "('w, 'a) fact \<Rightarrow> ('w, 'a) fact" where
  "in_block m s = (case m s of (Inl e, t) \<Rightarrow> (Inl e, t\<lparr>fl_triggers := fl_triggers s, fl_seen := fl_seen s\<rparr>) | (Inr x, t) \<Rightarrow> (Inr x, t))"

definition sync_trigger_for_workflow ::
  "'w tenv \<Rightarrow> string \<Rightarrow> string \<Rightarrow> pyval \<Rightarrow> pyval \<Rightarrow> ('w, unit) fact" where
  "sync_trigger_for_workflow z wid owner graph status =
     sbind (liftf (of_opt (PyError ''ValidationError'') (parse_graph graph))) (\<lambda>g.
     let spec = trigger_spec g in
     sbind (sget (\<lambda>s. compute_active z (d_world (fl_db s)) spec status (Some owner))) (\<lambda>r.
     sbind (liftf r) (\<lambda>(active, _).
     sbind (now_iso z) (\<lambda>now. in_block (
     sbind (find_trigger (\<lambda>r. y_workflow r = wid)) (\<lambda>old.
     sbind (liftf (kind_text spec)) (\<lambda>kind.
     sbind (token_pair z kind old) (\<lambda>(h, tok).
     let wanted = truthy (get0 spec ''hmac'') in
     sbind (hmac_secret z kind wanted old) (\<lambda>secret.
     sbind (first_deadline z kind active spec) (\<lambda>next.
     sbind (apply_stmt (Arm \<lparr>y_workflow = wid, y_owner = owner, y_kind = kind, y_config = json_dumps (PDict spec),
       y_active = active, y_hash = h, y_token = tok, y_hmac = (kind = ''webhook'' \<and> wanted), y_secret = secret,
       y_next = next, y_fired = None, y_status = None, y_run = None, y_created = Some now, y_updated = Some now\<rparr>)) (\<lambda>_.
     sret ())))))))))))"

definition remove_trigger_for_workflow :: "string \<Rightarrow> ('w, unit) fact" where
  "remove_trigger_for_workflow wid = sbind (apply_stmt (Remove wid)) (\<lambda>_. sret ())"

subsection \<open>\<open>get_trigger_status\<close>, \<open>rotate_trigger\<close>, \<open>find_active_webhook_trigger\<close>\<close>

definition shown_url :: "'w tenv \<Rightarrow> string \<Rightarrow> trigger option \<Rightarrow> pyval res" where
  "shown_url z kind found = (case found of None \<Rightarrow> Inr PNone
     | Some r \<Rightarrow> if y_kind r = kind \<and> filled (y_token r)
         then map_sum id (\<lambda>t. PStr (token_url z kind t)) (e_decrypt (z_run z) (the (y_token r))) else Inr PNone)"

definition get_trigger_status :: "'w tenv \<Rightarrow> string \<Rightarrow> string \<Rightarrow> pyval \<Rightarrow> ('w, pydict) fact" where
  "get_trigger_status z wid owner status =
     sbind (find_trigger (\<lambda>r. y_workflow r = wid \<and> y_owner r = owner)) (\<lambda>found.
     let kind = (case found of None \<Rightarrow> ''manual'' | Some r \<Rightarrow> y_kind r) in
     sbind (liftf (case found of Some r \<Rightarrow> if y_config r \<noteq> [] then trigger_cfg r else Inr [(''kind'', PStr kind)]
       | None \<Rightarrow> Inr [(''kind'', PStr kind)])) (\<lambda>cfg.
     sbind (sget (\<lambda>s. d_world (fl_db s))) (\<lambda>w.
     sbind (liftf (compute_active z w cfg status (Some owner))) (\<lambda>(active, reason).
     let pending = (if active then subscription_reason z w cfg owner else None) in
     sbind (liftf (shown_url z ''webhook'' found)) (\<lambda>webhook.
     sbind (liftf (shown_url z ''form'' found)) (\<lambda>form.
     sret [(''kind'', PStr kind), (''active'', PBool (active \<and> pending = None)),
       (''reason'', opt_pstr (if pending = None then reason else pending)),
       (''webhook_url'', webhook), (''form_url'', form),
       (''hmac_enabled'', PBool (case found of None \<Rightarrow> False | Some r \<Rightarrow> y_hmac r)),
       (''next_run_at'', opt_pstr (Option.bind found y_next)), (''last_fired_at'', opt_pstr (Option.bind found y_fired)),
       (''last_status'', opt_pstr (Option.bind found y_status))]))))))"

definition rotated :: "string \<Rightarrow> string \<Rightarrow> string option \<Rightarrow> string \<Rightarrow> trigger \<Rightarrow> trigger" where
  "rotated h tok secret now r = (let r' = r\<lparr>y_hash := Some h, y_token := Some tok, y_updated := Some now\<rparr> in
     case secret of None \<Rightarrow> r' | Some x \<Rightarrow> r'\<lparr>y_secret := Some x\<rparr>)"

definition change_triggers :: "(trigger \<Rightarrow> bool) \<Rightarrow> (trigger \<Rightarrow> trigger) \<Rightarrow> ('w, unit) fact" where
  "change_triggers p f = smod (\<lambda>s. s\<lparr>fl_triggers := changed p f (fl_triggers s)\<rparr>)"

definition rotate_trigger :: "'w tenv \<Rightarrow> string \<Rightarrow> string \<Rightarrow> ('w, pydict option) fact" where
  "rotate_trigger z wid owner = in_block (
     sbind (find_trigger (\<lambda>r. y_workflow r = wid \<and> y_owner r = owner)) (\<lambda>found. case found of
       None \<Rightarrow> sret None
     | Some r \<Rightarrow>
         if y_kind r \<noteq> ''webhook'' \<and> y_kind r \<noteq> ''form'' then sthrow (Failed (PyError ''RotateNotApplicable''))
         else sbind (new_secret z) (\<lambda>token.
           sbind (liftf (e_encrypt (z_run z) token)) (\<lambda>tok.
           sbind (now_iso z) (\<lambda>now.
           sbind (if y_kind r = ''webhook'' \<and> y_hmac r then sbind (new_secret z) (\<lambda>x. sret (Some x)) else sret None) (\<lambda>secret.
           sbind (liftf (case secret of None \<Rightarrow> Inr None | Some x \<Rightarrow> map_sum id Some (e_encrypt (z_run z) x))) (\<lambda>sealed.
           sbind (change_triggers (\<lambda>r. y_workflow r = wid) (rotated (z_digest z token) tok sealed now)) (\<lambda>_.
           sret (Some [(if y_kind r = ''webhook'' then ''webhook_url'' else ''form_url'',
               PStr (token_url z (y_kind r) token)), (''hmac_secret'', opt_pstr secret)])))))))))"

definition find_active_webhook_trigger :: "'w tenv \<Rightarrow> string \<Rightarrow> ('w, trigger option) fact" where
  "find_active_webhook_trigger z token =
     sbind (find_trigger (\<lambda>r. y_kind r = ''webhook'' \<and> y_hash r = Some (z_digest z token))) (\<lambda>found.
     sret (case found of None \<Rightarrow> None | Some r \<Rightarrow> if y_active r then Some r else None))"

end
