(* ===== verification/Trg_Fire.thy ===== *)
theory Trg_Fire
  imports Trg_Store
begin

section \<open>Firing triggers\<close>

text \<open>
  \<open>launch_triggered_run\<close>, the schedule tick, the file poll, and the triggers that a run fires
  (\<open>core/workflow_triggers.py\<close>, \<open>core/flow_scheduler.py\<close>, \<open>core/workflow_file_triggers.py\<close>).  A launch
  records the run and starts its task; what the task streams later is read by \<open>drained\<close>, and the end
  of a scheduled run calls \<open>schedule_done\<close>.
\<close>

subsection \<open>\<open>launch_triggered_run\<close>\<close>

definition NOT_ACTIVE :: run_error where "NOT_ACTIVE = Failed (PyError ''TriggerNotActive'')"

definition run_bindings :: "'w tenv \<Rightarrow> string \<Rightarrow> ('w, unit) fact" where
  "run_bindings z owner s = (case z_bindings z owner (d_world (fl_db s)) of
     (r, w) \<Rightarrow> (map_err Failed r, s\<lparr>fl_db := (fl_db s)\<lparr>d_world := w\<rparr>\<rparr>))"

definition launch_args :: "string \<Rightarrow> string \<Rightarrow> string \<Rightarrow> string \<Rightarrow> pydict \<Rightarrow> pyval \<Rightarrow> pyval \<Rightarrow> start_args" where
  "launch_args run_id wid owner kind detail version payload = \<lparr>
     s_trigger = json_dumps (PDict [(''kind'', PStr kind), (''detail'', PDict detail)]), s_owner = owner, s_agents = [],
     s_config = [(''workflow_id'', PStr wid), (''version'', version), (''payload'', payload)],
     s_file = None, s_file_name = None, s_run_id = Some run_id, s_org = None, s_replay = None\<rparr>"

definition launch_triggered_run ::
  "'w tenv \<Rightarrow> string \<Rightarrow> string \<Rightarrow> string \<Rightarrow> pydict \<Rightarrow> pyval \<Rightarrow> ('w, string) fact" where
  "launch_triggered_run z wid owner kind detail payload = (case e_workflow (z_run z) wid owner of
     None \<Rightarrow> sthrow NOT_ACTIVE
   | Some flow \<Rightarrow>
       if get0 flow ''status'' \<noteq> PStr ''published'' then sthrow NOT_ACTIVE
       else sbind (liftf (getitem flow ''graph'')) (\<lambda>raw.
         sbind (liftf (parsed_graph raw)) (\<lambda>_.
         sbind (run_bindings z owner) (\<lambda>_.
         sbind (on_db (new_id (z_run z))) (\<lambda>i.
         sbind (liftf (getitem flow ''version'')) (\<lambda>version.
         on_db (start_run (z_run z) (launch_args i wid owner kind detail version payload))))))))"

text \<open>\<open>_drain\<close>: the last event that ends a run.\<close>

definition TERMINAL_EVENTS :: "string list" where
  "TERMINAL_EVENTS = [''done'', ''error'', ''cancelled'', ''awaiting_input'']"

definition drained :: "string list \<Rightarrow> pydict" where
  "drained chunks = fold (\<lambda>text terminal. if starts_with ''data: '' text
       then (case json_loads (drop 6 text) of
           Some (PDict d) \<Rightarrow> if in_strs (get0 d ''event'') TERMINAL_EVENTS then d else terminal
         | _ \<Rightarrow> terminal) else terminal) chunks
     [(''event'', PStr ''error''), (''detail'', PStr ''aucun evenement terminal recu'')]"

subsection \<open>Due rows, reservations\<close>

definition is_due :: "string \<Rightarrow> int \<Rightarrow> trigger \<Rightarrow> bool" where
  "is_due kind now r = (y_kind r = kind \<and> y_active r \<and> at_most (y_next r) (iso now))"

definition due_triggers :: "string \<Rightarrow> int \<Rightarrow> ('w, trigger list) fact" where
  "due_triggers kind now = all_triggers (is_due kind now)"

definition due_schedule_triggers :: "int \<Rightarrow> ('w, trigger list) fact" where
  "due_schedule_triggers now = due_triggers ''schedule'' now"

definition due_file_triggers :: "int \<Rightarrow> ('w, trigger list) fact" where
  "due_file_triggers now = due_triggers ''file'' now"

definition reserve_slot :: "'w tenv \<Rightarrow> string \<Rightarrow> string option \<Rightarrow> string option \<Rightarrow> ('w, bool) fact" where
  "reserve_slot z wid prior next = sbind (now_iso z) (\<lambda>now. sbind (apply_stmt (Reserve wid prior next now)) (\<lambda>k. sret (k = 1)))"

definition reserve_next_poll :: "'w tenv \<Rightarrow> string \<Rightarrow> string option \<Rightarrow> string \<Rightarrow> ('w, bool) fact" where
  "reserve_next_poll z wid prior next = reserve_slot z wid prior (Some next)"

subsection \<open>\<open>_running_is_orphaned\<close>, \<open>_last_run_still_open\<close>\<close>

definition RUNNING_STALE_AFTER :: int where "RUNNING_STALE_AFTER = 6 * HOUR"

definition run_status_of :: "pydict option \<Rightarrow> pyval" where
  "run_status_of found = (case found of None \<Rightarrow> PNone | Some d \<Rightarrow> get0 d ''status'')"

definition running_is_orphaned :: "'w tenv \<Rightarrow> trigger \<Rightarrow> int \<Rightarrow> ('w, bool) fact" where
  "running_is_orphaned z r now = (
     if \<not> filled (y_run r) then sret True
     else stry (on_db (get_run (z_run z) (the (y_run r)) (y_owner r))) (\<lambda>found.
       if (case found of Inl _ \<Rightarrow> False
           | Inr d \<Rightarrow> d = None \<or> in_strs (run_status_of d) [''success'', ''error'', ''cancelled'']) then sret True
       else sret (case y_fired r of None \<Rightarrow> False
         | Some t \<Rightarrow> (case read_iso t of None \<Rightarrow> False | Some (started, _) \<Rightarrow> RUNNING_STALE_AFTER < now - started))))"

definition last_run_still_open :: "'w tenv \<Rightarrow> trigger \<Rightarrow> ('w, bool) fact" where
  "last_run_still_open z r = (
     if \<not> filled (y_run r) then sret False
     else stry (on_db (get_run (z_run z) (the (y_run r)) (y_owner r))) (\<lambda>found.
       sret (case found of Inl _ \<Rightarrow> True | Inr d \<Rightarrow> in_strs (run_status_of d) [''awaiting'', ''running''])))"

subsection \<open>\<open>fire_schedule_trigger\<close>\<close>

text \<open>The slot is consumed without a run.\<close>

definition skip_slot :: "'w tenv \<Rightarrow> trigger \<Rightarrow> pydict \<Rightarrow> int \<Rightarrow> ('w, bool) fact" where
  "skip_slot z r cfg now = sbind (liftf (next_text z cfg now)) (\<lambda>next.
     sbind (update_trigger_row z (y_workflow r) [Next next]) (\<lambda>_. sret False))"

definition start_slot :: "'w tenv \<Rightarrow> trigger \<Rightarrow> pydict \<Rightarrow> int \<Rightarrow> ('w, bool) fact" where
  "start_slot z r cfg now = sbind (update_trigger_row z (y_workflow r) [Status (Some ''running'')]) (\<lambda>_.
     stry (launch_triggered_run z (y_workflow r) (y_owner r) ''schedule''
         [(''cron'', get0 cfg ''cron''), (''at'', get0 cfg ''at'')] (PDict [(''scheduled_at'', PStr (iso now))])) (\<lambda>res. case res of
       Inl e \<Rightarrow>
         sbind (update_trigger_row z (y_workflow r) (if e = NOT_ACTIVE then [Active False, Status None, Next None]
           else [Status (Some ''error'')])) (\<lambda>_. sret False)
     | Inr i \<Rightarrow> sbind (update_trigger_row z (y_workflow r) [Last_run i, Fired (iso now)]) (\<lambda>_. sret True)))"

definition fire_schedule_trigger :: "'w tenv \<Rightarrow> trigger \<Rightarrow> int \<Rightarrow> ('w, bool) fact" where
  "fire_schedule_trigger z r now = sbind (liftf (trigger_cfg r)) (\<lambda>cfg.
     sbind (if y_status r = Some ''running'' then sbind (running_is_orphaned z r now) (\<lambda>o'. sret (\<not> o'))
        else if y_status r = Some ''awaiting'' then last_run_still_open z r else sret False) (\<lambda>busy.
     if busy then skip_slot z r cfg now
     else sbind (liftf (next_text z cfg now)) (\<lambda>next.
       sbind (reserve_slot z (y_workflow r) (y_next r) next) (\<lambda>reserved.
       if \<not> reserved then sret False else start_slot z r cfg now))))"

text \<open>\<open>_on_done\<close>: the end of the run a tick started.\<close>

definition schedule_done :: "'w tenv \<Rightarrow> trigger \<Rightarrow> string \<Rightarrow> int \<Rightarrow> ('w, unit) fact" where
  "schedule_done z r i now = sbind (on_db (get_run (z_run z) i (y_owner r))) (\<lambda>final.
     sbind (liftf (trigger_cfg r)) (\<lambda>cfg. sbind (liftf (next_text z cfg now)) (\<lambda>next.
     update_trigger_row z (y_workflow r)
       [Status (case final of None \<Rightarrow> Some ''error'' | Some d \<Rightarrow> (case get1 d ''status'' (PStr ''error'') of PStr s \<Rightarrow> Some s | _ \<Rightarrow> None)),
        Next next])))"

subsection \<open>\<open>poll_file_trigger\<close>\<close>

definition get_seen_files :: "string \<Rightarrow> ('w, (pyval \<times> pyval) list) fact" where
  "get_seen_files wid = sget (\<lambda>s. map (\<lambda>f. (sf_id f, sf_modified f)) (filter (\<lambda>f. sf_workflow f = wid) (fl_seen s)))"

definition dedupe_new_files :: "(pyval \<times> pyval) list \<Rightarrow> pydict list \<Rightarrow> pydict list" where
  "dedupe_new_files seen current =
     filter (\<lambda>f. (case map_of (rev seen) (get0 f ''id'') of None \<Rightarrow> PNone | Some m \<Rightarrow> m) \<noteq> get0 f ''modified_at'') current"

definition persist_seen_files :: "'w tenv \<Rightarrow> string \<Rightarrow> pydict list \<Rightarrow> ('w, unit) fact" where
  "persist_seen_files z wid files = sbind (now_iso z) (\<lambda>now. smod (\<lambda>s. s\<lparr>fl_seen :=
     filter (\<lambda>f. sf_workflow f \<noteq> wid) (fl_seen s)
     @ map (\<lambda>f. \<lparr>sf_workflow = wid, sf_id = get0 f ''id'', sf_modified = get0 f ''modified_at'', sf_at = now\<rparr>) files\<rparr>))"

definition file_payload :: "pydict \<Rightarrow> pyval" where
  "file_payload f = PDict [(k, get0 f k). k \<leftarrow> [''id'', ''name'', ''path'', ''url'', ''size'', ''modified_at'']]"

text \<open>One run per new file; a workflow that is not published is skipped, any other exception leaves the poll.\<close>

definition launch_file :: "'w tenv \<Rightarrow> trigger \<Rightarrow> pydict \<Rightarrow> pydict \<Rightarrow> ('w, nat) fact" where
  "launch_file z r cfg f = stry (launch_triggered_run z (y_workflow r) (y_owner r) ''file''
       [(''provider'', get0 cfg ''provider''), (''folder_id'', get0 cfg ''folder_id'')] (file_payload f)) (\<lambda>res. case res of
     Inr _ \<Rightarrow> sret 1 | Inl e \<Rightarrow> if e = NOT_ACTIVE then sret 0 else sthrow e)"

definition list_folder :: "'w tenv \<Rightarrow> trigger \<Rightarrow> pydict \<Rightarrow> ('w, pydict list) fact" where
  "list_folder z r cfg s = (case z_list z (get0 cfg ''provider'') (y_owner r) (get0 cfg ''folder_id'') (d_world (fl_db s)) of
     (res, w) \<Rightarrow> (map_err Failed res, s\<lparr>fl_db := (fl_db s)\<lparr>d_world := w\<rparr>\<rparr>))"

definition poll_file_trigger :: "'w tenv \<Rightarrow> trigger \<Rightarrow> ('w, nat) fact" where
  "poll_file_trigger z r = sbind (liftf (trigger_cfg r)) (\<lambda>cfg.
     sbind (sget (\<lambda>s. d_world (fl_db s))) (\<lambda>w.
     if (case file_provider (get0 cfg ''provider'') of None \<Rightarrow> False | Some p \<Rightarrow> \<not> z_integration z w (y_owner r) p) then sret 0
     else stry (list_folder z r cfg) (\<lambda>listed. case listed of
       Inl _ \<Rightarrow> sret 0
     | Inr current \<Rightarrow> sbind (get_seen_files (y_workflow r)) (\<lambda>seen.
         sbind (if seen = [] then sret [] else smap (launch_file z r cfg) (dedupe_new_files seen current)) (\<lambda>fired.
         sbind (persist_seen_files z (y_workflow r) current) (\<lambda>_. sret (sum_list fired)))))))"

subsection \<open>\<open>tick_once\<close>\<close>

definition tick_file_trigger :: "'w tenv \<Rightarrow> int \<Rightarrow> trigger \<Rightarrow> ('w, nat) fact" where
  "tick_file_trigger z moment r = sbind (liftf (trigger_cfg r)) (\<lambda>cfg.
     sbind (liftf (py_int (por (get0 cfg ''interval_min'') (PInt 15)))) (\<lambda>n.
     sbind (reserve_next_poll z (y_workflow r) (y_next r) (iso (moment + n * MINUTE))) (\<lambda>reserved.
     if \<not> reserved then sret 0 else poll_file_trigger z r)))"

text \<open>A trigger that raises is logged; the others still fire.\<close>

definition fired_or_0 :: "('w, nat) fact \<Rightarrow> ('w, nat) fact" where
  "fired_or_0 m = stry m (\<lambda>r. case r of Inl _ \<Rightarrow> sret 0 | Inr k \<Rightarrow> sret k)"

definition tick_once :: "'w tenv \<Rightarrow> int \<Rightarrow> ('w, nat) fact" where
  "tick_once z moment =
     sbind (due_schedule_triggers moment) (\<lambda>rows.
     sbind (smap (\<lambda>r. fired_or_0 (sbind (fire_schedule_trigger z r moment) (\<lambda>b. sret (if b then 1 else 0)))) rows) (\<lambda>xs.
     sbind (due_file_triggers moment) (\<lambda>files.
     sbind (smap (\<lambda>r. fired_or_0 (tick_file_trigger z moment r)) files) (\<lambda>ys.
     sret (sum_list xs + sum_list ys)))))"

subsection \<open>Triggers fired by runs and agents\<close>

definition MAX_TRIGGER_CHAIN :: nat where "MAX_TRIGGER_CHAIN = 5"

definition next_trigger_chain :: "pyval list \<Rightarrow> pyval \<Rightarrow> pyval list option" where
  "next_trigger_chain prior wid = (if py_in wid prior then None
     else if MAX_TRIGGER_CHAIN \<le> length prior then None else Some (prior @ [wid]))"

definition list_active_triggers :: "string \<Rightarrow> string option \<Rightarrow> ('w, trigger list) fact" where
  "list_active_triggers kind owner = all_triggers (\<lambda>r. y_kind r = kind \<and> y_active r \<and> (owner = None \<or> Some (y_owner r) = owner))"

text \<open>Whether a row takes the name of a tool: the rows are read in order, and one that cannot be read raises.\<close>

definition takes_name :: "string \<Rightarrow> string option \<Rightarrow> trigger \<Rightarrow> bool res" where
  "takes_name name exclude r = (if exclude = Some (y_workflow r) then Inr False
     else map_sum id (\<lambda>cfg. get0 cfg ''tool_name'' = PStr name) (trigger_cfg r))"

definition tool_name_taken :: "string \<Rightarrow> string \<Rightarrow> string option \<Rightarrow> ('w, bool) fact" where
  "tool_name_taken name owner exclude =
     sbind (all_triggers (\<lambda>r. y_kind r = ''agent_tool'' \<and> y_owner r = owner)) (\<lambda>rows.
     liftf (eany (takes_name name exclude) rows))"

definition listens :: "pyval \<Rightarrow> string \<Rightarrow> pydict \<Rightarrow> bool" where
  "listens source status cfg = (get0 cfg ''workflow_id'' = source
     \<and> in_strs (get1 cfg ''on'' (PStr ''any'')) [''any'', status])"

definition failure_listener :: "'w tenv \<Rightarrow> string \<Rightarrow> string \<Rightarrow> trigger \<Rightarrow> pydict list res" where
  "failure_listener z wid owner r = map_sum id (\<lambda>cfg.
     if \<not> listens (PStr wid) ''error'' cfg then []
     else (case e_workflow (z_run z) (y_workflow r) owner of
       None \<Rightarrow> []
     | Some flow \<Rightarrow> if get0 flow ''status'' \<noteq> PStr ''published'' then []
         else [[(''workflow_id'', PStr (y_workflow r)), (''name'', get0 flow ''name'')]])) (trigger_cfg r)"

definition failure_listeners :: "'w tenv \<Rightarrow> string \<Rightarrow> string \<Rightarrow> ('w, pydict list) fact" where
  "failure_listeners z wid owner = sbind (list_active_triggers ''workflow_done'' (Some owner)) (\<lambda>rows.
     liftf (map_sum id concat (emap (failure_listener z wid owner) rows)))"

definition error_detail :: "string \<Rightarrow> string option \<Rightarrow> pyval" where
  "error_detail status m = (if status \<noteq> ''error'' \<or> \<not> filled m then PNone
     else PDict [(''code'', PStr ''run_failed''), (''detail'', opt_pstr m)])"

definition fire_done :: "'w tenv \<Rightarrow> pyval \<Rightarrow> string \<Rightarrow> string \<Rightarrow> string \<Rightarrow> pyval \<Rightarrow> pyval \<Rightarrow> pyval list \<Rightarrow> trigger \<Rightarrow> ('w, string list) fact" where
  "fire_done z source owner run status out err prior r = sbind (liftf (trigger_cfg r)) (\<lambda>cfg.
     if \<not> listens source status cfg then sret []
     else (case next_trigger_chain prior source of None \<Rightarrow> sret []
       | Some chain \<Rightarrow> stry (launch_triggered_run z (y_workflow r) owner ''workflow_done''
             [(''workflow_id'', source), (''on'', PStr status), (''chain'', PList chain)]
             (PDict [(''workflow_id'', source), (''run_id'', PStr run), (''status'', PStr status), (''output'', out), (''error'', err)]))
           (\<lambda>res. case res of Inr i \<Rightarrow> sret [i] | Inl e \<Rightarrow> if e = NOT_ACTIVE then sret [] else sthrow e)))"

definition fire_workflow_done_triggers ::
  "'w tenv \<Rightarrow> pyval \<Rightarrow> string \<Rightarrow> string \<Rightarrow> string \<Rightarrow> pyval \<Rightarrow> pyval \<Rightarrow> pyval list \<Rightarrow> ('w, string list) fact" where
  "fire_workflow_done_triggers z source owner run status out err prior =
     sbind (list_active_triggers ''workflow_done'' (Some owner)) (\<lambda>rows.
     sbind (smap (fire_done z source owner run status out err prior) rows) (\<lambda>xs. sret (concat xs)))"

text \<open>The chain of the run that ends, from its own trigger.\<close>

definition chain_of :: "run_row \<Rightarrow> pyval list res" where
  "chain_of r = (case json_loads (if u_trigger r = [] then ''{}'' else u_trigger r) of
     Some (PDict d) \<Rightarrow> ebind (attr_get (por (get0 d ''detail'') (PDict [])) ''chain'') (\<lambda>c. py_iter (por c (PList [])))
   | _ \<Rightarrow> Inr [])"

definition finished_config :: "run_row \<Rightarrow> pydict res" where
  "finished_config r = (case json_loads (case u_config r of None \<Rightarrow> ''{}'' | Some s \<Rightarrow> if s = [] then ''{}'' else s) of
     None \<Rightarrow> Inr [] | Some (PDict d) \<Rightarrow> Inr d | _ \<Rightarrow> Inl (PyError ''AttributeError''))"

text \<open>The alert of a failure runs beside and never raises; it is not part of the state here.\<close>

definition notify_run_finished ::
  "'w tenv \<Rightarrow> string \<Rightarrow> string \<Rightarrow> string \<Rightarrow> pyval \<Rightarrow> string option \<Rightarrow> ('w, string list) fact" where
  "notify_run_finished z i owner status out m = sbind (on_db (fetch_run i)) (\<lambda>found. case found of
     None \<Rightarrow> sret []
   | Some r \<Rightarrow> sbind (liftf (finished_config r)) (\<lambda>cfg.
       if \<not> truthy (get0 cfg ''workflow_id'') \<or> truthy (get0 cfg ''until'') then sret []
       else sbind (liftf (chain_of r)) (\<lambda>prior.
         fire_workflow_done_triggers z (get0 cfg ''workflow_id'') owner i status out (error_detail status m) prior)))"

text \<open>The answer of a workflow called as a tool; \<open>None\<close> is a run that did not end in time.\<close>

definition tool_answer :: "string \<Rightarrow> string list option \<Rightarrow> pydict" where
  "tool_answer i streamed = (case streamed of
     None \<Rightarrow> [(''error'', PStr ''timeout''), (''run_id'', PStr i), (''detail'', PStr ''pas de reponse en 120s'')]
   | Some chunks \<Rightarrow> (let t = drained chunks; event = get0 t ''event'' in
       if event = PStr ''done'' then [(''run_id'', PStr i), (''output'', get0 t ''output'')]
       else if event = PStr ''cancelled'' then [(''error'', PStr ''cancelled''), (''run_id'', PStr i)]
       else if event = PStr ''awaiting_input''
       then [(''status'', PStr ''awaiting_decision''), (''run_id'', PStr i), (''question'', get0 t ''question'')]
       else [(''error'', PStr ''run_failed''), (''run_id'', PStr i), (''detail'', get0 t ''detail'')]))"

definition call_agent_tool ::
  "'w tenv \<Rightarrow> string \<Rightarrow> string \<Rightarrow> string \<Rightarrow> pydict \<Rightarrow> pyval list \<Rightarrow> string list option \<Rightarrow> ('w, pydict) fact" where
  "call_agent_tool z wid owner tool arguments prior streamed = (case next_trigger_chain prior (PStr wid) of
     None \<Rightarrow> sret [(''error'', PStr ''recursion_blocked''),
       (''detail'', PStr (''chaine de declenchement de '' @ py_repr (PStr tool) @ '' bloquee (cycle ou profondeur > 5)''))]
   | Some chain \<Rightarrow> stry (launch_triggered_run z wid owner ''agent_tool''
         [(''tool_name'', PStr tool), (''chain'', PList chain)] (PDict arguments)) (\<lambda>res. case res of
       Inl e \<Rightarrow> if e = NOT_ACTIVE
         then sret [(''error'', PStr ''not_active''), (''detail'', PStr ''ce workflow nest plus publie'')] else sthrow e
     | Inr i \<Rightarrow> sret (tool_answer i streamed)))"

end
