(* ===== verification/Run_Trace.thy ===== *)
theory Run_Trace
  imports Run_Record
begin

section \<open>The trace of a run and the stream of an agent\<close>

text \<open>
  \<open>RunTrace\<close> and its table, \<open>executed_tools\<close> and \<open>track_agent_stream\<close> of \<open>core/run_main.py\<close>.
\<close>

subsection \<open>\<open>RunTrace\<close>\<close>

definition TRACE_FIELD_MAX_CHARS :: nat where "TRACE_FIELD_MAX_CHARS = 8000"
definition TRACE_MAX_BYTES :: nat where "TRACE_MAX_BYTES = 524288"

definition BULKY_FIELDS :: "string list" where "BULKY_FIELDS = [''output'', ''input'', ''tool_calls'']"

definition TRACE_ENDINGS :: "string list" where
  "TRACE_ENDINGS = [''node_error'', ''error'', ''done'', ''cancelled'', ''awaiting_input'']"

text \<open>The character of an ellipsis.\<close>

definition ELLIPSIS :: char where "ELLIPSIS = CHR 0x85"

definition parse_sse :: "string \<Rightarrow> pydict option" where
  "parse_sse chunk = (if \<not> starts_with ''data: '' chunk then None
     else case json_loads (drop 6 chunk) of
       Some (PDict d) \<Rightarrow> if truthy (get0 d ''event'') then Some d else None
     | _ \<Rightarrow> None)"

definition clip :: "pyval \<Rightarrow> pyval \<times> bool" where
  "clip v = (let text = (case v of PStr s \<Rightarrow> s | _ \<Rightarrow> json_dumps v) in
     if length text \<le> TRACE_FIELD_MAX_CHARS then (v, False)
     else (PStr (take TRACE_FIELD_MAX_CHARS text @ [ELLIPSIS]), True))"

record run_trace =
  tr_events :: "pydict list"
  tr_truncated :: bool
  tr_size :: nat

definition new_trace :: run_trace where
  "new_trace = \<lparr>tr_events = [], tr_truncated = False, tr_size = 0\<rparr>"

definition clip_field :: "string \<Rightarrow> pydict \<times> bool \<Rightarrow> pydict \<times> bool" where
  "clip_field k x = (case x of (ev, clipped) \<Rightarrow> (case dget ev k of None \<Rightarrow> (ev, clipped)
     | Some v \<Rightarrow> (case clip v of (v', c) \<Rightarrow>
         (if c then (dset (dset ev k v') (k @ ''_truncated'') (PBool True), True) else (dset ev k v', clipped)))))"

definition event_size :: "pydict \<Rightarrow> nat" where
  "event_size ev = length (json_dumps (PDict ev))"

definition is_ending :: "pydict \<Rightarrow> bool" where
  "is_ending ev = in_strs (get0 ev ''event'') TRACE_ENDINGS"

definition without_bulk :: "pydict \<Rightarrow> pydict" where
  "without_bulk ev = filter (\<lambda>(k, _). k \<notin> set BULKY_FIELDS) ev"

definition trace_event :: "pydict \<Rightarrow> run_trace \<Rightarrow> run_trace" where
  "trace_event ev0 tr = (case fold clip_field BULKY_FIELDS (ev0, tr_truncated tr) of (ev, clipped) \<Rightarrow>
     if TRACE_MAX_BYTES < tr_size tr + event_size ev
     then (if is_ending ev
       then tr\<lparr>tr_truncated := True, tr_events := tr_events tr @ [without_bulk ev],
              tr_size := tr_size tr + event_size (without_bulk ev)\<rparr>
       else tr\<lparr>tr_truncated := True\<rparr>)
     else tr\<lparr>tr_truncated := clipped, tr_events := tr_events tr @ [ev], tr_size := tr_size tr + event_size ev\<rparr>)"

definition trace_add :: "string \<Rightarrow> run_trace \<Rightarrow> run_trace" where
  "trace_add chunk tr = (case parse_sse chunk of None \<Rightarrow> tr | Some ev \<Rightarrow> trace_event ev tr)"

definition trace_failure :: "run_trace \<Rightarrow> pydict option" where
  "trace_failure tr = map_option (\<lambda>e. [(k, get0 e k). k \<leftarrow> [''code'', ''params'', ''ref'', ''failed_node''], get0 e k \<noteq> PNone])
     (find (\<lambda>e. get0 e ''event'' = PStr ''error'') (rev (tr_events tr)))"

subsection \<open>The table of traces\<close>

definition save_trace :: "'w renv \<Rightarrow> string \<Rightarrow> run_trace \<Rightarrow> ('w, unit) tact" where
  "save_trace v i tr = sbind (liftr (e_encrypt v (json_dumps (PList (map PDict (tr_events tr)))))) (\<lambda>x.
     sbind (now_text v) (\<lambda>t. smod (\<lambda>s.
       let row = \<lparr>w_id = i, w_events = Some x, w_truncated = tr_truncated tr, w_updated = Some t\<rparr> in
       s\<lparr>d_traces := (if i \<in> w_id ` set (d_traces s) then changed (\<lambda>r. w_id r = i) (\<lambda>_. row) (d_traces s)
          else d_traces s @ [row])\<rparr>)))"

definition open_trace :: "'w renv \<Rightarrow> string option \<Rightarrow> pyval option" where
  "open_trace v raw = (if \<not> filled raw then Some (PList [])
     else (case e_decrypt v (the raw) of Inl _ \<Rightarrow> None | Inr x \<Rightarrow> json_loads x))"

definition get_trace :: "'w renv \<Rightarrow> string \<Rightarrow> string \<Rightarrow> ('w, pydict option) tact" where
  "get_trace v i owner = sbind (select (\<lambda>r. u_id r = i \<and> u_owner r = owner)) (\<lambda>owned.
     if owned = [] then sret None
     else sbind (sget (\<lambda>s. find (\<lambda>r. w_id r = i) (d_traces s))) (\<lambda>found.
       sret (Some (case Option.bind found (\<lambda>r. map_option (Pair r) (open_trace v (w_events r))) of
         None \<Rightarrow> [(''events'', PList []), (''truncated'', PBool False), (''available'', PBool False)]
       | Some (r, evs) \<Rightarrow> [(''events'', evs), (''truncated'', PBool (w_truncated r)), (''available'', PBool True)]))))"

definition delete_traces :: "(trace_row \<Rightarrow> bool) \<Rightarrow> ('w, nat) tact" where
  "delete_traces p s = (Inr (length (filter p (d_traces s))), s\<lparr>d_traces := filter (\<lambda>r. \<not> p r) (d_traces s)\<rparr>)"

definition forget_workflow_traces :: "string \<Rightarrow> string \<Rightarrow> ('w, nat) tact" where
  "forget_workflow_traces wid owner = sbind (select (\<lambda>r. u_workflow r = Some wid \<and> u_owner r = owner)) (\<lambda>owned.
     delete_traces (\<lambda>r. w_id r \<in> u_id ` set owned))"

definition trace_retention_days :: "string option \<Rightarrow> int" where
  "trace_retention_days raw = (case raw of None \<Rightarrow> 30 | Some s \<Rightarrow>
     (case int_of_digits (strip s) of Some n \<Rightarrow> if n < 1 then 30 else n | None \<Rightarrow> 30))"

definition purge_old_traces :: "'w renv \<Rightarrow> int \<Rightarrow> ('w, nat) tact" where
  "purge_old_traces v days = sbind (local_now v) (\<lambda>now.
     sbind (select (\<lambda>r. u_status r = SAwaiting)) (\<lambda>waiting.
     delete_traces (\<lambda>r. (case w_updated r of None \<Rightarrow> False | Some t \<Rightarrow> t < stamp (now - days * 24 * HOUR))
       \<and> w_id r \<notin> u_id ` set waiting)))"

subsection \<open>\<open>executed_tools\<close>\<close>

definition part_call :: "pyval \<Rightarrow> pyval list res" where
  "part_call part = (case part of
     PDict d \<Rightarrow> (case por (get0 d ''functionCall'') (get0 d ''function_call'') of
         PDict c \<Rightarrow> Inr (if truthy (get0 c ''name'') then [get0 c ''name''] else [])
       | _ \<Rightarrow> Inr [])
   | _ \<Rightarrow> Inl (PyError ''AttributeError''))"

definition event_tools :: "pyval \<Rightarrow> pyval list res" where
  "event_tools ev = (let content = (case ev of PDict d \<Rightarrow> get0 d ''content'' | _ \<Rightarrow> PNone) in
     ebind (attr_get (por content (PDict [])) ''parts'') (\<lambda>ps.
     ebind (py_iter (por ps (PList []))) (\<lambda>parts. map_sum id concat (emap part_call parts))))"

definition executed_tools :: "pyval \<Rightarrow> pyval list res" where
  "executed_tools events = (case events of PList evs \<Rightarrow> map_sum id concat (emap event_tools evs) | _ \<Rightarrow> Inr [])"

text \<open>The events after the last message of the user; a session that cannot be read is \<open>None\<close>.\<close>

fun after_last :: "('a \<Rightarrow> bool) \<Rightarrow> 'a list \<Rightarrow> 'a list" where
  "after_last p [] = []"
| "after_last p (x # xs) = (if list_ex p xs then after_last p xs else if p x then xs else x # xs)"

definition is_user_turn :: "pyval \<Rightarrow> bool" where
  "is_user_turn e = (case e of PDict d \<Rightarrow> get0 d ''author'' = PStr ''user'' | _ \<Rightarrow> False)"

definition executed_tools_in_session :: "pydict option res \<Rightarrow> pyval list option res" where
  "executed_tools_in_session session = (case session of Inl _ \<Rightarrow> Inr None
     | Inr s \<Rightarrow> ebind (py_iter (por (get0 (case s of None \<Rightarrow> [] | Some d \<Rightarrow> d) ''events'') (PList []))) (\<lambda>evs.
         map_sum id Some (executed_tools (PList (after_last is_user_turn evs)))))"

subsection \<open>\<open>track_agent_stream\<close>\<close>

fun blocks :: "string \<Rightarrow> string list" where
  "blocks [] = [[]]"
| "blocks [c] = [[c]]"
| "blocks (c # d # s) = (if c = CHR 0x0A \<and> d = CHR 0x0A then [] # blocks s
     else (case blocks (d # s) of [] \<Rightarrow> [[c]] | b # bs \<Rightarrow> (c # b) # bs))"

definition sse_event :: "string \<Rightarrow> pydict option" where
  "sse_event block = (let data = concat (map (\<lambda>l. strip (drop 5 l)) (filter (starts_with ''data:'') (splitlines block))) in
     if data = [] then None else (case json_loads data of Some (PDict d) \<Rightarrow> Some d | _ \<Rightarrow> None))"

record tracked =
  tk_failed :: "string option"
  tk_raised :: "exn option"
  tk_tools :: "pyval list"
  tk_buffer :: string

definition new_tracked :: tracked where
  "new_tracked = \<lparr>tk_failed = None, tk_raised = None, tk_tools = [], tk_buffer = []\<rparr>"

text \<open>
  \<open>tk_failed\<close> is the error of a stream whose status is \<open>error\<close>; \<open>tk_raised\<close> an exception of the reading
  itself, after which nothing more is read.
\<close>

definition track_block :: "string \<Rightarrow> tracked \<Rightarrow> tracked" where
  "track_block block k = (if tk_raised k \<noteq> None then k else (case sse_event block of None \<Rightarrow> k
     | Some ev \<Rightarrow>
         if truthy (get0 ev ''error'') then k\<lparr>tk_failed := Some (py_str (get0 ev ''error''))\<rparr>
         else if truthy (get0 ev ''partial'') then k
         else (case executed_tools (PList [PDict ev]) of
             Inl e \<Rightarrow> k\<lparr>tk_raised := Some e\<rparr>
           | Inr ts \<Rightarrow> k\<lparr>tk_tools := tk_tools k @ ts\<rparr>)))"

definition track_chunk :: "string \<Rightarrow> tracked \<Rightarrow> tracked" where
  "track_chunk chunk k = (let bs = blocks (tk_buffer k @ chunk) in
     fold track_block (butlast bs) (k\<lparr>tk_buffer := last bs\<rparr>))"

datatype stream_end = Ended | Closed | Raised string

text \<open>What a stream settles its run with: the issue, the error, and the tools.\<close>

definition stream_issue :: "string list \<Rightarrow> stream_end \<Rightarrow> run_status \<times> string option \<times> pyval list" where
  "stream_issue chunks fin = (let k = fold track_chunk chunks new_tracked in
     case tk_raised k of
       Some e \<Rightarrow> (SError, Some (case e of PyError cls \<Rightarrow> cls | _ \<Rightarrow> []), tk_tools k)
     | None \<Rightarrow> (case fin of
         Ended \<Rightarrow> (if tk_failed k = None then SSuccess else SError, tk_failed k, tk_tools k)
       | Closed \<Rightarrow> (SCancelled, tk_failed k, tk_tools k)
       | Raised m \<Rightarrow> (SError, Some m, tk_tools k)))"

definition track_agent_stream ::
  "'w renv \<Rightarrow> string option \<Rightarrow> string list \<Rightarrow> stream_end \<Rightarrow> ('w, unit) tact" where
  "track_agent_stream v i chunks fin = (case stream_issue chunks fin of
     (st, m, tools) \<Rightarrow> settle_run v i st m (Some tools))"

end
