(* ===== verification/Fl_Shape.thy ===== *)
theory Fl_Shape
  imports Wf_Template "HOL-Library.List_Lexorder" "HOL-Library.Char_ord"
begin

section \<open>Shapes of outputs (\<open>core/workflow_shapes.py\<close>)\<close>

text \<open>
  The shape of a value: its field names and types, and no value.  The editor learns the shapes of the
  answers of tools and derives the others from the graph.
\<close>

definition MAX_DEPTH :: nat where "MAX_DEPTH = 6"
definition MAX_KEYS :: nat where "MAX_KEYS = 50"
definition MAX_SHAPE_BYTES :: nat where "MAX_SHAPE_BYTES = 8000"
definition MAX_TOOL_REF :: nat where "MAX_TOOL_REF = 200"

text \<open>\<open>[A-Za-z_][A-Za-z0-9_]{0,63}\<close> with at most one digit\<close>

definition is_field_key :: "string \<Rightarrow> bool" where
  "is_field_key k = (k \<noteq> [] \<and> (is_alpha (hd k) \<or> hd k = CHR ''_'') \<and> list_all is_ident_char (tl k) \<and> length k \<le> 64
     \<and> length (filter is_dec k) \<le> 1)"

definition typed :: "string \<Rightarrow> pyval" where "typed t = PDict [(''type'', PStr t)]"

definition fields_shape :: "pydict \<Rightarrow> pyval" where
  "fields_shape fs = PDict [(''type'', PStr ''object''), (''fields'', PDict fs)]"

definition leaf_type :: "pyval \<Rightarrow> string" where
  "leaf_type v = (case v of PNone \<Rightarrow> ''null'' | PBool _ \<Rightarrow> ''boolean'' | PInt _ \<Rightarrow> ''number'' | PFloat _ \<Rightarrow> ''number''
     | PStr _ \<Rightarrow> ''string'' | PList _ \<Rightarrow> ''array'' | PDict _ \<Rightarrow> ''object'')"

subsection \<open>\<open>shape_of\<close>, \<open>capped_shape\<close>\<close>

definition named_keys :: "pydict \<Rightarrow> string list" where "named_keys e = filter is_field_key (dkeys e)"
definition data_keys :: "pydict \<Rightarrow> string list" where "data_keys e = filter (\<lambda>k. \<not> is_field_key k) (dkeys e)"

definition object_shape :: "string list \<Rightarrow> pydict \<Rightarrow> pyval option \<Rightarrow> pyval" where
  "object_shape named fs others = PDict ([(''type'', PStr ''object''), (''fields'', PDict fs)]
     @ (if MAX_KEYS < length named then [(''truncated'', PBool True)] else [])
     @ (case others of None \<Rightarrow> [] | Some x \<Rightarrow> [(''others'', x)]))"

fun shape_of :: "nat \<Rightarrow> pyval \<Rightarrow> pyval" where
  "shape_of 0 v = typed (leaf_type v)"
| "shape_of (Suc d) v = (case v of
     PDict e \<Rightarrow> (let others = (case data_keys e of [] \<Rightarrow> None | k # _ \<Rightarrow> Some (shape_of d (get0 e k))) in
       if others \<noteq> None \<and> named_keys e = []
       then PDict [(''type'', PStr ''map''), (''values'', the others)]
       else object_shape (named_keys e)
         (map (\<lambda>k. (k, shape_of d (get0 e k))) (take MAX_KEYS (named_keys e))) others)
   | PList (x # _) \<Rightarrow> PDict [(''type'', PStr ''array''), (''items'', shape_of d x)]
   | _ \<Rightarrow> typed (leaf_type v))"

fun first_fitting :: "nat \<Rightarrow> pyval \<Rightarrow> pyval" where
  "first_fitting d v = (if length (json_dumps_ascii (shape_of d v)) \<le> MAX_SHAPE_BYTES then shape_of d v
     else case d of 0 \<Rightarrow> typed ''any'' | Suc k \<Rightarrow> first_fitting k v)"

definition capped_shape :: "pyval \<Rightarrow> pyval" where
  "capped_shape v = first_fitting MAX_DEPTH v"

subsection \<open>\<open>_at_path\<close>, \<open>_template_shape\<close>\<close>

definition shape_type :: "pyval \<Rightarrow> pyval" where
  "shape_type s = (case s of PDict d \<Rightarrow> get0 d ''type'' | _ \<Rightarrow> PNone)"

text \<open>An absent shape is \<open>None\<close>.\<close>

fun at_path :: "pyval option \<Rightarrow> string list \<Rightarrow> pyval" where
  "at_path s [] = (case s of None \<Rightarrow> typed ''any'' | Some x \<Rightarrow> x)"
| "at_path s (k # ks) = (case s of
     Some (PDict d) \<Rightarrow>
       if get0 d ''type'' = PStr ''map'' then at_path (dget d ''values'') ks
       else if get0 d ''type'' \<noteq> PStr ''object'' then typed ''any''
       else (case dget d ''fields'' of
         Some (PDict fs) \<Rightarrow>
           if k \<in> set (dkeys fs) then at_path (dget fs k) ks
           else if ''others'' \<in> set (dkeys d) then at_path (dget d ''others'') ks else typed ''any''
       | _ \<Rightarrow> if ''others'' \<in> set (dkeys d) then at_path (dget d ''others'') ks else typed ''any'')
   | _ \<Rightarrow> typed ''any'')"

definition template_shape :: "(string \<times> pyval option) list \<Rightarrow> pyval \<Rightarrow> pyval" where
  "template_shape known v = (case v of
     PStr s \<Rightarrow> (case match_tmpl (strip s) of
         Some (i, p, r) \<Rightarrow> if r = [] then at_path (Option.bind (dget known i) id) (path_keys p) else typed ''string''
       | None \<Rightarrow> typed ''string'')
   | _ \<Rightarrow> shape_of MAX_DEPTH v)"

subsection \<open>\<open>_static_shape\<close>\<close>

definition fixed_shapes :: "node_type \<Rightarrow> pydict option" where
  "fixed_shapes t = map_option (map (\<lambda>(k, ty). (k, typed ty))) (case t of
     THttp \<Rightarrow> Some [(''status'', ''number''), (''headers'', ''object''), (''body'', ''any'')]
   | TRag \<Rightarrow> Some [(''query'', ''string''), (''passages'', ''array'')]
   | TNotification \<Rightarrow> Some [(''channel'', ''string''), (''sent'', ''number'')]
   | TDocument \<Rightarrow> Some [(''documents'', ''array''), (''text'', ''string''), (''count'', ''number'')]
   | TDbWrite \<Rightarrow> Some [(''table'', ''string''), (''inserted'', ''number'')]
   | TFile \<Rightarrow> Some [(''name'', ''string''), (''ref'', ''string''), (''size'', ''number''), (''content_type'', ''string''),
       (''format'', ''string''), (''rows'', ''number'')]
   | TFileSave \<Rightarrow> Some [(''provider'', ''string''), (''name'', ''string''), (''path'', ''string''), (''web_url'', ''string'')]
   | _ \<Rightarrow> None)"

definition extract_types :: "(string \<times> string) list" where
  "extract_types = [(''string'', ''string''), (''number'', ''number''), (''boolean'', ''boolean''), (''list'', ''array''),
     (''object'', ''object'')]"

definition convert_types :: "(string \<times> string) list" where
  "convert_types = [(''text'', ''string''), (''number'', ''number''), (''boolean'', ''boolean''), (''date'', ''string''),
     (''list'', ''array'')]"

text \<open>A table of strings asked with any value: an unhashable one raises.\<close>

definition table_get :: "(string \<times> string) list \<Rightarrow> pyval \<Rightarrow> string option res" where
  "table_get t v = (case v of PStr s \<Rightarrow> Inr (map_of t s)
     | _ \<Rightarrow> if hashable v then Inr None else Inl (PyError ''TypeError''))"

text \<open>The entries of \<open>fields\<close> that are dicts with a filled \<open>key\<close>, and the key each has in the result.\<close>

definition field_entries :: "pydict \<Rightarrow> string \<Rightarrow> (string \<times> pydict) list res" where
  "field_entries cfg key = ebind (py_iter (por (get0 cfg ''fields'') (PList []))) (\<lambda>xs.
     emap (\<lambda>d. if hashable (get0 d key) then Inr (text_of (get0 d key), d) else Inl (PyError ''TypeError''))
       (concat (map (\<lambda>x. case x of PDict d \<Rightarrow> if truthy (get0 d key) then [d] else [] | _ \<Rightarrow> []) xs)))"

definition collect :: "(string \<times> pyval) list \<Rightarrow> pydict" where
  "collect xs = fold (\<lambda>(k, v) d. dset d k v) xs []"

definition set_shape :: "(string \<times> pyval option) list \<Rightarrow> pydict \<Rightarrow> pyval res" where
  "set_shape known cfg = map_sum id (\<lambda>fs. fields_shape (collect (map (\<lambda>(k, d). (k, template_shape known (get0 d ''value''))) fs)))
     (field_entries cfg ''key'')"

definition extract_shape :: "pydict \<Rightarrow> pyval res" where
  "extract_shape cfg = ebind (field_entries cfg ''name'') (\<lambda>fs. map_sum id (\<lambda>ts. fields_shape (collect ts))
     (emap (\<lambda>(k, d). map_sum id (\<lambda>t. (k, typed (case t of None \<Rightarrow> ''any'' | Some x \<Rightarrow> x)))
       (table_get extract_types (get0 d ''type''))) fs))"

definition known_shape :: "(string \<times> pyval option) list \<Rightarrow> string \<Rightarrow> pyval option" where
  "known_shape known i = Option.bind (dget known i) id"

definition passes_input :: "wnode \<Rightarrow> bool" where
  "passes_input n = (n_type n \<in> {TRouter, TCondition, TClassifier}
     \<or> n_type n = TOutput \<and> cfg0 n ''value'' \<in> {PNone, PStr []})"

definition static_shape :: "(string \<times> pyval option) list \<Rightarrow> string list \<Rightarrow> wnode \<Rightarrow> pyval option res" where
  "static_shape known parents n = (
     if n_type n = TTrigger then Inr (if cfg0 n ''sample_payload'' = PNone then None else Some (capped_shape (cfg0 n ''sample_payload'')))
     else if n_type n = TSet then map_sum id Some (set_shape known (n_config n))
     else if n_type n = TExtract then map_sum id Some (extract_shape (n_config n))
     else if n_type n = TMerge then Inr (Some (fields_shape
       (map (\<lambda>p. (p, case known_shape known p of None \<Rightarrow> typed ''any'' | Some s \<Rightarrow> s)) (sort parents))))
     else if n_type n = TConvert then map_sum id (map_option typed) (table_get convert_types (cfg0 n ''to''))
     else case fixed_shapes (n_type n) of
       Some fs \<Rightarrow> Inr (Some (fields_shape fs))
     | None \<Rightarrow>
         if n_type n = TAgent \<and> cfg0 n ''output_type'' = PStr ''text'' then Inr (Some (typed ''string''))
         else if n_type n = TLoop then Inr (Some (typed ''array''))
         else (case parents of [p] \<Rightarrow> Inr (if passes_input n then known_shape known p else None) | _ \<Rightarrow> Inr None))"

subsection \<open>\<open>node_shapes\<close>\<close>

record shapes =
  sh_known :: "(string \<times> pyval option) list"
  sh_out :: "(string \<times> pyval) list"

definition entry :: "string \<Rightarrow> pyval \<Rightarrow> pyval" where
  "entry source s = PDict [(''source'', PStr source), (''shape'', s)]"

definition node_shape ::
  "(string \<times> pyval) list \<Rightarrow> (string \<times> pyval option) list \<Rightarrow> string list \<Rightarrow> wnode \<Rightarrow> (string \<times> pyval option) res" where
  "node_shape tools known parents n = (if n_type n = TTool
     then (case cfg0 n ''tool'' of
         PStr t \<Rightarrow> Inr (''learned'', dget tools t)
       | v \<Rightarrow> if hashable v then Inr (''learned'', None) else Inl (PyError ''TypeError''))
     else map_sum id (Pair ''static'') (static_shape known parents n))"

definition remember :: "string \<Rightarrow> string \<Rightarrow> pyval option \<Rightarrow> shapes \<Rightarrow> shapes" where
  "remember i source s st = st\<lparr>sh_known := dset (sh_known st) i s,
     sh_out := (case s of None \<Rightarrow> sh_out st | Some x \<Rightarrow> dset (sh_out st) i (entry source x))\<rparr>"

text \<open>\<open>visiting\<close> holds the nodes whose visit has begun and not ended: the path to the one visited.\<close>

function visit_shape :: "wgraph \<Rightarrow> (string \<times> pyval) list \<Rightarrow> string list \<Rightarrow> string \<Rightarrow> shapes \<Rightarrow> shapes res" where
  "visit_shape g tools visiting i st = (
     if i \<in> set (dkeys (sh_known st)) \<or> i \<in> set visiting then Inr st
     else case find_node g i of None \<Rightarrow> Inl (PyError ''KeyError'')
     | Some n \<Rightarrow>
         ebind (efold (\<lambda>t p. if p \<in> set (node_ids g) then visit_shape g tools (i # visiting) p t else Inr t) st (parents_of g i)) (\<lambda>t.
         ebind (node_shape tools (sh_known t) (parents_of g i) n) (\<lambda>(source, s).
         Inr (remember i source s t))))"
  by pat_completeness auto
termination
proof (relation "measure (\<lambda>(g, tools, visiting, i, st). card (set (node_ids g) - set visiting))", goal_cases)
  case 1
  then show ?case by simp
next
  case (2 g tools visiting i st n t p)
  then have "i \<in> set (node_ids g)" "i \<notin> set visiting" by (auto simp: node_ids_def dest: find_node_Some)
  then have "set (node_ids g) - set (i # visiting) \<subset> set (node_ids g) - set visiting" by auto
  then have "card (set (node_ids g) - set (i # visiting)) < card (set (node_ids g) - set visiting)"
    by (intro psubset_card_mono) auto
  then show ?case by simp
qed

declare visit_shape.simps [simp del]

definition node_shapes :: "wgraph \<Rightarrow> (string \<times> pyval) list \<Rightarrow> (string \<times> pyval) list res" where
  "node_shapes g tools = map_sum id sh_out
     (efold (\<lambda>st i. visit_shape g tools [] i st) \<lparr>sh_known = [], sh_out = []\<rparr> (node_ids g))"

subsection \<open>Learned shapes\<close>

record shape_row =
  so_owner :: string
  so_tool :: string
  so_shape :: string
  so_updated :: string

definition record_tool_shape :: "string \<Rightarrow> string \<Rightarrow> string \<Rightarrow> pyval \<Rightarrow> shape_row list \<Rightarrow> shape_row list" where
  "record_tool_shape now owner tool result rows = (
     if tool = [] \<or> MAX_TOOL_REF < length tool \<or> tool_reported_error result \<noteq> None then rows
     else let row = \<lparr>so_owner = owner, so_tool = tool, so_shape = json_dumps_ascii (capped_shape result), so_updated = now\<rparr> in
       if \<exists>r \<in> set rows. so_owner r = owner \<and> so_tool r = tool
       then map (\<lambda>r. if so_owner r = owner \<and> so_tool r = tool then row else r) rows else rows @ [row])"

definition read_tool_shapes :: "string \<Rightarrow> pyval list \<Rightarrow> shape_row list \<Rightarrow> (string \<times> pyval) list res" where
  "read_tool_shapes owner tools rows =
     emap (\<lambda>r. map_sum id (Pair (so_tool r)) (of_opt (PyError ''JSONDecodeError'') (json_loads (so_shape r))))
       (filter (\<lambda>r. so_owner r = owner \<and> so_tool r \<noteq> [] \<and> PStr (so_tool r) \<in> set tools) rows)"

text \<open>\<open>learning_run_tool\<close>: one run, with the tools whose shape it has kept.  \<open>run_tool\<close> is a parameter.\<close>

record 'w learner =
  le_seen :: "string list"
  le_rows :: "shape_row list"
  le_world :: 'w

definition learning_run_tool ::
  "string \<Rightarrow> string \<Rightarrow> (string \<Rightarrow> pyval \<Rightarrow> 'w \<Rightarrow> pyval res \<times> 'w) \<Rightarrow> string \<Rightarrow> pyval \<Rightarrow> 'w learner \<Rightarrow> pyval res \<times> 'w learner" where
  "learning_run_tool now owner run_tool tool args s = (case run_tool tool args (le_world s) of
     (Inl e, w) \<Rightarrow> (Inl e, s\<lparr>le_world := w\<rparr>)
   | (Inr result, w) \<Rightarrow> (Inr result,
       if tool \<in> set (le_seen s) \<or> tool_reported_error result \<noteq> None then s\<lparr>le_world := w\<rparr>
       else s\<lparr>le_world := w, le_seen := tool # le_seen s, le_rows := record_tool_shape now owner tool result (le_rows s)\<rparr>))"

subsection \<open>\<open>tool_refs_in\<close>\<close>

definition own_tool :: "pydict \<Rightarrow> string list res" where
  "own_tool d = (if get0 d ''type'' \<noteq> PStr ''tool'' then Inr []
     else ebind (attr_get (por (get0 d ''config'') (PDict [])) ''tool'') (\<lambda>t.
       Inr (case t of PStr s \<Rightarrow> if s = [] then [] else [s] | _ \<Rightarrow> [])))"

fun walk_tools :: "pyval \<Rightarrow> string list res"
  and walk_items :: "pydict \<Rightarrow> string list res"
  and walk_list :: "pyval list \<Rightarrow> string list res" where
  "walk_tools (PDict d) = ebind (own_tool d) (\<lambda>own. map_sum id ((@) own) (walk_items d))"
| "walk_tools (PList xs) = walk_list xs"
| "walk_tools v = Inr []"
| "walk_items [] = Inr []"
| "walk_items ((k, v) # d) = ebind (walk_tools v) (\<lambda>a. map_sum id ((@) a) (walk_items d))"
| "walk_list [] = Inr []"
| "walk_list (x # xs) = ebind (walk_tools x) (\<lambda>a. map_sum id ((@) a) (walk_list xs))"

definition tool_refs_in :: "string \<Rightarrow> string list res" where
  "tool_refs_in graph = (case json_loads graph of None \<Rightarrow> Inr [] | Some v \<Rightarrow> walk_tools v)"

subsection \<open>A shape tells no value\<close>

text \<open>
  \<open>disguise fl fk v\<close> is \<open>v\<close> with other leaves and other names for its data keys.
\<close>

fun disguise :: "(pyval \<Rightarrow> pyval) \<Rightarrow> (string \<Rightarrow> string) \<Rightarrow> pyval \<Rightarrow> pyval" where
  "disguise fl fk (PDict d) = PDict (map (\<lambda>(k, v). (fk k, disguise fl fk v)) d)"
| "disguise fl fk (PList xs) = PList (map (disguise fl fk) xs)"
| "disguise fl fk v = fl v"

lemma leaf_type_disguise:
  assumes "\<And>v. leaf_type (fl v) = leaf_type v"
  shows "leaf_type (disguise fl fk v) = leaf_type v"
  using assms by (cases v) (simp_all add: leaf_type_def)

lemma leaf_kinds: "leaf_type v = ''object'' \<longleftrightarrow> is_dict v" "leaf_type v = ''array'' \<longleftrightarrow> is_list v"
  by (cases v; simp add: leaf_type_def is_dict_def is_list_def)+

lemma dkeys_disguise: "dkeys (map (\<lambda>(k, v). (fk k, f v)) d) = map fk (dkeys d)"
  by (simp add: dkeys_def case_prod_unfold)

lemma get0_disguise:
  assumes "inj fk" "k \<in> set (dkeys d)"
  shows "get0 (map (\<lambda>(k, v). (fk k, f v)) d) (fk k) = f (get0 d k)"
  using assms by (induction d) (auto simp: get0_def dget_def dkeys_def inj_eq)

lemma kept_keys:
  assumes "\<And>k. is_field_key k \<Longrightarrow> fk k = k" "\<And>k. \<not> is_field_key k \<Longrightarrow> \<not> is_field_key (fk k)"
  shows "named_keys (map (\<lambda>(k, v). (fk k, f v)) d) = named_keys d"
    "data_keys (map (\<lambda>(k, v). (fk k, f v)) d) = map fk (data_keys d)"
proof -
  have field: "is_field_key (fk k) = is_field_key k" for k using assms[of k] by metis
  have "map fk (named_keys d) = named_keys d"
    using assms(1) by (auto simp: named_keys_def intro!: map_idI)
  then show "named_keys (map (\<lambda>(k, v). (fk k, f v)) d) = named_keys d"
    by (simp add: named_keys_def dkeys_disguise filter_map comp_def field)
  show "data_keys (map (\<lambda>(k, v). (fk k, f v)) d) = map fk (data_keys d)"
    by (simp add: data_keys_def dkeys_disguise filter_map comp_def field)
qed

lemma shape_of_leaf: "\<not> is_dict v \<Longrightarrow> \<not> is_list v \<Longrightarrow> shape_of d v = typed (leaf_type v)"
  by (cases d; cases v) (simp_all add: is_dict_def is_list_def)

lemma shape_of_disguise:
  assumes "\<And>v. leaf_type (fl v) = leaf_type v" "inj fk" "\<And>k. is_field_key k \<Longrightarrow> fk k = k"
    "\<And>k. \<not> is_field_key k \<Longrightarrow> \<not> is_field_key (fk k)"
  shows "shape_of d (disguise fl fk v) = shape_of d v"
proof (induction d arbitrary: v)
  case 0
  show ?case by (simp add: leaf_type_disguise assms(1))
next
  case (Suc d)
  show ?case
  proof (cases v)
    case (PDict e)
    let ?e = "map (\<lambda>(k, v). (fk k, disguise fl fk v)) e"
    have keys: "named_keys ?e = named_keys e" "data_keys ?e = map fk (data_keys e)"
      using kept_keys[of fk "disguise fl fk" e] assms(3,4) by blast+
    have read: "shape_of d (get0 ?e (fk k)) = shape_of d (get0 e k)" if "k \<in> set (dkeys e)" for k
      using Suc.IH get0_disguise[OF assms(2) that, of "disguise fl fk"] by simp
    have named: "shape_of d (get0 ?e k) = shape_of d (get0 e k)" if "k \<in> set (named_keys e)" for k
      using read[of k] assms(3)[of k] that by (simp add: named_keys_def)
    have fs: "map (\<lambda>k. (k, shape_of d (get0 ?e k))) (take MAX_KEYS (named_keys e))
        = map (\<lambda>k. (k, shape_of d (get0 e k))) (take MAX_KEYS (named_keys e))"
      by (rule map_cong) (auto dest!: in_set_takeD intro: named)
    have others: "(case map fk (data_keys e) of [] \<Rightarrow> None | k # _ \<Rightarrow> Some (shape_of d (get0 ?e k)))
        = (case data_keys e of [] \<Rightarrow> None | k # _ \<Rightarrow> Some (shape_of d (get0 e k)))"
    proof (cases "data_keys e")
      case (Cons k ks)
      then have "k \<in> set (data_keys e)" by simp
      then have "k \<in> set (dkeys e)" by (simp add: data_keys_def)
      with Cons show ?thesis by (simp add: read)
    qed simp
    have "disguise fl fk v = PDict ?e" by (simp add: PDict)
    then show ?thesis by (simp only: PDict shape_of.simps pyval.case keys others fs)
  next
    case (PList xs)
    then show ?thesis by (cases xs) (simp_all add: Suc.IH leaf_type_def)
  qed (use shape_of_leaf[of "fl v" "Suc d"] shape_of_leaf[of v "Suc d"] assms(1)[of v] leaf_kinds[of "fl v"] leaf_kinds[of v]
      in \<open>auto simp: is_dict_def is_list_def\<close>)
qed

text \<open>C29. The shape that is kept of a tool's answer does not depend on its values: other texts, numbers and flags,
  and other names for the keys that are data, leave the same shape.\<close>

theorem shape_tells_no_value:
  assumes "\<And>v. leaf_type (fl v) = leaf_type v" "inj fk" "\<And>k. is_field_key k \<Longrightarrow> fk k = k"
    "\<And>k. \<not> is_field_key k \<Longrightarrow> \<not> is_field_key (fk k)"
  shows "capped_shape (disguise fl fk v) = capped_shape v"
proof -
  have "first_fitting d (disguise fl fk v) = first_fitting d v" for d
    by (induction d) (simp_all add: shape_of_disguise[OF assms] del: shape_of.simps)
  then show ?thesis by (simp add: capped_shape_def)
qed

definition mask :: "pyval \<Rightarrow> pyval" where
  "mask v = (case v of PStr _ \<Rightarrow> PStr ''x'' | PInt _ \<Rightarrow> PInt 0 | PFloat _ \<Rightarrow> PInt 0 | PBool _ \<Rightarrow> PBool False | _ \<Rightarrow> v)"

definition mask_key :: "string \<Rightarrow> string" where
  "mask_key k = (if is_field_key k then k else k @ ''!'')"

lemma shape_tells_no_value_witness:
  "capped_shape (PDict [(''total'', PInt 0), (''Ann Lee!'', PStr ''x'')]) = capped_shape (PDict [(''total'', PInt 7), (''Ann Lee'', PStr ''ok'')])"
proof -
  have field: "\<not> is_field_key (k @ ''!'')" for k
  proof -
    have "\<not> is_ident_char CHR ''!''" "CHR ''!'' \<noteq> CHR ''_''" "\<not> is_alpha CHR ''!''" by code_simp+
    then show ?thesis by (cases k) (simp_all add: is_field_key_def)
  qed
  have "inj mask_key" by (rule injI) (metis append_same_eq field mask_key_def)
  moreover have "leaf_type (mask v) = leaf_type v" for v by (cases v) (simp_all add: leaf_type_def mask_def)
  ultimately have "capped_shape (disguise mask mask_key (PDict [(''total'', PInt 7), (''Ann Lee'', PStr ''ok'')]))
      = capped_shape (PDict [(''total'', PInt 7), (''Ann Lee'', PStr ''ok'')])"
    by (intro shape_tells_no_value) (auto simp: mask_key_def field)
  moreover have "disguise mask mask_key (PDict [(''total'', PInt 7), (''Ann Lee'', PStr ''ok'')])
      = PDict [(''total'', PInt 0), (''Ann Lee!'', PStr ''x'')]" by code_simp
  ultimately show ?thesis by simp
qed

text \<open>A kept shape is at most eight thousand characters of JSON.\<close>

lemma first_fitting_fits: "length (json_dumps_ascii (first_fitting d v)) \<le> MAX_SHAPE_BYTES"
proof (induction d)
  case 0
  have "length (json_dumps_ascii (typed (leaf_type v))) \<le> 8000" for v
  proof -
    have "leaf_type v \<in> {''null'', ''boolean'', ''number'', ''string'', ''array'', ''object''}" by (cases v) (simp_all add: leaf_type_def)
    moreover have "\<forall>t \<in> {''null'', ''boolean'', ''number'', ''string'', ''array'', ''object''}. length (json_dumps_ascii (typed t)) \<le> 8000"
      by code_simp
    ultimately show ?thesis by blast
  qed
  then show ?case by (simp add: MAX_SHAPE_BYTES_def)
qed (auto simp del: shape_of.simps)

theorem kept_shape_fits:
  "r \<in> set (record_tool_shape now owner tool result []) \<Longrightarrow> length (so_shape r) \<le> 8000"
  using first_fitting_fits[of MAX_DEPTH result]
  by (auto simp: record_tool_shape_def capped_shape_def MAX_SHAPE_BYTES_def Let_def split: if_splits)

end
