(* ===== verification/Fl_Store.thy ===== *)
theory Fl_Store
  imports Trg_Fire Run_Trace Fl_Shape
begin

section \<open>Stored workflows (\<open>core/workflow_main.py\<close>)\<close>

text \<open>
  The tables of workflows, of their revisions and of the shapes of tools
  (\<open>agent_store/workflow_store.py\<close>), and the operations over them: an optimistic lock on the version, an
  archive of every state that is replaced, and the trigger that follows each write.
\<close>

record flow_row =
  fw_id :: string
  fw_name :: string
  fw_description :: "string option"
  fw_owner :: string
  fw_org :: "string option"
  fw_graph :: string
  fw_status :: string
  fw_version :: int
  fw_created :: string
  fw_updated :: string

record revision =
  rv_id :: nat
  rv_flow :: string
  rv_version :: int
  rv_name :: string
  rv_description :: "string option"
  rv_graph :: string
  rv_status :: string
  rv_owner :: string
  rv_saved :: string
  rv_reason :: string

record 'w site =
  st_flows :: "flow_row list"
  st_revs :: "revision list"
  st_next :: nat
  st_shapes :: "shape_row list"
  st_trg :: "'w flows"

datatype flow_error = WorkflowNotFound | VersionConflict int | InvalidWorkflow string | Crashed run_error

type_synonym ('w, 'a) sact = "('w site, flow_error, 'a) act"

definition on_trg :: "('w, 'a) fact \<Rightarrow> ('w, 'a) sact" where
  "on_trg m s = (case m (st_trg s) of (r, t) \<Rightarrow> (map_err Crashed r, s\<lparr>st_trg := t\<rparr>))"

text \<open>A block \<open>with engine.begin()\<close>; the counter of revisions is a sequence, which a rollback leaves.\<close>

definition in_tx :: "('w, 'a) sact \<Rightarrow> ('w, 'a) sact" where
  "in_tx m s = (case m s of
     (Inl e, t) \<Rightarrow> (Inl e, t\<lparr>st_flows := st_flows s, st_revs := st_revs s, st_shapes := st_shapes s\<rparr>) | (Inr x, t) \<Rightarrow> (Inr x, t))"

definition liftc :: "'a res \<Rightarrow> ('w, 'a) sact" where
  "liftc r = slift (map_err (\<lambda>e. Crashed (Failed e)) r)"

definition clock :: "'w tenv \<Rightarrow> ('w, string) sact" where
  "clock z = on_trg (now_iso z)"

subsection \<open>\<open>model_dump(exclude_none=True)\<close>\<close>

definition lean :: "pydict \<Rightarrow> pyval" where
  "lean d = PDict (filter (\<lambda>(_, v). v \<noteq> PNone) d)"

definition lean_node :: "wnode \<Rightarrow> pyval" where
  "lean_node n = lean [(''id'', PStr (n_id n)), (''type'', PStr (type_str (n_type n))), (''label'', opt_pstr (n_label n)),
     (''config'', PDict (n_config n)), (''position'', opt_pdict (n_position n))]"

definition lean_edge :: "wedge \<Rightarrow> pyval" where
  "lean_edge e = lean [(''id'', opt_pstr (e_id e)), (''source'', PStr (e_source e)), (''target'', PStr (e_target e)),
     (''route'', opt_pstr (e_route e))]"

definition lean_output :: "pyval \<Rightarrow> pyval" where
  "lean_output v = (case v of PDict d \<Rightarrow> lean [(''mode'', get0 d ''mode''), (''value'', get0 d ''value'')] | _ \<Rightarrow> PNone)"

definition lean_test :: "pyval \<Rightarrow> pyval" where
  "lean_test v = (let d = sub_dict v; e = sub_dict (get0 d ''expect'') in
     lean [(''id'', get0 d ''id''), (''name'', get0 d ''name''), (''payload'', get0 d ''payload''),
       (''expect'', lean [(''status'', get0 e ''status''), (''routes'', get0 e ''routes''),
          (''output'', lean_output (get0 e ''output''))])])"

definition lean_settings :: "bool option option \<Rightarrow> pyval" where
  "lean_settings s = (case s of None \<Rightarrow> PNone
     | Some b \<Rightarrow> lean [(''notify_on_failure'', case b of None \<Rightarrow> PNone | Some x \<Rightarrow> PBool x)])"

definition lean_graph :: "wgraph \<Rightarrow> pyval" where
  "lean_graph g = lean [(''version'', PInt 1), (''nodes'', PList (map lean_node (g_nodes g))),
     (''edges'', PList (map lean_edge (g_edges g))),
     (''tests'', case g_tests g of None \<Rightarrow> PNone | Some ts \<Rightarrow> PList (map lean_test ts)),
     (''settings'', lean_settings (g_settings g))]"

definition stored_text :: "wgraph \<Rightarrow> string" where
  "stored_text g = json_dumps (lean_graph g)"

definition parsed :: "pyval \<Rightarrow> flow_error + wgraph" where
  "parsed v = of_opt (InvalidWorkflow ''invalid workflow'') (parse_graph v)"

definition graph_of :: "string \<Rightarrow> pyval res" where
  "graph_of text = of_opt (PyError ''JSONDecodeError'') (json_loads text)"

subsection \<open>Reading\<close>

definition fetch_flow :: "string \<Rightarrow> string \<Rightarrow> ('w, flow_row option) sact" where
  "fetch_flow wid owner = sget (\<lambda>s. find (\<lambda>r. fw_id r = wid \<and> fw_owner r = owner) (st_flows s))"

definition flow_fields :: "flow_row \<Rightarrow> pydict" where
  "flow_fields r = [(''workflow_id'', PStr (fw_id r)), (''name'', PStr (fw_name r)), (''description'', opt_pstr (fw_description r)),
     (''owner_id'', PStr (fw_owner r)), (''organization_id'', opt_pstr (fw_org r)), (''status'', PStr (fw_status r)),
     (''version'', PInt (fw_version r)), (''created_at'', PStr (fw_created r)), (''updated_at'', PStr (fw_updated r))]"

definition flow_dict :: "flow_row \<Rightarrow> pydict res" where
  "flow_dict r = map_sum id (\<lambda>g. flow_fields r @ [(''graph'', g)]) (graph_of (fw_graph r))"

definition LIST_FIELDS :: "string list" where
  "LIST_FIELDS = [''workflow_id'', ''name'', ''description'', ''status'', ''version'', ''created_at'', ''updated_at'']"

definition node_count :: "pyval \<Rightarrow> pyval res" where
  "node_count g = ebind (attr_get g ''nodes'') (\<lambda>ns. map_sum id (\<lambda>xs. PInt (int (length xs))) (py_iter (por ns (PList []))))"

definition listed_flow :: "flow_row \<Rightarrow> pydict res" where
  "listed_flow r = ebind (graph_of (fw_graph r)) (\<lambda>g. map_sum id (\<lambda>n. map (\<lambda>k. (k, get0 (flow_fields r) k)) LIST_FIELDS @ [(''node_count'', n)])
     (node_count g))"

definition get_workflow :: "string \<Rightarrow> string \<Rightarrow> ('w, pydict option) sact" where
  "get_workflow wid owner = sbind (fetch_flow wid owner) (\<lambda>found. case found of None \<Rightarrow> sret None
     | Some r \<Rightarrow> sbind (liftc (flow_dict r)) (\<lambda>d. sret (Some d)))"

text \<open>The revision of this version with the greatest identifier.\<close>

definition latest :: "revision list \<Rightarrow> revision option" where
  "latest rs = (case rs of [] \<Rightarrow> None | _ \<Rightarrow> Some (last (sort_key rv_id rs)))"

definition get_workflow_graph_at :: "string \<Rightarrow> int \<Rightarrow> string \<Rightarrow> ('w, pyval option) sact" where
  "get_workflow_graph_at wid version owner = sbind (fetch_flow wid owner) (\<lambda>found. case found of
     None \<Rightarrow> sret None
   | Some r \<Rightarrow>
       if fw_version r = version then sbind (liftc (graph_of (fw_graph r))) (\<lambda>g. sret (Some g))
       else sbind (sget (\<lambda>s. latest (filter (\<lambda>v. rv_flow v = wid \<and> rv_owner v = owner \<and> rv_version v = version) (st_revs s))))
         (\<lambda>rev. case rev of None \<Rightarrow> sret None | Some v \<Rightarrow> sbind (liftc (graph_of (rv_graph v))) (\<lambda>g. sret (Some g))))"

definition list_workflows :: "string \<Rightarrow> ('w, pydict list) sact" where
  "list_workflows owner = sbind (sget (\<lambda>s. rev (sort_key fw_updated (filter (\<lambda>r. fw_owner r = owner) (st_flows s)))))
     (\<lambda>rows. liftc (emap listed_flow rows))"

subsection \<open>\<open>create_workflow\<close>\<close>

definition domain_of :: "string \<Rightarrow> string res" where
  "domain_of email = (case split_on (CHR ''@'') email of _ # d # _ \<Rightarrow> Inr d | _ \<Rightarrow> Inl (PyError ''ValueError''))"

definition sync :: "'w tenv \<Rightarrow> string \<Rightarrow> string \<Rightarrow> pyval \<Rightarrow> string \<Rightarrow> ('w, unit) sact" where
  "sync z wid owner graph status = on_trg (sync_trigger_for_workflow z wid owner graph (PStr status))"

definition add_flow :: "flow_row \<Rightarrow> ('w, unit) sact" where
  "add_flow row = sbind (sget (\<lambda>s. fw_id row \<in> fw_id ` set (st_flows s))) (\<lambda>taken.
     if taken then sthrow (Crashed (Failed (PyError ''IntegrityError''))) else smod (\<lambda>s. s\<lparr>st_flows := st_flows s @ [row]\<rparr>))"

definition create_workflow ::
  "'w tenv \<Rightarrow> string \<Rightarrow> string \<Rightarrow> pyval \<Rightarrow> string option \<Rightarrow> ('w, pydict option) sact" where
  "create_workflow z owner name graph description = sbind (slift (parsed graph)) (\<lambda>g.
     if strip name = [] then sthrow (InvalidWorkflow ''nom manquant'')
     else sbind (clock z) (\<lambda>now. sbind (on_trg (on_db (new_id (z_run z)))) (\<lambda>wid. sbind (liftc (domain_of owner)) (\<lambda>org.
       sbind (in_tx (add_flow \<lparr>fw_id = wid, fw_name = strip name, fw_description = description, fw_owner = owner,
         fw_org = Some org, fw_graph = stored_text g, fw_status = ''draft'', fw_version = 1, fw_created = now, fw_updated = now\<rparr>)) (\<lambda>_.
       sbind (sync z wid owner (lean_graph g) ''draft'') (\<lambda>_. get_workflow wid owner))))))"

subsection \<open>\<open>update_workflow\<close>\<close>

record edit =
  rq_name :: "string option"
  rq_description :: "string option"
  rq_graph :: pyval
  rq_status :: "string option"

text \<open>The columns an update changes: a key that is absent is \<open>None\<close>.\<close>

record changes =
  ch_name :: "string option"
  ch_description :: "string option option"
  ch_graph :: "string option"
  ch_status :: "string option"

definition no_changes :: changes where
  "no_changes = \<lparr>ch_name = None, ch_description = None, ch_graph = None, ch_status = None\<rparr>"

definition either :: "'a option \<Rightarrow> 'a \<Rightarrow> 'a" where
  "either c x = (case c of None \<Rightarrow> x | Some y \<Rightarrow> y)"

definition apply_changes :: "changes \<Rightarrow> int \<Rightarrow> string \<Rightarrow> flow_row \<Rightarrow> flow_row" where
  "apply_changes ch version now r = r\<lparr>fw_name := either (ch_name ch) (fw_name r),
     fw_description := either (ch_description ch) (fw_description r), fw_graph := either (ch_graph ch) (fw_graph r),
     fw_status := either (ch_status ch) (fw_status r), fw_version := version, fw_updated := now\<rparr>"

definition STATUSES :: "string list" where "STATUSES = [''draft'', ''published'']"

definition new_name :: "string option \<Rightarrow> flow_error + string option" where
  "new_name c = (case c of None \<Rightarrow> Inr None
     | Some n \<Rightarrow> if strip n = [] then Inl (InvalidWorkflow ''nom manquant'') else Inr (Some (strip n)))"

definition new_graph :: "pyval \<Rightarrow> flow_error + string option" where
  "new_graph v = (if v = PNone then Inr None else map_sum id (\<lambda>g. Some (stored_text g)) (parsed v))"

definition new_status :: "string option \<Rightarrow> flow_error + string option" where
  "new_status c = (case c of None \<Rightarrow> Inr None
     | Some s \<Rightarrow> if s \<in> set STATUSES then Inr (Some s) else Inl (InvalidWorkflow (''statut inconnu : '' @ s)))"

definition refused_as :: "string option \<Rightarrow> string" where
  "refused_as st = (if st = Some ''published'' then ''publication refusee : '' else ''modification refusee (workflow publie) : '')"

definition publishable :: "venv \<Rightarrow> flow_row \<Rightarrow> string option \<Rightarrow> string \<Rightarrow> flow_error + unit" where
  "publishable env r st text = ebind (map_err (\<lambda>e. Crashed (Failed e)) (ebind (graph_of text) (\<lambda>v.
     check_workflow env v (Some (fw_id r)) (Some (fw_owner r))))) (\<lambda>report. case report of
     None \<Rightarrow> Inr () | Some (m, _) \<Rightarrow> Inl (InvalidWorkflow (refused_as st @ m)))"

text \<open>What an update of this row would change, once every check has passed.\<close>

definition plan_update :: "venv \<Rightarrow> flow_row \<Rightarrow> edit \<Rightarrow> flow_error + changes" where
  "plan_update env r rq = ebind (new_name (rq_name rq)) (\<lambda>n. ebind (new_graph (rq_graph rq)) (\<lambda>g. ebind (new_status (rq_status rq)) (\<lambda>st.
     ebind (if either st (fw_status r) = ''published'' \<and> (g \<noteq> None \<or> st \<noteq> None)
       then publishable env r st (either g (fw_graph r)) else Inr ()) (\<lambda>_.
     Inr \<lparr>ch_name = n, ch_description = map_option Some (rq_description rq), ch_graph = g, ch_status = st\<rparr>))))"

definition update_reason :: "string \<Rightarrow> changes \<Rightarrow> string" where
  "update_reason previous ch = (
     if ch_status ch = Some ''published'' \<and> previous \<noteq> ''published'' then ''publish''
     else if ch_status ch \<noteq> None \<and> ch_status ch \<noteq> Some ''published'' \<and> previous = ''published'' then ''unpublish''
     else ''edit'')"

definition revision_of :: "flow_row \<Rightarrow> nat \<Rightarrow> string \<Rightarrow> string \<Rightarrow> revision" where
  "revision_of r i now reason = \<lparr>rv_id = i, rv_flow = fw_id r, rv_version = fw_version r, rv_name = fw_name r,
     rv_description = fw_description r, rv_graph = fw_graph r, rv_status = fw_status r, rv_owner = fw_owner r,
     rv_saved = now, rv_reason = reason\<rparr>"

definition archive :: "'w tenv \<Rightarrow> flow_row \<Rightarrow> string \<Rightarrow> ('w, unit) sact" where
  "archive z r reason = sbind (clock z) (\<lambda>now. smod (\<lambda>s.
     s\<lparr>st_revs := st_revs s @ [revision_of r (st_next s) now reason], st_next := Suc (st_next s)\<rparr>))"

definition unchanged :: "flow_row \<Rightarrow> flow_row \<Rightarrow> bool" where
  "unchanged r x = (fw_id x = fw_id r \<and> fw_owner x = fw_owner r \<and> fw_version x = fw_version r)"

definition write_if_unchanged :: "'w tenv \<Rightarrow> flow_row \<Rightarrow> changes \<Rightarrow> ('w, unit) sact" where
  "write_if_unchanged z r ch = sbind (clock z) (\<lambda>now.
     sbind (sget (\<lambda>s. length (filter (unchanged r) (st_flows s)))) (\<lambda>count.
     sbind (smod (\<lambda>s. s\<lparr>st_flows := changed (unchanged r) (apply_changes ch (fw_version r + 1) now) (st_flows s)\<rparr>)) (\<lambda>_.
     if count = 1 then sret ()
     else sbind (fetch_flow (fw_id r) (fw_owner r)) (\<lambda>found.
       sthrow (VersionConflict (case found of None \<Rightarrow> fw_version r | Some x \<Rightarrow> fw_version x))))))"

text \<open>The writes of an update or a restoration, on the row it has read.\<close>

definition replace_row :: "'w tenv \<Rightarrow> flow_row \<Rightarrow> string \<Rightarrow> changes \<Rightarrow> ('w, unit) sact" where
  "replace_row z r reason ch = sbind (archive z r reason) (\<lambda>_. write_if_unchanged z r ch)"

definition read_row :: "string \<Rightarrow> string \<Rightarrow> ('w, flow_row) sact" where
  "read_row wid owner = sbind (fetch_flow wid owner) (\<lambda>found. case found of None \<Rightarrow> sthrow WorkflowNotFound | Some r \<Rightarrow> sret r)"

definition save_update :: "'w tenv \<Rightarrow> string \<Rightarrow> string \<Rightarrow> int \<Rightarrow> edit \<Rightarrow> ('w, flow_row \<times> changes) sact" where
  "save_update z wid owner expected rq = in_tx (sbind (read_row wid owner) (\<lambda>r.
     if fw_version r \<noteq> expected then sthrow (VersionConflict (fw_version r))
     else sbind (slift (plan_update (e_venv (z_run z)) r rq)) (\<lambda>ch.
       sbind (if ch = no_changes then sret () else replace_row z r (update_reason (fw_status r) ch) ch) (\<lambda>_. sret (r, ch)))))"

definition update_workflow ::
  "'w tenv \<Rightarrow> string \<Rightarrow> string \<Rightarrow> int \<Rightarrow> edit \<Rightarrow> ('w, pydict option) sact" where
  "update_workflow z wid owner expected rq = sbind (save_update z wid owner expected rq) (\<lambda>(r, ch).
     sbind (if ch = no_changes then sret ()
       else sbind (liftc (graph_of (either (ch_graph ch) (fw_graph r)))) (\<lambda>g. sync z wid owner g (either (ch_status ch) (fw_status r)))) (\<lambda>_.
     get_workflow wid owner))"

subsection \<open>\<open>delete_workflow\<close>\<close>

text \<open>\<open>forget_unused_tool_shapes\<close>\<close>

definition used_tools :: "string list \<Rightarrow> string list res" where
  "used_tools graphs = map_sum id concat (emap tool_refs_in graphs)"

definition forget_unused_tool_shapes :: "string \<Rightarrow> string list \<Rightarrow> ('w, unit) sact" where
  "forget_unused_tool_shapes owner candidates = (if candidates = [] then sret ()
     else sbind (sget (\<lambda>s. used_tools (map fw_graph (filter (\<lambda>r. fw_owner r = owner) (st_flows s))
         @ map rv_graph (filter (\<lambda>v. rv_owner v = owner) (st_revs s))))) (\<lambda>used.
       sbind (liftc used) (\<lambda>still. smod (\<lambda>s. s\<lparr>st_shapes :=
         filter (\<lambda>x. \<not> (so_owner x = owner \<and> so_tool x \<in> set candidates \<and> so_tool x \<notin> set still)) (st_shapes s)\<rparr>))))"

definition drop_flow :: "string \<Rightarrow> string \<Rightarrow> ('w, unit) sact" where
  "drop_flow wid owner = smod (\<lambda>s. s\<lparr>st_revs := filter (\<lambda>v. \<not> (rv_flow v = wid \<and> rv_owner v = owner)) (st_revs s),
     st_flows := filter (\<lambda>r. \<not> (fw_id r = wid \<and> fw_owner r = owner)) (st_flows s)\<rparr>)"

definition delete_workflow :: "string \<Rightarrow> string \<Rightarrow> ('w, unit) sact" where
  "delete_workflow wid owner =
     sbind (in_tx (sbind (read_row wid owner) (\<lambda>r.
       sbind (sget (\<lambda>s. used_tools (fw_graph r # map rv_graph (filter (\<lambda>v. rv_flow v = wid \<and> rv_owner v = owner) (st_revs s))))) (\<lambda>found.
       sbind (liftc found) (\<lambda>tools. sbind (drop_flow wid owner) (\<lambda>_. forget_unused_tool_shapes owner tools)))))) (\<lambda>_.
     sbind (on_trg (remove_trigger_for_workflow wid)) (\<lambda>_.
     stry (on_trg (on_db (forget_workflow_traces wid owner))) (\<lambda>_. sret ())))"

subsection \<open>Revisions\<close>

definition shown_reason :: "string \<Rightarrow> string" where
  "shown_reason reason = (if reason = ''update'' then ''edit'' else reason)"

definition listed_revision :: "revision \<Rightarrow> pydict" where
  "listed_revision v = [(''revision_id'', PInt (int (rv_id v))), (''workflow_id'', PStr (rv_flow v)), (''version'', PInt (rv_version v)),
     (''name'', PStr (rv_name v)), (''description'', opt_pstr (rv_description v)), (''status'', PStr (rv_status v)),
     (''owner_id'', PStr (rv_owner v)), (''saved_at'', PStr (rv_saved v)), (''reason'', PStr (shown_reason (rv_reason v)))]"

definition list_revisions :: "string \<Rightarrow> string \<Rightarrow> ('w, pydict list) sact" where
  "list_revisions wid owner = sbind (read_row wid owner) (\<lambda>_.
     sget (\<lambda>s. map listed_revision (rev (sort_key rv_id (filter (\<lambda>v. rv_flow v = wid \<and> rv_owner v = owner) (st_revs s))))))"

definition restored :: "revision \<Rightarrow> changes" where
  "restored v = \<lparr>ch_name = Some (rv_name v), ch_description = Some (rv_description v), ch_graph = Some (rv_graph v), ch_status = Some ''draft''\<rparr>"

definition save_restored :: "'w tenv \<Rightarrow> string \<Rightarrow> nat \<Rightarrow> string \<Rightarrow> ('w, revision) sact" where
  "save_restored z wid i owner = in_tx (sbind (read_row wid owner) (\<lambda>r.
     sbind (sget (\<lambda>s. find (\<lambda>v. rv_id v = i \<and> rv_flow v = wid \<and> rv_owner v = owner) (st_revs s))) (\<lambda>found. case found of
       None \<Rightarrow> sthrow WorkflowNotFound
     | Some v \<Rightarrow> sbind (replace_row z r ''restore'' (restored v)) (\<lambda>_. sret v))))"

definition restore_revision :: "'w tenv \<Rightarrow> string \<Rightarrow> nat \<Rightarrow> string \<Rightarrow> ('w, pydict option) sact" where
  "restore_revision z wid i owner = sbind (save_restored z wid i owner) (\<lambda>v.
     sbind (liftc (graph_of (rv_graph v))) (\<lambda>g. sbind (sync z wid owner g ''draft'') (\<lambda>_. get_workflow wid owner)))"

definition duplicate_workflow :: "'w tenv \<Rightarrow> string \<Rightarrow> string \<Rightarrow> ('w, pydict option) sact" where
  "duplicate_workflow z wid owner = sbind (read_row wid owner) (\<lambda>r.
     sbind (liftc (graph_of (fw_graph r))) (\<lambda>g. create_workflow z owner (fw_name r @ '' (copie)'') g (fw_description r)))"

end
