(* ===== verification/Run_Flow.thy ===== *)
theory Run_Flow
  imports Run_Trace
begin

section \<open>Streams and traces\<close>

subsection \<open>How a stream is cut into chunks does not matter\<close>

lemma blocks_neq_Nil [simp]: "blocks s \<noteq> []"
  by (induction s rule: blocks.induct) (auto split: list.splits)

lemma blocks_single: "blocks s = [b] \<Longrightarrow> b = s"
  by (induction s arbitrary: b rule: blocks.induct) (auto split: if_splits list.splits)

lemma blocks_cut: "\<not> (c = CHR 0x0A \<and> d = CHR 0x0A) \<Longrightarrow>
  blocks (c # d # s) = (c # hd (blocks (d # s))) # tl (blocks (d # s))"
  using blocks_neq_Nil[of "d # s"] by (cases "blocks (d # s)") auto

lemma blocks_append: "blocks (x @ y) = butlast (blocks x) @ blocks (last (blocks x) @ y)"
proof (induction x rule: blocks.induct)
  case (3 c d s)
  show ?case
  proof (cases "c = CHR 0x0A \<and> d = CHR 0x0A")
    case False
    obtain b bs where b: "blocks (d # s) = b # bs" by (cases "blocks (d # s)") auto
    have IH: "blocks (d # s @ y) = butlast (b # bs) @ blocks (last (b # bs) @ y)" using 3(2)[OF False] b by simp
    show ?thesis
    proof (cases "bs = []")
      case True
      then have "b = d # s" using b blocks_single[of "d # s" b] by simp
      then have "blocks (c # d # s) = [c # d # s]" using blocks_cut[OF False, of s] b True by simp
      then show ?thesis by simp
    next
      case ne: False
      have "blocks (c # d # s) = (c # b) # bs" using blocks_cut[OF False, of s] b by simp
      moreover have "blocks (c # d # s @ y) = (c # b) # butlast bs @ blocks (last bs @ y)"
        using blocks_cut[OF False, of "s @ y"] IH ne by simp
      ultimately show ?thesis using ne by simp
    qed
  qed (use 3 in simp)
qed simp_all

lemma track_blocks_buffer: "fold track_block bs (k\<lparr>tk_buffer := b\<rparr>) = (fold track_block bs k)\<lparr>tk_buffer := b\<rparr>"
proof (induction bs arbitrary: k)
  case (Cons x bs)
  have "track_block x (k\<lparr>tk_buffer := b\<rparr>) = (track_block x k)\<lparr>tk_buffer := b\<rparr>"
    by (simp add: track_block_def split: option.split sum.split)
  with Cons show ?case by simp
qed simp

lemma track_blocks_keep: "tk_buffer (fold track_block bs k) = tk_buffer k"
proof (induction bs arbitrary: k)
  case (Cons x bs)
  have "tk_buffer (track_block x k) = tk_buffer k" by (simp add: track_block_def split: option.split sum.split)
  with Cons show ?case by simp
qed simp

lemma track_chunk_append: "track_chunk d (track_chunk c k) = track_chunk (c @ d) k"
proof -
  let ?x = "tk_buffer k @ c"
  have "blocks (?x @ d) = butlast (blocks ?x) @ blocks (last (blocks ?x) @ d)" by (rule blocks_append)
  then show ?thesis
    by (simp add: track_chunk_def Let_def track_blocks_buffer track_blocks_keep butlast_append last_append)
qed

lemma track_chunk_Nil: "blocks (tk_buffer k) = [tk_buffer k] \<Longrightarrow> track_chunk [] k = k"
  by (simp add: track_chunk_def)

lemma fold_track_chunk: "fold track_chunk cs (track_chunk c k) = track_chunk (c @ concat cs) k"
  by (induction cs arbitrary: c) (simp_all add: track_chunk_append)

text \<open>The issue, the error and the tools a streamed agent run is settled with depend on the text of
  the stream only, not on where the network cut it into chunks.\<close>

theorem stream_issue_of_text: "stream_issue chunks fin = stream_issue [concat chunks] fin"
proof -
  have "fold track_chunk chunks new_tracked = fold track_chunk chunks (track_chunk [] new_tracked)"
    by (simp add: track_chunk_Nil new_tracked_def)
  then show ?thesis by (simp add: stream_issue_def fold_track_chunk)
qed

subsection \<open>The trace of a run is bounded\<close>

definition bulk_ok :: "pydict \<Rightarrow> bool" where
  "bulk_ok ev = (\<forall>k \<in> set BULKY_FIELDS. \<forall>v. dget ev k = Some v \<longrightarrow> length (text_of v) \<le> Suc TRACE_FIELD_MAX_CHARS)"

lemma clip_bounded: "length (text_of (fst (clip v))) \<le> Suc TRACE_FIELD_MAX_CHARS"
  by (simp add: clip_def Let_def text_of_def split: pyval.split)

lemma clip_field_get: "dget (fst (clip_field k x)) k = map_option (fst \<circ> clip) (dget (fst x) k)"
  by (auto simp: clip_field_def split: prod.split option.split)

lemma clip_field_other:
  "j \<noteq> k \<Longrightarrow> j \<noteq> k @ ''_truncated'' \<Longrightarrow> dget (fst (clip_field k x)) j = dget (fst x) j"
  by (auto simp: clip_field_def split: prod.split option.split)

lemma clip_fields_ok: "bulk_ok (fst (fold clip_field BULKY_FIELDS x))"
proof -
  have "dget (fst (fold clip_field BULKY_FIELDS x)) k = map_option (fst \<circ> clip) (dget (fst x) k)"
    if "k \<in> set BULKY_FIELDS" for k
  proof -
    have "k = ''output'' \<or> k = ''input'' \<or> k = ''tool_calls''" using that by (simp add: BULKY_FIELDS_def)
    then show ?thesis by (elim disjE) (simp_all add: BULKY_FIELDS_def clip_field_get clip_field_other)
  qed
  then show ?thesis unfolding bulk_ok_def using clip_bounded by auto
qed

definition trace_ok :: "run_trace \<Rightarrow> bool" where
  "trace_ok tr = (tr_size tr = sum_list (map event_size (tr_events tr))
     \<and> sum_list (map event_size (filter (\<lambda>e. \<not> is_ending e) (tr_events tr))) \<le> TRACE_MAX_BYTES
     \<and> list_all bulk_ok (tr_events tr))"

lemma without_bulk_ok: "bulk_ok (without_bulk ev)"
proof -
  have "dget (without_bulk ev) k = None" if "k \<in> set BULKY_FIELDS" for k
    using that unfolding without_bulk_def dget_def map_of_eq_None_iff by auto
  then show ?thesis by (simp add: bulk_ok_def)
qed

lemma trace_event_ok: assumes "trace_ok tr" shows "trace_ok (trace_event ev tr)"
proof -
  obtain ev' c where e: "fold clip_field BULKY_FIELDS (ev, tr_truncated tr) = (ev', c)"
    by (cases "fold clip_field BULKY_FIELDS (ev, tr_truncated tr)")
  have ok: "bulk_ok ev'" using clip_fields_ok[of "(ev, tr_truncated tr)"] e by simp
  have le: "sum_list (map event_size (filter (\<lambda>e. \<not> is_ending e) (tr_events tr))) \<le> tr_size tr"
    using assms by (simp add: trace_ok_def sum_list_filter_le_nat)
  consider "tr_size tr + event_size ev' \<le> TRACE_MAX_BYTES"
    | "TRACE_MAX_BYTES < tr_size tr + event_size ev'" by linarith
  then show ?thesis
  proof cases
    case 1
    then show ?thesis using assms ok le by (simp add: trace_ok_def trace_event_def e not_less)
  next
    case 2
    have "dget (without_bulk ev') ''event'' = dget ev' ''event''"
      by (induction ev') (auto simp: without_bulk_def dget_def BULKY_FIELDS_def)
    then have "is_ending (without_bulk ev') = is_ending ev'" by (simp add: is_ending_def get0_def)
    with 2 show ?thesis using assms by (simp add: trace_ok_def trace_event_def e without_bulk_ok)
  qed
qed

lemma traces_ok: "trace_ok (fold trace_add chunks new_trace)"
proof -
  have "trace_ok tr \<Longrightarrow> trace_ok (fold trace_add chunks tr)" for tr
    by (induction chunks arbitrary: tr) (simp_all add: trace_add_def trace_event_ok split: option.split)
  then show ?thesis by (simp add: trace_ok_def new_trace_def)
qed

text \<open>The trace kept for a run: its events are the ones of the stream with their three bulky fields cut
  to the limit, at most one character more for the mark of the cut, and the events that do not end a node
  or the run weigh at most the 512 KB of a trace, however long the stream is.\<close>

theorem trace_bounded:
  "let tr = fold trace_add chunks new_trace in
     sum_list (map event_size (filter (\<lambda>e. \<not> is_ending e) (tr_events tr))) \<le> TRACE_MAX_BYTES
     \<and> list_all bulk_ok (tr_events tr)"
  using traces_ok[of chunks] by (simp add: trace_ok_def Let_def)

end
