(* ===== verification/Run_Table.thy ===== *)
theory Run_Table
  imports Run_Retry Run_Flow
begin

section \<open>What the table of runs keeps\<close>

text \<open>
  The statements of \<open>Run_Store\<close> seen as steps of the table.  A ledger counts what a sequence of them
  takes and gives: the answers to a run that waits, the resumptions of a run that failed.  The locale
  \<open>table_rule\<close> carries a property of the table from the statements to the operations.
\<close>

subsection \<open>A ledger of tokens\<close>

fun total :: "('q \<Rightarrow> 't \<Rightarrow> 't) \<Rightarrow> ('q \<Rightarrow> 't \<Rightarrow> nat) \<Rightarrow> 'q list \<Rightarrow> 't \<Rightarrow> nat" where
  "total step f [] t = 0"
| "total step f (q # qs) t = f q t + total step f qs (step q t)"

locale ledger =
  fixes step :: "'q \<Rightarrow> 't \<Rightarrow> 't" and held :: "'t \<Rightarrow> nat" and took :: "'q \<Rightarrow> 't \<Rightarrow> nat" and gave :: "'q \<Rightarrow> 't \<Rightarrow> nat"
  assumes balance: "held (step q t) + took q t \<le> held t + gave q t"
begin

lemma total_balance: "held (fold step qs t) + total step took qs t \<le> held t + total step gave qs t"
proof (induction qs arbitrary: t)
  case (Cons q qs)
  from Cons[of "step q t"] balance[of q t] show ?case by simp
qed simp

lemma taken_given: "total step took qs t \<le> held t + total step gave qs t"
  using total_balance[of qs t] by linarith

end

definition rows_of :: "string \<Rightarrow> (run_row \<Rightarrow> bool) \<Rightarrow> run_row list \<Rightarrow> nat" where
  "rows_of i p rows = length (filter (\<lambda>r. u_id r = i \<and> p r) rows)"

lemma rows_of_changed:
  "(\<And>r. u_id (f r) = u_id r) \<Longrightarrow> rows_of i p (changed c f rows)
     + rows_of i (\<lambda>r. c r \<and> p r) rows = rows_of i p rows + rows_of i (\<lambda>r. c r \<and> p (f r)) rows"
  by (induction rows) (auto simp: rows_of_def changed_def)

lemma rows_of_mono: "(\<And>r. p r \<Longrightarrow> q r) \<Longrightarrow> rows_of i p rows \<le> rows_of i q rows"
  by (induction rows) (auto simp: rows_of_def)

lemma set_of_id [simp]: "u_id (set_of q r) = u_id r"
  by (cases q) (simp_all add: Let_def)

text \<open>The rows of a run that wait, the answers taken, the times it is offered to an answer.\<close>

definition is_waiting :: "run_row \<Rightarrow> bool" where "is_waiting r = (u_status r = SAwaiting)"

definition answers :: "string \<Rightarrow> stmt \<Rightarrow> run_row list \<Rightarrow> nat" where
  "answers i q rows = (case q of Take j _ \<Rightarrow> if j = i then rows_of i (where_of q) rows else 0 | _ \<Rightarrow> 0)"

definition offers :: "string \<Rightarrow> stmt \<Rightarrow> run_row list \<Rightarrow> nat" where
  "offers i q rows = (case q of
     Insert r \<Rightarrow> if u_id r = i \<and> is_waiting r then 1 else 0
   | Finish j st _ _ \<Rightarrow> if j = i \<and> st = SAwaiting then rows_of i (where_of q) rows else 0
   | Pause j _ _ _ _ _ \<Rightarrow> if j = i then rows_of i (where_of q) rows else 0
   | Release j \<Rightarrow> if j = i then rows_of i (where_of q) rows else 0
   | Reopen j \<Rightarrow> if j = i then rows_of i (where_of q) rows else 0
   | Release_dead stale \<Rightarrow> rows_of i (where_of q) rows
   | _ \<Rightarrow> 0)"

definition is_kept :: "run_row \<Rightarrow> bool" where "is_kept r = (u_failure r \<noteq> None)"

definition resumptions :: "string \<Rightarrow> stmt \<Rightarrow> run_row list \<Rightarrow> nat" where
  "resumptions i q rows = (case q of Consume j \<Rightarrow> if j = i then rows_of i (where_of q) rows else 0 | _ \<Rightarrow> 0)"

definition snapshots :: "string \<Rightarrow> stmt \<Rightarrow> run_row list \<Rightarrow> nat" where
  "snapshots i q rows = (case q of
     Insert r \<Rightarrow> if u_id r = i \<and> is_kept r then 1 else 0
   | Keep_failure j _ _ \<Rightarrow> if j = i then rows_of i (where_of q) rows else 0
   | Give_back j _ _ \<Rightarrow> if j = i then rows_of i (where_of q) rows else 0
   | _ \<Rightarrow> 0)"

lemma length_filter_conj: "length (filter (\<lambda>x. p x \<and> q x) xs) \<le> length (filter p xs)"
  by (induction xs) auto

lemma length_filter_mono: "(\<And>x. p x \<Longrightarrow> q x) \<Longrightarrow> length (filter p xs) \<le> length (filter q xs)"
  by (induction xs) auto

lemma length_where_of: "(\<And>r. c r \<Longrightarrow> u_id r = i) \<Longrightarrow> length (filter c rows) = rows_of i c rows"
  by (induction rows) (auto simp: rows_of_def)

lemma rows_of_empty: "(\<And>r. u_id r = i \<Longrightarrow> \<not> c r) \<Longrightarrow> rows_of i c rows = 0"
  by (auto simp: rows_of_def filter_empty_conv)

lemma run_stmt_update: "(\<And>r. q \<noteq> Insert r) \<Longrightarrow> run_stmt q rows = changed (where_of q) (set_of q) rows"
  by (cases q) (auto simp: run_stmt_def simp del: where_of.simps set_of.simps)

lemma rows_of_step:
  assumes "\<And>r. q \<noteq> Insert r"
  shows "rows_of i p (run_stmt q rows) + rows_of i (\<lambda>r. where_of q r \<and> p r) rows
    = rows_of i p rows + rows_of i (\<lambda>r. where_of q r \<and> p (set_of q r)) rows"
  unfolding run_stmt_update[OF assms] by (rule rows_of_changed) simp

lemma rows_of_insert: "rows_of i p (run_stmt (Insert r) rows) \<le> rows_of i p rows + (if u_id r = i \<and> p r then 1 else 0)"
  by (simp add: run_stmt_def rows_of_def)

text \<open>A statement moves the token of the rows it selects; \<open>took\<close> and \<open>gave\<close> count the two directions.\<close>

lemma ledger_stmt:
  assumes "\<And>r. gave (Insert r) rows = (if u_id r = i \<and> p r then 1 else 0 :: nat)" "\<And>r. took (Insert r) rows = 0"
    and "\<And>q. (\<And>r. q \<noteq> Insert r) \<Longrightarrow> rows_of i (\<lambda>r. where_of q r \<and> p (set_of q r)) rows
      + took q rows \<le> rows_of i (\<lambda>r. where_of q r \<and> p r) rows + gave q rows"
  shows "rows_of i p (run_stmt q rows) + took q rows \<le> rows_of i p rows + gave q rows"
proof (cases "\<exists>r. q = Insert r")
  case True
  then show ?thesis using assms(1,2) rows_of_insert[of i p _ rows] by auto
next
  case False
  then show ?thesis using rows_of_step[of q i p rows] assms(3)[of q] by fastforce
qed

interpretation lw: ledger run_stmt "rows_of i is_waiting" "answers i" "offers i" for i
proof unfold_locales
  fix q rows
  show "rows_of i is_waiting (run_stmt q rows) + answers i q rows \<le> rows_of i is_waiting rows + offers i q rows"
  proof (rule ledger_stmt)
    fix q assume "\<And>r. q \<noteq> Insert r"
    then show "rows_of i (\<lambda>r. where_of q r \<and> is_waiting (set_of q r)) rows + answers i q rows
      \<le> rows_of i (\<lambda>r. where_of q r \<and> is_waiting r) rows + offers i q rows"
      by (cases q) (auto simp: answers_def offers_def is_waiting_def rows_of_def Let_def filter_empty_conv conj_ac
        intro: length_filter_conj)
  qed (simp_all add: answers_def offers_def)
qed

interpretation lf: ledger run_stmt "rows_of i is_kept" "resumptions i" "snapshots i" for i
proof unfold_locales
  fix q rows
  show "rows_of i is_kept (run_stmt q rows) + resumptions i q rows \<le> rows_of i is_kept rows + snapshots i q rows"
  proof (rule ledger_stmt)
    fix q assume "\<And>r. q \<noteq> Insert r"
    then show "rows_of i (\<lambda>r. where_of q r \<and> is_kept (set_of q r)) rows + resumptions i q rows
      \<le> rows_of i (\<lambda>r. where_of q r \<and> is_kept r) rows + snapshots i q rows"
      by (cases q) (auto simp: resumptions_def snapshots_def is_kept_def rows_of_def Let_def filter_empty_conv conj_ac
        intro!: length_filter_mono)
  qed (simp_all add: resumptions_def snapshots_def)
qed

end
