(* ===== verification/Run_Rule.thy ===== *)
theory Run_Rule
  imports Run_Table
begin

section \<open>From the statements to the operations\<close>

text \<open>
  \<open>table_rule\<close>: a property of the table of runs that every statement keeps, under what the code
  knows when it issues it, is kept by every operation.
\<close>

definition on_runs :: "(run_row list \<Rightarrow> bool) \<Rightarrow> 'w db \<Rightarrow> bool" where
  "on_runs R s = R (d_runs s)"

lemma on_runs_more [simp]: "on_runs R (s\<lparr>d_world := w\<rparr>) = on_runs R s" "on_runs R (s\<lparr>d_traces := x\<rparr>) = on_runs R s"
  by (simp_all add: on_runs_def)

lemma keeps_prod [keeps_intros]: "(\<And>a b. keeps P (f a b)) \<Longrightarrow> keeps P (case x of (a, b) \<Rightarrow> f a b)"
  by (cases x) simp

lemma keeps_option [keeps_intros]:
  "(x = None \<Longrightarrow> keeps P m) \<Longrightarrow> (\<And>y. x = Some y \<Longrightarrow> keeps P (f y)) \<Longrightarrow> keeps P (case x of None \<Rightarrow> m | Some y \<Rightarrow> f y)"
  by (cases x) simp_all

lemma keeps_sum [keeps_intros]:
  "(\<And>e. x = Inl e \<Longrightarrow> keeps P (f e)) \<Longrightarrow> (\<And>y. x = Inr y \<Longrightarrow> keeps P (g y)) \<Longrightarrow> keeps P (case x of Inl e \<Rightarrow> f e | Inr y \<Rightarrow> g y)"
  by (cases x) simp_all

lemma keeps_let [keeps_intros]: "keeps P (f x) \<Longrightarrow> keeps P (Let x f)"
  by simp

lemma keeps_list [keeps_intros]:
  "keeps P m \<Longrightarrow> (\<And>y ys. keeps P (f y ys)) \<Longrightarrow> keeps P (case x of [] \<Rightarrow> m | y # ys \<Rightarrow> f y ys)"
  by (cases x) simp_all

lemma keeps_run_error [keeps_intros]:
  "(\<And>n d. keeps P (f n d)) \<Longrightarrow> (\<And>e. keeps P (g e)) \<Longrightarrow> keeps P (case x of Refused n d \<Rightarrow> f n d | Failed e \<Rightarrow> g e)"
  by (cases x) simp_all

lemma keeps_smap_in: "(\<And>x. x \<in> set xs \<Longrightarrow> keeps P (f x)) \<Longrightarrow> keeps P (smap f xs)"
  by (induction xs) (auto intro!: keeps_intros)

lemma keeps_atomic [keeps_intros]:
  fixes m :: "('w, 'a) tact" assumes m: "keeps (on_runs R) m" shows "keeps (on_runs R) (atomic m)"
proof (rule keepsI)
  fix s :: "'w db" assume s: "on_runs R s"
  obtain r t where rt: "m s = (r, t)" by (cases "m s")
  have "on_runs R t" using keepsD[OF m s] rt by simp
  with s show "on_runs R (snd (atomic m s))" by (cases r) (simp_all add: atomic_def rt on_runs_def)
qed

lemma keeps_leaf [keeps_intros, simp]:
  "keeps (on_runs R) (utc_now v)" "keeps (on_runs R) (local_now v)" "keeps (on_runs R) (now_text v)"
  "keeps (on_runs R) (new_id v)" "keeps (on_runs R) (reject n d)" "keeps (on_runs R) (liftr r)"
  "keeps (on_runs R) (select p)" "keeps (on_runs R) (fetch_run i)" "keeps (on_runs R) (delete_traces tp)"
  "keeps (on_runs R) (refuse_code c ps)"
proof -
  show utc: "keeps (on_runs R) (utc_now v)" by (simp add: keeps_def utc_now_def split: prod.split)
  then show loc: "keeps (on_runs R) (local_now v)" unfolding local_now_def by (intro keeps_intros)
  then show "keeps (on_runs R) (now_text v)" unfolding now_text_def by (intro keeps_intros)
  show "keeps (on_runs R) (new_id v)" by (simp add: keeps_def new_id_def split: prod.split)
qed (simp_all add: keeps_def reject_def sthrow_def liftr_def slift_def select_def fetch_run_def sget_def delete_traces_def refuse_code_def)

lemma keeps_lift: "(\<And>x. r = Inr x \<Longrightarrow> keeps P (f x)) \<Longrightarrow> keeps P (sbind (liftr r) f)"
  by (cases r) (simp_all add: keeps_def sbind_def liftr_def slift_def map_err_def)

text \<open>What the code knows of a statement when it issues it.\<close>

definition plain :: "stmt \<Rightarrow> bool" where
  "plain q = (case q of
     Insert r \<Rightarrow> u_status r = SRunning \<and> u_paused r = None \<and> u_decision r = None \<and> u_finished r = None
   | Finish _ st _ _ \<Rightarrow> st \<notin> {SRunning, SAwaiting}
   | Pause _ sealed _ _ _ _ \<Rightarrow> sealed \<noteq> []
   | Reopen _ \<Rightarrow> False
   | Settle _ _ _ _ \<Rightarrow> False
   | _ \<Rightarrow> True)"

definition paused_keys :: "run_row list \<Rightarrow> (string \<times> string option) list" where
  "paused_keys rows = map (\<lambda>r. (u_id r, u_paused r)) rows"

lemma paused_keys_stmt [simp]:
  "paused_keys (run_stmt (Reopen i) rows) = paused_keys rows" "paused_keys (run_stmt (Settle i m t c) rows) = paused_keys rows"
  "paused_keys (run_stmt (Give_back i x n) rows) = paused_keys rows"
  by (simp_all add: paused_keys_def run_stmt_def changed_def Let_def cong: if_cong)

locale table_rule =
  fixes R :: "run_row list \<Rightarrow> bool"
  assumes plain: "plain q \<Longrightarrow> R rows \<Longrightarrow> R (run_stmt q rows)"
    and reopen: "(i, Some x) \<in> set (paused_keys rows) \<Longrightarrow> x \<noteq> [] \<Longrightarrow> R rows \<Longrightarrow> R (run_stmt (Reopen i) rows)"
    and settle: "(i, p) \<in> set (paused_keys rows) \<Longrightarrow> \<not> filled p \<Longrightarrow> R rows \<Longrightarrow> R (run_stmt (Settle i m t c) rows)"
begin

lemma keeps_commit [keeps_intros]: "plain q \<Longrightarrow> keeps (on_runs R) (commit q)"
  by (simp add: keeps_def commit_def on_runs_def local.plain)

lemma keeps_sdo [keeps_intros]: "keeps (on_runs R) m \<Longrightarrow> keeps (on_runs R) (sdo m)"
  unfolding sdo_def by (intro keeps_intros)

lemma keeps_insert [keeps_intros]: "plain (Insert r) \<Longrightarrow> keeps (on_runs R) (insert_row r)"
  unfolding insert_row_def by (intro keeps_intros) simp_all

lemma keeps_upkeep [keeps_intros]:
  "keeps (on_runs R) (expire_due v)" "keeps (on_runs R) (purge_failure_states v)" "keeps (on_runs R) (release_dead_resumptions v)"
  "keeps (on_runs R) (give_back_retry i)"
  unfolding expire_due_def expire_due_at_def expire_one_def purge_failure_states_def release_dead_resumptions_def give_back_retry_def
  by (auto intro!: keeps_intros simp: plain_def split: option.split)

lemma keeps_select:
  fixes f :: "run_row list \<Rightarrow> ('w, 'a) tact"
  assumes "\<And>t. R t \<Longrightarrow> keeps (on_runs (\<lambda>u. R u \<and> paused_keys u = paused_keys t)) (f (filter p t))"
  shows "keeps (on_runs R) (sbind (select p) f)"
proof (rule keepsI)
  fix s :: "'w db" assume "on_runs R s"
  then have "on_runs (\<lambda>u. R u \<and> paused_keys u = paused_keys (d_runs s)) (snd (f (filter p (d_runs s)) s))"
    using assms[of "d_runs s"] by (simp add: keeps_def on_runs_def)
  then show "on_runs R (snd (sbind (select p) f s))" by (simp add: sbind_def select_def sget_def on_runs_def)
qed

lemma keeps_same_keys:
  "(i, Some x) \<in> set k \<Longrightarrow> x \<noteq> [] \<Longrightarrow> keeps (on_runs (\<lambda>u. R u \<and> paused_keys u = k)) (commit (Reopen i))"
  "(i, p) \<in> set k \<Longrightarrow> \<not> filled p \<Longrightarrow> keeps (on_runs (\<lambda>u. R u \<and> paused_keys u = k)) (commit (Settle i m t c))"
  "keeps (on_runs (\<lambda>u. R u \<and> paused_keys u = k)) (commit (Give_back i y n))"
  using reopen settle local.plain[of "Give_back i y n"] by (auto simp: keeps_def commit_def on_runs_def plain_def)

lemma keeps_give_back_keys: "keeps (on_runs (\<lambda>u. R u \<and> paused_keys u = k)) (give_back_retry i)"
  unfolding give_back_retry_def sdo_def
  by (auto intro!: keeps_intros keeps_same_keys split: option.split)

lemma keeps_reconcile:
  assumes "(u_id r, u_paused r) \<in> set k"
  shows "keeps (on_runs (\<lambda>u. R u \<and> paused_keys u = k)) (reconcile v (Some r))"
proof (cases "filled (u_paused r)")
  case True
  then obtain x where "u_paused r = Some x" "x \<noteq> []" by (auto simp: filled_def)
  with assms True show ?thesis unfolding reconcile_def option.case
    by (auto intro!: keeps_intros keeps_same_keys(1)[of "u_id r" x])
next
  case False
  with assms show ?thesis unfolding reconcile_def option.case
    by (auto intro!: keeps_intros keeps_give_back_keys keeps_same_keys(2)[of "u_id r" "u_paused r"])
qed

lemma in_paused_keys: "r \<in> set (filter p t) \<Longrightarrow> (u_id r, u_paused r) \<in> set (paused_keys t)"
  by (auto simp: paused_keys_def)

lemma keeps_owned_run [keeps_intros]: "keeps (on_runs R) (owned_run v i owner)"
  unfolding owned_run_def
proof (rule keeps_select)
  fix t assume "R t"
  show "keeps (on_runs (\<lambda>u. R u \<and> paused_keys u = paused_keys t))
    (reconcile v (case filter (\<lambda>r. u_id r = i \<and> u_owner r = owner) t of [] \<Rightarrow> None | r # _ \<Rightarrow> Some r))"
  proof (cases "filter (\<lambda>r. u_id r = i \<and> u_owner r = owner) t")
    case (Cons r rs)
    then have "r \<in> set (filter (\<lambda>r. u_id r = i \<and> u_owner r = owner) t)" by simp
    from keeps_reconcile[OF in_paused_keys[OF this]] Cons show ?thesis by simp
  qed (simp add: reconcile_def)
qed

lemma keeps_finish_run [keeps_intros]: "st \<notin> {SRunning, SAwaiting} \<Longrightarrow> keeps (on_runs R) (finish_run v i st m)"
  unfolding finish_run_def by (auto intro!: keeps_intros simp: plain_def)

lemma keeps_records [keeps_intros]:
  "keeps (on_runs R) (record_failure i err)" "keeps (on_runs R) (record_tools_executed i tools)" "keeps (on_runs R) (learn_case v i)"
  unfolding record_failure_def record_tools_executed_def learn_case_def
  by (auto intro!: keeps_intros simp: plain_def split: option.split)

lemma keeps_settle_run [keeps_intros]: "st \<notin> {SRunning, SAwaiting} \<Longrightarrow> keeps (on_runs R) (settle_run v i st m tools)"
  unfolding settle_run_def by (auto intro!: keeps_intros split: option.split)

lemma new_row_plain [simp]: "plain (Insert (new_row v a i now))" "plain (Insert ((new_row v a i now)\<lparr>u_id := j\<rparr>))"
  by (simp_all add: plain_def new_row_def Let_def)

lemma keeps_start_run [keeps_intros]: "keeps (on_runs R) (start_run v a)"
  unfolding start_run_def Let_def
  by (intro keeps_intros) (auto intro!: keeps_intros split: sum.split run_error.split exn.split)

lemma keeps_start_run_safely [keeps_intros]: "keeps (on_runs R) (start_run_safely v a)"
  unfolding start_run_safely_def by (intro keeps_intros)

lemma keeps_get_run [keeps_intros]: "keeps (on_runs R) (get_run v i owner)"
  unfolding get_run_def by (intro keeps_intros)

lemma keeps_list_runs [keeps_intros]: "keeps (on_runs R) (list_runs v owner limit offset wid statuses)"
proof -
  let ?in = "\<lambda>p t. take limit (drop offset (newest_first (filter p t)))"
  have "keeps (on_runs (\<lambda>u. R u \<and> paused_keys u = paused_keys t)) (smap (\<lambda>r. reconcile v (Some r)) (?in p t))" for p t
  proof (rule keeps_smap_in)
    fix r assume "r \<in> set (?in p t)"
    then have "r \<in> set (filter p t)" by (auto simp: newest_first_def dest!: in_set_takeD in_set_dropD)
    then show "keeps (on_runs (\<lambda>u. R u \<and> paused_keys u = paused_keys t)) (reconcile v (Some r))"
      by (intro keeps_reconcile in_paused_keys)
  qed
  then have sel: "keeps (on_runs R) (sbind (select p) (\<lambda>rows. smap (\<lambda>r. reconcile v (Some r)) (take limit (drop offset (newest_first rows)))))" for p
    by (rule keeps_select)
  show ?thesis unfolding list_runs_def Let_def by (intro sel keeps_intros)
qed

lemma keeps_prepare_replay [keeps_intros]: "keeps (on_runs R) (prepare_replay v i owner force)"
  unfolding prepare_replay_def replayable_def refuse_if_side_effects_def kept_input_def Let_def
  by (auto intro!: keeps_intros split: option.split)

lemma keeps_pause_run [keeps_intros]:
  assumes "\<And>x. e_encrypt v x \<noteq> Inr []"
  shows "keeps (on_runs R) (pause_run v i snap)"
proof -
  have "plain (Pause i x a b c d)" if "seal v st = Inr x" for x st a b c d
    using that assms by (auto simp: plain_def seal_def)
  then show ?thesis unfolding pause_run_def Let_def by (auto intro!: keeps_lift keeps_intros)
qed

lemma keeps_awaiting [keeps_intros]:
  "keeps (on_runs R) (awaiting_row v i user)" "keeps (on_runs R) (settle_due v)" "keeps (on_runs R) (list_awaiting v user)"
  unfolding awaiting_row_def settle_due_def list_awaiting_def by (auto intro!: keeps_intros split: option.split)

lemma keeps_claim [keeps_intros]: "keeps (on_runs R) (claim_paused_run v i user choice txt)"
  unfolding claim_paused_run_def read_claim_def checked_answer_def take_run_def
  by (auto intro!: keeps_intros simp: plain_def split: option.split sum.split exn.split)

lemma keeps_ends [keeps_intros]:
  "keeps (on_runs R) (mark_decided i c)" "keeps (on_runs R) (release_paused_run i)"
  "keeps (on_runs R) (abandon_paused_run v i user)" "keeps (on_runs R) (stop_unanswered_resume v i c)"
  unfolding mark_decided_def release_paused_run_def abandon_paused_run_def stop_unanswered_resume_def
  by (auto intro!: keeps_intros simp: plain_def)

lemma keeps_keep_failure [keeps_intros]: "keeps (on_runs R) (keep_failure v i snap)"
  unfolding keep_failure_def by (intro keeps_intros) (auto simp: plain_def)

lemma keeps_retry_refusal [keeps_intros]: "keeps (on_runs R) (retry_refusal v r)"
  unfolding retry_refusal_def by (auto intro!: keeps_intros split: option.split)

lemma keeps_prepare_retry [keeps_intros]: "keeps (on_runs R) (prepare_retry v i owner)"
  unfolding prepare_retry_def failed_state_def checked_graph_def consume_failure_def Let_def
  by (auto intro!: keeps_intros simp: plain_def split: option.split sum.split)

lemma keeps_traces [keeps_intros]:
  "keeps (on_runs R) (save_trace v i tr)" "keeps (on_runs R) (get_trace v i owner)"
  "keeps (on_runs R) (forget_workflow_traces wid owner)" "keeps (on_runs R) (purge_old_traces v days)"
  unfolding save_trace_def get_trace_def forget_workflow_traces_def purge_old_traces_def
  by (auto intro!: keeps_intros simp: Let_def split: option.split)

end

end
