(* ===== verification/Fl_History.thy ===== *)
theory Fl_History
  imports Fl_Store Run_Rule
begin

section \<open>The history of a workflow\<close>

text \<open>
  What the optimistic lock and the archive guarantee when operations interleave: a write may rest on a row
  that was read long before.  The step relation \<open>flow_step\<close> keeps, beside the tables, every row that was
  ever current.
\<close>

subsection \<open>What the writes do to the tables\<close>

definition tables :: "'w site \<Rightarrow> flow_row list \<times> revision list" where
  "tables s = (st_flows s, st_revs s)"

lemma clock_runs: "\<exists>now t. clock z s = (Inr now, s\<lparr>st_trg := t\<rparr>)"
  by (auto simp: clock_def on_trg_def now_iso_def on_db_def utc_now_def sbind_def sret_def map_err_def split: prod.split)

lemma archive_exact: "\<exists>now t. archive z r reason s = (Inr (), s\<lparr>st_trg := t,
  st_revs := st_revs s @ [revision_of r (st_next s) now reason], st_next := Suc (st_next s)\<rparr>)"
proof -
  obtain now t where c: "clock z s = (Inr now, s\<lparr>st_trg := t\<rparr>)" using clock_runs by blast
  show ?thesis by (rule exI[of _ now], rule exI[of _ t]) (simp add: archive_def sbind_def c smod_def)
qed

lemma write_exact: "\<exists>now t. write_if_unchanged z r ch s =
  (if length (filter (unchanged r) (st_flows s)) = 1 then Inr ()
   else Inl (VersionConflict (case find (\<lambda>x. fw_id x = fw_id r \<and> fw_owner x = fw_owner r)
       (changed (unchanged r) (apply_changes ch (fw_version r + 1) now) (st_flows s)) of None \<Rightarrow> fw_version r | Some x \<Rightarrow> fw_version x)),
   s\<lparr>st_trg := t, st_flows := changed (unchanged r) (apply_changes ch (fw_version r + 1) now) (st_flows s)\<rparr>)"
proof -
  obtain now t where c: "clock z s = (Inr now, s\<lparr>st_trg := t\<rparr>)" using clock_runs by blast
  show ?thesis
    by (rule exI[of _ now], rule exI[of _ t]) (simp add: write_if_unchanged_def sbind_def c sget_def smod_def sret_def fetch_flow_def sthrow_def)
qed

lemma replace_row_exact:
  assumes "replace_row z r reason ch s = (Inr (), s')"
  shows "length (filter (unchanged r) (st_flows s)) = 1"
    "\<exists>i now now'. tables s' = (changed (unchanged r) (apply_changes ch (fw_version r + 1) now') (st_flows s),
       st_revs s @ [revision_of r i now reason])"
proof -
  obtain now t where a: "archive z r reason s = (Inr (), s\<lparr>st_trg := t,
      st_revs := st_revs s @ [revision_of r (st_next s) now reason], st_next := Suc (st_next s)\<rparr>)" (is "_ = (_, ?s)")
    using archive_exact by blast
  obtain now' t' where w: "write_if_unchanged z r ch ?s = (if length (filter (unchanged r) (st_flows ?s)) = 1 then Inr ()
     else Inl (VersionConflict (case find (\<lambda>x. fw_id x = fw_id r \<and> fw_owner x = fw_owner r)
       (changed (unchanged r) (apply_changes ch (fw_version r + 1) now') (st_flows ?s)) of None \<Rightarrow> fw_version r | Some x \<Rightarrow> fw_version x)),
     ?s\<lparr>st_trg := t', st_flows := changed (unchanged r) (apply_changes ch (fw_version r + 1) now') (st_flows ?s)\<rparr>)"
    using write_exact by blast
  have e: "replace_row z r reason ch s = write_if_unchanged z r ch ?s" by (simp add: replace_row_def sbind_def a)
  show "length (filter (unchanged r) (st_flows s)) = 1" using assms e w by (auto split: if_splits)
  show "\<exists>i now now'. tables s' = (changed (unchanged r) (apply_changes ch (fw_version r + 1) now') (st_flows s),
       st_revs s @ [revision_of r i now reason])"
    using assms e w by (intro exI[of _ "st_next s"] exI[of _ now] exI[of _ now']) (auto simp: tables_def split: if_splits)
qed

subsection \<open>Steps\<close>

text \<open>
  \<open>Created\<close>: identifiers are not used twice.  \<open>Written\<close>: the row \<open>r\<close> was current at some time, perhaps long
  ago, when the update or the restoration read it and made its checks.  Every write has surroundings of its
  own, taken from the set \<open>zs\<close>: its clock, the instant, the tool names and the other workflows that its validation
  asks about may differ from those of any other write.
\<close>

definition planned :: "venv \<Rightarrow> flow_row \<Rightarrow> changes \<Rightarrow> bool" where
  "planned env r ch = ((\<exists>rq. plan_update env r rq = Inr ch) \<or> (\<exists>v. ch = restored v))"

inductive flow_step :: "'w tenv set \<Rightarrow> 'w site \<times> flow_row set \<Rightarrow> 'w site \<times> flow_row set \<Rightarrow> bool" for zs where
  Created: "add_flow r s = (Inr (), s') \<Longrightarrow> fw_id r \<notin> fw_id ` seen \<Longrightarrow> fw_version r = 1 \<Longrightarrow> fw_status r = ''draft''
    \<Longrightarrow> flow_step zs (s, seen) (s', seen \<union> set (st_flows s'))"
| Written: "z \<in> zs \<Longrightarrow> r \<in> seen \<Longrightarrow> planned (e_venv (z_run z)) r ch \<Longrightarrow> replace_row z r reason ch s = (Inr (), s')
    \<Longrightarrow> flow_step zs (s, seen) (s', seen \<union> set (st_flows s'))"
| Dropped: "drop_flow wid owner s = (Inr (), s') \<Longrightarrow> flow_step zs (s, seen) (s', seen)"
| Elsewhere: "tables s' = tables s \<Longrightarrow> flow_step zs (s, seen) (s', seen)"

definition newborn :: "'w site \<Rightarrow> bool" where
  "newborn s = (st_flows s = [] \<and> st_revs s = [])"

definition flow_reach :: "'w tenv set \<Rightarrow> 'w site \<Rightarrow> flow_row set \<Rightarrow> bool" where
  "flow_reach zs s seen = (\<exists>s0. newborn s0 \<and> (flow_step zs)\<^sup>*\<^sup>* (s0, {}) (s, seen))"

subsection \<open>The invariant\<close>

definition passed :: "venv \<Rightarrow> flow_row \<Rightarrow> bool" where
  "passed env r = (\<exists>v. json_loads (fw_graph r) = Some v \<and> check_workflow env v (Some (fw_id r)) (Some (fw_owner r)) = Inr None)"

definition archived :: "flow_row \<Rightarrow> revision \<Rightarrow> bool" where
  "archived r v = (rv_flow v = fw_id r \<and> rv_version v = fw_version r \<and> rv_owner v = fw_owner r
     \<and> rv_graph v = fw_graph r \<and> rv_name v = fw_name r \<and> rv_description v = fw_description r \<and> rv_status v = fw_status r)"

text \<open>What holds of a current row \<open>w\<close>: nothing seen of it is newer, what is older is archived, every version was seen.\<close>

definition in_order :: "flow_row set \<Rightarrow> revision list \<Rightarrow> flow_row \<Rightarrow> bool" where
  "in_order seen revs w = (
     (\<forall>r \<in> seen. fw_id r = fw_id w \<longrightarrow> fw_owner r = fw_owner w \<and> (r = w \<or> fw_version r < fw_version w))
   \<and> (\<forall>r \<in> seen. fw_id r = fw_id w \<and> fw_version r < fw_version w \<longrightarrow>
        (\<exists>v \<in> set revs. archived r v) \<and> (\<forall>v \<in> set revs. rv_flow v = fw_id r \<and> rv_version v = fw_version r \<longrightarrow> archived r v))
   \<and> (\<forall>v \<in> set revs. rv_flow v = fw_id w \<longrightarrow> rv_version v < fw_version w \<and> rv_owner v = fw_owner w)
   \<and> (\<forall>n. 1 \<le> n \<and> n \<le> fw_version w \<longrightarrow> (\<exists>r \<in> seen. fw_id r = fw_id w \<and> fw_version r = n)))"

definition history_ok :: "venv set \<Rightarrow> 'w site \<times> flow_row set \<Rightarrow> bool" where
  "history_ok es x = (case x of (s, seen) \<Rightarrow>
     distinct (map fw_id (st_flows s)) \<and> set (st_flows s) \<subseteq> seen
     \<and> (\<forall>v \<in> set (st_revs s). rv_flow v \<in> fw_id ` seen)
     \<and> (\<forall>w \<in> set (st_flows s). in_order seen (st_revs s) w)
     \<and> (\<forall>r \<in> seen. fw_status r = ''published'' \<longrightarrow> (\<exists>env \<in> es. passed env r)))"

text \<open>The surroundings of the validations.\<close>

abbreviation checks_of :: "'w tenv set \<Rightarrow> venv set" where
  "checks_of zs \<equiv> (\<lambda>z. e_venv (z_run z)) ` zs"

subsection \<open>The steps keep it\<close>

lemma apply_changes_sel [simp]:
  "fw_id (apply_changes ch n t r) = fw_id r" "fw_owner (apply_changes ch n t r) = fw_owner r"
  "fw_version (apply_changes ch n t r) = n" "fw_status (apply_changes ch n t r) = either (ch_status ch) (fw_status r)"
  "fw_graph (apply_changes ch n t r) = either (ch_graph ch) (fw_graph r)"
  by (simp_all add: apply_changes_def)

lemma archived_revision: "archived r (revision_of r i now reason)"
  by (simp add: archived_def revision_of_def)

lemma publishable_passed:
  assumes "publishable env r st text = Inr ()"
  shows "\<exists>v. json_loads text = Some v \<and> check_workflow env v (Some (fw_id r)) (Some (fw_owner r)) = Inr None"
proof -
  obtain v rep where v: "json_loads text = Some v" "check_workflow env v (Some (fw_id r)) (Some (fw_owner r)) = Inr rep"
    and "(case rep of None \<Rightarrow> Inr () | Some (m, _) \<Rightarrow> Inl (InvalidWorkflow (refused_as st @ m))) = Inr ()"
    using assms by (auto simp: publishable_def ebind_eq_Inr graph_of_def)
  from this(3) have "rep = None" by (cases rep) auto
  with v show ?thesis by simp
qed

lemma planned_passed:
  assumes "planned env r ch" "fw_status (apply_changes ch n t r) = ''published''"
  shows "passed env (apply_changes ch n t r)
    \<or> ch_graph ch = None \<and> ch_status ch = None \<and> fw_status r = ''published'' \<and> fw_graph (apply_changes ch n t r) = fw_graph r"
proof (cases "\<exists>v. ch = restored v")
  case True
  then show ?thesis using assms(2) by (auto simp: restored_def either_def)
next
  case False
  then obtain rq where "plan_update env r rq = Inr ch" using assms(1) by (auto simp: planned_def)
  then have c: "either (ch_status ch) (fw_status r) = ''published'' \<and> (ch_graph ch \<noteq> None \<or> ch_status ch \<noteq> None)
      \<Longrightarrow> publishable env r (ch_status ch) (either (ch_graph ch) (fw_graph r)) = Inr ()"
    by (auto simp: plan_update_def ebind_eq_Inr split: if_splits)
  have pub: "either (ch_status ch) (fw_status r) = ''published''" using assms(2) by simp
  show ?thesis
  proof (cases "ch_graph ch \<noteq> None \<or> ch_status ch \<noteq> None")
    case True
    with publishable_passed[OF c] pub show ?thesis by (simp add: passed_def)
  next
    case False
    with pub show ?thesis by (simp add: either_def)
  qed
qed

lemma in_order_newest:
  assumes "in_order A xs w" "r \<in> A" "fw_id r = fw_id w"
  shows "fw_owner r = fw_owner w \<and> (r = w \<or> fw_version r < fw_version w)"
  using assms by (simp add: in_order_def)

lemma unchanged_current:
  assumes ok: "history_ok es (s, seen)" and r: "r \<in> seen" and one: "length (filter (unchanged r) (st_flows s)) = 1"
  shows "r \<in> set (st_flows s)" "filter (unchanged r) (st_flows s) = [r]"
proof -
  from one obtain w where w: "filter (unchanged r) (st_flows s) = [w]" by (auto simp: length_Suc_conv)
  then have "w \<in> set (filter (unchanged r) (st_flows s))" by simp
  then have in_s: "w \<in> set (st_flows s)" and u: "unchanged r w" by auto
  have "in_order seen (st_revs s) w" using ok in_s by (simp add: history_ok_def)
  then have "r = w" using in_order_newest[of seen "st_revs s" w r] r u by (auto simp: unchanged_def)
  with w in_s show "r \<in> set (st_flows s)" "filter (unchanged r) (st_flows s) = [r]" by simp_all
qed

lemma set_changed: "set (changed p f xs) = f ` {x \<in> set xs. p x} \<union> {x \<in> set xs. \<not> p x}"
  by (auto simp: changed_def)

lemma in_order_local:
  assumes "in_order A xs w" and A: "\<And>x. fw_id x = fw_id w \<Longrightarrow> x \<in> A \<longleftrightarrow> x \<in> B"
    and X: "\<And>v. rv_flow v = fw_id w \<Longrightarrow> v \<in> set xs \<longleftrightarrow> v \<in> set ys"
  shows "in_order B ys w"
proof -
  have flow: "archived r v \<Longrightarrow> rv_flow v = fw_id r" for r v by (simp add: archived_def)
  have 1: "fw_owner r = fw_owner w \<and> (r = w \<or> fw_version r < fw_version w)" if "r \<in> A" "fw_id r = fw_id w" for r
    using assms(1) that by (simp add: in_order_def)
  have 2: "(\<exists>v \<in> set xs. archived r v) \<and> (\<forall>v \<in> set xs. rv_flow v = fw_id r \<and> rv_version v = fw_version r \<longrightarrow> archived r v)"
    if "r \<in> A" "fw_id r = fw_id w" "fw_version r < fw_version w" for r
    using assms(1) that by (simp add: in_order_def)
  have 3: "rv_version v < fw_version w \<and> rv_owner v = fw_owner w" if "v \<in> set xs" "rv_flow v = fw_id w" for v
    using assms(1) that by (simp add: in_order_def)
  have 4: "\<exists>r \<in> A. fw_id r = fw_id w \<and> fw_version r = n" if "1 \<le> n" "n \<le> fw_version w" for n
    using assms(1) that by (simp add: in_order_def)
  show ?thesis unfolding in_order_def
  proof (intro conjI ballI impI allI)
    fix r assume "r \<in> B" "fw_id r = fw_id w"
    then show "fw_owner r = fw_owner w" "r = w \<or> fw_version r < fw_version w" using 1[of r] A[of r] by auto
  next
    fix r assume r: "r \<in> B" "fw_id r = fw_id w \<and> fw_version r < fw_version w"
    then have r2: "(\<exists>v \<in> set xs. archived r v) \<and> (\<forall>v \<in> set xs. rv_flow v = fw_id r \<and> rv_version v = fw_version r \<longrightarrow> archived r v)"
      using 2[of r] A[of r] by simp
    then obtain v where v: "v \<in> set xs" "archived r v" by blast
    then show "\<exists>v \<in> set ys. archived r v" using X[of v] flow[OF v(2)] r(2) by auto
    fix u assume "u \<in> set ys" "rv_flow u = fw_id r \<and> rv_version u = fw_version r"
    then show "archived r u" using X[of u] r(2) r2 by simp
  next
    fix v assume "v \<in> set ys" "rv_flow v = fw_id w"
    then show "rv_version v < fw_version w" "rv_owner v = fw_owner w" using 3[of v] X[of v] by auto
  next
    fix n :: int assume "1 \<le> n \<and> n \<le> fw_version w"
    then obtain r where "r \<in> A" "fw_id r = fw_id w" "fw_version r = n" using 4[of n] by blast
    then show "\<exists>r \<in> B. fw_id r = fw_id w \<and> fw_version r = n" using A[of r] by blast
  qed
qed

lemma in_order_other:
  assumes "in_order seen revs w" "fw_id r' \<noteq> fw_id w" "rv_flow v' \<noteq> fw_id w"
  shows "in_order (insert r' seen) (revs @ [v']) w"
  by (rule in_order_local[OF assms(1)]) (use assms in auto)

lemma in_order_next:
  assumes o': "in_order seen revs r" and r: "r \<in> seen" and r'_def: "r' = apply_changes ch (fw_version r + 1) now r"
  shows "in_order (insert r' seen) (revs @ [revision_of r i t reason]) r'"
proof -
  have old: "fw_owner x = fw_owner r \<and> (x = r \<or> fw_version x < fw_version r)" if "x \<in> seen" "fw_id x = fw_id r" for x
    using o' that by (simp add: in_order_def)
  have below: "rv_version v < fw_version r \<and> rv_owner v = fw_owner r" if "v \<in> set revs" "rv_flow v = fw_id r" for v
    using o' that by (simp add: in_order_def)
  have new: "rv_flow (revision_of r i t reason) = fw_id r" "rv_version (revision_of r i t reason) = fw_version r"
    by (simp_all add: revision_of_def)
  have arch: "(\<exists>v \<in> set (revs @ [revision_of r i t reason]). archived x v)
      \<and> (\<forall>v \<in> set (revs @ [revision_of r i t reason]). rv_flow v = fw_id x \<and> rv_version v = fw_version x \<longrightarrow> archived x v)"
    if x: "x \<in> seen" "fw_id x = fw_id r" for x
  proof (cases "x = r")
    case True
    then show ?thesis using below new archived_revision[of r i t reason] by force
  next
    case False
    then have "fw_version x < fw_version r" using old[OF x] by simp
    with o' x have "(\<exists>v \<in> set revs. archived x v) \<and> (\<forall>v \<in> set revs. rv_flow v = fw_id x \<and> rv_version v = fw_version x \<longrightarrow> archived x v)"
      by (simp add: in_order_def)
    then show ?thesis using new \<open>fw_version x < fw_version r\<close> by auto
  qed
  have every: "\<exists>x \<in> insert r' seen. fw_id x = fw_id r \<and> fw_version x = n" if "1 \<le> n" "n \<le> fw_version r + 1" for n
  proof (cases "n = fw_version r + 1")
    case False
    with that have "n \<le> fw_version r" by simp
    then show ?thesis using o' that(1) by (auto simp: in_order_def)
  qed (simp add: r'_def)
  have sel: "fw_id r' = fw_id r" "fw_owner r' = fw_owner r" "fw_version r' = fw_version r + 1" by (simp_all add: r'_def)
  show ?thesis unfolding in_order_def sel
  proof (intro conjI ballI impI allI)
    fix x assume "x \<in> insert r' seen" "fw_id x = fw_id r"
    then show "fw_owner x = fw_owner r" "x = r' \<or> fw_version x < fw_version r + 1" using old[of x] sel by auto
  next
    fix x assume x: "x \<in> insert r' seen" "fw_id x = fw_id r \<and> fw_version x < fw_version r + 1"
    then have "x \<in> seen" using sel by auto
    with x arch[of x] show "\<exists>v \<in> set (revs @ [revision_of r i t reason]). archived x v" by simp
    fix v assume "v \<in> set (revs @ [revision_of r i t reason])" "rv_flow v = fw_id x \<and> rv_version v = fw_version x"
    then show "archived x v" using \<open>x \<in> seen\<close> x arch[of x] by auto
  next
    fix v assume "v \<in> set (revs @ [revision_of r i t reason])" "rv_flow v = fw_id r"
    then show "rv_version v < fw_version r + 1" "rv_owner v = fw_owner r" using below[of v] new by (auto simp: revision_of_def)
  next
    fix n :: int assume "1 \<le> n \<and> n \<le> fw_version r + 1"
    then show "\<exists>x \<in> insert r' seen. fw_id x = fw_id r \<and> fw_version x = n" using every by simp
  qed
qed

lemma history_written:
  assumes ok: "history_ok es (s, seen)" and r: "r \<in> seen" "planned (e_venv (z_run z)) r ch" "e_venv (z_run z) \<in> es"
    and w: "replace_row z r reason ch s = (Inr (), s')"
  shows "history_ok es (s', seen \<union> set (st_flows s'))"
proof -
  note e = replace_row_exact[OF w]
  obtain i t now where s': "st_flows s' = changed (unchanged r) (apply_changes ch (fw_version r + 1) now) (st_flows s)"
    "st_revs s' = st_revs s @ [revision_of r i t reason]" using e(2) by (auto simp: tables_def)
  let ?r = "apply_changes ch (fw_version r + 1) now r"
  note cur = unchanged_current[OF ok r(1) e(1)]
  have d: "distinct (map fw_id (st_flows s))" and sub: "set (st_flows s) \<subseteq> seen" using ok by (auto simp: history_ok_def)
  have same: "{x \<in> set (st_flows s). unchanged r x} = {r}" using cur(2) by (metis filter_set list.set(1,2) set_filter)
  have others: "{x \<in> set (st_flows s). \<not> unchanged r x} = set (st_flows s) - {r}" using same by auto
  have flows: "set (st_flows s') = insert ?r (set (st_flows s) - {r})" by (simp only: s'(1) set_changed same others) auto
  have seen: "seen \<union> set (st_flows s') = insert ?r seen" using sub flows by auto
  have ids: "map fw_id (st_flows s') = map fw_id (st_flows s)" by (simp add: s'(1) changed_def)
  have "in_order (insert ?r seen) (st_revs s') x" if x: "x \<in> set (st_flows s')" for x
  proof (cases "x = ?r")
    case True
    have "in_order seen (st_revs s) r" using ok cur(1) by (auto simp: history_ok_def)
    from in_order_next[OF this r(1) True] show ?thesis by (simp only: s'(2) True)
  next
    case False
    with x flows have x': "x \<in> set (st_flows s)" "x \<noteq> r" by auto
    then have "fw_id x \<noteq> fw_id r" using d cur(1) by (auto simp: distinct_map inj_on_def)
    moreover have "in_order seen (st_revs s) x" using ok x'(1) by (auto simp: history_ok_def)
    ultimately show ?thesis unfolding s'(2) by (intro in_order_other) (auto simp: revision_of_def)
  qed
  moreover have "\<exists>env \<in> es. passed env x" if x: "x \<in> insert ?r seen" "fw_status x = ''published''" for x
  proof (cases "x = ?r")
    case True
    have "passed (e_venv (z_run z)) ?r \<or> fw_status r = ''published'' \<and> fw_graph ?r = fw_graph r"
      using planned_passed[OF r(2) x(2)[unfolded True]] by blast
    then show ?thesis
    proof (elim disjE)
      assume same: "fw_status r = ''published'' \<and> fw_graph ?r = fw_graph r"
      then obtain env where "env \<in> es" "passed env r" using ok r(1) by (auto simp: history_ok_def)
      with same show ?thesis by (auto simp: passed_def True)
    qed (use r(3) True in auto)
  qed (use x ok in \<open>auto simp: history_ok_def\<close>)
  moreover have "\<forall>v \<in> set (st_revs s'). rv_flow v \<in> fw_id ` insert ?r seen"
    using ok r(1) by (auto simp: history_ok_def s'(2) revision_of_def)
  ultimately show ?thesis using d flows sub unfolding seen history_ok_def by (auto simp: ids)
qed

lemma history_created:
  assumes ok: "history_ok es (s, seen)" and c: "add_flow r s = (Inr (), s')" "fw_id r \<notin> fw_id ` seen" "fw_version r = 1"
    "fw_status r = ''draft''"
  shows "history_ok es (s', seen \<union> set (st_flows s'))"
proof -
  have s': "st_flows s' = st_flows s @ [r]" "st_revs s' = st_revs s"
    using c(1) by (auto simp: add_flow_def sbind_def sget_def sthrow_def smod_def split: if_splits)
  have sub: "set (st_flows s) \<subseteq> seen" and d: "distinct (map fw_id (st_flows s))"
    and revs: "\<forall>v \<in> set (st_revs s). rv_flow v \<in> fw_id ` seen"
    using ok by (auto simp: history_ok_def)
  have no_rev: "rv_flow v \<noteq> fw_id r" if "v \<in> set (st_revs s)" for v using that revs c(2) by metis
  have seen: "seen \<union> set (st_flows s') = insert r seen" using sub by (auto simp: s')
  have old: "in_order (insert r seen) (st_revs s) w" if w: "w \<in> set (st_flows s)" for w
  proof -
    have "fw_id r \<noteq> fw_id w" using sub c(2) w by auto
    moreover have "in_order seen (st_revs s) w" using ok w by (auto simp: history_ok_def)
    ultimately have "fw_id r \<noteq> fw_id w" "in_order seen (st_revs s) w" .
    then show ?thesis using in_order_local[of seen "st_revs s" w "insert r seen" "st_revs s"] by auto
  qed
  have "in_order (insert r seen) (st_revs s) r"
    unfolding in_order_def using c(2,3) no_rev by (auto simp: image_iff intro: order.antisym)
  with old have "\<forall>w \<in> set (st_flows s'). in_order (insert r seen) (st_revs s') w" by (auto simp: s')
  moreover have "fw_id r \<notin> fw_id ` set (st_flows s)" using sub c(2) by auto
  ultimately show ?thesis using ok d unfolding seen history_ok_def by (auto simp: s' c(4))
qed

lemma history_dropped:
  assumes ok: "history_ok es (s, seen)" and c: "drop_flow wid owner s = (Inr (), s')"
  shows "history_ok es (s', seen)"
proof -
  have s': "st_flows s' = filter (\<lambda>r. \<not> (fw_id r = wid \<and> fw_owner r = owner)) (st_flows s)"
    "st_revs s' = filter (\<lambda>v. \<not> (rv_flow v = wid \<and> rv_owner v = owner)) (st_revs s)"
    using c by (auto simp: drop_flow_def smod_def)
  have "in_order seen (st_revs s') w" if w: "w \<in> set (st_flows s')" for w
  proof -
    have o': "in_order seen (st_revs s) w" and ne: "fw_id w = wid \<Longrightarrow> fw_owner w \<noteq> owner" using ok w by (auto simp: history_ok_def s')
    have "rv_owner v = fw_owner w" if "v \<in> set (st_revs s)" "rv_flow v = fw_id w" for v
      using o' that by (simp add: in_order_def)
    then show ?thesis using ne by (intro in_order_local[OF o']) (auto simp: s')
  qed
  then show ?thesis using ok by (auto simp: history_ok_def s' distinct_map_filter)
qed

lemma flow_step_keeps:
  assumes "flow_step zs x y" "history_ok (checks_of zs) x"
  shows "history_ok (checks_of zs) y"
  using assms
proof (cases rule: flow_step.cases)
  case (Elsewhere s' s seen)
  with assms(2) show ?thesis by (simp add: history_ok_def tables_def)
next
  case (Written z r seen ch reason s s')
  with assms(2) show ?thesis by (auto intro: history_written[of _ s seen r z ch reason s'])
qed (use assms(2) history_created history_dropped in blast)+

lemma flow_reach_ok:
  assumes "flow_reach zs s seen"
  shows "history_ok (checks_of zs) (s, seen)"
proof -
  obtain s0 where "newborn s0" "(flow_step zs)\<^sup>*\<^sup>* (s0, {}) (s, seen)" using assms by (auto simp: flow_reach_def)
  from this(2) show ?thesis
  proof (induction rule: rtranclp_induct)
    case base
    show ?case using \<open>newborn s0\<close> by (simp add: history_ok_def newborn_def)
  next
    case (step y z')
    then show ?case by (blast intro: flow_step_keeps)
  qed
qed

end
