(* ===== verification/Run_Example.thy ===== *)
theory Run_Example
  imports Run_Store Run_Record Run_Decision
begin

section \<open>A small deployment\<close>

text \<open>
  Instances of the surroundings of the run records for the witnesses: a clock that stands at
  2025-06-15 15:06:40 UTC, a cipher that marks what it seals, no files and no stored workflow.
\<close>

definition demo :: "unit renv" where
  "demo = \<lparr>e_utc = (\<lambda>w. (63885596800000000, w)), e_local = (\<lambda>t. t), e_instant = (\<lambda>t. t),
    e_encrypt = (\<lambda>x. Inr (CHR ''#'' # x)), e_decrypt = (\<lambda>x. Inr (tl x)), e_nanoid = (\<lambda>w. (''r1'', w)),
    e_versions = (\<lambda>_. []), e_store_file = (\<lambda>_ _ _. None), e_read_file = (\<lambda>_. None), e_learn = (\<lambda>_ w. w),
    e_workflow = (\<lambda>_ _. None), e_venv = undefined, e_workflow_at = (\<lambda>_ _ _. None)\<rparr>"

lemma demo_seals: "e_encrypt demo x \<noteq> Inr []"
  by (simp add: demo_def)

definition demo_args :: start_args where
  "demo_args = \<lparr>s_trigger = ''workflow'', s_owner = ''ann'', s_agents = [], s_config = [], s_file = None,
    s_file_name = None, s_run_id = None, s_org = None, s_replay = None\<rparr>"

text \<open>A run that waits for the text of its owner until the evening, and one that failed.\<close>

definition demo_row :: run_row where
  "demo_row = \<lparr>u_id = ''r1'', u_trigger = ''workflow'', u_owner = ''ann'', u_org = None, u_agents = None, u_config = None,
     u_file_name = None, u_file_path = None, u_status = SAwaiting, u_attempts = 1, u_error = None,
     u_created = Some ''2025-06-15 12:00:00.000000'', u_finished = None, u_replay = None, u_tools = None,
     u_paused = Some ''#{\"prompt\": {\"mode\": \"text\"}}'', u_assignee = None, u_decision = Some ''{}'', u_resumed = None,
     u_expires = Some ''2025-06-15T20:00:00+00:00'', u_remind = None, u_notified = None, u_reminded = None,
     u_end_notice = None, u_workflow = None, u_info = None, u_failure = None, u_failed_node = None, u_alert = None\<rparr>"

definition demo_db :: "unit db" where "demo_db = \<lparr>d_runs = [demo_row], d_traces = [], d_world = ()\<rparr>"

end
