(* ===== verification/Run_Safety.thy ===== *)
theory Run_Safety
  imports Run_Rule Run_Example
begin

section \<open>What holds of the records of runs\<close>

subsection \<open>The rows that can exist\<close>

text \<open>
  A run that waits has a snapshot, a question and a deadline; a snapshot is kept only while the run can
  still be answered, and with its question; an end is dated exactly when the run is neither running nor
  waiting.
\<close>

definition run_ok :: "run_row \<Rightarrow> bool" where
  "run_ok r =
     ((u_status r = SAwaiting \<longrightarrow> u_paused r \<noteq> None \<and> u_resumed r = None)
     \<and> (u_paused r \<noteq> None \<longrightarrow> u_status r \<in> {SRunning, SAwaiting} \<and> u_paused r \<noteq> Some [] \<and> u_expires r \<noteq> None)
     \<and> (u_decision r \<noteq> None \<longleftrightarrow> u_paused r \<noteq> None)
     \<and> (u_finished r = None \<longleftrightarrow> u_status r \<in> {SRunning, SAwaiting}))"

definition runs_ok :: "run_row list \<Rightarrow> bool" where
  "runs_ok rows = (distinct (map u_id rows) \<and> list_all run_ok rows)"

lemma run_ok_stmt:
  assumes "plain q" "where_of q r" "run_ok r" shows "run_ok (set_of q r)"
  using assms by (cases q) (auto simp: run_ok_def plain_def Let_def)

lemma run_ok_reopen: "run_ok r \<Longrightarrow> u_status r = SRunning \<Longrightarrow> u_paused r \<noteq> None \<Longrightarrow> run_ok (set_of (Reopen i) r)"
  by (auto simp: run_ok_def)

lemma run_ok_settle: "run_ok r \<Longrightarrow> u_paused r = None \<Longrightarrow> run_ok (set_of (Settle i m t c) r)"
  by (auto simp: run_ok_def Let_def)

lemma ids_changed: "(\<And>r. u_id (f r) = u_id r) \<Longrightarrow> map u_id (changed p f rows) = map u_id rows"
  by (induction rows) (simp_all add: changed_def)

lemma runs_ok_changed:
  assumes "runs_ok rows" "\<And>r. u_id (f r) = u_id r" "\<And>r. r \<in> set rows \<Longrightarrow> p r \<Longrightarrow> run_ok r \<Longrightarrow> run_ok (f r)"
  shows "runs_ok (changed p f rows)"
  using assms ids_changed[OF assms(2)] by (auto simp: runs_ok_def list_all_iff) (auto simp: changed_def)

lemma runs_ok_paused: "runs_ok rows \<Longrightarrow> (u_id r, p) \<in> set (paused_keys rows) \<Longrightarrow> r \<in> set rows \<Longrightarrow> u_paused r = p"
  by (auto simp: runs_ok_def paused_keys_def dest: eq_key_imp_eq_value) (metis distinct_map inj_onD)

interpretation rk: table_rule runs_ok
proof unfold_locales
  fix q rows assume q: "plain q" and ok: "runs_ok rows"
  show "runs_ok (run_stmt q rows)"
  proof (cases "\<exists>r. q = Insert r")
    case True
    then show ?thesis using q ok by (auto simp: run_stmt_def runs_ok_def plain_def run_ok_def)
  next
    case False
    then have "run_stmt q rows = changed (where_of q) (set_of q) rows" by (simp add: run_stmt_update)
    then show ?thesis using runs_ok_changed[OF ok] run_ok_stmt[OF q] by simp
  qed
next
  fix i x rows assume "(i, Some x) \<in> set (paused_keys rows)" "x \<noteq> []" "runs_ok rows"
  then show "runs_ok (run_stmt (Reopen i) rows)"
    unfolding run_stmt_def stmt.case
    by (intro runs_ok_changed) (auto intro!: run_ok_reopen simp del: set_of.simps dest: runs_ok_paused)
next
  fix i p rows m t c assume *: "(i, p) \<in> set (paused_keys rows)" "\<not> filled p" "runs_ok rows"
  have "u_paused r = None" if "r \<in> set rows" "u_id r = i" for r
  proof -
    have "u_paused r = p" using runs_ok_paused[of rows r p] * that by simp
    then show ?thesis using * that by (auto simp: runs_ok_def list_all_iff run_ok_def filled_def)
  qed
  then show "runs_ok (run_stmt (Settle i m t c) rows)"
    unfolding run_stmt_def stmt.case
    by (intro runs_ok_changed[OF *(3)]) (auto intro!: run_ok_settle simp del: set_of.simps)
qed

text \<open>The operations of the module, as the rest of the program calls them.\<close>

inductive run_step :: "'w renv \<Rightarrow> 'w db \<Rightarrow> 'w db \<Rightarrow> bool" for v where
  start: "run_step v s (snd (start_run_safely v a s))"
| settle: "st \<notin> {SRunning, SAwaiting} \<Longrightarrow> run_step v s (snd (settle_run v i st m tools s))"
| finish: "st \<notin> {SRunning, SAwaiting} \<Longrightarrow> run_step v s (snd (finish_run v i st m s))"
| failure: "run_step v s (snd (record_failure i err s))"
| read: "run_step v s (snd (get_run v i owner s))"
| list_all: "run_step v s (snd (list_runs v owner limit offset wid statuses s))"
| replay: "run_step v s (snd (prepare_replay v i owner force s))"
| pause: "run_step v s (snd (pause_run v i snap s))"
| waiting: "run_step v s (snd (list_awaiting v user s))"
| claim: "run_step v s (snd (claim_paused_run v i user choice txt s))"
| decided: "run_step v s (snd (mark_decided i c s))"
| release: "run_step v s (snd (release_paused_run i s))"
| abandon: "run_step v s (snd (abandon_paused_run v i user s))"
| stop: "run_step v s (snd (stop_unanswered_resume v i c s))"
| save: "run_step v s (snd (keep_failure v i snap s))"
| retry: "run_step v s (snd (prepare_retry v i owner s))"
| trace: "run_step v s (snd (save_trace v i tr s))"
| forget: "run_step v s (snd (forget_workflow_traces wid owner s))"
| purge: "run_step v s (snd (purge_old_traces v days s))"
| world: "run_step v s (s\<lparr>d_world := w\<rparr>)"

context table_rule
begin

lemma keeps_at: "keeps (on_runs R) m \<Longrightarrow> R (d_runs s) \<Longrightarrow> R (d_runs (snd (m s)))"
  using keepsD[of "on_runs R" m s] by (simp add: on_runs_def)

lemma keeps_step:
  "run_step v s t \<Longrightarrow> (\<And>x. e_encrypt v x \<noteq> Inr []) \<Longrightarrow> R (d_runs s) \<Longrightarrow> R (d_runs t)"
proof (induction rule: run_step.induct)
  case (world s w)
  then show ?case by simp
qed (intro keeps_at keeps_intros; assumption)+

lemma keeps_steps:
  assumes "(run_step v)\<^sup>*\<^sup>* s t" "\<And>x. e_encrypt v x \<noteq> Inr []" "R (d_runs s)" shows "R (d_runs t)"
  using assms(1,3) by (induction rule: rtranclp_induct) (auto intro: keeps_step[OF _ assms(2)])

end

interpretation rs: table_rule "\<lambda>rows. \<exists>qs. rows = fold run_stmt qs rows0" for rows0
proof unfold_locales
  fix q and rows :: "run_row list" assume "\<exists>qs. rows = fold run_stmt qs rows0"
  then obtain qs where "rows = fold run_stmt qs rows0" by blast
  then have "run_stmt q rows = fold run_stmt (qs @ [q]) rows0" by simp
  then show s: "\<exists>qs. run_stmt q rows = fold run_stmt qs rows0" by blast
next
  fix i x m t c and rows :: "run_row list" assume "\<exists>qs. rows = fold run_stmt qs rows0"
  then obtain qs where "rows = fold run_stmt qs rows0" by blast
  then have "run_stmt q rows = fold run_stmt (qs @ [q]) rows0" for q by simp
  then show "\<exists>qs. run_stmt (Reopen i) rows = fold run_stmt qs rows0" "\<exists>qs. run_stmt (Settle i m t c) rows = fold run_stmt qs rows0"
    by blast+
qed

text \<open>What a run was started with.\<close>

definition facts :: "run_row \<Rightarrow> (string \<times> string \<times> string) \<times> string option list" where
  "facts r = ((u_id r, u_owner r, u_trigger r),
     [u_org r, u_agents r, u_config r, u_file_name r, u_file_path r, u_created r, u_replay r, u_workflow r])"

lemma facts_set_of [simp]: "facts (set_of q r) = facts r"
  by (cases q) (simp_all add: facts_def Let_def)

lemma facts_stmt: "\<exists>new. map facts (run_stmt q rows) = map facts rows @ new"
proof (cases "\<exists>r. q = Insert r")
  case False
  then have "run_stmt q rows = changed (where_of q) (set_of q) rows" by (simp add: run_stmt_update)
  moreover have "map facts (changed (where_of q) (set_of q) rows) = map facts rows" by (simp add: changed_def)
  ultimately show ?thesis by simp
qed (auto simp: run_stmt_def)

interpretation rh: table_rule "\<lambda>rows. \<exists>new. map facts rows = map facts rows0 @ new" for rows0
proof unfold_locales
  fix q and rows :: "run_row list" assume "\<exists>new. map facts rows = map facts rows0 @ new"
  then show "\<exists>new. map facts (run_stmt q rows) = map facts rows0 @ new" using facts_stmt[of q rows] by auto
next
  fix i x m t c and rows :: "run_row list" assume "\<exists>new. map facts rows = map facts rows0 @ new"
  then show "\<exists>new. map facts (run_stmt (Reopen i) rows) = map facts rows0 @ new"
    "\<exists>new. map facts (run_stmt (Settle i m t c) rows) = map facts rows0 @ new"
    using facts_stmt[of "Reopen i" rows] facts_stmt[of "Settle i m t c" rows] by auto
qed

text \<open>C13. Whatever is asked of the records of runs, in any order, they stay well formed: a run that waits
  has a snapshot, a question and a deadline and nobody is resuming it; a snapshot exists only while the run
  can still be answered; an end is dated exactly when the run is neither running nor waiting; identifiers
  are never shared.  Fernet tokens are never empty.\<close>

theorem records_stay_well_formed:
  assumes "(run_step v)\<^sup>*\<^sup>* s t" and "\<And>x. e_encrypt v x \<noteq> Inr []" and "runs_ok (d_runs s)"
  shows "runs_ok (d_runs t)"
  by (rule rk.keeps_steps[OF assms])

lemma records_stay_well_formed_witness:
  "runs_ok (d_runs (snd (mark_decided ''r1'' None (snd (claim_paused_run demo ''r1'' ''ann'' None (Some ''yes'') demo_db)))))"
proof -
  have "runs_ok (d_runs demo_db)" by (simp add: demo_db_def demo_row_def runs_ok_def run_ok_def)
  moreover have "(run_step demo)\<^sup>*\<^sup>* demo_db (snd (mark_decided ''r1'' None (snd (claim_paused_run demo ''r1'' ''ann'' None (Some ''yes'') demo_db))))"
    by (meson run_step.claim run_step.decided r_into_rtranclp rtranclp.rtrancl_into_rtrancl)
  ultimately show ?thesis using records_stay_well_formed demo_seals by blast
qed

text \<open>C16. The history of runs only grows: no operation removes a record or changes who owns the run, what
  triggered it, its agents, its configuration, its input, when it started or what it replays.\<close>

theorem history_only_grows:
  assumes "(run_step v)\<^sup>*\<^sup>* s t" and "\<And>x. e_encrypt v x \<noteq> Inr []"
  shows "\<exists>new. map facts (d_runs t) = map facts (d_runs s) @ new"
  by (rule rh.keeps_steps[OF assms]) simp

lemma history_only_grows_witness:
  "\<exists>new. map facts (d_runs (snd (start_run_safely demo demo_args demo_db))) = [facts demo_row] @ new"
proof -
  have "map facts (d_runs demo_db) = [facts demo_row]" by (simp add: demo_db_def)
  moreover have "(run_step demo)\<^sup>*\<^sup>* demo_db (snd (start_run_safely demo demo_args demo_db))"
    by (intro r_into_rtranclp run_step.start)
  ultimately show ?thesis using history_only_grows[of demo demo_db] demo_seals by fastforce
qed

text \<open>C15. However the statements of concurrent requests interleave, a paused run is never answered more often
  than it was offered: each answer taken uses up one pause, or one resumption that was given back.\<close>

theorem answers_within_offers:
  "total run_stmt (answers i) qs rows \<le> rows_of i is_waiting rows + total run_stmt (offers i) qs rows"
  by (rule lw.taken_given)

text \<open>However the statements of concurrent requests interleave, a failed run is never resumed more often
  than its snapshot was kept or given back.\<close>

theorem resumptions_within_snapshots:
  "total run_stmt (resumptions i) qs rows \<le> rows_of i is_kept rows + total run_stmt (snapshots i) qs rows"
  by (rule lf.taken_given)

lemma operations_are_statements:
  assumes "(run_step v)\<^sup>*\<^sup>* s t" and "\<And>x. e_encrypt v x \<noteq> Inr []"
  shows "\<exists>qs. d_runs t = fold run_stmt qs (d_runs s)"
  by (rule rs.keeps_steps[OF assms]) (rule exI[of _ "[]"], simp)

end
