(* ===== verification/Run_Answer.thy ===== *)
theory Run_Answer
  imports Run_Safety Run_Example
begin

section \<open>Who answers, and until when\<close>

lemma sbind_Inr: "sbind m f s = (Inr y, t) \<longleftrightarrow> (\<exists>x u. m s = (Inr x, u) \<and> f x u = (Inr y, t))"
  by (auto simp: sbind_def split: prod.splits sum.splits)

lemma atomic_Inr [simp]: "atomic m s = (Inr x, t) \<longleftrightarrow> m s = (Inr x, t)"
  by (auto simp: atomic_def split: prod.splits sum.splits)

lemma leaf_simps [simp]:
  "sret x s = (Inr y, t) \<longleftrightarrow> x = y \<and> s = t" "reject n d s \<noteq> (Inr y, t)" "sthrow e s \<noteq> (Inr y, t)"
  "liftr r s = (Inr y, t) \<longleftrightarrow> r = Inr y \<and> s = t" "refuse_code c ps s \<noteq> (Inr y, t)"
  by (auto simp: sret_def reject_def sthrow_def liftr_def slift_def map_err_def refuse_code_def split: sum.split)

lemma utc_now_Inr:
  "utc_now v s = (Inr x, t) \<longleftrightarrow> x = fst (e_utc v (d_world s)) \<and> t = s\<lparr>d_world := snd (e_utc v (d_world s))\<rparr>"
  by (auto simp: utc_now_def split: prod.split)

subsection \<open>Nothing that waits is past its deadline\<close>

definition due :: "'w renv \<Rightarrow> int \<Rightarrow> run_row \<Rightarrow> bool" where
  "due v now r = (case u_expires r of None \<Rightarrow> False
     | Some e \<Rightarrow> (case instant_at v e of None \<Rightarrow> False | Some d \<Rightarrow> d \<le> now))"

definition waiting_rows :: "'w db \<Rightarrow> run_row set" where
  "waiting_rows s = {r \<in> set (d_runs s). u_status r = SAwaiting}"

lemma now_text_eq: obtains x w where "now_text v s = (Inr x, s\<lparr>d_world := w\<rparr>)"
  by (cases "e_utc v (d_world s)") (simp add: now_text_def local_now_def utc_now_def sbind_def sret_def)

lemma expire_one_eq:
  obtains (skip) "\<not> due v now x" "expire_one v now x s = (Inr (), s)"
    | (expire) e m w where "u_expires x = Some e" "due v now x" "expire_one v now x s
        = (Inr (), s\<lparr>d_world := w, d_runs := changed (where_of (Expire (u_id x) e m)) (set_of (Expire (u_id x) e m)) (d_runs s)\<rparr>)"
proof (cases "u_expires x")
  case (Some e)
  show thesis
  proof (cases "due v now x")
    case True
    obtain m w where "now_text v s = (Inr m, s\<lparr>d_world := w\<rparr>)" by (rule now_text_eq)
    then have "expire_one v now x s = (Inr (), s\<lparr>d_world := w,
        d_runs := changed (where_of (Expire (u_id x) e m)) (set_of (Expire (u_id x) e m)) (d_runs s)\<rparr>)"
      using True Some
      by (auto simp: expire_one_def due_def sbind_def sdo_def sret_def commit_def run_stmt_def split: option.splits)
    then show thesis using Some True by (rule expire[rotated 2])
  next
    case False
    then show thesis using Some by (intro skip) (auto simp: expire_one_def due_def sret_def split: option.split)
  qed
qed (simp add: expire_one_def sret_def skip due_def)

lemma waiting_rows_changed:
  "(\<And>r. u_status (f r) \<noteq> SAwaiting) \<Longrightarrow>
    waiting_rows (s\<lparr>d_world := w, d_runs := changed p f rows\<rparr>) = {r \<in> set rows. u_status r = SAwaiting \<and> \<not> p r}"
  by (auto simp: waiting_rows_def changed_def)

text \<open>A row that is not due keeps waiting: \<open>Expire\<close> selects rows with the same text of a deadline.\<close>

lemma expire_one_waiting:
  assumes "expire_one v now x s = (r, t)"
  shows "is_ok r \<and> waiting_rows t \<subseteq> waiting_rows s \<and> {y \<in> waiting_rows s. \<not> due v now y} \<subseteq> waiting_rows t
    \<and> (u_status x = SAwaiting \<longrightarrow> due v now x \<longrightarrow> x \<notin> waiting_rows t)"
proof (cases rule: expire_one_eq[of v now x s])
  case skip
  then show ?thesis using assms by (simp add: is_ok_def)
next
  case (expire e m w)
  then have "waiting_rows t = {r \<in> set (d_runs s). u_status r = SAwaiting \<and> \<not> where_of (Expire (u_id x) e m) r}"
    using assms by (simp add: waiting_rows_changed del: where_of.simps)
  moreover have "r = Inr ()" using assms expire(3) by simp
  moreover have "x \<notin> {r \<in> set (d_runs s). u_status r = SAwaiting \<and> \<not> where_of (Expire (u_id x) e m) r}"
    if "u_status x = SAwaiting" using that expire(1) by simp
  moreover have "due v now y" if "where_of (Expire (u_id x) e m) y" for y
    using that expire(1,2) by (simp add: due_def)
  ultimately show ?thesis by (auto simp: is_ok_def waiting_rows_def simp del: where_of.simps)
qed

lemma expire_all_waiting:
  assumes "smap (expire_one v now) xs s = (r, t)" "\<And>x. x \<in> set xs \<Longrightarrow> u_status x = SAwaiting"
  shows "is_ok r \<and> waiting_rows t \<subseteq> waiting_rows s \<and> {y \<in> waiting_rows s. \<not> due v now y} \<subseteq> waiting_rows t
    \<and> (\<forall>x \<in> set xs. due v now x \<longrightarrow> x \<notin> waiting_rows t)"
  using assms
proof (induction xs arbitrary: s r t)
  case (Cons x xs)
  obtain a u where a: "expire_one v now x s = (a, u)" by (cases "expire_one v now x s")
  note A = expire_one_waiting[OF a]
  obtain y where y: "a = Inr y" using A by (cases a) (auto simp: is_ok_def)
  obtain b w where b: "smap (expire_one v now) xs u = (b, w)" by (cases "smap (expire_one v now) xs u")
  from Cons.IH[OF b] Cons.prems(2) have IH: "is_ok b" "waiting_rows w \<subseteq> waiting_rows u"
    "{y \<in> waiting_rows u. \<not> due v now y} \<subseteq> waiting_rows w"
    "\<forall>x \<in> set xs. due v now x \<longrightarrow> x \<notin> waiting_rows w" by auto
  obtain ys where ys: "b = Inr ys" using IH(1) by (cases b) (auto simp: is_ok_def)
  have "t = w" "r = Inr (y # ys)" using Cons.prems(1) a b y ys by (auto simp: sbind_def sret_def)
  then show ?case using IH A Cons.prems(2)[of x] by (auto simp: is_ok_def)
qed (auto simp: sret_def is_ok_def)

lemma expire_due_waiting:
  assumes "expire_due v s = (r, t)"
  shows "is_ok r" "waiting_rows t = {x \<in> waiting_rows s. \<not> due v (fst (e_utc v (d_world s))) x}"
proof -
  obtain now w where now: "e_utc v (d_world s) = (now, w)" by (cases "e_utc v (d_world s)")
  let ?s = "s\<lparr>d_world := w\<rparr>" and ?xs = "filter (\<lambda>r. u_status r = SAwaiting \<and> u_expires r \<noteq> None) (d_runs s)"
  obtain b u where b: "smap (expire_one v now) ?xs ?s = (b, u)" by (cases "smap (expire_one v now) ?xs ?s")
  have *: "is_ok b" "waiting_rows u \<subseteq> waiting_rows ?s" "{y \<in> waiting_rows ?s. \<not> due v now y} \<subseteq> waiting_rows u"
    "\<forall>x \<in> set ?xs. due v now x \<longrightarrow> x \<notin> waiting_rows u"
    using expire_all_waiting[OF b] by auto
  have "t = u" "is_ok r" using assms * b by (auto simp: expire_due_def expire_due_at_def utc_now_def now sbind_def select_def sget_def
      sdo_def sret_def is_ok_def split: sum.splits prod.splits)
  moreover have "x \<in> set ?xs" if "x \<in> waiting_rows s" "due v now x" for x
    using that by (auto simp: waiting_rows_def due_def split: option.splits)
  ultimately show "is_ok r" "waiting_rows t = {x \<in> waiting_rows s. \<not> due v (fst (e_utc v (d_world s))) x}"
    using * now by (auto simp: waiting_rows_def)
qed

subsection \<open>What may be answered\<close>

text \<open>The resumption of a row died: it took the snapshot six hours ago and has not taken the answer.\<close>

definition died :: "'w renv \<Rightarrow> int \<Rightarrow> run_row \<Rightarrow> bool" where
  "died v now r = (u_status r = SRunning \<and> u_paused r \<noteq> None \<and> at_most (u_resumed r) (stamp (e_local v now - RUN_STALE_AFTER)))"

lemma settle_due_exact:
  assumes "settle_due v s = (r, t)"
  shows "let (now, w) = e_utc v (d_world s) in
    is_ok r \<and> waiting_rows t = {x. \<not> due v (fst (e_utc v w)) x \<and>
      (x \<in> waiting_rows s \<or> (\<exists>y \<in> set (d_runs s). died v now y \<and> x = y\<lparr>u_status := SAwaiting, u_resumed := None\<rparr>))}"
proof -
  obtain now w where now: "e_utc v (d_world s) = (now, w)" by (cases "e_utc v (d_world s)")
  let ?s = "s\<lparr>d_world := w, d_runs := run_stmt (Release_dead (stamp (e_local v now - RUN_STALE_AFTER))) (d_runs s)\<rparr>"
  have rel: "release_dead_resumptions v s = (Inr (), ?s)"
    by (simp add: release_dead_resumptions_def local_now_def utc_now_def now sbind_def sret_def sdo_def commit_def)
  obtain b u where b: "expire_due v ?s = (b, u)" by (cases "expire_due v ?s")
  have ok: "is_ok b" and w: "waiting_rows u = {x \<in> waiting_rows ?s. \<not> due v (fst (e_utc v w)) x}"
    using expire_due_waiting[OF b] by simp_all
  have "r = b" "t = u" using assms ok rel b
    by (auto simp: settle_due_def atomic_def sbind_def is_ok_def split: sum.splits)
  moreover have "waiting_rows ?s = {x. x \<in> waiting_rows s
      \<or> (\<exists>y \<in> set (d_runs s). died v now y \<and> x = y\<lparr>u_status := SAwaiting, u_resumed := None\<rparr>)}"
    by (auto simp: waiting_rows_def run_stmt_def changed_def died_def)
  ultimately show ?thesis using ok w now by auto
qed

lemma settled_waiting:
  assumes "settle_due v s = (r, t)"
  shows "waiting_rows t \<subseteq> {x. \<not> due v (fst (e_utc v (snd (e_utc v (d_world s))))) x}"
  using settle_due_exact[OF assms] by (auto split: prod.splits)

text \<open>C17. When a decision is about to be looked at, the runs that wait are exactly those that waited, or whose
  resumption died six hours ago without taking the answer, and whose deadline has not passed: a dead
  resumption never keeps a run from its answer, and no answer comes after the deadline.\<close>

theorem settled_runs_exact:
  "let (now, w) = e_utc v (d_world s); (r, t) = settle_due v s in
    is_ok r \<and> waiting_rows t = {x. \<not> due v (fst (e_utc v w)) x \<and>
      (x \<in> waiting_rows s \<or> (\<exists>y \<in> set (d_runs s). died v now y \<and> x = y\<lparr>u_status := SAwaiting, u_resumed := None\<rparr>))}"
  using settle_due_exact[of v s] by (auto simp: Let_def split: prod.split)

lemma awaiting_row_Inr:
  assumes "awaiting_row v i user s = (Inr r, t)"
  shows "s = t" "r \<in> set (d_runs s)" "u_id r = i" "may_decide r user" "u_status r = SAwaiting" "filled (u_paused r)"
proof -
  obtain r' where f: "find (\<lambda>r. u_id r = i) (d_runs s) = Some r'" "may_decide r' user"
    "(case (if u_status r' = SError then closed_code r' else None) of
         Some c \<Rightarrow> if c = ''decision_expired'' then sbind (liftr (expired_detail v r')) (reject 409)
           else reject 409 (code_detail c)
       | None \<Rightarrow>
           if u_status r' \<noteq> SAwaiting \<or> \<not> filled (u_paused r')
           then reject 409 (PDict [(''code'', PStr ''decision_already_answered''), (''status'', PStr (status_str (u_status r')))])
           else sret r') s = (Inr r, t)"
    using assms by (auto simp: awaiting_row_def sbind_Inr fetch_run_def sget_def split: option.splits if_splits)
  then have "r' = r \<and> s = t \<and> u_status r = SAwaiting \<and> filled (u_paused r)"
    by (auto simp: sbind_Inr split: option.splits if_splits)
  with f(1,2) show "s = t" "r \<in> set (d_runs s)" "u_id r = i" "may_decide r user" "u_status r = SAwaiting" "filled (u_paused r)"
    by (auto simp: find_Some_iff)
qed

lemma read_claim_Inr:
  assumes "read_claim v i user s = (Inr (r, Some st), t)"
  shows "s = t" "r \<in> waiting_rows s" "u_id r = i" "may_decide r user" "\<exists>x. u_paused r = Some x \<and> unseal v x = Inr st"
proof -
  obtain r' u where a: "awaiting_row v i user s = (Inr r', u)"
    "(case unseal v (case u_paused r' of None \<Rightarrow> [] | Some x \<Rightarrow> x) of
       Inr st \<Rightarrow> sret (r', Some st)
     | Inl e \<Rightarrow> if unreadable e
         then sbind (now_text v) (\<lambda>t. sbind (commit (Unreadable i t)) (\<lambda>_. sret (r', None)))
         else sthrow (Failed e)) u = (Inr (r, Some st), t)"
    using assms by (auto simp: read_claim_def sbind_Inr)
  then have "r' = r \<and> u = t \<and> unseal v (case u_paused r of None \<Rightarrow> [] | Some x \<Rightarrow> x) = Inr st"
    by (auto simp: sbind_Inr split: sum.splits if_splits)
  with awaiting_row_Inr[OF a(1)]
  show "s = t" "r \<in> waiting_rows s" "u_id r = i" "may_decide r user" "\<exists>x. u_paused r = Some x \<and> unseal v x = Inr st"
    by (auto simp: waiting_rows_def filled_def split: option.splits)
qed

lemma checked_answer_Inr:
  "checked_answer p c x s = (Inr a, t) \<longleftrightarrow> check_decision_answer p c x = Inr a \<and> s = t"
  by (auto simp: checked_answer_def split: sum.splits exn.splits)

lemma take_run_Inr:
  assumes "take_run i m s = (Inr y, t)"
  shows "\<exists>r \<in> set (d_runs t). u_id r = i \<and> u_status r = SRunning \<and> u_resumed r = Some m" "d_world t = d_world s"
proof -
  have k: "length (filter (where_of (Take i m)) (d_runs s)) = 1" and t: "t = s\<lparr>d_runs := run_stmt (Take i m) (d_runs s)\<rparr>"
    using assms by (auto simp: take_run_def sbind_Inr commit_def simp del: where_of.simps split: if_splits)
  then obtain r where "r \<in> set (filter (where_of (Take i m)) (d_runs s))" by (metis length_greater_0_conv nth_mem zero_less_one)
  then have "set_of (Take i m) r \<in> set (d_runs t)" "u_id r = i" using t by (auto simp: run_stmt_def changed_def)
  then show "\<exists>r \<in> set (d_runs t). u_id r = i \<and> u_status r = SRunning \<and> u_resumed r = Some m" by (intro bexI) auto
  show "d_world t = d_world s" using t by simp
qed

text \<open>C14. A decision that is taken was the claimed run's to take: the user owns the run or is the one asked,
  its snapshot opened, its deadline had not passed at the reading of the clock, the answer fits the
  question, and the run is now marked as resumed at the moment of the claim.\<close>

theorem claim_is_lawful:
  assumes "claim_paused_run v i user choice txt s = (Inr c, t)"
  shows "u_id (cl_run c) = i \<and> may_decide (cl_run c) user
    \<and> \<not> due v (fst (e_utc v (snd (e_utc v (d_world s))))) (cl_run c)
    \<and> (\<exists>x. u_paused (cl_run c) = Some x \<and> unseal v x = Inr (cl_state c))
    \<and> (\<exists>prompt. prompt_of (cl_state c) = Inr prompt \<and> is_ok (check_decision_answer prompt choice txt))
    \<and> (\<exists>r \<in> set (d_runs t). u_id r = i \<and> u_status r = SRunning \<and> u_resumed r = Some (cl_resumed c))"
proof -
  obtain u0 u1 m u2 r f u3 where S: "settle_due v s = (u0, u1)" "is_ok u0" and N: "now_text v u1 = (Inr m, u2)"
    and R: "read_claim v i user u2 = (Inr (r, f), u3)" and C: "(case f of
       None \<Rightarrow> reject 409 (code_detail ''decision_state_unreadable'')
     | Some state \<Rightarrow>
         sbind (atomic (sbind (liftr (prompt_of state)) (\<lambda>prompt.
           sbind (checked_answer prompt choice txt) (\<lambda>(c, t).
           sbind (take_run i m) (\<lambda>_. sret (c, t)))))) (\<lambda>(c, t).
         sbind (utc_now v) (\<lambda>now.
         sbind (liftr (config_of r)) (\<lambda>_.
         sret \<lparr>cl_run = r, cl_state = state,
           cl_answer = [(''node_id'', get0 state ''node_id''), (''choice'', opt_pstr c), (''text'', opt_pstr t),
             (''answered_by'', PStr user), (''answered_at'', PStr (iso now))],
           cl_resumed = m\<rparr>)))) u3 = (Inr c, t)"
    using assms by (auto simp: claim_paused_run_def sbind_Inr is_ok_def)
  obtain st where f: "f = Some st" using C by (cases f) simp_all
  note R = read_claim_Inr[OF R[unfolded f]]
  obtain p x y u4 where P: "prompt_of st = Inr p" and K: "check_decision_answer p choice txt = Inr x" and T: "take_run i m u3 = (Inr y, u4)"
    and t: "d_runs t = d_runs u4" and c: "cl_run c = r" "cl_state c = st" "cl_resumed c = m"
    using C unfolding f option.case
    by (auto simp: sbind_Inr checked_answer_Inr utc_now_Inr split: prod.splits)
  have "waiting_rows u2 = waiting_rows u1"
    using N by (cases rule: now_text_eq[of v u1]) (auto simp: waiting_rows_def)
  then have "\<not> due v (fst (e_utc v (snd (e_utc v (d_world s))))) r"
    using settled_waiting[OF S(1)] R(2) by auto
  then show ?thesis using R take_run_Inr(1)[OF T] P K t c by (auto simp: is_ok_def)
qed

lemma demo_claim: obtains c t where "claim_paused_run demo ''r1'' ''ann'' None (Some ''yes'') demo_db = (Inr c, t)"
proof -
  have S: "settle_due demo demo_db = (Inr (), demo_db)" by code_simp
  have N: "now_text demo demo_db = (Inr ''2025-06-15 15:06:40.000000'', demo_db)" by code_simp
  have R: "read_claim demo ''r1'' ''ann'' demo_db = (Inr (demo_row, Some [(''prompt'', PDict [(''mode'', PStr ''text'')])]), demo_db)"
    by code_simp
  have P: "prompt_of [(''prompt'', PDict [(''mode'', PStr ''text'')])] = Inr [(''mode'', PStr ''text'')]" by code_simp
  have K: "check_decision_answer [(''mode'', PStr ''text'')] None (Some ''yes'') = Inr (None, Some ''yes'')" by code_simp
  have C: "config_of demo_row = Inr []" by code_simp
  have T: "take_run ''r1'' ''2025-06-15 15:06:40.000000'' demo_db
    = (Inr (), demo_db\<lparr>d_runs := [set_of (Take ''r1'' ''2025-06-15 15:06:40.000000'') demo_row]\<rparr>)"
    by (simp add: take_run_def sbind_def commit_def run_stmt_def changed_def demo_db_def demo_row_def sret_def)
  have "\<exists>c t. claim_paused_run demo ''r1'' ''ann'' None (Some ''yes'') demo_db = (Inr c, t)"
    by (simp add: claim_paused_run_def sbind_def S N R P K T C checked_answer_def atomic_def sret_def utc_now_def liftr_def
      slift_def map_err_def split: prod.split)
  then show ?thesis using that by blast
qed

lemma claim_is_lawful_witness: "\<exists>c t. claim_paused_run demo ''r1'' ''ann'' None (Some ''yes'') demo_db = (Inr c, t)
    \<and> may_decide (cl_run c) ''ann'' \<and> (\<exists>r \<in> set (d_runs t). u_id r = ''r1'' \<and> u_status r = SRunning)"
proof -
  obtain c t where c: "claim_paused_run demo ''r1'' ''ann'' None (Some ''yes'') demo_db = (Inr c, t)" by (rule demo_claim)
  from claim_is_lawful[OF c] c show ?thesis by blast
qed

end
