(* ===== verification/Run_Resume.thy ===== *)
theory Run_Resume
  imports Run_Answer Wf_Snapshot
begin

section \<open>Resuming a failed run is sound\<close>

lemma fold_Nil_iff: "(\<And>k acc. f k acc = [] \<longleftrightarrow> acc = [] \<and> P k) \<Longrightarrow> fold f ks acc = [] \<longleftrightarrow> acc = [] \<and> (\<forall>k \<in> set ks. P k)"
  by (induction ks arbitrary: acc) auto

definition node_there :: "wgraph \<Rightarrow> pydict \<Rightarrow> string \<Rightarrow> bool" where
  "node_there g st k = (case get0 st k of PStr i \<Rightarrow> i \<in> set (node_ids g) | _ \<Rightarrow> True)"

lemma missing_nodes_Nil:
  "missing_nodes g st ch = [] \<longleftrightarrow> ch = [] \<and> node_there g st ''failed_node'' \<and> node_there g st ''until''"
  unfolding missing_nodes_def
  by (subst fold_Nil_iff[where P = "node_there g st"]) (auto simp: node_there_def split: pyval.split)

lemma changed_nodes_Nil:
  assumes "getitem st ''graph'' = Inr x" "parse_graph x = Some old"
  shows "changed_nodes g st = Inr [] \<longleftrightarrow> (\<forall>i \<in> set (replayed_ids st). signature old i = signature g i)
    \<and> node_there g st ''failed_node'' \<and> node_there g st ''until''"
  using assms by (simp add: changed_nodes_def ebind_def retry_mismatch_def of_opt_def missing_nodes_Nil filter_empty_conv)

lemma changed_nodes_opens: "changed_nodes g st = Inr [] \<Longrightarrow> \<exists>x old. getitem st ''graph'' = Inr x \<and> parse_graph x = Some old"
  by (auto simp: changed_nodes_def ebind_def retry_mismatch_def of_opt_def split: sum.splits option.splits)

subsection \<open>What a resumption started from\<close>

lemma checked_graph_Inr: "checked_graph v x wid s = (Inr g, t) \<Longrightarrow> s = t \<and> parse_graph x = Some g
    \<and> validate_graph ((e_venv v)\<lparr>v_workflow := (case wid of PStr i \<Rightarrow> Some i | _ \<Rightarrow> None), v_owner := None\<rparr>) g = Inr ()"
  by (auto simp: checked_graph_def sbind_Inr check_workflow_def parsed_graph_def of_opt_def ebind_def
      split: option.splits sum.splits exn.splits)

lemma retry_refusal_Inr [simp]: "retry_refusal v r s \<noteq> (Inr y, t)"
  by (auto simp: retry_refusal_def sbind_Inr split: option.splits if_splits)

lemma failed_state_Inr:
  assumes "failed_state v i owner s = (Inr (r, Some st), t)"
  shows "u_status r = SError \<and> (\<exists>x. u_failure r = Some x \<and> unseal v x = Inr st) \<and> owned_run v i owner s = (Inr (Some r), t)"
proof -
  let ?next = "\<lambda>q. (if u_status q \<noteq> SError
       then refuse_code ''retry_not_failed'' [(''status'', PStr (status_str (u_status q)))]
       else (case u_failure q of
         Some x \<Rightarrow>
           if x = [] then retry_refusal v q
           else (case unseal v x of
             Inr st \<Rightarrow> sret (q, Some st)
           | Inl e \<Rightarrow> if unreadable e then sbind (commit (Forget i)) (\<lambda>_. sret (q, None)) else sthrow (Failed e))
       | None \<Rightarrow> retry_refusal v q))"
  obtain row u where "owned_run v i owner s = (Inr row, u)"
    "(case row of None \<Rightarrow> reject 404 (PStr ''Unknown run'') | Some q \<Rightarrow> ?next q) u = (Inr (r, Some st), t)"
    using assms unfolding failed_state_def atomic_Inr sbind_Inr by blast
  then obtain q where q: "owned_run v i owner s = (Inr (Some q), u)" and c: "?next q u = (Inr (r, Some st), t)"
    by (cases row) auto
  have e: "u_status q = SError" using c by (auto split: if_splits)
  obtain x where x: "u_failure q = Some x" "x \<noteq> []" using c e by (auto split: option.splits if_splits)
  have "unseal v x = Inr st \<and> q = r \<and> u = t" using c e x by (auto simp: sbind_Inr split: sum.splits if_splits)
  with e x q show ?thesis by blast
qed

lemma owned_run_Inr:
  assumes "owned_run v i owner s = (Inr (Some r), t)"
  shows "u_id r = i \<and> (\<exists>q \<in> set (d_runs s). u_id q = i \<and> u_owner q = owner)"
proof -
  let ?rows = "filter (\<lambda>r. u_id r = i \<and> u_owner r = owner) (d_runs s)"
  have c: "reconcile v (case ?rows of [] \<Rightarrow> None | r # _ \<Rightarrow> Some r) s = (Inr (Some r), t)"
    using assms by (simp add: owned_run_def sbind_def select_def sget_def)
  show ?thesis
  proof (cases ?rows)
    case Nil
    then show ?thesis using c by (simp add: reconcile_def)
  next
    case (Cons q qs)
    then have q: "q \<in> set (d_runs s)" "u_id q = i" "u_owner q = owner"
      using Cons_eq_filterD[of q qs, OF Cons[symmetric]] by auto
    have "reconcile v (Some q) s = (Inr (Some r), t)" using c Cons by simp
    then have "u_id r = u_id q"
      by (auto simp: reconcile_def sbind_Inr fetch_run_def sget_def find_Some_iff split: if_splits)
    with q show ?thesis by auto
  qed
qed

lemma sbind_step: "m s = (Inr x, u) \<Longrightarrow> sbind m f s = f x u"
  by (simp add: sbind_def)

lemma stry_sret: "stry m (\<lambda>_. sret y) s = (Inr z, t) \<longleftrightarrow> y = z \<and> t = snd (m s)"
  by (auto simp: stry_def sret_def split: prod.split)

lemma insert_row_Inr: "insert_row r s = (Inr k, t) \<Longrightarrow> r \<in> set (d_runs t)"
  by (auto simp: insert_row_def sbind_Inr sget_def commit_def run_stmt_def split: if_splits)

lemma insert_or_fresh_Inr:
  assumes "stry (atomic (insert_row row)) (\<lambda>r. case r of
       Inr _ \<Rightarrow> sret i
     | Inl (Failed (PyError cls)) \<Rightarrow>
         if cls = ''IntegrityError''
         then sbind (new_id v) (\<lambda>j. sbind (atomic (insert_row (row\<lparr>u_id := j\<rparr>))) (\<lambda>_. sret j))
         else sthrow (Failed (PyError cls))
     | Inl e \<Rightarrow> sthrow e) u = (Inr j, t)" and "u_id row = i"
  shows "row\<lparr>u_id := j\<rparr> \<in> set (d_runs t)"
proof -
  obtain x w where x: "atomic (insert_row row) u = (x, w)" by (cases "atomic (insert_row row) u")
  show ?thesis
  proof (cases x)
    case (Inr k)
    then have *: "row \<in> set (d_runs t)" "i = j" using assms x insert_row_Inr[of row u k w] by (auto simp: stry_def)
    have "row\<lparr>u_id := u_id row\<rparr> = row" by simp
    with * show ?thesis using assms(2) by metis
  next
    case (Inl e)
    then show ?thesis using assms(1) x
      by (auto simp: stry_def sbind_Inr dest!: insert_row_Inr split: run_error.splits exn.splits if_splits)
  qed
qed

lemma start_run_Inr:
  assumes "start_run v a s = (Inr j, t)"
  shows "\<exists>r \<in> set (d_runs t). u_id r = j \<and> u_replay r = s_replay a \<and> u_owner r = s_owner a"
proof -
  have "\<exists>i now. (new_row v a i now)\<lparr>u_id := j\<rparr> \<in> set (d_runs t)"
    using assms unfolding start_run_def sbind_Inr Let_def
    by (elim exE conjE) (drule insert_or_fresh_Inr, simp add: new_row_def Let_def, blast)
  then show ?thesis by (auto simp: new_row_def Let_def intro: bexI[rotated])
qed

lemma consume_failure_ids: "consume_failure v r s = (Inr y, t) \<Longrightarrow> map u_id (d_runs t) = map u_id (d_runs s)"
  by (auto simp: consume_failure_def sbind_Inr commit_def run_stmt_def ids_changed split: if_splits)

lemma facts_kept:
  assumes "keep_failure v j st s = (x, t)" "r \<in> set (d_runs s)"
  shows "\<exists>q \<in> set (d_runs t). facts q = facts r"
proof -
  obtain new where new: "map facts (d_runs t) = map facts (d_runs s) @ new"
    using rh.keeps_at[OF rh.keeps_keep_failure] assms(1) by (metis append_Nil2 snd_conv)
  have "facts r \<in> set (map facts (d_runs s) @ new)" using assms(2) by simp
  then have "facts r \<in> set (map facts (d_runs t))" by (simp only: new)
  then show ?thesis by auto
qed

subsection \<open>The row of a run, by its primary key\<close>

lemma find_changed_id: "find (\<lambda>r. u_id r = i) (changed p (set_of q) rows)
    = map_option (\<lambda>r. if p r then set_of q r else r) (find (\<lambda>r. u_id r = i) rows)"
  by (induction rows) (auto simp: changed_def)

lemma find_row: "distinct (map u_id rows) \<Longrightarrow> q \<in> set rows \<Longrightarrow> find (\<lambda>r. u_id r = u_id q) rows = Some q"
  by (induction rows) auto

lemma filter_row:
  assumes "distinct (map u_id rows)" "q \<in> set rows" "P q" "\<And>r. P r \<Longrightarrow> u_id r = u_id q"
  shows "filter P rows = [q]"
  using assms(1,2)
proof (induction rows)
  case (Cons r rows)
  show ?case
  proof (cases "r = q")
    case True
    have "\<not> P r'" if "r' \<in> set rows" for r'
      using Cons.prems(1) True that assms(4)[of r'] by (auto simp: image_iff)
    then have "filter P rows = []" by (simp add: filter_empty_conv)
    then show ?thesis using True assms(3) by simp
  next
    case False
    then have q: "q \<in> set rows" using Cons.prems(2) by simp
    then have "u_id r \<noteq> u_id q" using Cons.prems(1) by (metis distinct.simps(2) image_eqI list.simps(9) list.set_map)
    then have "\<not> P r" using assms(4) by blast
    then show ?thesis using Cons q by simp
  qed
qed simp

lemma find_id: "find (\<lambda>r. u_id r = i) rows = Some q \<Longrightarrow> q \<in> set rows \<and> u_id q = i"
  by (induction rows) (auto split: if_splits)

lemma now_text_rows: "now_text v s = (y, t) \<Longrightarrow> d_runs t = d_runs s \<and> (\<exists>x. y = Inr x)"
  by (rule now_text_eq[of v s]) auto

lemma local_now_rows: "local_now v s = (Inr (e_local v (fst (e_utc v (d_world s)))), s\<lparr>d_world := snd (e_utc v (d_world s))\<rparr>)"
  by (simp add: local_now_def utc_now_def sbind_def sret_def split: prod.split)

lemma give_back_rows:
  "give_back_retry i s = (y, t) \<Longrightarrow> t = s \<or> (\<exists>o' x n. t = s\<lparr>d_runs := changed (where_of (Give_back o' x n)) (set_of (Give_back o' x n)) (d_runs s)\<rparr>)"
  by (auto simp: give_back_retry_def fetch_run_def sget_def sbind_def sret_def liftr_def slift_def map_err_def sdo_def commit_def
      run_stmt_def simp del: where_of.simps set_of.simps split: option.splits if_splits sum.splits)

text \<open>The row that is read again after the reconciliation has the snapshot it had before.\<close>

lemma owned_run_snapshot:
  assumes d: "distinct (map u_id (d_runs s))" and o: "owned_run v i owner s = (Inr (Some r), t)" and x: "u_failure r = Some x"
  shows "\<exists>q \<in> set (d_runs s). u_id q = i \<and> u_owner q = owner \<and> u_failure q = Some x"
proof -
  let ?rows = "filter (\<lambda>r. u_id r = i \<and> u_owner r = owner) (d_runs s)"
  have c: "reconcile v (case ?rows of [] \<Rightarrow> None | r # _ \<Rightarrow> Some r) s = (Inr (Some r), t)"
    using o by (simp add: owned_run_def sbind_def select_def sget_def)
  obtain q qs where Q: "?rows = q # qs" using c by (cases ?rows) (simp_all add: reconcile_def)
  then have q: "q \<in> set (d_runs s)" "u_id q = i" "u_owner q = owner"
    using Cons_eq_filterD[of q qs, OF Q[symmetric]] by auto
  have f: "find (\<lambda>r. u_id r = i) (d_runs s) = Some q" using find_row[OF d q(1)] q(2) by simp
  have c: "reconcile v (Some q) s = (Inr (Some r), t)" using c Q by simp
  have "u_failure q = Some x"
  proof (cases "u_status q \<noteq> SRunning \<or> \<not> filled (or_text (u_resumed q) (u_created q))")
    case True then show ?thesis using c x by (simp add: reconcile_def)
  next
    case False
    define s1 where "s1 = s\<lparr>d_world := snd (e_utc v (d_world s))\<rparr>"
    define now where "now = e_local v (fst (e_utc v (d_world s)))"
    have f1: "find (\<lambda>r. u_id r = i) (d_runs s1) = Some q" using f by (simp add: s1_def)
    have c: "(if \<not> lost_since now q then sret (Some q)
       else if filled (u_paused q) then sbind (commit (Reopen (u_id q))) (\<lambda>_. fetch_run (u_id q))
       else sbind (liftr (is_retry q)) (\<lambda>retry.
         sbind (if retry then give_back_retry (u_id q) else sret ()) (\<lambda>_.
         sbind (now_text v) (\<lambda>t.
         sbind (commit (Settle (u_id q) SETTLED_MESSAGE t retry)) (\<lambda>_.
         fetch_run (u_id q)))))) s1 = (Inr (Some r), t)"
      using c False by (simp add: reconcile_def sbind_def[of "local_now v"] local_now_rows now_def s1_def)
    consider "\<not> lost_since now q" | "lost_since now q" "filled (u_paused q)" | "lost_since now q" "\<not> filled (u_paused q)" by blast
    then show ?thesis
    proof cases
      case 1 then show ?thesis using c x by simp
    next
      case 2
      then have "r = (if where_of (Reopen i) q then set_of (Reopen i) q else q)"
        using c q(2) f1 by (auto simp: sbind_Inr commit_def fetch_run_def sget_def run_stmt_def find_changed_id)
      then show ?thesis using x by (auto split: if_splits)
    next
      case 3
      then obtain retry y s2 ts s3 where R: "(if retry then give_back_retry i else sret ()) s1 = (Inr y, s2)"
        and N: "now_text v s2 = (Inr ts, s3)"
        and S: "find (\<lambda>r. u_id r = i) (run_stmt (Settle i SETTLED_MESSAGE ts retry) (d_runs s3)) = Some r"
        using c q(2) by (auto simp: sbind_Inr commit_def fetch_run_def sget_def)
      have "find (\<lambda>r. u_id r = i) (d_runs s2) = Some q"
      proof (cases retry)
        case True
        then have "give_back_retry i s1 = (Inr y, s2)" using R by simp
        from give_back_rows[OF this] show ?thesis using f1 False by (auto simp: find_changed_id simp del: set_of.simps)
      qed (use R f1 in simp)
      then have "find (\<lambda>r. u_id r = i) (d_runs s3) = Some q" using now_text_rows[OF N] by simp
      then have "r = set_of (Settle i SETTLED_MESSAGE ts retry) q"
        using S q(2) False by (simp add: run_stmt_def find_changed_id del: set_of.simps)
      then show ?thesis using x by (auto simp: Let_def split: if_splits)
    qed
  qed
  with q show ?thesis by blast
qed

text \<open>Once consumed, the snapshot of the failed run stays consumed while the new run is recorded.\<close>

definition consumed_at :: "string \<Rightarrow> run_row list \<Rightarrow> bool" where
  "consumed_at i rows = (\<forall>q \<in> set rows. u_id q = i \<longrightarrow> u_failure q = None)"

lemma consume_failure_Inr:
  assumes "consume_failure v r s = (Inr y, t)"
  shows "consumed_at (u_id r) (d_runs t) \<and> u_id r \<in> u_id ` set (d_runs t)"
proof -
  have t: "d_runs t = changed (where_of (Consume (u_id r))) (set_of (Consume (u_id r))) (d_runs s)"
    and n: "length (filter (where_of (Consume (u_id r))) (d_runs s)) = 1"
    using assms by (auto simp: consume_failure_def sbind_Inr commit_def run_stmt_def split: if_splits)
  then obtain q where "q \<in> set (d_runs s)" "where_of (Consume (u_id r)) q" by (metis filter_empty_conv list.size(3) zero_neq_one)
  then have "u_id r \<in> u_id ` set (d_runs s)" by (intro image_eqI[of _ _ q]) auto
  moreover have "set (map u_id (d_runs t)) = set (map u_id (d_runs s))" using consume_failure_ids[OF assms] by simp
  ultimately have "u_id r \<in> u_id ` set (d_runs t)" by simp
  moreover have "consumed_at (u_id r) (d_runs t)" unfolding t by (auto simp: consumed_at_def changed_def)
  ultimately show ?thesis by simp
qed

lemma insert_row_keeps:
  "insert_row x s = (y, t) \<Longrightarrow> consumed_at i (d_runs s) \<Longrightarrow> i \<in> u_id ` set (d_runs s) \<Longrightarrow> consumed_at i (d_runs t) \<and>
    (\<forall>k. y = Inr k \<longrightarrow> u_id x \<noteq> i)"
  by (auto simp: insert_row_def sbind_def sget_def sthrow_def commit_def run_stmt_def consumed_at_def split: if_splits)

lemma start_run_keeps:
  assumes "start_run v a s = (Inr j, t)" "consumed_at i (d_runs s)" "i \<in> u_id ` set (d_runs s)"
  shows "consumed_at i (d_runs t) \<and> j \<noteq> i"
proof -
  have new: "new_id v s1 = (y, s2) \<Longrightarrow> d_runs s2 = d_runs s1" for s1 s2 :: "'a db" and y
    by (auto simp: new_id_def split: prod.splits)
  obtain k now s1 where s1: "d_runs s1 = d_runs s" and I: "stry (atomic (insert_row (new_row v a k now))) (\<lambda>r. case r of
       Inr _ \<Rightarrow> sret k
     | Inl (Failed (PyError cls)) \<Rightarrow>
         if cls = ''IntegrityError''
         then sbind (new_id v) (\<lambda>j. sbind (atomic (insert_row ((new_row v a k now)\<lparr>u_id := j\<rparr>))) (\<lambda>_. sret j))
         else sthrow (Failed (PyError cls))
     | Inl e \<Rightarrow> sthrow e) s1 = (Inr j, t)"
    using assms(1) unfolding start_run_def sbind_Inr Let_def
    by (auto dest!: now_text_rows new split: option.splits if_splits)
  obtain y s2 where y: "atomic (insert_row (new_row v a k now)) s1 = (y, s2)" by fastforce
  show ?thesis
  proof (cases y)
    case (Inr m)
    then have "j = k" "t = s2" "insert_row (new_row v a k now) s1 = (Inr m, s2)" using I y by (auto simp: stry_def)
    then show ?thesis using insert_row_keeps[of "new_row v a k now" s1 "Inr m" s2 i] assms(2,3) s1
      by (auto simp: new_row_def Let_def)
  next
    case (Inl e)
    then have s2: "d_runs s2 = d_runs s1" using y by (auto simp: atomic_def split: prod.splits sum.splits)
    from I y Inl obtain s3 m where "new_id v s2 = (Inr j, s3)"
      "insert_row ((new_row v a k now)\<lparr>u_id := j\<rparr>) s3 = (Inr m, t)"
      by (auto simp: stry_def sbind_Inr split: run_error.splits exn.splits if_splits)
    then show ?thesis using insert_row_keeps[of "(new_row v a k now)\<lparr>u_id := j\<rparr>" s3 "Inr m" t i] assms(2,3) s1 s2 new by auto
  qed
qed

lemma keep_failure_keeps:
  assumes "keep_failure v j st s = (x, t)" "consumed_at i (d_runs s)" "j \<noteq> i"
  shows "consumed_at i (d_runs t)"
proof -
  have p: "purge_failure_states v s = (Inr (), s1) \<Longrightarrow> consumed_at i (d_runs s1)" for s1
    using assms(2) by (auto simp: purge_failure_states_def sbind_def local_now_rows sdo_def commit_def run_stmt_def sret_def
      consumed_at_def changed_def)
  obtain y u where A: "atomic (sbind (purge_failure_states v) (\<lambda>_. sbind (liftr (seal v st)) (\<lambda>sealed.
     commit (Keep_failure j sealed (case get0 st ''failed_node'' of PStr n \<Rightarrow> Some n | _ \<Rightarrow> None))))) s = (y, u)"
    by fastforce
  have "consumed_at i (d_runs u)"
  proof (cases y)
    case (Inl e) then show ?thesis using A assms(2) by (auto simp: atomic_def split: prod.splits sum.splits)
  next
    case (Inr k)
    then obtain s1 sealed n where "purge_failure_states v s = (Inr (), s1)" "commit (Keep_failure j sealed n) s1 = (Inr k, u)"
      using A by (auto simp: sbind_Inr)
    with p show ?thesis using assms(3) by (auto simp: commit_def run_stmt_def consumed_at_def changed_def)
  qed
  moreover have "d_runs t = d_runs u" using assms(1) A
    by (auto simp: keep_failure_def sbind_def sret_def sthrow_def split: sum.splits if_splits)
  ultimately show ?thesis by simp
qed

text \<open>The path of a resumption that succeeds.\<close>

lemma prepare_retry_path:
  assumes "prepare_retry v i owner s = (Inr rt, t)"
  obtains u1 u2 r st cfg flow g y j u4 u5 u6 where
    "purge_failure_states v s = (Inr (), u1)" "failed_state v i owner u1 = (Inr (r, Some st), u2)"
    "config_of r = Inr cfg" "current_workflow v r cfg owner = Some flow"
    "checked_graph v (get0 flow ''graph'') (get0 cfg ''workflow_id'') u2 = (Inr g, u4)" "changed_nodes g st = Inr []"
    "consume_failure v r u4 = (Inr y, u5)" "start_run v (retry_args r owner (retry_config cfg flow st)) u5 = (Inr j, u6)"
    "keep_failure v j (dset st ''graph'' (dump_graph g)) u6 = (fst (keep_failure v j (dset st ''graph'' (dump_graph g)) u6), t)"
    "rt = \<lparr>rt_run = j, rt_graph = g, rt_state = dset st ''graph'' (dump_graph g), rt_config = retry_config cfg flow st\<rparr>"
proof -
  obtain u1 u2 r found where P: "purge_failure_states v s = (Inr (), u1)"
    and F: "failed_state v i owner u1 = (Inr (r, found), u2)"
    using assms unfolding prepare_retry_def sbind_Inr atomic_Inr by (auto split: prod.splits)
  have P': "atomic (purge_failure_states v) s = (Inr (), u1)" using P by simp
  have C: "(case found of
       None \<Rightarrow> refuse_code ''retry_state_unreadable'' []
     | Some st \<Rightarrow>
       sbind (liftr (config_of r)) (\<lambda>cfg.
       case current_workflow v r cfg owner of
         None \<Rightarrow> refuse_code ''retry_workflow_missing'' []
       | Some flow \<Rightarrow>
         sbind (checked_graph v (get0 flow ''graph'') (get0 cfg ''workflow_id'')) (\<lambda>g.
         sbind (liftr (changed_nodes g st)) (\<lambda>ch.
         if ch \<noteq> [] then refuse_code ''retry_graph_changed'' [(''nodes'', PList (map PStr ch))]
         else sbind (consume_failure v r) (\<lambda>_.
           let cfg' = retry_config cfg flow st; st' = dset st ''graph'' (dump_graph g) in
           sbind (start_run v (retry_args r owner cfg')) (\<lambda>j.
           sbind (stry (keep_failure v j st') (\<lambda>_. sret ())) (\<lambda>_.
           sret \<lparr>rt_run = j, rt_graph = g, rt_state = st', rt_config = cfg'\<rparr>))))))) u2 = (Inr rt, t)"
    using assms P' F unfolding prepare_retry_def by (simp add: sbind_step)
  obtain st where st: "found = Some st" using C by (cases found) simp_all
  obtain cfg flow where flow: "current_workflow v r cfg owner = Some flow" "config_of r = Inr cfg"
    using C unfolding st by (auto simp: sbind_Inr split: option.splits)
  obtain g u4 where g: "checked_graph v (get0 flow ''graph'') (get0 cfg ''workflow_id'') u2 = (Inr g, u4)"
    and ch: "changed_nodes g st = Inr []" and R: "sbind (consume_failure v r) (\<lambda>_.
           let cfg' = retry_config cfg flow st; st' = dset st ''graph'' (dump_graph g) in
           sbind (start_run v (retry_args r owner cfg')) (\<lambda>j.
           sbind (stry (keep_failure v j st') (\<lambda>_. sret ())) (\<lambda>_.
           sret \<lparr>rt_run = j, rt_graph = g, rt_state = st', rt_config = cfg'\<rparr>))) u4 = (Inr rt, t)"
    using C unfolding st by (auto simp: flow sbind_Inr split: if_splits)
  obtain j y u5 u6 where c: "consume_failure v r u4 = (Inr y, u5)"
    and j: "start_run v (retry_args r owner (retry_config cfg flow st)) u5 = (Inr j, u6)"
    and k: "keep_failure v j (dset st ''graph'' (dump_graph g)) u6 = (fst (keep_failure v j (dset st ''graph'' (dump_graph g)) u6), t)"
    and rt: "rt = \<lparr>rt_run = j, rt_graph = g, rt_state = dset st ''graph'' (dump_graph g), rt_config = retry_config cfg flow st\<rparr>"
    using R by (auto simp: sbind_Inr Let_def stry_sret)
  show thesis by (rule that[OF P F[unfolded st] flow(2,1) g ch c j k rt])
qed

text \<open>C18. A resumption that starts is sound, in a table whose identifiers are distinct.  The failed run is the
  caller's, had the status \<open>error\<close> when it was read, and the snapshot is the one its failure column holds,
  opened.  The graph that runs is the one \<open>prepare_retry\<close> finds for this run now (the current version of its
  workflow, or for a run of a trigger whose workflow became a draft the version it had run), valid for that
  workflow; every node whose output is replayed has there the type, configuration and incoming edges it had in
  the snapshot, and the failed node and the target of a run up to a node are there.  The new run is recorded
  as the caller's and as a replay of the failed one, whose snapshot is taken.\<close>

theorem resumption_is_sound:
  assumes "prepare_retry v i owner s = (Inr rt, t)" "distinct (map u_id (d_runs s))"
  shows "\<exists>u0 u1 r x st cfg flow saved old.
      purge_failure_states v s = (Inr (), u0) \<and> owned_run v i owner u0 = (Inr (Some r), u1)
    \<and> u_id r = i \<and> u_status r = SError \<and> u_failure r = Some x \<and> unseal v x = Inr st
    \<and> (\<exists>q \<in> set (d_runs s). u_id q = i \<and> u_owner q = owner \<and> u_failure q = Some x)
    \<and> config_of r = Inr cfg \<and> current_workflow v r cfg owner = Some flow
    \<and> parse_graph (get0 flow ''graph'') = Some (rt_graph rt)
    \<and> validate_graph ((e_venv v)\<lparr>v_workflow := (case get0 cfg ''workflow_id'' of PStr w \<Rightarrow> Some w | _ \<Rightarrow> None), v_owner := None\<rparr>)
        (rt_graph rt) = Inr ()
    \<and> rt_state rt = dset st ''graph'' (dump_graph (rt_graph rt)) \<and> rt_config rt = retry_config cfg flow st
    \<and> getitem st ''graph'' = Inr saved \<and> parse_graph saved = Some old
    \<and> (\<forall>n \<in> set (replayed_ids st). signature old n = signature (rt_graph rt) n)
    \<and> node_there (rt_graph rt) st ''failed_node'' \<and> node_there (rt_graph rt) st ''until''
    \<and> (\<exists>q \<in> set (d_runs t). u_id q = rt_run rt \<and> u_owner q = owner \<and> u_replay q = Some i)
    \<and> (\<forall>q \<in> set (d_runs t). u_id q = i \<longrightarrow> u_failure q = None)"
proof -
  obtain u1 u2 r st cfg flow g y j u4 u5 u6 where P: "purge_failure_states v s = (Inr (), u1)"
    and F: "failed_state v i owner u1 = (Inr (r, Some st), u2)"
    and flow: "config_of r = Inr cfg" "current_workflow v r cfg owner = Some flow"
    and g: "checked_graph v (get0 flow ''graph'') (get0 cfg ''workflow_id'') u2 = (Inr g, u4)" and ch: "changed_nodes g st = Inr []"
    and c: "consume_failure v r u4 = (Inr y, u5)" and j: "start_run v (retry_args r owner (retry_config cfg flow st)) u5 = (Inr j, u6)"
    and k: "keep_failure v j (dset st ''graph'' (dump_graph g)) u6 = (fst (keep_failure v j (dset st ''graph'' (dump_graph g)) u6), t)"
    and rt: "rt = \<lparr>rt_run = j, rt_graph = g, rt_state = dset st ''graph'' (dump_graph g), rt_config = retry_config cfg flow st\<rparr>"
    by (rule prepare_retry_path[OF assms(1)])
  obtain x where F: "u_status r = SError" "u_failure r = Some x" "unseal v x = Inr st"
    "owned_run v i owner u1 = (Inr (Some r), u2)" using failed_state_Inr[OF F] by blast
  have owned: "u_id r = i" using owned_run_Inr[OF F(4)] by blast
  obtain c0 where u1: "d_runs u1 = changed (where_of (Purge c0)) (set_of (Purge c0)) (d_runs s)"
    using P by (auto simp: purge_failure_states_def sbind_def local_now_rows sdo_def commit_def run_stmt_def sret_def simp del: where_of.simps set_of.simps)
  then have "distinct (map u_id (d_runs u1))" using assms(2) by (simp add: ids_changed)
  from owned_run_snapshot[OF this F(4,2)] have row: "\<exists>q \<in> set (d_runs s). u_id q = i \<and> u_owner q = owner \<and> u_failure q = Some x"
    unfolding u1 by (auto simp: changed_def split: if_splits)
  obtain q where q: "q \<in> set (d_runs u6)" "u_id q = j" "u_owner q = owner" "u_replay q = Some i"
    using start_run_Inr[OF j] owned by (auto simp: retry_args_def)
  obtain q' where "q' \<in> set (d_runs t)" "facts q' = facts q" using facts_kept[OF k q(1)] by blast
  then have new: "\<exists>q \<in> set (d_runs t). u_id q = rt_run rt \<and> u_owner q = owner \<and> u_replay q = Some i"
    using q rt by (auto simp: facts_def)
  have taken: "\<forall>q \<in> set (d_runs t). u_id q = i \<longrightarrow> u_failure q = None"
    using consume_failure_Inr[OF c] start_run_keeps[OF j, of i] keep_failure_keeps[OF k, of i] owned
    by (auto simp: consumed_at_def)
  obtain saved old where old: "getitem st ''graph'' = Inr saved" "parse_graph saved = Some old"
    using changed_nodes_opens[OF ch] by blast
  note ok = changed_nodes_Nil[OF old, of g, THEN iffD1, OF ch]
  show ?thesis
    using P F owned row flow checked_graph_Inr[OF g] rt old ok new taken
    by (intro exI[of _ u1] exI[of _ u2] exI[of _ r] exI[of _ x] exI[of _ st] exI[of _ cfg] exI[of _ flow] exI[of _ saved] exI[of _ old])
      simp
qed

subsection \<open>When a failed run resumes\<close>

lemma missing_nodes_keeps: "set ch \<subseteq> set (missing_nodes g st ch)"
proof -
  have "set acc \<subseteq> set (fold (\<lambda>k acc. case get0 st k of
     PStr i \<Rightarrow> if i \<notin> set (node_ids g) \<and> i \<notin> set acc then acc @ [i] else acc | _ \<Rightarrow> acc) ks acc)" for ks acc
  proof (induction ks arbitrary: acc)
    case (Cons k ks)
    show ?case using Cons.IH[of "case get0 st k of
       PStr i \<Rightarrow> if i \<notin> set (node_ids g) \<and> i \<notin> set acc then acc @ [i] else acc | _ \<Rightarrow> acc"]
      by (auto split: pyval.splits if_splits)
  qed simp
  then show ?thesis unfolding missing_nodes_def .
qed

lemma changed_nodes_eq:
  assumes "getitem st ''graph'' = Inr saved" "parse_graph saved = Some old"
  obtains ch where "changed_nodes g st = Inr ch" "\<And>n. n \<in> set (replayed_ids st) \<Longrightarrow> signature old n \<noteq> signature g n \<Longrightarrow> n \<in> set ch"
proof
  let ?ch = "missing_nodes g st (filter (\<lambda>i. signature old i \<noteq> signature g i) (sort (replayed_ids st)))"
  show "changed_nodes g st = Inr ?ch"
    using assms by (simp add: changed_nodes_def ebind_def retry_mismatch_def of_opt_def)
  show "n \<in> set (replayed_ids st) \<Longrightarrow> signature old n \<noteq> signature g n \<Longrightarrow> n \<in> set ?ch" for n
    using missing_nodes_keeps by fastforce
qed

text \<open>A row that failed lately is read as it is, with its snapshot.\<close>

lemma sbind_liftr: "sbind (liftr (Inr x)) f s = f x s"
  by (simp add: sbind_def liftr_def slift_def map_err_def)

lemma failed_row_read:
  assumes "distinct (map u_id (d_runs s))" "r \<in> set (d_runs s)" "u_status r = SError"
    "u_failure r = Some x" "x \<noteq> []" "unseal v x = Inr st"
  shows "failed_state v (u_id r) (u_owner r) s = (Inr (r, Some st), s)"
proof -
  have "filter (\<lambda>q. u_id q = u_id r \<and> u_owner q = u_owner r) (d_runs s) = [r]"
    by (rule filter_row[OF assms(1,2)]) simp_all
  then have "owned_run v (u_id r) (u_owner r) s = (Inr (Some r), s)"
    by (simp add: owned_run_def sbind_def select_def sget_def reconcile_def assms(3) sret_def)
  then show ?thesis using assms(3-6) by (simp add: failed_state_def atomic_def sbind_def sret_def)
qed

lemma consume_failure_row:
  assumes "distinct (map u_id (d_runs s))" "r \<in> set (d_runs s)" "u_failure r \<noteq> None"
  shows "\<exists>t. consume_failure v r s = (Inr (), t) \<and> u_id ` set (d_runs t) = u_id ` set (d_runs s)"
proof -
  have "filter (where_of (Consume (u_id r))) (d_runs s) = [r]"
    by (rule filter_row[OF assms(1,2)]) (use assms(3) in simp_all)
  then obtain t where c: "consume_failure v r s = (Inr (), t)"
    by (simp add: consume_failure_def atomic_def sbind_def commit_def sret_def)
  have "set (map u_id (d_runs t)) = set (map u_id (d_runs s))" using consume_failure_ids[OF c] by simp
  then have "u_id ` set (d_runs t) = u_id ` set (d_runs s)" by (simp only: set_map)
  with c show ?thesis by blast
qed

lemma start_run_fresh:
  assumes "s_run_id a = None" "\<And>w. fst (e_nanoid v w) \<notin> u_id ` set (d_runs s)"
  shows "\<exists>j t. start_run v a s = (Inr j, t)"
proof -
  obtain i w where i: "e_nanoid v (d_world s) = (i, w)" by fastforce
  obtain y s2 where y: "now_text v (s\<lparr>d_world := w\<rparr>) = (y, s2)" by (cases "now_text v (s\<lparr>d_world := w\<rparr>)")
  obtain m where m: "now_text v (s\<lparr>d_world := w\<rparr>) = (Inr m, s2)" "d_runs s2 = d_runs s"
    using y now_text_rows[OF y] by auto
  have "u_id (new_row v a i m) \<notin> u_id ` set (d_runs s)"
    using assms(2)[of "d_world s"] i by (simp add: new_row_def Let_def)
  then show ?thesis using assms(1) i m
    by (simp add: start_run_def sbind_def new_id_def Let_def stry_def atomic_def insert_row_def sget_def commit_def sret_def)
qed

text \<open>C19. A failed run resumes exactly when its workflow did not change under it.  Take a row of a table with distinct
  identifiers that failed within the last week and whose snapshot opens and holds a graph that parses, a workflow
  that is found and valid now, and identifiers that are not taken.  If every node whose output would be replayed
  has in the workflow the signature it has in the snapshot, and the failed node and the target of a run up to
  a node are there, then the new run starts, on the workflow as it is now, with the snapshot's outputs.  Otherwise
  the request is refused with \<open>retry_graph_changed\<close> and a list of nodes that has all the changed ones, and the
  row keeps its snapshot.\<close>

theorem failed_run_resumes_iff_unchanged:
  assumes "distinct (map u_id (d_runs s))" "r \<in> set (d_runs s)" "u_owner r = owner" "u_status r = SError"
    and "u_failure r = Some x" "x \<noteq> []" "unseal v x = Inr st"
    and "\<not> at_most (u_finished r) (stamp (e_local v (fst (e_utc v (d_world s))) - RETRY_STATE_TTL))"
    and "getitem st ''graph'' = Inr saved" "parse_graph saved = Some old"
    and "config_of r = Inr cfg" "current_workflow v r cfg owner = Some flow" "parse_graph (get0 flow ''graph'') = Some g"
    and "validate_graph ((e_venv v)\<lparr>v_workflow := (case get0 cfg ''workflow_id'' of PStr w \<Rightarrow> Some w | _ \<Rightarrow> None), v_owner := None\<rparr>) g = Inr ()"
    and "\<And>w. fst (e_nanoid v w) \<notin> u_id ` set (d_runs s)"
  shows "if (\<forall>n \<in> set (replayed_ids st). signature old n = signature g n) \<and> node_there g st ''failed_node'' \<and> node_there g st ''until''
    then \<exists>j t. prepare_retry v (u_id r) owner s =
      (Inr \<lparr>rt_run = j, rt_graph = g, rt_state = dset st ''graph'' (dump_graph g), rt_config = retry_config cfg flow st\<rparr>, t)
    else \<exists>ns t. prepare_retry v (u_id r) owner s =
      (Inl (Refused 409 (PDict [(''code'', PStr ''retry_graph_changed''), (''params'', PDict [(''nodes'', PList (map PStr ns))])])), t)
      \<and> ns \<noteq> [] \<and> (\<forall>n \<in> set (replayed_ids st). signature old n \<noteq> signature g n \<longrightarrow> n \<in> set ns) \<and> r \<in> set (d_runs t)"
proof -
  define q where "q = Purge (stamp (e_local v (fst (e_utc v (d_world s))) - RETRY_STATE_TTL))"
  define u where "u = s\<lparr>d_world := snd (e_utc v (d_world s)), d_runs := changed (where_of q) (set_of q) (d_runs s)\<rparr>"
  have P: "purge_failure_states v s = (Inr (), u)"
    by (simp add: purge_failure_states_def sbind_def local_now_rows sdo_def commit_def run_stmt_def sret_def u_def q_def)
  have ids: "map u_id (d_runs u) = map u_id (d_runs s)" by (simp add: u_def ids_changed)
  have r: "r \<in> set (d_runs u)" using assms(2,8) by (force simp: u_def q_def changed_def)
  have F: "failed_state v (u_id r) owner u = (Inr (r, Some st), u)"
    using failed_row_read[of u r x v st] assms(1,3-7) r ids by simp
  have K: "checked_graph v (get0 flow ''graph'') (get0 cfg ''workflow_id'') u = (Inr g, u)"
    using assms(13,14) by (simp add: checked_graph_def check_workflow_def parsed_graph_def of_opt_def ebind_def sbind_def liftr_def slift_def map_err_def sret_def)
  obtain ch where ch: "changed_nodes g st = Inr ch"
    "\<And>n. n \<in> set (replayed_ids st) \<Longrightarrow> signature old n \<noteq> signature g n \<Longrightarrow> n \<in> set ch"
    using changed_nodes_eq[OF assms(9,10), of g] by metis
  have same: "ch = [] \<longleftrightarrow> (\<forall>n \<in> set (replayed_ids st). signature old n = signature g n) \<and> node_there g st ''failed_node'' \<and> node_there g st ''until''"
    using changed_nodes_Nil[OF assms(9,10), of g] ch(1) by simp
  have run: "prepare_retry v (u_id r) owner s = (if ch \<noteq> [] then refuse_code ''retry_graph_changed'' [(''nodes'', PList (map PStr ch))]
         else sbind (consume_failure v r) (\<lambda>_.
           let cfg' = retry_config cfg flow st; st' = dset st ''graph'' (dump_graph g) in
           sbind (start_run v (retry_args r owner cfg')) (\<lambda>j.
           sbind (stry (keep_failure v j st') (\<lambda>_. sret ())) (\<lambda>_.
           sret \<lparr>rt_run = j, rt_graph = g, rt_state = st', rt_config = cfg'\<rparr>)))) u"
    using P F by (simp add: prepare_retry_def sbind_step[of _ _ "()" u] sbind_step[of _ _ "(r, Some st)" u] sbind_liftr assms(11,12) ch(1)
          sbind_step[of _ _ g u] K)
  show ?thesis
  proof (cases "ch = []")
    case True
    obtain t1 where c: "consume_failure v r u = (Inr (), t1)" "u_id ` set (d_runs t1) = u_id ` set (d_runs u)"
      using consume_failure_row[of u r v] assms(1,5) r ids by auto
    have "set (map u_id (d_runs u)) = set (map u_id (d_runs s))" using ids by simp
    then have fr: "fst (e_nanoid v w) \<notin> u_id ` set (d_runs t1)" for w using assms(15) c(2) by simp
    obtain j t2 where "start_run v (retry_args r owner (retry_config cfg flow st)) t1 = (Inr j, t2)"
      using start_run_fresh[of "retry_args r owner (retry_config cfg flow st)" v t1] fr by (auto simp: retry_args_def)
    then have "prepare_retry v (u_id r) owner s = (Inr \<lparr>rt_run = j, rt_graph = g, rt_state = dset st ''graph'' (dump_graph g),
        rt_config = retry_config cfg flow st\<rparr>, snd (keep_failure v j (dset st ''graph'' (dump_graph g)) t2))"
      using True by (simp add: run c(1) sbind_step[of "consume_failure v r" u "()" t1] sbind_step[of _ t1 j t2] Let_def)
        (simp add: sbind_def stry_def sret_def split: prod.split)
    then show ?thesis using True same by auto
  next
    case False
    then have "prepare_retry v (u_id r) owner s = (Inl (Refused 409 (PDict [(''code'', PStr ''retry_graph_changed''),
        (''params'', PDict [(''nodes'', PList (map PStr ch))])])), u)"
      by (simp add: run refuse_code_def reject_def sthrow_def)
    then show ?thesis using False same ch(2) r by auto
  qed
qed

subsection \<open>A run that is resumed\<close>

definition demo_graph :: pyval where
  "demo_graph = PDict [(''nodes'', PList [PDict [(''id'', PStr ''t''), (''type'', PStr ''trigger'')],
       PDict [(''id'', PStr ''o''), (''type'', PStr ''output'')]]),
     (''edges'', PList [PDict [(''source'', PStr ''t''), (''target'', PStr ''o'')]])]"

definition resume_env :: "unit renv" where
  "resume_env = demo\<lparr>e_venv := example_env, e_workflow := (\<lambda>i owner. if i = ''w1'' \<and> owner = ''ann''
     then Some [(''graph'', demo_graph), (''version'', PInt 1)] else None)\<rparr>"

definition failed_row :: run_row where
  "failed_row = demo_row\<lparr>u_id := ''r0'', u_status := SError, u_config := Some ''{\"workflow_id\":\"w1\"}'',
     u_finished := Some ''2025-06-15 14:00:00.000000'', u_paused := None, u_decision := None, u_expires := None,
     u_failure := Some ''#{\"graph\":{\"nodes\":[{\"id\":\"t\",\"type\":\"trigger\"},{\"id\":\"o\",\"type\":\"output\"}],\"edges\":[{\"source\":\"t\",\"target\":\"o\"}]},\"failed_node\":\"o\"}''\<rparr>"

definition failed_db :: "unit db" where "failed_db = demo_db\<lparr>d_runs := [failed_row]\<rparr>"

definition failed_snap :: pydict where
  "failed_snap = [(''graph'', demo_graph), (''failed_node'', PStr ''o'')]"

lemma demo_consume: "consume_failure resume_env failed_row failed_db = (Inr (), failed_db\<lparr>d_runs := [failed_row\<lparr>u_failure := None\<rparr>]\<rparr>)"
  by (simp add: consume_failure_def atomic_def sbind_def commit_def run_stmt_def changed_def failed_db_def demo_db_def
    failed_row_def sret_def)

lemma demo_start: "\<exists>t. start_run resume_env (retry_args failed_row ''ann'' cfg) (failed_db\<lparr>d_runs := [failed_row\<lparr>u_failure := None\<rparr>]\<rparr>) = (Inr ''r1'', t)"
proof -
  have "u_id (new_row v a i now) = i" for v :: "unit renv" and a i now by (simp add: new_row_def Let_def)
  then show ?thesis
    by (simp add: start_run_def retry_args_def new_id_def now_text_def local_now_def utc_now_def resume_env_def demo_def
      sbind_def sret_def Let_def stry_def atomic_def insert_row_def sget_def commit_def failed_row_def failed_db_def)
qed

lemma demo_retry: obtains rt t where "prepare_retry resume_env ''r0'' ''ann'' failed_db = (Inr rt, t)"
proof -
  have P: "purge_failure_states resume_env failed_db = (Inr (), failed_db)" by code_simp
  have F: "failed_state resume_env ''r0'' ''ann'' failed_db = (Inr (failed_row, Some failed_snap), failed_db)" by code_simp
  have C: "config_of failed_row = Inr [(''workflow_id'', PStr ''w1'')]" by code_simp
  have "map_option (\<lambda>g. changed_nodes g failed_snap) (parse_graph demo_graph) = Some (Inr [])"
    "map_option (validate_graph (example_env\<lparr>v_workflow := Some ''w1'', v_owner := None\<rparr>)) (parse_graph demo_graph) = Some (Inr ())"
    "is_triggered ''workflow'' = False" by code_simp+
  then obtain g where g: "parse_graph demo_graph = Some g" "changed_nodes g failed_snap = Inr []"
    "validate_graph (example_env\<lparr>v_workflow := Some ''w1'', v_owner := None\<rparr>) g = Inr ()" and T: "\<not> is_triggered ''workflow''" by auto
  have W: "current_workflow resume_env failed_row [(''workflow_id'', PStr ''w1'')] ''ann'' = Some [(''graph'', demo_graph), (''version'', PInt 1)]"
    using T by (simp add: current_workflow_def get0_def dget_def truthy_def py_str_def resume_env_def failed_row_def demo_row_def)
  have K: "checked_graph resume_env demo_graph (PStr ''w1'') failed_db = (Inr g, failed_db)"
    using g by (simp add: checked_graph_def check_workflow_def parsed_graph_def of_opt_def ebind_def sbind_def liftr_def slift_def
      map_err_def resume_env_def)
  show ?thesis
    using that demo_start P F C W K g
    by (fastforce simp: prepare_retry_def sbind_Inr get0_def dget_def demo_consume Let_def stry_sret)
qed

lemma resumption_is_sound_witness:
  "\<exists>rt t. prepare_retry resume_env ''r0'' ''ann'' failed_db = (Inr rt, t)
    \<and> (\<exists>q \<in> set (d_runs t). u_id q = rt_run rt \<and> u_owner q = ''ann'' \<and> u_replay q = Some ''r0'')"
proof -
  obtain rt t where r: "prepare_retry resume_env ''r0'' ''ann'' failed_db = (Inr rt, t)" by (rule demo_retry)
  have "distinct (map u_id (d_runs failed_db))" by (simp add: failed_db_def)
  from resumption_is_sound[OF r this] r show ?thesis by blast
qed

lemma failed_run_resumes_iff_unchanged_witness:
  "\<exists>rt t. prepare_retry resume_env ''r0'' ''ann'' failed_db = (Inr rt, t)"
proof -
  have C: "config_of failed_row = Inr [(''workflow_id'', PStr ''w1'')]" by code_simp
  have U: "unseal resume_env (the (u_failure failed_row)) = Inr failed_snap" by code_simp
  have L: "\<not> at_most (u_finished failed_row) (stamp (e_local resume_env (fst (e_utc resume_env (d_world failed_db))) - RETRY_STATE_TTL))"
    by code_simp
  have "map_option (\<lambda>g. \<forall>n \<in> set (replayed_ids failed_snap). signature g n = signature g n) (parse_graph demo_graph) = Some True"
    "map_option (\<lambda>g. node_there g failed_snap ''failed_node'' \<and> node_there g failed_snap ''until'') (parse_graph demo_graph) = Some True"
    "map_option (validate_graph (example_env\<lparr>v_workflow := Some ''w1'', v_owner := None\<rparr>)) (parse_graph demo_graph) = Some (Inr ())"
    "is_triggered ''workflow'' = False" by code_simp+
  then obtain g where g: "parse_graph demo_graph = Some g" "node_there g failed_snap ''failed_node''" "node_there g failed_snap ''until''"
    "validate_graph (example_env\<lparr>v_workflow := Some ''w1'', v_owner := None\<rparr>) g = Inr ()" and T: "\<not> is_triggered ''workflow''" by auto
  have W: "current_workflow resume_env failed_row [(''workflow_id'', PStr ''w1'')] ''ann'' = Some [(''graph'', demo_graph), (''version'', PInt 1)]"
    using T by (simp add: current_workflow_def get0_def dget_def truthy_def py_str_def resume_env_def failed_row_def demo_row_def)
  have R: "distinct (map u_id (d_runs failed_db))" "failed_row \<in> set (d_runs failed_db)" "u_owner failed_row = ''ann''" "u_status failed_row = SError"
    "u_failure failed_row = Some (the (u_failure failed_row))" "the (u_failure failed_row) \<noteq> []" "u_id failed_row = ''r0''"
    by (simp_all add: failed_db_def failed_row_def demo_row_def)
  have V: "get0 [(''graph'', demo_graph), (''version'', PInt 1)] ''graph'' = demo_graph" "getitem failed_snap ''graph'' = Inr demo_graph"
    "get0 [(''workflow_id'', PStr ''w1'')] ''workflow_id'' = PStr ''w1''" "e_venv resume_env = example_env"
    "fst (e_nanoid resume_env w) \<notin> u_id ` set (d_runs failed_db)" for w
    by (simp_all add: failed_snap_def getitem_def of_opt_def get0_def dget_def resume_env_def demo_def failed_db_def failed_row_def)
  show ?thesis
    using failed_run_resumes_iff_unchanged[OF R(1-6) U L V(2) g(1) C W, of g] g V R(7) by auto
qed

end
