(* ===== verification/Trg_Safety.thy ===== *)
theory Trg_Safety
  imports Trg_Fire Run_Resume
begin

section \<open>What the triggers keep to\<close>

subsection \<open>A slot is taken once\<close>

definition slot_rows :: "string \<Rightarrow> string \<Rightarrow> trigger list \<Rightarrow> nat" where
  "slot_rows w n rows = length (filter (\<lambda>r. y_workflow r = w \<and> y_next r = Some n) rows)"

definition slots_taken :: "string \<Rightarrow> string \<Rightarrow> tstmt \<Rightarrow> trigger list \<Rightarrow> nat" where
  "slots_taken w n q rows = (case q of
     Reserve v prior next now \<Rightarrow> if v = w \<and> prior = Some n then length (filter (picks q) rows) else 0 | _ \<Rightarrow> 0)"

text \<open>The rows a statement sets to the slot.\<close>

definition slots_given :: "string \<Rightarrow> string \<Rightarrow> tstmt \<Rightarrow> trigger list \<Rightarrow> nat" where
  "slots_given w n q rows = (case q of
     Arm new \<Rightarrow> if y_workflow new = w \<and> y_next new = Some n then max 1 (length (filter (picks q) rows)) else 0
   | Remove _ \<Rightarrow> 0
   | Reserve v prior next now \<Rightarrow> if v = w \<and> next = Some n then length (filter (picks q) rows) else 0
   | Assign v fs now \<Rightarrow> if v = w \<and> Next (Some n) \<in> set fs then length (filter (picks q) rows) else 0)"

lemma picks_fun:
  "picks (Arm new) = (\<lambda>r. y_workflow r = y_workflow new)" "picks (Assign w fs now) = (\<lambda>r. y_workflow r = w)"
  "picks (Reserve w prior next now) = (\<lambda>r. y_workflow r = w \<and> y_next r = prior)"
  by (rule ext, simp)+

lemma assign_workflow [simp]: "y_workflow (assign f r) = y_workflow r"
  by (cases f) simp_all

lemma fold_assign_workflow [simp]: "y_workflow (fold assign fs r) = y_workflow r"
  by (induction fs arbitrary: r) simp_all

lemma fold_assign_next: "y_next (fold assign fs r) = x \<Longrightarrow> x \<noteq> y_next r \<Longrightarrow> Next x \<in> set fs"
proof (induction fs arbitrary: r)
  case (Cons f fs)
  show ?case
  proof (cases "x = y_next (assign f r)")
    case True
    with Cons.prems(2) show ?thesis by (cases f) auto
  qed (use Cons in auto)
qed simp

lemma fold_assign_not: "y_next (fold assign fs r) = x \<Longrightarrow> Next x \<notin> set fs \<Longrightarrow> y_next r = x"
  using fold_assign_next[of fs r x] by (cases "x = y_next r") auto

lemma slot_rows_changed:
  "(\<And>r. p r \<Longrightarrow> y_workflow (f r) = y_workflow r) \<Longrightarrow>
    slot_rows w n (changed p f rows) + length (filter (\<lambda>r. p r \<and> y_workflow r = w \<and> y_next r = Some n) rows)
    = slot_rows w n rows + length (filter (\<lambda>r. p r \<and> y_workflow r = w \<and> y_next (f r) = Some n) rows)"
  by (induction rows) (auto simp: slot_rows_def changed_def)

interpretation ls: ledger trg_stmt "slot_rows w n" "slots_taken w n" "slots_given w n" for w n
proof unfold_locales
  fix q rows
  show "slot_rows w n (trg_stmt q rows) + slots_taken w n q rows \<le> slot_rows w n rows + slots_given w n q rows"
  proof (cases q)
    case (Arm new)
    show ?thesis
    proof (cases "\<exists>r \<in> set rows. y_workflow r = y_workflow new")
      case True
      have "length (filter (\<lambda>r. y_workflow r = y_workflow new \<and> y_workflow r = w \<and> y_next (rearm new r) = Some n) rows)
        \<le> (if y_workflow new = w \<and> y_next new = Some n then length (filter (\<lambda>r. y_workflow r = y_workflow new) rows) else 0)"
        by (auto simp: rearm_def filter_empty_conv intro!: length_filter_mono)
      with True slot_rows_changed[of "picks (Arm new)" "rearm new" w n rows] show ?thesis
        by (auto simp: Arm slots_taken_def slots_given_def rearm_def max_def picks_fun split: if_splits)
    qed (simp add: Arm slots_taken_def slots_given_def slot_rows_def)
  next
    case (Remove v)
    have "slot_rows w n (filter p rows) \<le> slot_rows w n rows" for p
      unfolding slot_rows_def filter_filter by (rule length_filter_mono) simp
    then show ?thesis by (simp add: Remove slots_taken_def slots_given_def)
  next
    case (Reserve v prior nxt now)
    let ?f = "\<lambda>r. r\<lparr>y_next := nxt, y_updated := Some now\<rparr>"
    show ?thesis using slot_rows_changed[of "picks q" ?f w n rows]
      by (auto simp: picks_fun Reserve slots_taken_def slots_given_def slot_rows_def filter_empty_conv conj_ac intro: length_filter_mono)
  next
    case (Assign v fs now)
    let ?f = "\<lambda>r. (fold assign fs r)\<lparr>y_updated := Some now\<rparr>"
    have "length (filter (\<lambda>r. y_workflow r = v \<and> y_workflow r = w \<and> y_next (fold assign fs r) = Some n) rows)
      \<le> length (filter (\<lambda>r. y_workflow r = v \<and> y_workflow r = w \<and> y_next r = Some n) rows)
        + (if v = w \<and> Next (Some n) \<in> set fs then length (filter (\<lambda>r. y_workflow r = v) rows) else 0)"
      by (auto intro!: length_filter_mono trans_le_add2 dest: fold_assign_not split: if_splits)
    then show ?thesis using slot_rows_changed[of "picks q" ?f w n rows]
      by (auto simp: picks_fun Assign slots_taken_def slots_given_def split: if_splits)
  qed
qed

text \<open>C20. However the statements of several servers interleave on the table of triggers, the reservations
  of a slot of a workflow (a due instant of its schedule or of its poll) find it at most as often as it was there at the
  start or was set since: counted are the rows each reservation that read this instant selects, which is the
  row count its server goes by, and the rows whose deadline an arming, a reservation or a deferral
  set to it.  So of two servers that read the same due row once set, one gets the slot and the other gets nothing.\<close>

theorem slot_taken_once:
  "total trg_stmt (slots_taken w n) qs rows \<le> slot_rows w n rows + total trg_stmt (slots_given w n) qs rows"
  by (rule ls.taken_given)

subsection \<open>What a tick starts\<close>

text \<open>The records of runs, without what changes in them.\<close>

definition run_facts :: "'w flows \<Rightarrow> ((string \<times> string \<times> string) \<times> string option list) list" where
  "run_facts s = map facts (d_runs (fl_db s))"

abbreviation same_facts :: "((string \<times> string \<times> string) \<times> string option list) list \<Rightarrow> 'w db \<Rightarrow> bool" where
  "same_facts k \<equiv> on_runs (\<lambda>rows. map facts rows = k)"

lemma keeps_facts_commit: "(\<And>r. q \<noteq> Insert r) \<Longrightarrow> keeps (same_facts k) (commit q)"
  by (auto simp: keeps_def commit_def on_runs_def run_stmt_update changed_def)

lemma keeps_facts_get_run: "keeps (same_facts k) (get_run v i owner)"
  unfolding get_run_def owned_run_def reconcile_def expire_due_def expire_due_at_def expire_one_def purge_failure_states_def
    give_back_retry_def sdo_def
  by (intro keeps_intros keeps_facts_commit) (auto intro!: keeps_intros keeps_facts_commit split: option.split)

lemma insert_row_eq:
  "atomic (insert_row r) s = (if u_id r \<in> u_id ` set (d_runs s) then (Inl (Failed (PyError ''IntegrityError'')), s)
     else (Inr 0, s\<lparr>d_runs := d_runs s @ [r]\<rparr>))"
  by (auto simp: atomic_def insert_row_def sbind_def sget_def sthrow_def commit_def run_stmt_def)

lemma new_id_eq: obtains i w where "new_id v s = (Inr i, s\<lparr>d_world := w\<rparr>)"
  by (cases "e_nanoid v (d_world s)") (simp add: new_id_def)

text \<open>A start adds one record, of this owner and trigger, or fails and adds none.\<close>

lemma start_run_facts:
  assumes "start_run v a s = (x, t)"
  shows "case x of Inl _ \<Rightarrow> d_runs t = d_runs s
    | Inr j \<Rightarrow> \<exists>r. d_runs t = d_runs s @ [r] \<and> u_owner r = s_owner a \<and> u_trigger r = s_trigger a
        \<and> u_status r = SRunning \<and> u_end_notice r = None"
proof -
  let ?id = "case s_run_id a of Some i \<Rightarrow> (if i = [] then new_id v else sret i) | None \<Rightarrow> new_id v"
  obtain i w where i: "?id s = (Inr i, s\<lparr>d_world := w\<rparr>)"
  proof -
    obtain j w where "new_id v s = (Inr j, s\<lparr>d_world := w\<rparr>)" by (rule new_id_eq)
    then show thesis using that[of j w] that[of "the (s_run_id a)" "d_world s"]
      by (cases "s_run_id a"; cases "s_run_id a = Some []") (auto simp: sret_def)
  qed
  obtain now w' where now: "now_text v (s\<lparr>d_world := w\<rparr>) = (Inr now, s\<lparr>d_world := w'\<rparr>)"
    by (cases rule: now_text_eq[of v "s\<lparr>d_world := w\<rparr>"]) simp
  let ?row = "new_row v a i now"
  obtain j w2 where j: "new_id v (s\<lparr>d_world := w'\<rparr>) = (Inr j, s\<lparr>d_world := w2\<rparr>)"
    by (cases rule: new_id_eq[of v "s\<lparr>d_world := w'\<rparr>"]) simp
  have row: "u_owner ?row = s_owner a" "u_trigger ?row = s_trigger a" "u_id ?row = i"
    "u_status ?row = SRunning" "u_end_notice ?row = None" by (simp_all add: new_row_def Let_def)
  have id: "sbind ?id f s = f i (s\<lparr>d_world := w\<rparr>)" for f :: "string \<Rightarrow> ('a, string) tact" by (rule sbind_step) (rule i)
  have "start_run v a s = (if i \<in> u_id ` set (d_runs s)
      then if j \<in> u_id ` set (d_runs s) then (Inl (Failed (PyError ''IntegrityError'')), s\<lparr>d_world := w2\<rparr>)
        else (Inr j, s\<lparr>d_world := w2, d_runs := d_runs s @ [?row\<lparr>u_id := j\<rparr>]\<rparr>)
      else (Inr i, s\<lparr>d_world := w', d_runs := d_runs s @ [?row]\<rparr>))"
    unfolding start_run_def id
    by (simp add: sbind_def now j Let_def stry_def insert_row_eq row sret_def)
  then show ?thesis using assms row by (auto split: if_splits)
qed

subsection \<open>A launch\<close>

lemma liftf_eq: "liftf r s = (map_err Failed r, s)"
  by (simp add: liftf_def slift_def)

lemma on_db_eq: "on_db m s = (fst (m (fl_db s)), s\<lparr>fl_db := snd (m (fl_db s))\<rparr>)"
  by (simp add: on_db_def split: prod.split)

text \<open>The parts of the state a launch leaves alone.\<close>

definition same_flow :: "'w flows \<Rightarrow> 'w flows \<Rightarrow> bool" where
  "same_flow s t = (fl_triggers t = fl_triggers s \<and> fl_seen t = fl_seen s)"

definition launched ::
  "'w tenv \<Rightarrow> string \<Rightarrow> string \<Rightarrow> string \<Rightarrow> pydict \<Rightarrow> 'w flows \<Rightarrow> (run_error + string) \<times> 'w flows \<Rightarrow> bool" where
  "launched z wid owner kind detail s p = (case p of (x, t) \<Rightarrow> same_flow s t \<and> (case x of
       Inl _ \<Rightarrow> d_runs (fl_db t) = d_runs (fl_db s)
     | Inr i \<Rightarrow> (\<exists>flow. e_workflow (z_run z) wid owner = Some flow \<and> get0 flow ''status'' = PStr ''published'')
         \<and> (\<exists>r. d_runs (fl_db t) = d_runs (fl_db s) @ [r] \<and> u_owner r = owner
           \<and> u_trigger r = json_dumps (PDict [(''kind'', PStr kind), (''detail'', PDict detail)])
           \<and> u_status r = SRunning \<and> u_end_notice r = None)))"

lemma launched_sbind:
  "launched z wid owner kind detail s (sbind m f u) \<longleftrightarrow>
    (\<forall>e t. m u = (Inl e, t) \<longrightarrow> launched z wid owner kind detail s (Inl e, t))
    \<and> (\<forall>y t. m u = (Inr y, t) \<longrightarrow> launched z wid owner kind detail s (f y t))"
  by (cases "m u") (auto simp: sbind_def split: sum.split)

lemma launched_Inl: "launched z wid owner kind detail s (Inl e, t) \<longleftrightarrow> same_flow s t \<and> d_runs (fl_db t) = d_runs (fl_db s)"
  by (simp add: launched_def)

lemma launch_args_simps [simp]:
  "s_owner (launch_args i wid owner kind detail version payload) = owner"
  "s_trigger (launch_args i wid owner kind detail version payload) = json_dumps (PDict [(''kind'', PStr kind), (''detail'', PDict detail)])"
  by (simp_all add: launch_args_def)

lemma launched_start:
  assumes "d_runs d = d_runs (fl_db s)" "e_workflow (z_run z) wid owner = Some flow" "get0 flow ''status'' = PStr ''published''"
  shows "launched z wid owner kind detail s (fst (start_run (z_run z) (launch_args i wid owner kind detail version payload) d),
    s\<lparr>fl_db := snd (start_run (z_run z) (launch_args i wid owner kind detail version payload) d)\<rparr>)"
proof -
  obtain y e where y: "start_run (z_run z) (launch_args i wid owner kind detail version payload) d = (y, e)"
    by (cases "start_run (z_run z) (launch_args i wid owner kind detail version payload) d")
  show ?thesis using start_run_facts[OF y] assms
    by (auto simp: launched_def y same_flow_def split: sum.splits)
qed

lemma launch_ok: "launched z wid owner kind detail s (launch_triggered_run z wid owner kind detail payload s)"
proof (cases "\<exists>flow. e_workflow (z_run z) wid owner = Some flow \<and> get0 flow ''status'' = PStr ''published''")
  case False
  then show ?thesis
    by (auto simp: launch_triggered_run_def sthrow_def same_flow_def launched_Inl split: option.splits if_splits)
next
  case True
  then obtain flow where flow: "e_workflow (z_run z) wid owner = Some flow" "get0 flow ''status'' = PStr ''published''" by blast
  then show ?thesis
    by (auto simp: launch_triggered_run_def launched_sbind launched_Inl run_bindings_def same_flow_def liftf_eq on_db_eq new_id_def
        split: prod.splits intro!: launched_start[OF _ flow])
qed

subsection \<open>A tick of a schedule\<close>

lemma update_trigger_row_eq: "update_trigger_row z wid fs s = (Inr (), let (t, w) = e_utc (z_run z) (d_world (fl_db s)) in
    s\<lparr>fl_triggers := trg_stmt (Assign wid fs (iso_micro t)) (fl_triggers s), fl_db := (fl_db s)\<lparr>d_world := w\<rparr>\<rparr>)"
  by (cases "e_utc (z_run z) (d_world (fl_db s))")
    (simp add: update_trigger_row_def now_iso_def sbind_def on_db_eq utc_now_def sret_def apply_stmt_def)

lemma run_facts_update [simp]: "run_facts (snd (update_trigger_row z wid fs s)) = run_facts s"
  by (simp add: update_trigger_row_eq run_facts_def split: prod.split)

lemma run_facts_updated: "update_trigger_row z wid fs s = (x, t) \<Longrightarrow> run_facts t = run_facts s"
  using run_facts_update[of z wid fs s] by simp

lemma update_fst [simp]: "fst (update_trigger_row z wid fs s) = Inr ()"
  by (simp add: update_trigger_row_eq)

lemma sbind_update: "sbind (update_trigger_row z wid fs) f s = f () (snd (update_trigger_row z wid fs s))"
  by (cases "update_trigger_row z wid fs s") (simp add: sbind_def update_trigger_row_eq)

text \<open>\<open>started b s p\<close>: \<open>p\<close> started one run of this workflow when it says so, and none otherwise.\<close>

definition started :: "'w tenv \<Rightarrow> string \<Rightarrow> string \<Rightarrow> 'w flows \<Rightarrow> (run_error + bool) \<times> 'w flows \<Rightarrow> bool" where
  "started z wid owner s p = (case p of (x, t) \<Rightarrow>
     if x = Inr True
     then (\<exists>flow. e_workflow (z_run z) wid owner = Some flow \<and> get0 flow ''status'' = PStr ''published'')
       \<and> (\<exists>r. run_facts t = run_facts s @ [facts r] \<and> u_owner r = owner)
     else run_facts t = run_facts s)"

lemma start_slot_started: "started z (y_workflow r) (y_owner r) s (start_slot z r cfg now s)"
proof -
  let ?s1 = "snd (update_trigger_row z (y_workflow r) [Status (Some ''running'')] s)"
  let ?launch = "launch_triggered_run z (y_workflow r) (y_owner r) ''schedule''
         [(''cron'', get0 cfg ''cron''), (''at'', get0 cfg ''at'')] (PDict [(''scheduled_at'', PStr (iso now))])"
  obtain x u where x: "?launch ?s1 = (x, u)" by (cases "?launch ?s1")
  have L: "launched z (y_workflow r) (y_owner r) ''schedule'' [(''cron'', get0 cfg ''cron''), (''at'', get0 cfg ''at'')] ?s1 (x, u)"
    unfolding x[symmetric] by (rule launch_ok)
  have F: "map facts (d_runs (fl_db ?s1)) = run_facts s" using run_facts_update by (simp add: run_facts_def)
  have "start_slot z r cfg now s = (case x of
       Inl e \<Rightarrow> sbind (update_trigger_row z (y_workflow r) (if e = NOT_ACTIVE then [Active False, Status None, Next None]
           else [Status (Some ''error'')])) (\<lambda>_. sret False)
     | Inr i \<Rightarrow> sbind (update_trigger_row z (y_workflow r) [Last_run i, Fired (iso now)]) (\<lambda>_. sret True)) u"
    unfolding start_slot_def sbind_update by (simp add: stry_def x)
  moreover have "run_facts u = (case x of Inl _ \<Rightarrow> run_facts s | Inr _ \<Rightarrow> run_facts s @ [facts (last (d_runs (fl_db u)))])"
    using L F by (auto simp: launched_def run_facts_def split: sum.splits)
  moreover have "x = Inr i \<Longrightarrow> u_owner (last (d_runs (fl_db u))) = y_owner r" for i
    using L by (auto simp: launched_def)
  ultimately show ?thesis using L
    by (cases x) (auto simp: started_def launched_def sbind_update sret_def)
qed

lemma started_sbind:
  "started z wid owner s (sbind m f u) \<longleftrightarrow>
    (\<forall>e t. m u = (Inl e, t) \<longrightarrow> run_facts t = run_facts s) \<and> (\<forall>y t. m u = (Inr y, t) \<longrightarrow> started z wid owner s (f y t))"
  by (cases "m u") (auto simp: sbind_def started_def split: sum.split)

lemma started_sbindI:
  "(\<And>e t. m u = (Inl e, t) \<Longrightarrow> run_facts t = run_facts s) \<Longrightarrow> (\<And>y t. m u = (Inr y, t) \<Longrightarrow> started z wid owner s (f y t))
    \<Longrightarrow> started z wid owner s (sbind m f u)"
  by (simp add: started_sbind)

lemma started_cong: "started z wid owner t p \<Longrightarrow> run_facts t = run_facts s \<Longrightarrow> started z wid owner s p"
  by (auto simp: started_def split: prod.splits if_splits)

lemma started_False: "started z wid owner s (sret False t) \<longleftrightarrow> run_facts t = run_facts s"
  by (simp add: started_def sret_def)

lemma run_facts_get_run: "run_facts (snd (on_db (get_run v i owner) s)) = run_facts s"
  using keepsD[OF keeps_facts_get_run[where k = "map facts (d_runs (fl_db s))" and v = v and i = i and owner = owner], of "fl_db s"]
  by (simp add: on_db_eq run_facts_def on_runs_def)

lemma run_facts_triggers [simp]: "run_facts (s\<lparr>fl_triggers := x, fl_db := (fl_db s)\<lparr>d_world := w\<rparr>\<rparr>) = run_facts s"
  by (simp add: run_facts_def)

lemma run_facts_orphaned: "run_facts (snd (running_is_orphaned z r now s)) = run_facts s"
  using run_facts_get_run[of "z_run z" "the (y_run r)" "y_owner r" s]
  by (auto simp: running_is_orphaned_def stry_def sret_def split: prod.splits sum.splits option.splits)

lemma run_facts_open: "run_facts (snd (last_run_still_open z r s)) = run_facts s"
  using run_facts_get_run[of "z_run z" "the (y_run r)" "y_owner r" s]
  by (auto simp: last_run_still_open_def stry_def sret_def split: prod.splits)

lemma skip_started: "started z wid owner s (skip_slot z r cfg now s)"
  unfolding skip_slot_def started_sbind liftf_eq by (auto simp: started_False dest: run_facts_updated)

lemma reserve_slot_facts: "reserve_slot z wid prior nxt s = (x, t) \<Longrightarrow> run_facts t = run_facts s \<and> (\<exists>b. x = Inr b)"
  by (auto simp: reserve_slot_def now_iso_def sbind_def on_db_eq utc_now_def sret_def apply_stmt_def run_facts_def split: prod.splits)

text \<open>C21. A tick of a schedule starts one run, for the owner of the trigger and of a published workflow, when it
  says that it did, and records no run when it says that it did not or when it raises.\<close>

theorem tick_starts_what_it_says: "started z (y_workflow r) (y_owner r) s (fire_schedule_trigger z r now s)"
proof -
  let ?busy = "if y_status r = Some ''running'' then sbind (running_is_orphaned z r now) (\<lambda>o'. sret (\<not> o'))
        else if y_status r = Some ''awaiting'' then last_run_still_open z r else sret False"
  have busy: "run_facts (snd (?busy t)) = run_facts t" for t
    using run_facts_orphaned[of z r now t] run_facts_open[of z r t]
    by (auto simp: sbind_def sret_def split: prod.split sum.split)
  have fire: "started z (y_workflow r) (y_owner r) s (start_slot z r cfg now t)" if "run_facts t = run_facts s" for cfg t
    by (rule started_cong[OF start_slot_started that])
  have skip: "started z (y_workflow r) (y_owner r) s (skip_slot z r cfg now t)" if "run_facts t = run_facts s" for cfg t
    by (rule started_cong[OF skip_started that])
  have rest: "started z (y_workflow r) (y_owner r) s ((if b then skip_slot z r cfg now
     else sbind (liftf (next_text z cfg now)) (\<lambda>nxt.
       sbind (reserve_slot z (y_workflow r) (y_next r) nxt) (\<lambda>reserved.
       if \<not> reserved then sret False else start_slot z r cfg now))) t)" if "run_facts t = run_facts s" for b cfg t
    using that by (auto simp: skip started_sbind liftf_eq started_False fire dest!: reserve_slot_facts)
  show ?thesis
    unfolding fire_schedule_trigger_def
  proof (rule started_sbindI)
    fix cfg u assume "liftf (trigger_cfg r) s = (Inr cfg, u)"
    then have u: "u = s" by (simp add: liftf_eq)
    show "started z (y_workflow r) (y_owner r) s (sbind ?busy (\<lambda>b. if b then skip_slot z r cfg now
     else sbind (liftf (next_text z cfg now)) (\<lambda>nxt.
       sbind (reserve_slot z (y_workflow r) (y_next r) nxt) (\<lambda>reserved.
       if \<not> reserved then sret False else start_slot z r cfg now))) u)"
    proof (rule started_sbindI)
      show "run_facts t = run_facts s" if "?busy u = (Inl e, t)" for e t using busy[of u] that u by simp
    next
      fix b t assume "?busy u = (Inr b, t)"
      then have "run_facts t = run_facts s" using busy[of u] u by simp
      then show "started z (y_workflow r) (y_owner r) s ((if b then skip_slot z r cfg now
     else sbind (liftf (next_text z cfg now)) (\<lambda>nxt.
       sbind (reserve_slot z (y_workflow r) (y_next r) nxt) (\<lambda>reserved.
       if \<not> reserved then sret False else start_slot z r cfg now))) t)" by (rule rest)
    qed
  qed (simp add: liftf_eq)
qed

end
