(* ===== verification/Trg_Poll.thy ===== *)
theory Trg_Poll
  imports Trg_Safety
begin

section \<open>Polls, chains and tokens\<close>

subsection \<open>A poll of a folder\<close>

text \<open>\<open>grew c k s t\<close>: \<open>k\<close> runs with the owner and the trigger \<open>c\<close> were recorded, and the files seen are as before.\<close>

definition grew :: "string \<times> string \<Rightarrow> nat \<Rightarrow> 'w flows \<Rightarrow> 'w flows \<Rightarrow> bool" where
  "grew c k s t = (fl_seen t = fl_seen s \<and> (\<exists>new. run_facts t = run_facts s @ new \<and> length new = k \<and> (\<forall>x \<in> set new. snd (fst x) = c)))"

lemma grew_refl: "run_facts t = run_facts s \<Longrightarrow> fl_seen t = fl_seen s \<Longrightarrow> grew c 0 s t"
  by (simp add: grew_def)

lemma grew_trans: "grew c j s t \<Longrightarrow> grew c k t u \<Longrightarrow> grew c (j + k) s u"
  unfolding grew_def by fastforce

text \<open>The run of a file: the owner and the trigger its record has, and what launching it answers.\<close>

definition file_detail :: "pydict \<Rightarrow> pydict" where
  "file_detail cfg = [(''provider'', get0 cfg ''provider''), (''folder_id'', get0 cfg ''folder_id'')]"

definition file_run :: "trigger \<Rightarrow> pydict \<Rightarrow> string \<times> string" where
  "file_run r cfg = (y_owner r, json_dumps (PDict [(''kind'', PStr ''file''), (''detail'', PDict (file_detail cfg))]))"

abbreviation launch_of :: "'w tenv \<Rightarrow> trigger \<Rightarrow> pydict \<Rightarrow> pydict \<Rightarrow> ('w, string) fact" where
  "launch_of z r cfg f \<equiv> launch_triggered_run z (y_workflow r) (y_owner r) ''file'' (file_detail cfg) (file_payload f)"

lemma launch_file_grew:
  assumes "launch_file z r cfg f s = (x, t)"
  shows "grew (file_run r cfg) (case x of Inl _ \<Rightarrow> 0 | Inr k \<Rightarrow> k) s t"
    "x = Inr k \<Longrightarrow> k = 1 \<or> k = 0 \<and> fst (launch_of z r cfg f s) = Inl NOT_ACTIVE"
proof -
  obtain y u where y: "launch_of z r cfg f s = (y, u)" by (cases "launch_of z r cfg f s")
  have L: "launched z (y_workflow r) (y_owner r) ''file'' (file_detail cfg) s (y, u)" unfolding y[symmetric] by (rule launch_ok)
  have x: "t = u" "x = (case y of Inr _ \<Rightarrow> Inr 1 | Inl e \<Rightarrow> if e = NOT_ACTIVE then Inr 0 else Inl e)"
    using assms y by (auto simp: launch_file_def file_detail_def stry_def sret_def sthrow_def split: sum.splits if_splits)
  show "grew (file_run r cfg) (case x of Inl _ \<Rightarrow> 0 | Inr k \<Rightarrow> k) s t"
    using L x by (cases y; auto simp: launched_def grew_def file_run_def facts_def same_flow_def run_facts_def split: if_splits)
  show "x = Inr k \<Longrightarrow> k = 1 \<or> k = 0 \<and> fst (launch_of z r cfg f s) = Inl NOT_ACTIVE"
    using x y by (cases y; auto split: if_splits)
qed

lemma launch_files_grew:
  assumes "smap (launch_file z r cfg) fs s = (x, t)"
  shows "\<exists>k. grew (file_run r cfg) k s t \<and> (case x of Inl _ \<Rightarrow> True | Inr ks \<Rightarrow> k = sum_list ks
     \<and> (k = length fs \<or> (\<exists>f \<in> set fs. \<exists>u. fst (launch_of z r cfg f u) = Inl NOT_ACTIVE))) \<and> k \<le> length fs"
  using assms
proof (induction fs arbitrary: s x t)
  case Nil
  then show ?case by (auto simp: sret_def grew_def)
next
  case (Cons f fs)
  obtain y u where y: "launch_file z r cfg f s = (y, u)" by (cases "launch_file z r cfg f s")
  note F = launch_file_grew[OF y]
  show ?case
  proof (cases y)
    case (Inl e)
    then have "x = Inl e" "t = u" using Cons.prems y by (simp_all add: sbind_def)
    then show ?thesis using F(1) Inl by (intro exI[of _ 0]) simp
  next
    case (Inr k)
    obtain xs w where w: "smap (launch_file z r cfg) fs u = (xs, w)" by (cases "smap (launch_file z r cfg) fs u")
    obtain m where m: "grew (file_run r cfg) m u w" "m \<le> length fs" "case xs of Inl _ \<Rightarrow> True | Inr ks \<Rightarrow> m = sum_list ks
       \<and> (m = length fs \<or> (\<exists>f \<in> set fs. \<exists>u. fst (launch_of z r cfg f u) = Inl NOT_ACTIVE))"
      using Cons.IH[OF w] by blast
    have t: "t = w" "x = (case xs of Inl e \<Rightarrow> Inl e | Inr ks \<Rightarrow> Inr (k # ks))"
      using Cons.prems y w Inr by (auto simp: sbind_def sret_def split: sum.splits)
    have g: "grew (file_run r cfg) (k + m) s t" using grew_trans[OF _ m(1), of k s] F(1) Inr t by simp
    have k: "k = 1 \<or> k = 0 \<and> fst (launch_of z r cfg f s) = Inl NOT_ACTIVE" by (rule F(2)[OF Inr])
    then have k': "k \<noteq> 1 \<Longrightarrow> \<exists>u. fst (launch_of z r cfg f u) = Inl NOT_ACTIVE" by blast
    show ?thesis
    proof (intro exI[of _ "k + m"] conjI)
      show "k + m \<le> length (f # fs)" using m(2) k by auto
      show "case x of Inl _ \<Rightarrow> True | Inr ks \<Rightarrow> k + m = sum_list ks
        \<and> (k + m = length (f # fs) \<or> (\<exists>g \<in> set (f # fs). \<exists>u. fst (launch_of z r cfg g u) = Inl NOT_ACTIVE))"
        using m(3) k' t(2) by (cases xs; cases "k = 1") auto
    qed (rule g)
  qed
qed


definition seen_of :: "string \<Rightarrow> 'w flows \<Rightarrow> (pyval \<times> pyval) list" where
  "seen_of wid s = map (\<lambda>f. (sf_id f, sf_modified f)) (filter (\<lambda>f. sf_workflow f = wid) (fl_seen s))"





text \<open>A launch that raises leaves the poll before it remembers the files it has already started runs for.\<close>

lemma poll_that_raises_forgets:
  assumes "trigger_cfg r = Inr cfg" "list_folder z r cfg s = (Inr current, u)" "seen_of (y_workflow r) s \<noteq> []"
    "\<And>p. file_provider (get0 cfg ''provider'') = Some p \<Longrightarrow> z_integration z (d_world (fl_db s)) (y_owner r) p"
    "smap (launch_file z r cfg) (dedupe_new_files (seen_of (y_workflow r) s) current) u = (Inl e, t)"
  shows "poll_file_trigger z r s = (Inl e, t) \<and> fl_seen t = fl_seen s"
proof -
  have u: "fl_seen u = fl_seen s" using assms(2) by (auto simp: list_folder_def split: prod.splits)
  have seen: "get_seen_files (y_workflow r) u = (Inr (seen_of (y_workflow r) s), u)"
    by (simp add: get_seen_files_def sget_def seen_of_def u)
  have "poll_file_trigger z r s = (Inl e, t)"
    using assms by (auto simp: poll_file_trigger_def sbind_def liftf_eq map_err_def sget_def stry_def seen split: option.split)
  then show ?thesis using launch_files_grew[OF assms(5)] u by (auto simp: grew_def)
qed

subsection \<open>Chains\<close>

text \<open>A cascade: each run fires the next one, with the chain of the one before.\<close>

fun cascade :: "pyval list \<Rightarrow> pyval list \<Rightarrow> pyval list option" where
  "cascade chain [] = Some chain"
| "cascade chain (w # ws) = Option.bind (next_trigger_chain chain w) (\<lambda>c. cascade c ws)"

definition apart :: "pyval list \<Rightarrow> bool" where
  "apart xs = (\<forall>i < length xs. \<not> py_in (xs ! i) (take i xs))"

lemma apart_append: "apart (xs @ [x]) \<longleftrightarrow> apart xs \<and> \<not> py_in x xs"
  by (auto simp: apart_def nth_append less_Suc_eq)

lemma cascade_from:
  "cascade chain ws = Some c \<Longrightarrow> apart chain \<Longrightarrow> length chain \<le> MAX_TRIGGER_CHAIN \<Longrightarrow>
    c = chain @ ws \<and> apart c \<and> length c \<le> MAX_TRIGGER_CHAIN"
proof (induction ws arbitrary: chain)
  case (Cons w ws)
  then obtain d where d: "next_trigger_chain chain w = Some d" "cascade d ws = Some c" by (auto simp: bind_eq_Some_conv)
  then have "d = chain @ [w]" "\<not> py_in w chain" "length chain < MAX_TRIGGER_CHAIN"
    by (auto simp: next_trigger_chain_def split: if_splits)
  with Cons.IH[OF d(2)] Cons.prems(2) show ?case by (auto simp: apart_append)
qed simp

text \<open>Runs that fire each other stop: a cascade of \<open>workflow_done\<close> triggers or of tools is at most five runs
  deep, no workflow occurs twice in it, and its chain names the workflows in their order.\<close>

theorem cascades_stop:
  assumes "cascade [] ws = Some c"
  shows "length ws \<le> 5 \<and> c = ws \<and> (\<forall>i < length ws. \<not> py_in (ws ! i) (take i ws))"
  using cascade_from[OF assms] by (auto simp: apart_def MAX_TRIGGER_CHAIN_def)

lemma cascades_stop_witness: "\<not> py_in (PStr ''b'') [PStr ''a'']"
proof -
  have "cascade [] [PStr ''a'', PStr ''b''] = Some [PStr ''a'', PStr ''b'']" by code_simp
  from cascades_stop[OF this] show ?thesis by (auto dest: spec[of _ 1])
qed

subsection \<open>Public tokens\<close>

definition webhook_open :: "'w tenv \<Rightarrow> string \<Rightarrow> 'w flows \<Rightarrow> bool" where
  "webhook_open z token s = (fst (find_active_webhook_trigger z token s) \<noteq> Inr None)"

lemma webhook_open_iff: "webhook_open z token s \<longleftrightarrow>
  (\<exists>r. find (\<lambda>r. y_kind r = ''webhook'' \<and> y_hash r = Some (z_digest z token)) (fl_triggers s) = Some r \<and> y_active r)"
  by (auto simp: webhook_open_def find_active_webhook_trigger_def find_trigger_def sbind_def sget_def sret_def split: option.split)

lemma compute_active_unpublished:
  "compute_active z w cfg status owner = Inr (b, reason) \<Longrightarrow> status \<noteq> PStr ''published'' \<Longrightarrow> \<not> b"
  by (auto simp: compute_active_def Let_def ebind_def split: if_splits sum.splits)

lemma idle_deadline: "first_deadline z kind False spec = sret None"
  by (simp add: first_deadline_def)

lemma armed_rows: "r \<in> set (trg_stmt (Arm new) rows) \<Longrightarrow> y_workflow r = y_workflow new \<Longrightarrow>
  y_active r = y_active new \<and> y_next r = y_next new"
  by (auto simp: changed_def rearm_def split: if_splits)

lemma in_block_Inr [simp]: "in_block m s = (Inr x, t) \<longleftrightarrow> m s = (Inr x, t)"
  by (auto simp: in_block_def split: prod.splits sum.splits)

text \<open>C22. Once a workflow that is not published is saved, nothing fires it: its trigger is not armed and has no
  deadline, so no webhook call and no tick finds it.\<close>

theorem unpublished_fires_nothing:
  assumes "sync_trigger_for_workflow z wid owner graph status s = (Inr (), t)" and "status \<noteq> PStr ''published''"
  shows "(\<forall>r \<in> set (fl_triggers t). y_workflow r = wid \<longrightarrow> \<not> y_active r \<and> y_next r = None)
    \<and> (\<forall>token r. fst (find_active_webhook_trigger z token t) = Inr (Some r) \<longrightarrow> y_workflow r \<noteq> wid)
    \<and> (\<forall>now r. r \<in> set (filter (is_due ''schedule'' now) (fl_triggers t)) \<longrightarrow> y_workflow r \<noteq> wid)"
proof -
  have "\<exists>new u k. apply_stmt (Arm new) u = (Inr k, t) \<and> y_workflow new = wid \<and> \<not> y_active new \<and> y_next new = None"
    using assms
    by (auto simp: sync_trigger_for_workflow_def sbind_Inr liftf_eq sget_def sret_def Let_def map_err_def idle_deadline
        dest!: compute_active_unpublished split: prod.splits sum.splits) (metis trigger.select_convs)+
  then obtain new u k where new: "y_workflow new = wid" "\<not> y_active new" "y_next new = None"
    and k: "apply_stmt (Arm new) u = (Inr k, t)" by blast
  have t: "t = u\<lparr>fl_triggers := trg_stmt (Arm new) (fl_triggers u)\<rparr>" using k by (simp add: apply_stmt_def)
  have rows: "\<not> y_active r \<and> y_next r = None" if "r \<in> set (fl_triggers t)" "y_workflow r = wid" for r
    using armed_rows[of r new "fl_triggers u"] that new t by simp
  then show ?thesis
    by (auto simp: find_active_webhook_trigger_def find_trigger_def sbind_def sget_def sret_def find_Some_iff is_due_def
        split: option.splits if_splits)
qed

text \<open>A token that was rotated opens nothing any more: if no other workflow had it and the new one has
  another digest, calls with it find no trigger.\<close>

theorem rotated_token_is_dead:
  assumes "rotate_trigger z wid owner s = (Inr (Some d), t)"
    and "\<And>r. r \<in> set (fl_triggers s) \<Longrightarrow> y_hash r = Some (z_digest z token) \<Longrightarrow> y_workflow r = wid"
    and "z_digest z (fst (z_secret z (d_world (fl_db s)))) \<noteq> z_digest z token"
  shows "\<not> webhook_open z token t"
proof -
  obtain tok sealed now where t: "fl_triggers t = changed (\<lambda>r. y_workflow r = wid)
      (rotated (z_digest z (fst (z_secret z (d_world (fl_db s))))) tok sealed now) (fl_triggers s)"
    using assms(1)
    by (auto simp: rotate_trigger_def sbind_Inr liftf_eq find_trigger_def sget_def sret_def new_secret_def now_iso_def on_db_eq
        utc_now_def change_triggers_def smod_def sthrow_def split: option.splits if_splits prod.splits)
  have "y_hash (rotated h x y n r) = Some h" for h x y n r by (simp add: rotated_def Let_def split: option.split)
  then have "y_hash r \<noteq> Some (z_digest z token)" if "r \<in> set (fl_triggers t)" for r
    using that assms(2,3) by (auto simp: t changed_def split: if_splits)
  then show ?thesis by (auto simp: webhook_open_iff find_Some_iff)
qed

subsection \<open>A run that outlasts its slot\<close>

text \<open>
  The end of a scheduled run sets the deadline that follows its own tick: when that one has passed, and
  a tick has skipped it, the trigger is due again at once.
\<close>

lemma late_end_reopens_slot:
  assumes "trigger_cfg r = Inr cfg" "compute_next_run z cfg now = Inr (Some n)" "schedule_done z r i now s = (Inr (), t)"
    and "in_time n" "in_time later" "n \<le> later"
    and "q \<in> set (fl_triggers t)" "y_workflow q = y_workflow r" "y_kind q = ''schedule''" "y_active q"
  shows "is_due ''schedule'' later q"
proof -
  have n: "next_text z cfg now = Inr (Some (iso n))" using assms(2) by (simp add: next_text_def)
  obtain final u where "update_trigger_row z (y_workflow r) [Status final, Next (Some (iso n))] u = (Inr (), t)"
    using assms(3) by (auto simp: schedule_done_def sbind_Inr liftf_eq assms(1) n map_err_def)
  then have "y_next q = Some (iso n)"
    using assms(7,8) by (auto simp: update_trigger_row_eq changed_def split: prod.splits if_splits)
  then show ?thesis using assms iso_le[of n later] by (simp add: is_due_def at_most_def)
qed

subsection \<open>A small deployment with triggers\<close>

definition published_env :: "unit renv" where
  "published_env = demo\<lparr>e_venv := example_env, e_workflow := (\<lambda>i owner. if i = ''w1'' \<and> owner = ''ann''
     then Some [(''graph'', demo_graph), (''version'', PInt 1), (''status'', PStr ''published'')] else None)\<rparr>"

definition trg_env :: "unit tenv" where
  "trg_env = \<lparr>z_run = published_env, z_digest = (\<lambda>x. CHR ''h'' # x), z_hmac = (\<lambda>k x. k @ x), z_secret = (\<lambda>w. (''tok'', w)),
     z_integration = (\<lambda>_ _ _. True), z_subscribed = (\<lambda>_ _ _. True), z_api_url = ''https://api'', z_app_url = ''https://app'',
     z_wall = (\<lambda>_ t. t), z_instant = (\<lambda>_ t. t), z_bindings = (\<lambda>_ w. (Inr (), w)),
     z_list = (\<lambda>_ _ _ w. (Inr [[(''id'', PStr ''f1'')], [(''id'', PStr ''f2''), (''modified_at'', PStr ''m'')]], w))\<rparr>"

definition demo_trigger :: trigger where
  "demo_trigger = \<lparr>y_workflow = ''w1'', y_owner = ''ann'', y_kind = ''file'', y_config = ''{}'', y_active = True, y_hash = None,
     y_token = None, y_hmac = False, y_secret = None, y_next = None, y_fired = None, y_status = None, y_run = None,
     y_created = None, y_updated = None\<rparr>"

definition demo_flows :: "unit flows" where
  "demo_flows = \<lparr>fl_triggers = [demo_trigger],
     fl_seen = [\<lparr>sf_workflow = ''w1'', sf_id = PStr ''f1'', sf_modified = PNone, sf_at = []\<rparr>], fl_db = \<lparr>d_runs = [], d_traces = [], d_world = ()\<rparr>\<rparr>"




lemma unpublished_fires_nothing_witness:
  "\<exists>t. sync_trigger_for_workflow trg_env ''w1'' ''ann'' demo_graph (PStr ''draft'') demo_flows = (Inr (), t)
    \<and> (\<forall>r \<in> set (fl_triggers t). y_workflow r = ''w1'' \<longrightarrow> \<not> y_active r)"
proof -
  have "map_option trigger_spec (parse_graph demo_graph) = Some [(''kind'', PStr ''manual'')]" by code_simp
  then obtain g where g: "parse_graph demo_graph = Some g" "trigger_spec g = [(''kind'', PStr ''manual'')]" by auto
  have "\<exists>t. sync_trigger_for_workflow trg_env ''w1'' ''ann'' demo_graph (PStr ''draft'') demo_flows = (Inr (), t)"
    by (simp add: sync_trigger_for_workflow_def sbind_def liftf_eq of_opt_def g map_err_def sget_def compute_active_def get1_def
      dget_def now_iso_def on_db_eq utc_now_def sret_def in_block_def find_trigger_def kind_text_def token_pair_def hmac_secret_def
      first_deadline_def apply_stmt_def Let_def split: prod.split)
  then obtain t where t: "sync_trigger_for_workflow trg_env ''w1'' ''ann'' demo_graph (PStr ''draft'') demo_flows = (Inr (), t)" by blast
  have "PStr ''draft'' \<noteq> PStr ''published''" by simp
  from unpublished_fires_nothing[OF t this] t show ?thesis by blast
qed

definition webhook_flows :: "unit flows" where
  "webhook_flows = demo_flows\<lparr>fl_triggers := [demo_trigger\<lparr>y_kind := ''webhook'', y_hash := Some ''hold''\<rparr>]\<rparr>"

lemma rotated_token_is_dead_witness:
  "webhook_open trg_env ''old'' webhook_flows
    \<and> (\<exists>d t. rotate_trigger trg_env ''w1'' ''ann'' webhook_flows = (Inr (Some d), t) \<and> \<not> webhook_open trg_env ''old'' t)"
proof -
  have "\<exists>d t. rotate_trigger trg_env ''w1'' ''ann'' webhook_flows = (Inr (Some d), t)"
    by (simp add: rotate_trigger_def in_block_def sbind_def find_trigger_def sget_def webhook_flows_def demo_trigger_def
      new_secret_def trg_env_def liftf_eq published_env_def demo_def map_err_def now_iso_def on_db_eq utc_now_def sret_def
      change_triggers_def smod_def)
  then obtain d t where t: "rotate_trigger trg_env ''w1'' ''ann'' webhook_flows = (Inr (Some d), t)" by blast
  have "\<not> webhook_open trg_env ''old'' t"
    by (rule rotated_token_is_dead[OF t]) (simp_all add: webhook_flows_def demo_trigger_def trg_env_def)
  moreover have "webhook_open trg_env ''old'' webhook_flows"
    by (simp add: webhook_open_iff webhook_flows_def demo_trigger_def trg_env_def)
  ultimately show ?thesis using t by blast
qed

end
