(* ===== verification/Fl_Safety.thy ===== *)
theory Fl_Safety
  imports Fl_History Trg_Poll
begin

section \<open>What stored workflows guarantee\<close>

subsection \<open>The operations are steps\<close>

definition same_tables :: "flow_row list \<times> revision list \<Rightarrow> 'w site \<Rightarrow> bool" where
  "same_tables k s = (tables s = k)"

lemma keeps_on_trg [keeps_intros]: "keeps (same_tables k) (on_trg m)"
  by (simp add: keeps_def same_tables_def tables_def on_trg_def split: prod.split)

lemma keeps_flow_leaf [keeps_intros]:
  "keeps (same_tables k) (clock z)" "keeps (same_tables k) (liftc r)" "keeps (same_tables k) (fetch_flow wid owner)"
  "keeps (same_tables k) (sync z wid owner g st)"
  unfolding clock_def liftc_def fetch_flow_def sync_def by (intro keeps_intros)+

lemma keeps_get_workflow [keeps_intros]: "keeps (same_tables k) (get_workflow wid owner)"
  unfolding get_workflow_def by (intro keeps_intros)

lemma keeps_forget_shapes [keeps_intros]: "keeps (same_tables k) (forget_unused_tool_shapes owner ts)"
  unfolding forget_unused_tool_shapes_def by (intro keeps_intros) (simp add: same_tables_def tables_def)

lemma keeps_tables: "keeps (same_tables (tables s)) m \<Longrightarrow> tables (snd (m s)) = tables s"
  by (auto simp: same_tables_def dest: keepsD[of _ m s])

lemma in_tx_Inr [simp]: "in_tx m s = (Inr x, t) \<longleftrightarrow> m s = (Inr x, t)"
  by (auto simp: in_tx_def split: prod.split sum.split)

lemma in_tx_Inl: "in_tx m s = (Inl e, t) \<Longrightarrow> tables t = tables s"
  by (auto simp: in_tx_def tables_def split: prod.splits sum.splits)

lemma read_row_Inr: "read_row wid owner s = (Inr r, t) \<longleftrightarrow> t = s \<and> find (\<lambda>r. fw_id r = wid \<and> fw_owner r = owner) (st_flows s) = Some r"
  by (auto simp: read_row_def sbind_Inr fetch_flow_def sget_def sthrow_def sret_def split: option.splits)

lemma read_row_in: "read_row wid owner s = (Inr r, t) \<Longrightarrow> t = s \<and> r \<in> set (st_flows s) \<and> fw_id r = wid \<and> fw_owner r = owner"
  by (auto simp: read_row_Inr find_Some_iff)

lemma slift_eq: "slift x s = (x, s)"
  by (simp add: slift_def)

text \<open>A save writes one row that it has just read, or leaves the tables as they are.\<close>

lemma save_update_cases:
  assumes "save_update z wid owner expected rq s = (res, t)"
  obtains "tables t = tables s"
  | r ch where "res = Inr (r, ch)" "r \<in> set (st_flows s)" "fw_version r = expected" "plan_update (e_venv (z_run z)) r rq = Inr ch"
      "ch \<noteq> no_changes" "replace_row z r (update_reason (fw_status r) ch) ch s = (Inr (), t)"
proof (cases res)
  case (Inl e)
  with assms in_tx_Inl that(1) show ?thesis by (auto simp: save_update_def)
next
  case (Inr x)
  obtain r ch where x: "x = (r, ch)" by (cases x)
  have "\<exists>u. read_row wid owner s = (Inr r, u) \<and> fw_version r = expected \<and> plan_update (e_venv (z_run z)) r rq = Inr ch
      \<and> (if ch = no_changes then t = u else replace_row z r (update_reason (fw_status r) ch) ch u = (Inr (), t))"
    using assms by (auto simp: save_update_def Inr x sbind_Inr sret_def sthrow_def slift_eq split: if_splits)
  then obtain u where u: "read_row wid owner s = (Inr r, u)" "fw_version r = expected" "plan_update (e_venv (z_run z)) r rq = Inr ch"
    "if ch = no_changes then t = u else replace_row z r (update_reason (fw_status r) ch) ch u = (Inr (), t)" by blast
  have "u = s" "r \<in> set (st_flows s)" using read_row_in[OF u(1)] by auto
  with u that x Inr show ?thesis by (cases "ch = no_changes") auto
qed

lemma save_restored_cases:
  assumes "save_restored z wid i owner s = (res, t)"
  obtains "tables t = tables s"
  | r v where "res = Inr v" "r \<in> set (st_flows s)" "replace_row z r ''restore'' (restored v) s = (Inr (), t)"
proof (cases res)
  case (Inl e)
  with assms in_tx_Inl that(1) show ?thesis by (auto simp: save_restored_def)
next
  case (Inr v)
  have "\<exists>u r. read_row wid owner s = (Inr r, u) \<and> replace_row z r ''restore'' (restored v) u = (Inr (), t)"
    using assms by (auto simp: save_restored_def Inr sbind_Inr sret_def sthrow_def sget_def split: option.splits)
  then obtain u r where "read_row wid owner s = (Inr r, u)" "replace_row z r ''restore'' (restored v) u = (Inr (), t)" by blast
  with read_row_in[of wid owner s r u] that(2)[OF Inr] show ?thesis by auto
qed

abbreviation flow_steps :: "'w tenv set \<Rightarrow> 'w site \<Rightarrow> flow_row set \<Rightarrow> 'w site \<Rightarrow> bool" where
  "flow_steps zs s seen t \<equiv> (flow_step zs)\<^sup>*\<^sup>* (s, seen) (t, seen \<union> set (st_flows t))"

lemma steps_same:
  assumes "tables t = tables s" "set (st_flows s) \<subseteq> seen"
  shows "flow_steps zs s seen t"
proof -
  have "seen \<union> set (st_flows t) = seen" using assms by (auto simp: tables_def)
  with Elsewhere[OF assms(1), of zs seen] show ?thesis by auto
qed

lemma steps_then:
  assumes "flow_step zs (s, seen) (t, seen \<union> set (st_flows t))" "tables u = tables t"
  shows "flow_steps zs s seen u"
proof -
  have same: "seen \<union> set (st_flows u) = seen \<union> set (st_flows t)" using assms(2) by (auto simp: tables_def)
  have "flow_step zs (t, seen \<union> set (st_flows t)) (u, seen \<union> set (st_flows t))" by (rule Elsewhere) (rule assms(2))
  with r_into_rtranclp[of "flow_step zs", OF assms(1)] show ?thesis unfolding same by (rule rtranclp.rtrancl_into_rtrancl)
qed

lemma update_after_save:
  assumes "save_update z wid owner expected rq s = (res, t)"
  shows "tables (snd (update_workflow z wid owner expected rq s)) = tables t"
proof (cases res)
  case (Inr x)
  obtain r ch where x: "x = (r, ch)" by (cases x)
  let ?m = "sbind (if ch = no_changes then sret ()
     else sbind (liftc (graph_of (either (ch_graph ch) (fw_graph r)))) (\<lambda>g. sync z wid owner g (either (ch_status ch) (fw_status r)))) (\<lambda>_. get_workflow wid owner)"
  have "update_workflow z wid owner expected rq s = ?m t" by (simp add: update_workflow_def sbind_def assms Inr x)
  moreover have "keeps (same_tables (tables t)) ?m" by (intro keeps_intros)
  ultimately show ?thesis using keeps_tables[of t ?m] by simp
qed (simp add: update_workflow_def sbind_def assms)

lemma steps_update:
  assumes "z \<in> zs" "set (st_flows s) \<subseteq> seen"
  shows "flow_steps zs s seen (snd (update_workflow z wid owner expected rq s))"
proof -
  obtain res t where st: "save_update z wid owner expected rq s = (res, t)" by (cases "save_update z wid owner expected rq s")
  note rest = update_after_save[OF st]
  from st show ?thesis
  proof (cases rule: save_update_cases)
    case 1
    with rest assms(2) show ?thesis by (intro steps_same) simp_all
  next
    case (2 r ch)
    have "flow_step zs (s, seen) (t, seen \<union> set (st_flows t))"
      using 2 assms by (intro Written[of z zs r]) (auto simp: planned_def)
    from this rest show ?thesis by (rule steps_then)
  qed
qed

lemma steps_restore:
  assumes "z \<in> zs" "set (st_flows s) \<subseteq> seen"
  shows "flow_steps zs s seen (snd (restore_revision z wid i owner s))"
proof -
  obtain res t where st: "save_restored z wid i owner s = (res, t)" by (cases "save_restored z wid i owner s")
  have rest: "tables (snd (restore_revision z wid i owner s)) = tables t"
  proof (cases res)
    case (Inr v)
    let ?m = "sbind (liftc (graph_of (rv_graph v))) (\<lambda>g. sbind (sync z wid owner g ''draft'') (\<lambda>_. get_workflow wid owner))"
    have "restore_revision z wid i owner s = ?m t" by (simp add: restore_revision_def sbind_def st Inr)
    moreover have "keeps (same_tables (tables t)) ?m" by (intro keeps_intros)
    ultimately show ?thesis using keeps_tables[of t ?m] by simp
  qed (simp add: restore_revision_def sbind_def st)
  from st show ?thesis
  proof (cases rule: save_restored_cases)
    case 1
    with rest assms(2) show ?thesis by (intro steps_same) simp_all
  next
    case (2 r v)
    have "flow_step zs (s, seen) (t, seen \<union> set (st_flows t))"
      using 2 assms by (intro Written[of z zs r]) (auto simp: planned_def)
    from this rest show ?thesis by (rule steps_then)
  qed
qed

lemma keeps_graph_at [keeps_intros]: "keeps (same_tables k) (get_workflow_graph_at wid n owner)"
  unfolding get_workflow_graph_at_def by (intro keeps_intros)

lemma delete_cases:
  assumes "delete_workflow wid owner s = (res, u)"
  shows "tables u = tables s \<or> (\<exists>t. drop_flow wid owner s = (Inr (), t) \<and> tables u = tables t)"
proof -
  let ?del = "sbind (read_row wid owner) (\<lambda>r.
       sbind (sget (\<lambda>s. used_tools (fw_graph r # map rv_graph (filter (\<lambda>v. rv_flow v = wid \<and> rv_owner v = owner) (st_revs s))))) (\<lambda>found.
       sbind (liftc found) (\<lambda>tools. sbind (drop_flow wid owner) (\<lambda>_. forget_unused_tool_shapes owner tools))))"
  obtain x t where t: "in_tx ?del s = (x, t)" by (cases "in_tx ?del s")
  have rest: "tables u = tables t"
  proof (cases x)
    case (Inr y)
    let ?m = "sbind (on_trg (remove_trigger_for_workflow wid)) (\<lambda>_. stry (on_trg (on_db (forget_workflow_traces wid owner))) (\<lambda>_. sret ()))"
    have "delete_workflow wid owner s = ?m t" by (simp add: delete_workflow_def sbind_def[of "in_tx ?del"] t Inr)
    with assms have "snd (?m t) = u" by (metis snd_conv)
    moreover have "keeps (same_tables (tables t)) ?m" by (intro keeps_intros)
    ultimately show ?thesis using keeps_tables[of t ?m] by simp
  qed (use assms in \<open>simp add: delete_workflow_def sbind_def[of "in_tx ?del"] t\<close>)
  show ?thesis
  proof (cases x)
    case (Inl e)
    with t in_tx_Inl rest show ?thesis by auto
  next
    case (Inr y)
    with t have "?del s = (Inr y, t)" by simp
    then obtain r w ts where "read_row wid owner s = (Inr r, w)" "\<exists>s'. drop_flow wid owner w = (Inr (), s') \<and> forget_unused_tool_shapes owner ts s' = (Inr y, t)"
      unfolding sbind_Inr by (auto simp: sget_def liftc_def slift_eq)
    then obtain s' where s': "drop_flow wid owner s = (Inr (), s')" "forget_unused_tool_shapes owner ts s' = (Inr y, t)"
      using read_row_in by blast
    have "tables t = tables s'"
      using keeps_tables[OF keeps_forget_shapes[of _ owner ts], of s'] s'(2) by simp
    with s'(1) rest show ?thesis by auto
  qed
qed

lemma steps_delete:
  assumes "set (st_flows s) \<subseteq> seen"
  shows "flow_steps zs s seen (snd (delete_workflow wid owner s))"
proof -
  obtain res u where u: "delete_workflow wid owner s = (res, u)" by (cases "delete_workflow wid owner s")
  from delete_cases[OF u] show ?thesis
  proof (elim disjE exE conjE)
    assume "tables u = tables s"
    with assms u show ?thesis by (simp add: steps_same)
  next
    fix t assume t: "drop_flow wid owner s = (Inr (), t)" "tables u = tables t"
    then have "set (st_flows t) \<subseteq> seen" using assms by (auto simp: drop_flow_def smod_def)
    then have "seen \<union> set (st_flows t) = seen" by auto
    with Dropped[OF t(1), of zs seen] have "flow_step zs (s, seen) (t, seen \<union> set (st_flows t))" by simp
    from steps_then[OF this t(2)] u show ?thesis by simp
  qed
qed

text \<open>An identifier that a creation draws was never used.\<close>

definition draws_fresh :: "flow_row set \<Rightarrow> 'w site \<Rightarrow> 'w site \<Rightarrow> bool" where
  "draws_fresh seen s t = (\<forall>r \<in> set (st_flows t) - set (st_flows s). fw_version r = 1 \<longrightarrow> fw_id r \<notin> fw_id ` seen)"

lemma keeps_new_flow_id [keeps_intros]: "keeps (same_tables k) (on_trg (on_db (new_id v)))"
  by (rule keeps_on_trg)

lemma create_cases:
  assumes "create_workflow z owner name graph description s = (res, u :: 'w site)"
  shows "tables u = tables s \<or> (\<exists>(s0 :: 'w site) r t. tables s0 = tables s \<and> add_flow r s0 = (Inr (), t) \<and> fw_version r = 1
    \<and> fw_status r = ''draft'' \<and> tables u = tables t)"
proof -
  obtain p where p: "parsed graph = p" by simp
  show ?thesis
  proof (cases p)
    case (Inl e)
    with p assms show ?thesis by (simp add: create_workflow_def sbind_def slift_eq)
  next
    case (Inr g)
    show ?thesis
    proof (cases "strip name = []")
      case True
      with Inr p assms show ?thesis by (simp add: create_workflow_def sbind_def slift_eq sthrow_def)
    next
      case False
      obtain now t1 where c: "clock z s = (Inr now, t1)" "tables t1 = tables s" using clock_runs[of z s] by (auto simp: tables_def)
      obtain i t2 where i: "on_trg (on_db (new_id (z_run z))) t1 = (i, t2)" by (cases "on_trg (on_db (new_id (z_run z))) t1")
      have t2: "tables t2 = tables t1" using keeps_tables[OF keeps_new_flow_id[of _ "z_run z"], of t1] i by simp
      show ?thesis
      proof (cases i)
        case (Inl e)
        with assms Inr p False c i t2 show ?thesis by (auto simp: create_workflow_def sbind_def slift_eq)
      next
        case i': (Inr wid)
        show ?thesis
        proof (cases "domain_of owner")
          case (Inl e)
          with assms Inr p False c i i' t2 show ?thesis
            by (auto simp: create_workflow_def sbind_def slift_eq liftc_def map_err_def)
        next
          case d: (Inr dom)
          let ?r = "\<lparr>fw_id = wid, fw_name = strip name, fw_description = description, fw_owner = owner,
            fw_org = Some dom, fw_graph = stored_text g, fw_status = ''draft'', fw_version = 1, fw_created = now, fw_updated = now\<rparr>"
          let ?m = "sbind (sync z wid owner (lean_graph g) ''draft'') (\<lambda>_. get_workflow wid owner)"
          have e: "sbind (in_tx (add_flow ?r)) (\<lambda>_. ?m) t2 = (res, u)"
            using assms p Inr False c(1) i i' d by (simp add: create_workflow_def sbind_def slift_eq liftc_def map_err_def)
          obtain x t where x: "in_tx (add_flow ?r) t2 = (x, t)" by (cases "in_tx (add_flow ?r) t2")
          have k: "tables (snd (?m t)) = tables t" by (rule keeps_tables) (intro keeps_intros)
          have b: "(case x of Inl e' \<Rightarrow> (Inl e', t) | Inr y \<Rightarrow> ?m t) = (res, u)"
            using e x by (simp add: sbind_def[of "in_tx (add_flow ?r)"] split: sum.split)
          show ?thesis
          proof (cases x)
            case (Inl e')
            with x have "tables t = tables t2" using in_tx_Inl by blast
            with b Inl c(2) t2 show ?thesis by simp
          next
            case (Inr y)
            with b have "?m t = (res, u)" by simp
            with x Inr k have "add_flow ?r t2 = (Inr (), t)" "tables u = tables t" by simp_all
            with c(2) t2 show ?thesis by (intro disjI2 exI[of _ t2] exI[of _ ?r] exI[of _ t]) simp
          qed
        qed
      qed
    qed
  qed
qed

lemma steps_create:
  fixes s :: "'w site"
  assumes "set (st_flows s) \<subseteq> seen" and fresh: "draws_fresh seen s (snd (create_workflow z owner name graph description s))"
  shows "flow_steps zs s seen (snd (create_workflow z owner name graph description s))"
proof -
  obtain res u where u: "create_workflow z owner name graph description s = (res, u)" by (cases "create_workflow z owner name graph description s")
  from create_cases[OF u] show ?thesis
  proof (elim disjE exE conjE)
    assume "tables u = tables s"
    with assms u show ?thesis by (simp add: steps_same)
  next
    fix s0 t :: "'w site" and r assume h: "tables s0 = tables s" "add_flow r s0 = (Inr (), t)" "fw_version r = 1" "fw_status r = ''draft''" "tables u = tables t"
    have t: "st_flows t = st_flows s0 @ [r]" "fw_id r \<notin> fw_id ` set (st_flows s0)"
      using h(2) by (auto simp: add_flow_def sbind_def sget_def sthrow_def smod_def split: if_splits)
    have fl: "st_flows u = st_flows s @ [r]" "r \<notin> set (st_flows s)" using t h(1,5) by (auto simp: tables_def)
    then have "fw_id r \<notin> fw_id ` seen" using fresh h(3) u by (auto simp: draws_fresh_def)
    with h have "flow_step zs (s0, seen) (t, seen \<union> set (st_flows t))" by (intro Created[of r]) auto
    from steps_then[OF this h(5)] have "flow_steps zs s0 seen u" .
    moreover have "flow_step zs (s, seen) (s0, seen)" by (rule Elsewhere) (rule h(1))
    ultimately have "flow_steps zs s seen u" by (rule converse_rtranclp_into_rtranclp[rotated])
    with u show ?thesis by simp
  qed
qed

lemma steps_duplicate:
  assumes "set (st_flows s) \<subseteq> seen" and fresh: "draws_fresh seen s (snd (duplicate_workflow z wid owner s))"
  shows "flow_steps zs s seen (snd (duplicate_workflow z wid owner s))"
proof (cases "fst (read_row wid owner s)")
  case (Inl e)
  then have "read_row wid owner s = (Inl e, s)"
    by (auto simp: read_row_def fetch_flow_def sbind_def sget_def sthrow_def sret_def split: option.splits)
  then show ?thesis using assms(1) by (simp add: duplicate_workflow_def sbind_def steps_same)
next
  case (Inr r)
  then have r: "read_row wid owner s = (Inr r, s)"
    by (auto simp: read_row_def fetch_flow_def sbind_def sget_def sthrow_def sret_def split: option.splits)
  show ?thesis
  proof (cases "graph_of (fw_graph r)")
    case (Inl e)
    with r assms(1) show ?thesis by (simp add: duplicate_workflow_def sbind_def steps_same liftc_def map_err_def slift_eq)
  next
    case g: (Inr g)
    have "duplicate_workflow z wid owner s = create_workflow z owner (fw_name r @ '' (copie)'') g (fw_description r) s"
      by (simp add: duplicate_workflow_def sbind_def r g liftc_def map_err_def slift_eq)
    with steps_create[OF assms(1)] fresh show ?thesis by simp
  qed
qed

datatype flow_op =
    Create string string pyval "string option"
  | Update string string int edit
  | Restore string nat string
  | Delete string string
  | Duplicate string string

fun perform :: "'w tenv \<Rightarrow> flow_op \<Rightarrow> 'w site \<Rightarrow> 'w site" where
  "perform z (Create owner name graph description) s = snd (create_workflow z owner name graph description s)"
| "perform z (Update wid owner expected rq) s = snd (update_workflow z wid owner expected rq s)"
| "perform z (Restore wid i owner) s = snd (restore_revision z wid i owner s)"
| "perform z (Delete wid owner) s = snd (delete_workflow wid owner s)"
| "perform z (Duplicate wid owner) s = snd (duplicate_workflow z wid owner s)"

lemma reach_rows: "flow_reach zs s seen \<Longrightarrow> set (st_flows s) \<subseteq> seen"
  using flow_reach_ok[of zs s seen] by (simp add: history_ok_def)

text \<open>C24. Creating, updating, restoring, deleting and duplicating workflows, in surroundings \<open>z\<close> of the set \<open>zs\<close>, are
  sequences of the steps of the concurrent model: from a history it reaches, with an identifier that was never
  used, they lead to one it reaches.\<close>

theorem operations_are_flow_steps:
  assumes "flow_reach zs s seen" "z \<in> zs" "draws_fresh seen s (perform z op s)"
  shows "flow_reach zs (perform z op s) (seen \<union> set (st_flows (perform z op s)))"
proof -
  note rows = reach_rows[OF assms(1)]
  have "flow_steps zs s seen (perform z op s)"
    using assms(3) steps_update[OF assms(2) rows] steps_restore[OF assms(2) rows] steps_delete[OF rows] steps_create[OF rows] steps_duplicate[OF rows]
    by (cases op) simp_all
  with assms(1) show ?thesis unfolding flow_reach_def by (meson rtranclp_trans)
qed

subsection \<open>Every version reads back\<close>

lemma flow_found:
  assumes "distinct (map fw_id rows)" "w \<in> set rows"
  shows "find (\<lambda>r. fw_id r = fw_id w \<and> fw_owner r = fw_owner w) rows = Some w"
  using assms by (induction rows) force+

lemma latest_archived:
  assumes "rs \<noteq> []" "\<And>v. v \<in> set rs \<Longrightarrow> rv_graph v = x"
  shows "\<exists>v. latest rs = Some v \<and> rv_graph v = x"
proof -
  have "last (sort_key rv_id rs) \<in> set (sort_key rv_id rs)" using assms(1) by (intro last_in_set) (metis length_0_conv length_sort)
  then have "rv_graph (last (sort_key rv_id rs)) = x" using assms(2) by simp
  moreover have "latest rs = Some (last (sort_key rv_id rs))" using assms(1) by (cases rs) (simp_all add: latest_def)
  ultimately show ?thesis by simp
qed

lemma liftc_eq: "liftc r s = (map_err (\<lambda>e. Crashed (Failed e)) r, s)"
  by (simp add: liftc_def slift_eq)

text \<open>C25. Whatever edits, publications and restorations interleaved, each version of a workflow that exists was
  written once, and reading it back gives the graph it had: a replay runs what its run ran.\<close>

theorem every_version_reads_back:
  assumes "flow_reach zs s seen" "w \<in> set (st_flows s)" "1 \<le> n" "n \<le> fw_version w"
  shows "(\<exists>r \<in> seen. fw_id r = fw_id w \<and> fw_version r = n)
    \<and> (\<forall>r \<in> seen. fw_id r = fw_id w \<and> fw_version r = n \<longrightarrow>
        fst (get_workflow_graph_at (fw_id w) n (fw_owner w) s) = map_err (\<lambda>e. Crashed (Failed e)) (map_sum id Some (graph_of (fw_graph r))))"
proof -
  note ok = flow_reach_ok[OF assms(1)]
  have d: "distinct (map fw_id (st_flows s))" and o': "in_order seen (st_revs s) w" using ok assms(2) by (auto simp: history_ok_def)
  note f = flow_found[OF d assms(2)]
  have read: "fst (get_workflow_graph_at (fw_id w) n (fw_owner w) s) = map_err (\<lambda>e. Crashed (Failed e)) (map_sum id Some (graph_of (fw_graph r)))"
    if r: "r \<in> seen" "fw_id r = fw_id w" "fw_version r = n" for r
  proof (cases "fw_version w = n")
    case True
    with in_order_newest[OF o' r(1,2)] r(3) have "r = w" by simp
    with True show ?thesis
      by (cases "graph_of (fw_graph w)") (simp_all add: get_workflow_graph_at_def sbind_def fetch_flow_def sget_def f liftc_eq map_err_def sret_def)
  next
    case False
    with assms(4) r(3) have older: "fw_version r < fw_version w" by simp
    let ?rs = "filter (\<lambda>v. rv_flow v = fw_id w \<and> rv_owner v = fw_owner w \<and> rv_version v = n) (st_revs s)"
    have owner: "fw_owner r = fw_owner w" using in_order_newest[OF o' r(1,2)] by simp
    have "(\<exists>v \<in> set (st_revs s). archived r v) \<and> (\<forall>v \<in> set (st_revs s). rv_flow v = fw_id r \<and> rv_version v = fw_version r \<longrightarrow> archived r v)"
      using o' r(1,2) older by (simp add: in_order_def)
    then have "?rs \<noteq> []" "\<And>v. v \<in> set ?rs \<Longrightarrow> rv_graph v = fw_graph r"
      using r owner by (auto simp: filter_empty_conv archived_def)
    from latest_archived[OF this] obtain v where "latest ?rs = Some v" "rv_graph v = fw_graph r" by blast
    with False show ?thesis
      by (cases "graph_of (fw_graph r)") (simp_all add: get_workflow_graph_at_def sbind_def fetch_flow_def sget_def f liftc_eq map_err_def sret_def)
  qed
  have "\<exists>r \<in> seen. fw_id r = fw_id w \<and> fw_version r = n" using o' assms(3,4) by (simp add: in_order_def)
  with read show ?thesis by blast
qed

subsection \<open>One writer per version\<close>

lemma steps_seen: "(flow_step zs)\<^sup>*\<^sup>* x y \<Longrightarrow> snd x \<subseteq> snd y"
proof (induction rule: rtranclp_induct)
  case (step y u)
  then show ?case by (auto elim!: flow_step.cases)
qed simp

text \<open>C26. A write that commits rests on the row it read, however long ago it read it, and no other write that read
  that row commits after it: an edit is never lost.\<close>

theorem one_writer_per_version:
  assumes "flow_reach zs s seen" "z \<in> zs" "r \<in> seen" "planned (e_venv (z_run z)) r ch" "replace_row z r reason ch s = (Inr (), t)"
    and "(flow_step zs)\<^sup>*\<^sup>* (t, seen \<union> set (st_flows t)) (u, later)"
  shows "r \<in> set (st_flows s) \<and> (\<exists>now. apply_changes ch (fw_version r + 1) now r \<in> set (st_flows t))
    \<and> fst (replace_row z' r reason' ch' u) \<noteq> Inr ()"
proof -
  note ok = flow_reach_ok[OF assms(1)] and e = replace_row_exact[OF assms(5)]
  note cur = unchanged_current[OF ok assms(3) e(1)]
  have "unchanged r r" by (simp add: unchanged_def)
  moreover obtain now where "st_flows t = changed (unchanged r) (apply_changes ch (fw_version r + 1) now) (st_flows s)"
    using e(2) by (auto simp: tables_def)
  ultimately have new: "apply_changes ch (fw_version r + 1) now r \<in> set (st_flows t)" using cur(1) by (auto simp: set_changed)
  have step: "flow_step zs (s, seen) (t, seen \<union> set (st_flows t))" using assms(2,3,4,5) by (rule Written)
  have "flow_reach zs u later"
    using assms(1,6) step unfolding flow_reach_def by (meson rtranclp.rtrancl_into_rtrancl rtranclp_trans)
  note ok' = flow_reach_ok[OF this]
  have later: "apply_changes ch (fw_version r + 1) now r \<in> later" "r \<in> later"
    using steps_seen[OF assms(6)] new assms(3) by auto
  have "fst (replace_row z' r reason' ch' u) \<noteq> Inr ()"
  proof
    assume "fst (replace_row z' r reason' ch' u) = Inr ()"
    then obtain v where "replace_row z' r reason' ch' u = (Inr (), v)" by (metis prod.collapse)
    from replace_row_exact(1)[OF this] have "r \<in> set (st_flows u)" using unchanged_current[OF ok' later(2)] by simp
    then have "in_order later (st_revs u) r" using ok' by (simp add: history_ok_def)
    from in_order_newest[OF this later(1)] have "apply_changes ch (fw_version r + 1) now r = r \<or> fw_version r + 1 < fw_version r"
      by simp
    then show False using apply_changes_sel(3)[of ch "fw_version r + 1" now r] by auto
  qed
  with cur(1) new show ?thesis by blast
qed

subsection \<open>What is published is valid\<close>

lemma check_workflow_valid:
  assumes "check_workflow env v wid owner = Inr None"
  shows "\<exists>g. parse_graph v = Some g \<and> validate_graph (env\<lparr>v_workflow := wid, v_owner := owner\<rparr>) g = Inr ()"
proof (cases "parse_graph v")
  case None
  with assms show ?thesis by (simp add: check_workflow_def parsed_graph_def ebind_def of_opt_def INVALID_WORKFLOW_def)
next
  case (Some g)
  with assms show ?thesis
    by (cases "validate_graph (env\<lparr>v_workflow := wid, v_owner := owner\<rparr>) g")
      (auto simp: check_workflow_def parsed_graph_def ebind_def of_opt_def split: exn.splits)
qed

lemma passed_valid:
  assumes "passed env w"
  shows "\<exists>v g. json_loads (fw_graph w) = Some v \<and> parse_graph v = Some g
    \<and> validate_graph (env\<lparr>v_workflow := Some (fw_id w), v_owner := Some (fw_owner w)\<rparr>) g = Inr ()"
  using assms check_workflow_valid by (auto simp: passed_def)

lemma published_passed:
  assumes "flow_reach zs s seen" "w \<in> set (st_flows s)" "fw_status w = ''published''"
  shows "\<exists>z \<in> zs. \<exists>v g. json_loads (fw_graph w) = Some v \<and> parse_graph v = Some g
    \<and> validate_graph ((e_venv (z_run z))\<lparr>v_workflow := Some (fw_id w), v_owner := Some (fw_owner w)\<rparr>) g = Inr ()"
proof -
  obtain z where "z \<in> zs" "passed (e_venv (z_run z)) w" using flow_reach_ok[OF assms(1)] assms(2,3) by (auto simp: history_ok_def)
  with passed_valid show ?thesis by blast
qed

text \<open>The row of a workflow after a write of it that commits.\<close>

lemma written_row:
  assumes "flow_reach zs s seen" "r \<in> seen" "replace_row z r reason ch s = (Inr (), t)" "w \<in> set (st_flows t)" "fw_id w = fw_id r"
  shows "\<exists>now. w = apply_changes ch (fw_version r + 1) now r"
proof -
  note ok = flow_reach_ok[OF assms(1)] and e = replace_row_exact[OF assms(3)]
  note cur = unchanged_current[OF ok assms(2) e(1)]
  have d: "distinct (map fw_id (st_flows s))" using ok by (auto simp: history_ok_def)
  obtain now where f: "st_flows t = changed (unchanged r) (apply_changes ch (fw_version r + 1) now) (st_flows s)"
    using e(2) by (auto simp: tables_def)
  have "unchanged r r" by (simp add: unchanged_def)
  then show ?thesis using assms(4,5) cur(1) d unfolding f
    by (auto simp: changed_def distinct_map inj_on_def unchanged_def split: if_splits intro!: exI[of _ now])
qed

text \<open>C27. A published workflow holds a graph that reads back and passed every check of the validation when it
  was written.  In any history, whose writes have surroundings of their own (the instant, the tool names, the other
  workflows), the graph of a workflow that is published now passed the checks in the surroundings of a write of that
  history.  And each write that commits and leaves its workflow published has validated, in its own surroundings, the
  graph it leaves; only a write that sends neither a graph nor a status does not, and it leaves the graph of a workflow
  that was published before.  (What passed once may fail later: a workflow published to start at an instant
  fails the check once this instant is past.)\<close>

theorem published_is_valid:
  assumes "flow_reach zs s seen"
  shows "(\<forall>w \<in> set (st_flows s). fw_status w = ''published'' \<longrightarrow> (\<exists>z \<in> zs. \<exists>v g. json_loads (fw_graph w) = Some v \<and> parse_graph v = Some g
      \<and> validate_graph ((e_venv (z_run z))\<lparr>v_workflow := Some (fw_id w), v_owner := Some (fw_owner w)\<rparr>) g = Inr ()))
    \<and> (\<forall>z r ch reason t w. r \<in> seen \<and> planned (e_venv (z_run z)) r ch \<and> replace_row z r reason ch s = (Inr (), t)
        \<and> w \<in> set (st_flows t) \<and> fw_id w = fw_id r \<and> fw_status w = ''published'' \<longrightarrow>
      (\<exists>v g. json_loads (fw_graph w) = Some v \<and> parse_graph v = Some g
        \<and> validate_graph ((e_venv (z_run z))\<lparr>v_workflow := Some (fw_id w), v_owner := Some (fw_owner w)\<rparr>) g = Inr ())
      \<or> ch_graph ch = None \<and> ch_status ch = None \<and> fw_status r = ''published'' \<and> fw_graph w = fw_graph r)"
proof (intro conjI ballI impI allI)
  fix w assume "w \<in> set (st_flows s)" "fw_status w = ''published''"
  then show "\<exists>z \<in> zs. \<exists>v g. json_loads (fw_graph w) = Some v \<and> parse_graph v = Some g
      \<and> validate_graph ((e_venv (z_run z))\<lparr>v_workflow := Some (fw_id w), v_owner := Some (fw_owner w)\<rparr>) g = Inr ()"
    by (rule published_passed[OF assms])
next
  fix z r ch reason t w
  assume a: "r \<in> seen \<and> planned (e_venv (z_run z)) r ch \<and> replace_row z r reason ch s = (Inr (), t)
    \<and> w \<in> set (st_flows t) \<and> fw_id w = fw_id r \<and> fw_status w = ''published''"
  then obtain now where w: "w = apply_changes ch (fw_version r + 1) now r" using written_row[OF assms, of r z reason ch t w] by blast
  from a have "fw_status (apply_changes ch (fw_version r + 1) now r) = ''published''" by (simp add: w)
  from planned_passed[OF _ this] a show "(\<exists>v g. json_loads (fw_graph w) = Some v \<and> parse_graph v = Some g
        \<and> validate_graph ((e_venv (z_run z))\<lparr>v_workflow := Some (fw_id w), v_owner := Some (fw_owner w)\<rparr>) g = Inr ())
      \<or> ch_graph ch = None \<and> ch_status ch = None \<and> fw_status r = ''published'' \<and> fw_graph w = fw_graph r"
    unfolding w[symmetric] using passed_valid by blast
qed

lemma launched_published:
  assumes "launch_triggered_run z wid owner kind detail payload t = (Inr i, t')"
  shows "\<exists>d g. e_workflow (z_run z) wid owner = Some d \<and> get0 d ''status'' = PStr ''published''
    \<and> Option.bind (dget d ''graph'') parse_graph = Some g"
  using assms by (auto simp: launch_triggered_run_def sbind_Inr liftf_eq sthrow_def getitem_def parsed_graph_def map_err_def of_opt_def
    split: option.splits if_splits sum.splits)

text \<open>C28. When triggers look workflows up in this store, a run that a trigger starts runs the stored graph of a
  published workflow of this owner, which passed the validation in the surroundings of a write of the history.\<close>

theorem triggered_runs_are_valid:
  assumes "flow_reach zs s seen"
    and "e_workflow (z_run z) wid owner = (case fst (get_workflow wid owner s) of Inr d \<Rightarrow> d | Inl _ \<Rightarrow> None)"
    and "launch_triggered_run z wid owner kind detail payload t = (Inr i, t')"
  shows "\<exists>w \<in> set (st_flows s). \<exists>v g. \<exists>y \<in> zs. fw_id w = wid \<and> fw_owner w = owner \<and> fw_status w = ''published'' \<and> json_loads (fw_graph w) = Some v
    \<and> dget (the (e_workflow (z_run z) wid owner)) ''graph'' = Some v \<and> parse_graph v = Some g
    \<and> validate_graph ((e_venv (z_run y))\<lparr>v_workflow := Some wid, v_owner := Some owner\<rparr>) g = Inr ()"
proof -
  obtain d where d: "e_workflow (z_run z) wid owner = Some d" "get0 d ''status'' = PStr ''published''"
    using launched_published[OF assms(3)] by blast
  then have "fst (get_workflow wid owner s) = Inr (Some d)" using assms(2) by (cases "fst (get_workflow wid owner s)") auto
  then obtain w where w: "find (\<lambda>r. fw_id r = wid \<and> fw_owner r = owner) (st_flows s) = Some w" and dict: "flow_dict w = Inr d"
    by (auto simp: get_workflow_def sbind_def fetch_flow_def sget_def sret_def liftc_eq map_err_def split: option.splits sum.splits)
  then obtain v where v: "json_loads (fw_graph w) = Some v" "d = flow_fields w @ [(''graph'', v)]"
    by (auto simp: flow_dict_def graph_of_def of_opt_def split: option.splits)
  have "get0 d ''status'' = PStr (fw_status w)" "dget d ''graph'' = Some v"
    by (simp_all add: v(2) flow_fields_def get0_def dget_def)
  with d(2) have "fw_status w = ''published''" "dget d ''graph'' = Some v" by simp_all
  moreover have "w \<in> set (st_flows s)" "fw_id w = wid" "fw_owner w = owner" using w by (auto simp: find_Some_iff)
  ultimately show ?thesis using published_passed[OF assms(1), of w] v(1) d(1) by auto
qed


subsection \<open>A workflow that is published\<close>

definition flow_text :: string where
  "flow_text = ''{\"nodes\":[{\"id\":\"t\",\"type\":\"trigger\"},{\"id\":\"o\",\"type\":\"output\"}],\"edges\":[{\"source\":\"t\",\"target\":\"o\"}]}''"

definition draft_row :: flow_row where
  "draft_row = \<lparr>fw_id = ''w1'', fw_name = ''flow'', fw_description = None, fw_owner = ''ann'', fw_org = None, fw_graph = flow_text,
     fw_status = ''draft'', fw_version = 1, fw_created = [], fw_updated = []\<rparr>"

definition empty_site :: "unit site" where
  "empty_site = \<lparr>st_flows = [], st_revs = [], st_next = 0, st_shapes = [], st_trg = demo_flows\<rparr>"

definition draft_site :: "unit site" where "draft_site = empty_site\<lparr>st_flows := [draft_row]\<rparr>"

definition publishing :: changes where "publishing = no_changes\<lparr>ch_status := Some ''published''\<rparr>"

lemma draft_graph: "graph_of flow_text = Inr demo_graph"
  unfolding flow_text_def by code_simp

lemma draft_passes: "check_workflow example_env demo_graph (Some ''w1'') (Some ''ann'') = Inr None"
  by code_simp

lemma draft_plan: "plan_update example_env draft_row \<lparr>rq_name = None, rq_description = None, rq_graph = PNone, rq_status = Some ''published''\<rparr>
    = Inr publishing"
  by (simp add: plan_update_def new_name_def new_graph_def new_status_def STATUSES_def either_def ebind_def publishable_def
    draft_row_def draft_graph draft_passes map_err_def publishing_def no_changes_def)

lemma draft_created: "flow_reach zs draft_site {draft_row}"
proof -
  have "add_flow draft_row empty_site = (Inr (), draft_site)"
    by (simp add: add_flow_def sbind_def sget_def smod_def empty_site_def draft_site_def)
  then have "flow_step zs (empty_site, {}) (draft_site, {} \<union> set (st_flows draft_site))"
    by (rule Created) (simp_all add: draft_row_def)
  moreover have "newborn empty_site" by (simp add: newborn_def empty_site_def)
  moreover have "{} \<union> set (st_flows draft_site) = {draft_row}" by (simp add: draft_site_def)
  ultimately show ?thesis unfolding flow_reach_def by (metis r_into_rtranclp)
qed

lemma draft_published:
  assumes "e_venv (z_run z) = example_env"
  obtains s w where "replace_row z draft_row ''publish'' publishing draft_site = (Inr (), s)" "planned example_env draft_row publishing"
    "st_flows s = [w]" "fw_version w = 2" "fw_status w = ''published''" "fw_graph w = flow_text" "fw_id w = ''w1''" "fw_owner w = ''ann''"
    "flow_reach {z} s {draft_row, w}"
proof -
  have u: "unchanged draft_row draft_row" by (simp add: unchanged_def)
  have "fst (replace_row z draft_row ''publish'' publishing draft_site) = Inr ()"
  proof -
    obtain now t where a: "archive z draft_row ''publish'' draft_site = (Inr (), draft_site\<lparr>st_trg := t,
        st_revs := st_revs draft_site @ [revision_of draft_row (st_next draft_site) now ''publish''],
        st_next := Suc (st_next draft_site)\<rparr>)" (is "_ = (_, ?s)") using archive_exact by blast
    have "st_flows ?s = [draft_row]" by (simp add: draft_site_def)
    then have "fst (write_if_unchanged z draft_row publishing ?s) = Inr ()"
      using write_exact[of z draft_row publishing ?s] u by auto
    with a show ?thesis by (simp add: replace_row_def sbind_def)
  qed
  then obtain s where s: "replace_row z draft_row ''publish'' publishing draft_site = (Inr (), s)" by (metis prod.collapse)
  obtain now where f: "st_flows s = [apply_changes publishing 2 now draft_row]"
    using replace_row_exact(2)[OF s] u by (auto simp: tables_def changed_def draft_site_def) (simp add: draft_row_def)
  have p: "planned example_env draft_row publishing" using draft_plan by (auto simp: planned_def)
  have "flow_step {z} (draft_site, {draft_row}) (s, {draft_row} \<union> set (st_flows s))"
    by (rule Written[OF _ _ _ s]) (use p assms in auto)
  moreover obtain s0 :: "unit site" where "newborn s0" "(flow_step {z})\<^sup>*\<^sup>* (s0, {}) (draft_site, {draft_row})"
    using draft_created[of "{z}"] by (auto simp: flow_reach_def)
  ultimately have "flow_reach {z} s {draft_row, apply_changes publishing 2 now draft_row}"
    unfolding flow_reach_def by (intro exI[of _ s0]) (auto simp: f insert_commute intro: rtranclp.rtrancl_into_rtrancl)
  then show ?thesis by (intro that[OF s p f]) (simp_all add: publishing_def no_changes_def either_def draft_row_def)
qed

lemma trg_env_checks: "e_venv (z_run trg_env) = example_env"
  by (simp add: trg_env_def published_env_def)

lemma every_version_reads_back_witness:
  "\<exists>s w. flow_reach {trg_env} s {draft_row, w} \<and> fw_version w = 2
    \<and> fst (get_workflow_graph_at ''w1'' 1 ''ann'' s) = Inr (Some demo_graph)"
proof -
  obtain s w where w: "st_flows s = [w]" "fw_version w = 2" "fw_id w = ''w1''" "fw_owner w = ''ann''" "flow_reach {trg_env} s {draft_row, w}"
    by (rule draft_published[OF trg_env_checks])
  have d: "fw_id draft_row = ''w1''" "fw_version draft_row = 1" "graph_of (fw_graph draft_row) = Inr demo_graph"
    using draft_graph by (simp_all add: draft_row_def)
  from every_version_reads_back[OF w(5), of w 1] w(1-4) d show ?thesis
    by (intro exI[of _ s] exI[of _ w]) (simp add: w(5) map_err_def)
qed

lemma one_writer_per_version_witness:
  "\<exists>s. replace_row trg_env draft_row ''publish'' publishing draft_site = (Inr (), s)
    \<and> fst (replace_row trg_env draft_row ''edit'' publishing s) \<noteq> Inr ()"
proof -
  obtain s where s: "replace_row trg_env draft_row ''publish'' publishing draft_site = (Inr (), s)" "planned example_env draft_row publishing"
    by (rule draft_published[OF trg_env_checks])
  then have "planned (e_venv (z_run trg_env)) draft_row publishing" by (simp add: trg_env_checks)
  from one_writer_per_version[OF draft_created[of "{trg_env}"] _ _ this s(1) rtranclp.rtrancl_refl] s(1) show ?thesis by blast
qed

lemma published_is_valid_witness:
  "\<exists>s w. flow_reach {trg_env} s {draft_row, w} \<and> fw_status w = ''published''
    \<and> (\<exists>v g. json_loads (fw_graph w) = Some v \<and> parse_graph v = Some g
      \<and> validate_graph (example_env\<lparr>v_workflow := Some ''w1'', v_owner := Some ''ann''\<rparr>) g = Inr ())"
proof -
  obtain s w where w: "st_flows s = [w]" "fw_status w = ''published''" "fw_id w = ''w1''" "fw_owner w = ''ann''" "flow_reach {trg_env} s {draft_row, w}"
    by (rule draft_published[OF trg_env_checks])
  from conjunct1[OF published_is_valid[OF w(5)]] w show ?thesis by (auto simp: trg_env_checks)
qed

text \<open>Surroundings in which the triggers read this store.\<close>

definition reading_env :: "unit site \<Rightarrow> unit tenv" where
  "reading_env s = trg_env\<lparr>z_run := published_env\<lparr>e_workflow := (\<lambda>wid owner. case fst (get_workflow wid owner s) of Inr d \<Rightarrow> d | Inl _ \<Rightarrow> None)\<rparr>\<rparr>"

lemma reading_launches:
  assumes "st_flows s = [w]" "fw_id w = ''w1''" "fw_owner w = ''ann''" "fw_status w = ''published''" "fw_graph w = flow_text"
  shows "\<exists>t. launch_triggered_run (reading_env s) ''w1'' ''ann'' kind detail payload demo_flows = (Inr ''r1'', t)"
proof -
  have "map_option (\<lambda>_. ()) (parse_graph demo_graph) = Some ()" by code_simp
  then obtain g where g: "parse_graph demo_graph = Some g" by auto
  have W: "fst (get_workflow ''w1'' ''ann'' s) = Inr (Some (flow_fields w @ [(''graph'', demo_graph)]))"
    using assms by (simp add: get_workflow_def sbind_def fetch_flow_def sget_def sret_def liftc_eq map_err_def flow_dict_def draft_graph)
  have F: "get0 (flow_fields w @ [(''graph'', demo_graph)]) ''status'' = PStr ''published''"
    "dget (flow_fields w @ [(''graph'', demo_graph)]) ''graph'' = Some demo_graph"
    "\<exists>v. dget (flow_fields w @ [(''graph'', demo_graph)]) ''version'' = Some v"
    using assms(4) by (simp_all add: flow_fields_def get0_def dget_def)
  have i: "u_id (new_row v a i now) = i" for v :: "unit renv" and a i now by (simp add: new_row_def Let_def)
  show ?thesis
    using F by (auto simp: launch_triggered_run_def reading_env_def trg_env_def published_env_def W getitem_def of_opt_def sbind_def liftf_eq
      map_err_def parsed_graph_def g run_bindings_def on_db_eq new_id_def demo_def start_run_def launch_args_def sret_def
      now_text_def local_now_def utc_now_def Let_def stry_def insert_row_eq i demo_flows_def)
qed

lemma triggered_runs_are_valid_witness:
  "\<exists>s t w. launch_triggered_run (reading_env s) ''w1'' ''ann'' ''manual'' [] PNone demo_flows = (Inr ''r1'', t)
    \<and> st_flows s = [w] \<and> fw_status w = ''published'' \<and> (\<exists>v g. json_loads (fw_graph w) = Some v \<and> parse_graph v = Some g
      \<and> validate_graph (example_env\<lparr>v_workflow := Some ''w1'', v_owner := Some ''ann''\<rparr>) g = Inr ())"
proof -
  obtain s w where w: "st_flows s = [w]" "fw_status w = ''published''" "fw_graph w = flow_text" "fw_id w = ''w1''" "fw_owner w = ''ann''"
    "flow_reach {trg_env} s {draft_row, w}"
    by (rule draft_published[OF trg_env_checks])
  obtain t where t: "launch_triggered_run (reading_env s) ''w1'' ''ann'' ''manual'' [] PNone demo_flows = (Inr ''r1'', t)"
    using reading_launches[OF w(1,4,5,2,3)] by blast
  have "e_workflow (z_run (reading_env s)) ''w1'' ''ann'' = (case fst (get_workflow ''w1'' ''ann'' s) of Inr d \<Rightarrow> d | Inl _ \<Rightarrow> None)"
    by (simp add: reading_env_def published_env_def)
  from triggered_runs_are_valid[OF w(6) this t] w(1,2) t show ?thesis by (auto simp: trg_env_checks)
qed

lemma operations_are_flow_steps_witness:
  "\<exists>w. fw_status w = ''published'' \<and> st_flows (perform trg_env
      (Update ''w1'' ''ann'' 1 \<lparr>rq_name = None, rq_description = None, rq_graph = PNone, rq_status = Some ''published''\<rparr>) draft_site) = [w]
    \<and> flow_reach {trg_env} (perform trg_env
      (Update ''w1'' ''ann'' 1 \<lparr>rq_name = None, rq_description = None, rq_graph = PNone, rq_status = Some ''published''\<rparr>) draft_site) {draft_row, w}"
    (is "\<exists>w. _ \<and> st_flows ?t = _ \<and> _")
proof -
  obtain s w where w: "replace_row trg_env draft_row ''publish'' publishing draft_site = (Inr (), s)" "st_flows s = [w]"
    "fw_version w = 2" "fw_status w = ''published''"
    by (rule draft_published[OF trg_env_checks])
  have r: "read_row ''w1'' ''ann'' draft_site = (Inr draft_row, draft_site)"
    by (simp add: read_row_Inr draft_site_def draft_row_def)
  have p: "plan_update (e_venv (z_run trg_env)) draft_row
      \<lparr>rq_name = None, rq_description = None, rq_graph = PNone, rq_status = Some ''published''\<rparr> = Inr publishing"
    using draft_plan by (simp add: trg_env_checks)
  have n: "publishing \<noteq> no_changes" "update_reason (fw_status draft_row) publishing = ''publish''" "fw_version draft_row = 1"
    by (simp_all add: publishing_def no_changes_def update_reason_def draft_row_def)
  have "save_update trg_env ''w1'' ''ann'' 1 \<lparr>rq_name = None, rq_description = None, rq_graph = PNone, rq_status = Some ''published''\<rparr> draft_site
      = (Inr (draft_row, publishing), s)"
    unfolding save_update_def in_tx_Inr by (simp add: sbind_def r n p slift_eq w(1) sret_def)
  from update_after_save[OF this] w(2) have f: "st_flows ?t = [w]" by (simp add: tables_def)
  then have "draws_fresh {draft_row} draft_site ?t" using w(3) by (simp add: draws_fresh_def)
  from operations_are_flow_steps[OF draft_created[of "{trg_env}"] _ this] f w(4) show ?thesis by (simp add: insert_commute)
qed
end
