(* ===== verification/Al_Alert.thy ===== *)
theory Al_Alert
  imports Trg_Fire
begin

section \<open>Alerts of failed runs (\<open>core/workflow_alerts.py\<close>)\<close>

text \<open>
  An alert goes out once for a run and at most once an hour for a workflow.  The columns of \<open>agent_runs\<close>
  that reserve an alert or a notice are written by the statements \<open>notice_stmt\<close>; the slots of the workflows
  have a table of their own.  Mail and Teams are parameters, which answer that the message left, that they
  failed, or that the task was cancelled meanwhile.
\<close>

datatype sending = Left | Broke | Cut

record slot =
  sl_workflow :: string
  sl_owner :: string
  sl_sent :: string
  sl_grouped :: int

record letter =
  lt_channel :: string
  lt_to :: string
  lt_subject :: string
  lt_page :: string
  lt_body :: string

record 'w desk =
  dk_flows :: "'w flows"
  dk_slots :: "slot list"
  dk_letters :: "letter list"

text \<open>\<open>o_others\<close> is what other servers do to the table of slots between two transactions of this one.\<close>

record 'w outside =
  o_trg :: "'w tenv"
  o_mail :: "letter \<Rightarrow> 'w \<Rightarrow> sending \<times> 'w"
  o_teams :: "letter \<Rightarrow> 'w \<Rightarrow> sending \<times> 'w"
  o_others :: "'w \<Rightarrow> slot list \<Rightarrow> slot list"

text \<open>A cancellation is no \<open>Exception\<close>: the handlers of the module let it through.\<close>

datatype trouble = Cancelled | Trouble run_error

type_synonym ('w, 'a) dact = "('w desk, trouble, 'a) act"

definition on_flows :: "('w, 'a) fact \<Rightarrow> ('w, 'a) dact" where
  "on_flows m s = (case m (dk_flows s) of (r, t) \<Rightarrow> (map_err Trouble r, s\<lparr>dk_flows := t\<rparr>))"

definition liftd :: "'a res \<Rightarrow> ('w, 'a) dact" where
  "liftd r = slift (map_err (\<lambda>e. Trouble (Failed e)) r)"

definition desk_runs :: "'w desk \<Rightarrow> run_row list" where
  "desk_runs s = d_runs (fl_db (dk_flows s))"

text \<open>A message is tried: it joins \<open>dk_letters\<close>, whatever becomes of it.\<close>

definition post :: "(letter \<Rightarrow> 'w \<Rightarrow> sending \<times> 'w) \<Rightarrow> letter \<Rightarrow> ('w, sending) dact" where
  "post send m s = (let f = dk_flows s; d = fl_db f in
     case send m (d_world d) of (r, w) \<Rightarrow>
       (Inr r, s\<lparr>dk_flows := f\<lparr>fl_db := d\<lparr>d_world := w\<rparr>\<rparr>, dk_letters := dk_letters s @ [m]\<rparr>))"

definition send_mail :: "'w outside \<Rightarrow> string \<Rightarrow> string \<Rightarrow> string \<Rightarrow> ('w, sending) dact" where
  "send_mail e to subject body = post (o_mail e)
     \<lparr>lt_channel = ''mail'', lt_to = to, lt_subject = subject, lt_page = [], lt_body = body\<rparr>"

definition send_teams :: "'w outside \<Rightarrow> string \<Rightarrow> string \<Rightarrow> string \<Rightarrow> ('w, sending) dact" where
  "send_teams e to subject body = post (o_teams e)
     \<lparr>lt_channel = ''teams'', lt_to = to, lt_subject = subject, lt_page = [], lt_body = body\<rparr>"

subsection \<open>Reservations on the runs\<close>

text \<open>One constructor per \<open>UPDATE\<close> of this module and of \<open>decision_notices\<close>.\<close>

datatype notice_stmt =
    Claim_alert string
  | Settle_alert string string
  | Return_alert string
  | Take_notice string string
  | Return_notice string string
  | Take_reminder string string
  | Return_reminder string string
  | Take_end string
  | Return_end string

fun note_where :: "notice_stmt \<Rightarrow> run_row \<Rightarrow> bool" where
  "note_where (Claim_alert i) r = (u_id r = i \<and> u_alert r = None \<and> u_end_notice r = None)"
| "note_where (Settle_alert i _) r = (u_id r = i)"
| "note_where (Return_alert i) r = (u_id r = i)"
| "note_where (Take_notice i _) r = (u_id r = i \<and> u_status r = SAwaiting \<and> u_notified r = None)"
| "note_where (Return_notice i t) r = (u_id r = i \<and> u_notified r = Some t)"
| "note_where (Take_reminder i _) r = (u_id r = i \<and> u_status r = SAwaiting \<and> u_reminded r = None)"
| "note_where (Return_reminder i t) r = (u_id r = i \<and> u_reminded r = Some t)"
| "note_where (Take_end i) r = (u_id r = i \<and> u_end_notice r = Some ''pending'')"
| "note_where (Return_end i) r = (u_id r = i \<and> u_end_notice r = Some ''sent'')"

fun note_set :: "notice_stmt \<Rightarrow> run_row \<Rightarrow> run_row" where
  "note_set (Claim_alert _) r = r\<lparr>u_alert := Some ''claimed''\<rparr>"
| "note_set (Settle_alert _ x) r = r\<lparr>u_alert := Some x\<rparr>"
| "note_set (Return_alert _) r = r\<lparr>u_alert := None\<rparr>"
| "note_set (Take_notice _ t) r = r\<lparr>u_notified := Some t\<rparr>"
| "note_set (Return_notice _ _) r = r\<lparr>u_notified := None\<rparr>"
| "note_set (Take_reminder _ t) r = r\<lparr>u_reminded := Some t\<rparr>"
| "note_set (Return_reminder _ _) r = r\<lparr>u_reminded := None\<rparr>"
| "note_set (Take_end _) r = r\<lparr>u_end_notice := Some ''sent''\<rparr>"
| "note_set (Return_end _) r = r\<lparr>u_end_notice := Some ''pending''\<rparr>"

definition note_stmt :: "notice_stmt \<Rightarrow> run_row list \<Rightarrow> run_row list" where
  "note_stmt q rows = changed (note_where q) (note_set q) rows"

definition with_runs :: "run_row list \<Rightarrow> 'w desk \<Rightarrow> 'w desk" where
  "with_runs rows s = s\<lparr>dk_flows := (dk_flows s)\<lparr>fl_db := (fl_db (dk_flows s))\<lparr>d_runs := rows\<rparr>\<rparr>\<rparr>"

text \<open>\<open>_reserve\<close>, \<open>_claim\<close>: the row count of the \<open>UPDATE\<close>.\<close>

definition issue :: "notice_stmt \<Rightarrow> ('w, nat) dact" where
  "issue q s = (Inr (length (filter (note_where q) (desk_runs s))), with_runs (note_stmt q (desk_runs s)) s)"

definition settle_alert :: "string \<Rightarrow> string \<Rightarrow> ('w, unit) dact" where
  "settle_alert i outcome = sbind (issue (Settle_alert i outcome)) (\<lambda>_. sret ())"

subsection \<open>\<open>_take_slot\<close>\<close>

datatype slot_stmt =
    Open_slot string string string
  | Retake_slot string string string
  | Count_failure string
  | Hand_back string string int

fun slot_where :: "slot_stmt \<Rightarrow> slot \<Rightarrow> bool" where
  "slot_where (Open_slot _ _ _) x = False"
| "slot_where (Retake_slot w prior _) x = (sl_workflow x = w \<and> sl_sent x = prior)"
| "slot_where (Count_failure w) x = (sl_workflow x = w)"
| "slot_where (Hand_back w stamped _) x = (sl_workflow x = w \<and> sl_sent x = stamped)"

fun slot_set :: "slot_stmt \<Rightarrow> slot \<Rightarrow> slot" where
  "slot_set (Open_slot _ _ _) x = x"
| "slot_set (Retake_slot _ _ stamped) x = x\<lparr>sl_sent := stamped, sl_grouped := 0\<rparr>"
| "slot_set (Count_failure _) x = x\<lparr>sl_grouped := sl_grouped x + 1\<rparr>"
| "slot_set (Hand_back _ _ n) x = x\<lparr>sl_sent := [], sl_grouped := n\<rparr>"

definition run_slot :: "slot_stmt \<Rightarrow> slot list \<Rightarrow> slot list" where
  "run_slot q rows = (case q of
     Open_slot w owner stamped \<Rightarrow> if w \<in> sl_workflow ` set rows then rows
       else rows @ [\<lparr>sl_workflow = w, sl_owner = owner, sl_sent = stamped, sl_grouped = 0\<rparr>]
   | _ \<Rightarrow> changed (slot_where q) (slot_set q) rows)"

text \<open>The row count of an \<open>UPDATE\<close>; 1 for an \<open>INSERT\<close> that no row prevents.\<close>

definition slot_count :: "slot_stmt \<Rightarrow> slot list \<Rightarrow> nat" where
  "slot_count q rows = (case q of
     Open_slot w _ _ \<Rightarrow> if w \<in> sl_workflow ` set rows then 0 else 1
   | _ \<Rightarrow> length (filter (slot_where q) rows))"

definition put_slot :: "slot_stmt \<Rightarrow> ('w, nat) dact" where
  "put_slot q s = (Inr (slot_count q (dk_slots s)), s\<lparr>dk_slots := run_slot q (dk_slots s)\<rparr>)"

definition meanwhile :: "'w outside \<Rightarrow> ('w, unit) dact" where
  "meanwhile e = smod (\<lambda>s. s\<lparr>dk_slots := o_others e (d_world (fl_db (dk_flows s))) (dk_slots s)\<rparr>)"

definition ALERT_COOLDOWN :: int where "ALERT_COOLDOWN = HOUR"

definition read_slot :: "string \<Rightarrow> ('w, slot option) dact" where
  "read_slot w = sget (\<lambda>s. find (\<lambda>x. sl_workflow x = w) (dk_slots s))"

text \<open>The attempts that are left; an attempt that another server forestalls starts again.\<close>

fun try_slot :: "nat \<Rightarrow> 'w outside \<Rightarrow> string \<Rightarrow> string \<Rightarrow> int \<Rightarrow> ('w, int option) dact" where
  "try_slot 0 e w owner now = sret None"
| "try_slot (Suc k) e w owner now =
     sbind (meanwhile e) (\<lambda>_. sbind (read_slot w) (\<lambda>row. sbind (meanwhile e) (\<lambda>_. case row of
       None \<Rightarrow> sbind (put_slot (Open_slot w owner (stamp now))) (\<lambda>n.
         if n = 1 then sret (Some 0) else try_slot k e w owner now)
     | Some x \<Rightarrow>
         if sl_sent x \<le> stamp (now - ALERT_COOLDOWN)
         then sbind (put_slot (Retake_slot w (sl_sent x) (stamp now))) (\<lambda>n.
           if n = 1 then sret (Some (sl_grouped x)) else try_slot k e w owner now)
         else sbind (put_slot (Count_failure w)) (\<lambda>_. sret None))))"

definition take_slot :: "'w outside \<Rightarrow> string \<Rightarrow> string \<Rightarrow> int \<Rightarrow> ('w, int option) dact" where
  "take_slot e w owner now = try_slot 3 e w owner now"

text \<open>\<open>_release\<close>\<close>

definition release_alert :: "string \<Rightarrow> string \<Rightarrow> int \<Rightarrow> int \<Rightarrow> ('w, unit) dact" where
  "release_alert i w now grouped = sbind (put_slot (Hand_back w (stamp now) grouped)) (\<lambda>_.
     sbind (issue (Return_alert i)) (\<lambda>_. sret ()))"

subsection \<open>\<open>alert_enabled\<close>, \<open>_message\<close>\<close>

definition alert_enabled :: "pydict \<Rightarrow> bool res" where
  "alert_enabled flow = ebind (attr_get (por (get0 flow ''graph'') (PDict [])) ''settings'') (\<lambda>s.
     ebind (attr_get (por s (PDict [])) ''notify_on_failure'') (\<lambda>v.
     Inr (if v = PNone then get0 flow ''status'' = PStr ''published'' else truthy v)))"

definition app_url :: "'w outside \<Rightarrow> string" where
  "app_url e = rstrip_by (\<lambda>c. c = CHR ''/'') (z_app_url (o_trg e))"

fun join_lines :: "string list \<Rightarrow> string" where
  "join_lines [] = []"
| "join_lines [x] = x"
| "join_lines (x # xs) = x @ [CHR 0x0A] @ join_lines xs"

definition alert_name :: "pydict \<Rightarrow> string" where
  "alert_name flow = py_str (por (get0 flow ''name'') (get0 flow ''workflow_id''))"

definition alert_message :: "'w outside \<Rightarrow> pydict \<Rightarrow> string \<Rightarrow> string option \<Rightarrow> string option \<Rightarrow> int \<Rightarrow> string \<times> string" where
  "alert_message e flow i errcode node grouped = (
     let err = (if filled errcode then the errcode else ''inconnue'') @ (if filled node then '' (etape '' @ the node @ '')'' else []);
         lines = [''Le workflow '' @ alert_name flow @ '' a echoue.'', ''Run : '' @ i, ''Erreur : '' @ err,
           ''Details : '' @ app_url e @ ''/workflows/'' @ py_str (get0 flow ''workflow_id'')]
           @ (if grouped \<noteq> 0 then [py_str (PInt grouped)
               @ '' autre(s) echec(s) de ce workflow depuis la derniere alerte ont ete regroupes (une alerte par heure au plus).''] else [])
           @ [''Pour ne plus recevoir ces alertes : reglages du workflow, Me prevenir en cas d'echec.''] in
     (''Echec du workflow '' @ alert_name flow, join_lines lines))"

subsection \<open>\<open>alert_run_failed\<close>\<close>

definition send_alert :: "'w outside \<Rightarrow> string \<Rightarrow> string \<Rightarrow> string \<Rightarrow> int \<Rightarrow> int \<Rightarrow> string \<times> string \<Rightarrow> ('w, string option) dact" where
  "send_alert e i owner w now grouped message = sbind (send_mail e owner (fst message) (snd message)) (\<lambda>mailed.
     if mailed = Cut then sbind (release_alert i w now grouped) (\<lambda>_. sthrow Cancelled)
     else let outcome = (if mailed = Left then ''sent'' else ''failed'') in
       sbind (send_teams e owner (fst message) (snd message)) (\<lambda>carded.
       sbind (settle_alert i outcome) (\<lambda>_. if carded = Cut then sthrow Cancelled else sret (Some outcome))))"

definition alert_run_failed ::
  "'w outside \<Rightarrow> string \<Rightarrow> string \<Rightarrow> string \<Rightarrow> string option \<Rightarrow> string option \<Rightarrow> ('w, string option) dact" where
  "alert_run_failed e i owner w errcode node = sbind (issue (Claim_alert i)) (\<lambda>n.
     if n \<noteq> 1 then sret None
     else sbind (case e_workflow (z_run (o_trg e)) w owner of None \<Rightarrow> sret None
         | Some flow \<Rightarrow> sbind (liftd (alert_enabled flow)) (\<lambda>b. sret (if b then Some flow else None))) (\<lambda>found. case found of
       None \<Rightarrow> sbind (settle_alert i ''off'') (\<lambda>_. sret (Some ''off''))
     | Some flow \<Rightarrow> sbind (on_flows (on_db (utc_now (z_run (o_trg e))))) (\<lambda>now.
         sbind (take_slot e w owner now) (\<lambda>slot. case slot of
           None \<Rightarrow> sbind (settle_alert i ''grouped'') (\<lambda>_. sret (Some ''grouped''))
         | Some grouped \<Rightarrow> send_alert e i owner w now grouped (alert_message e flow i errcode node grouped)))))"

end
