(* ===== verification/Al_Notice.thy ===== *)
theory Al_Notice
  imports Al_Alert
begin

section \<open>Notices of human decisions (\<open>core/decision_notices.py\<close>)\<close>

text \<open>
  A run that waits for a decision asks whoever must answer, reminds them, and tells the owner when it ended
  without an answer.  Each notice is reserved on its column before it leaves.
\<close>

subsection \<open>Texts: \<open>html.escape\<close>, \<open>_markdown_text\<close>, \<open>_deadline\<close>\<close>

definition html_char :: "char \<Rightarrow> string" where
  "html_char c = (if c = CHR ''&'' then ''&amp;'' else if c = CHR ''<'' then ''&lt;'' else if c = CHR ''>'' then ''&gt;''
     else if c = CHR 0x22 then ''&quot;'' else if c = CHR 0x27 then ''&#x27;'' else [c])"

definition html_escape :: "string \<Rightarrow> string" where
  "html_escape s = concat (map html_char s)"

definition MARKDOWN :: string where
  "MARKDOWN = CHR 0x5C # CHR 0x60 # ''*_~>#[]()''"

definition markdown_text :: "string \<Rightarrow> string" where
  "markdown_text s = concat (map (\<lambda>c. if c \<in> set MARKDOWN then [CHR 0x5C, c] else [c]) s)"

definition deadline_text :: "int \<Rightarrow> string" where
  "deadline_text t = (case time_fields t of
     [y, mo, d, h, mi, _, _] \<Rightarrow> fixed 2 d @ ''/'' @ fixed 2 mo @ ''/'' @ fixed 4 y @ '' a '' @ fixed 2 h @ '':'' @ fixed 2 mi @ '' UTC''
   | _ \<Rightarrow> [])"

definition deadline :: "'w renv \<Rightarrow> pyval \<Rightarrow> string option res" where
  "deadline v c = (if \<not> truthy c then Inr None
     else (case c of
       PStr s \<Rightarrow> (case read_iso s of None \<Rightarrow> Inl (PyError ''ValueError'')
         | Some (t, aware) \<Rightarrow> Inr (Some (deadline_text (if aware then t else e_instant v t))))
     | _ \<Rightarrow> Inl (PyError ''TypeError'')))"

subsection \<open>\<open>render_branded_email\<close> (\<open>helpers/system_mailer.py\<close>)\<close>

definition branded_button :: "string \<Rightarrow> string \<Rightarrow> string" where
  "branded_button label url = ''<table role=\"presentation\" cellspacing=\"0\" cellpadding=\"0\" style=\"margin:26px 0;\">''
     @ ''<tr><td style=\"border-radius:8px;background:#3b82f6;\">''
     @ ''<a href=\"'' @ url @ ''\" style=\"display:inline-block;padding:13px 30px;font-size:15px;''
     @ ''font-weight:600;color:#ffffff;text-decoration:none;border-radius:8px;\">'' @ label @ ''</a></td></tr></table>''"

definition branded_note :: "string \<Rightarrow> string" where
  "branded_note note = ''<p style=\"margin:18px 0 0;color:#6b7280;font-size:13px;line-height:1.5;\">'' @ note @ ''</p>''"

text \<open>With a button and a note, and no details.\<close>

definition branded_email :: "string \<Rightarrow> string \<Rightarrow> string \<Rightarrow> string \<Rightarrow> string \<Rightarrow> string" where
  "branded_email heading intro label url note =
     ''<!DOCTYPE html><html><body style=\"margin:0;padding:0;background:#f4f5f7;\">''
     @ ''<table role=\"presentation\" width=\"100%\" cellspacing=\"0\" cellpadding=\"0\" ''
     @ ''style=\"background:#f4f5f7;padding:32px 0;\">''
     @ ''<tr><td align=\"center\">''
     @ ''<table role=\"presentation\" width=\"520\" cellspacing=\"0\" cellpadding=\"0\" ''
     @ ''style=\"width:520px;max-width:92%;background:#ffffff;border-radius:14px;overflow:hidden;''
     @ ''box-shadow:0 1px 3px rgba(6,21,81,0.08);''
     @ ''font-family:-apple-system,Segoe UI,Roboto,Helvetica,Arial,sans-serif;\">''
     @ ''<tr><td style=\"background:#061551;padding:22px 32px;\">''
     @ ''<span style=\"color:#ffffff;font-size:18px;font-weight:700;letter-spacing:0.2px;\">''
     @ ''thaink'' @ [CHR 0xB2] @ ''</span></td></tr>''
     @ ''<tr><td style=\"padding:32px;\">''
     @ ''<h1 style=\"margin:0 0 12px;color:#061551;font-size:20px;font-weight:700;\">'' @ heading @ ''</h1>''
     @ ''<p style=\"margin:0;color:#374151;font-size:15px;line-height:1.6;\">'' @ intro @ ''</p>''
     @ branded_button label url @ branded_note note @ ''</td></tr>''
     @ ''<tr><td style=\"padding:18px 32px;background:#f9fafb;border-top:1px solid #eef0f3;\">''
     @ ''<p style=\"margin:0;color:#9ca3af;font-size:12px;line-height:1.5;\">''
     @ ''thaink'' @ [CHR 0xB2, CHR '' '', CHR 0xB7] @ '' E-mail automatique, merci de ne pas y r'' @ [CHR 0xE9] @ ''pondre.</p>''
     @ ''</td></tr></table></td></tr></table></body></html>''"

subsection \<open>\<open>_send\<close>\<close>

definition NOTE_TEXT :: string where
  "NOTE_TEXT = ''La page te demande de te connecter avec le compte qui doit repondre.''"

fun join_with :: "string \<Rightarrow> string list \<Rightarrow> string" where
  "join_with sep [] = []"
| "join_with sep [x] = x"
| "join_with sep (x # xs) = x @ sep @ join_with sep xs"

record message =
  ms_to :: string
  ms_subject :: string
  ms_lines :: "string list"
  ms_link :: string
  ms_card :: "string list"

definition mail_of :: "message \<Rightarrow> letter" where
  "mail_of m = \<lparr>lt_channel = ''mail'', lt_to = ms_to m, lt_subject = ms_subject m,
     lt_page = branded_email (html_escape (ms_subject m)) (join_with ''<br>'' (map html_escape (ms_lines m)))
       ''Ouvrir la page Workflows'' (html_escape (ms_link m)) NOTE_TEXT,
     lt_body = join_lines (ms_lines m @ [[], ms_link m])\<rparr>"

definition card_of :: "message \<Rightarrow> letter" where
  "card_of m = \<lparr>lt_channel = ''teams'', lt_to = ms_to m, lt_subject = markdown_text (ms_subject m), lt_page = [],
     lt_body = join_lines (map markdown_text (ms_card m) @ [[], ms_link m])\<rparr>"

definition posted :: "(letter \<Rightarrow> 'w \<Rightarrow> sending \<times> 'w) \<Rightarrow> letter \<Rightarrow> ('w, unit) dact" where
  "posted send m = sbind (post send m) (\<lambda>r. if r = Cut then sthrow Cancelled else sret ())"

definition send_message :: "'w outside \<Rightarrow> message \<Rightarrow> ('w, unit) dact" where
  "send_message e m = sbind (posted (o_mail e) (mail_of m)) (\<lambda>_. posted (o_teams e) (card_of m))"

subsection \<open>\<open>_workflow_name\<close>, \<open>_ask\<close>\<close>

definition notice_name :: "'w outside \<Rightarrow> run_row \<Rightarrow> string res" where
  "notice_name e r = ebind (case json_loads (case u_config r of None \<Rightarrow> ''{}'' | Some s \<Rightarrow> if s = [] then ''{}'' else s) of
       None \<Rightarrow> Inr PNone | Some v \<Rightarrow> attr_get v ''workflow_id'') (\<lambda>wid.
     Inr (case wid of PStr w \<Rightarrow> if w = [] then ''Workflow''
         else (case e_workflow (z_run (o_trg e)) w (u_owner r) of None \<Rightarrow> ''Workflow''
           | Some flow \<Rightarrow> py_str (por (get0 flow ''name'') (PStr ''Workflow'')))
       | _ \<Rightarrow> ''Workflow''))"

definition decision_dict :: "run_row \<Rightarrow> pydict res" where
  "decision_dict r = ebind (loads_or ''{}'' (u_decision r)) (\<lambda>v. case v of PDict d \<Rightarrow> Inr d | _ \<Rightarrow> Inl (PyError ''AttributeError''))"

definition answerer :: "run_row \<Rightarrow> string" where
  "answerer r = (if filled (u_assignee r) then the (u_assignee r) else u_owner r)"

definition ask_message :: "'w outside \<Rightarrow> run_row \<Rightarrow> bool \<Rightarrow> message res" where
  "ask_message e r reminder = ebind (decision_dict r) (\<lambda>d. ebind (notice_name e r) (\<lambda>name.
     ebind (deadline (z_run (o_trg e)) (get0 d ''expires_at'')) (\<lambda>limit.
     ebind (case por (get0 d ''question'') (PStr []) of PStr q \<Rightarrow> Inr q | _ \<Rightarrow> Inl (PyError ''AttributeError'')) (\<lambda>question.
     let until = (case limit of None \<Rightarrow> [] | Some x \<Rightarrow> [''Sans reponse le '' @ x @ '', le run s'arretera.'']) in
     Inr \<lparr>ms_to = answerer r,
       ms_subject = (if reminder then ''Rappel : decision'' else ''Decision'') @ '' attendue - '' @ name,
       ms_lines = [''Le workflow '' @ name @ '' attend ta decision :'', question] @ until,
       ms_link = app_url e @ ''/workflows?decision='' @ u_id r,
       ms_card = [''Le workflow '' @ name @ '' attend ta decision.'',
         ''Ouvre la page Workflows pour lire la question et repondre.''] @ until\<rparr>))))"

definition ask :: "'w outside \<Rightarrow> run_row \<Rightarrow> bool \<Rightarrow> ('w, unit) dact" where
  "ask e r reminder = sbind (liftd (ask_message e r reminder)) (send_message e)"

subsection \<open>\<open>_end_wording\<close>, \<open>_tell_end\<close>, \<open>_announce_end\<close>\<close>

definition end_wording :: "run_row \<Rightarrow> string \<times> string" where
  "end_wording r = (
     if u_status r = SCancelled then (''abandonnee'', ''La decision a ete abandonnee : le run est arrete.'')
     else if u_error r = Some EXPIRED_MESSAGE then (''expiree'', ''Personne n'a repondu avant l'echeance : le run est arrete.'')
     else (''illisible'', ''La decision ne peut plus etre reprise : le run est arrete.''))"

definition end_message :: "'w outside \<Rightarrow> run_row \<Rightarrow> string \<Rightarrow> string \<Rightarrow> string \<Rightarrow> message" where
  "end_message e r name to opening = (let ls = [opening, snd (end_wording r)] in
     \<lparr>ms_to = to, ms_subject = ''Decision '' @ fst (end_wording r) @ '' - '' @ name, ms_lines = ls,
       ms_link = app_url e @ ''/workflows'', ms_card = ls\<rparr>)"

definition other_answerer :: "run_row \<Rightarrow> string option" where
  "other_answerer r = (case u_assignee r of None \<Rightarrow> None
     | Some a \<Rightarrow> if a \<noteq> [] \<and> lower a \<noteq> lower (u_owner r) then Some a else None)"

definition tell_end :: "'w outside \<Rightarrow> run_row \<Rightarrow> ('w, unit) dact" where
  "tell_end e r = sbind (liftd (notice_name e r)) (\<lambda>name.
     sbind (send_message e (end_message e r name (u_owner r) (''Workflow '' @ name @ ''.''))) (\<lambda>_.
     case other_answerer r of None \<Rightarrow> sret ()
     | Some a \<Rightarrow> send_message e (end_message e r name a (''Le workflow '' @ name @ '' n'attend plus ta decision.''))))"

definition announce_end :: "'w outside \<Rightarrow> run_row \<Rightarrow> ('w, unit) dact" where
  "announce_end e r = sbind (stry (tell_end e r) (\<lambda>res.
       if res = Inl Cancelled then sbind (issue (Return_end (u_id r))) (\<lambda>_. sthrow Cancelled) else sret ())) (\<lambda>_.
     sbind (on_flows (notify_run_finished (o_trg e) (u_id r) (u_owner r) (status_str (u_status r)) PNone (u_error r))) (\<lambda>_. sret ()))"

subsection \<open>\<open>_guarded\<close>, \<open>_sending\<close>\<close>

definition guarded :: "('w, unit) dact \<Rightarrow> ('w, unit) dact" where
  "guarded job = stry job (\<lambda>res. if res = Inl Cancelled then sthrow Cancelled else sret ())"

definition sending_or :: "('w, unit) dact \<Rightarrow> notice_stmt \<Rightarrow> ('w, unit) dact" where
  "sending_or job undo = stry (guarded job) (\<lambda>res.
     if res = Inl Cancelled then sbind (issue undo) (\<lambda>_. sthrow Cancelled) else sret ())"

subsection \<open>\<open>_remind_moment\<close>\<close>

definition paused_instant :: "run_row \<Rightarrow> int \<Rightarrow> int option res" where
  "paused_instant r expires = (case loads_or ''{}'' (u_decision r) of
     Inl _ \<Rightarrow> Inr None
   | Inr (PDict d) \<Rightarrow> (let pa = get0 d ''paused_at'' in
       if \<not> truthy pa then Inr (Some (expires - DEFAULT_DECISION_HOURS * HOUR))
       else (case pa of
         PStr s \<Rightarrow> (case read_iso s of None \<Rightarrow> Inr None
           | Some (t, aware) \<Rightarrow> if aware then Inr (Some t) else Inl (PyError ''TypeError''))
       | _ \<Rightarrow> Inl (PyError ''TypeError'')))
   | Inr _ \<Rightarrow> Inl (PyError ''AttributeError''))"

definition remind_time :: "'w renv \<Rightarrow> run_row \<Rightarrow> int option res" where
  "remind_time v r = (
     if filled (u_remind r) then Inr (instant_at v (the (u_remind r)))
     else if \<not> filled (u_expires r) then Inr None
     else (case instant_at v (the (u_expires r)) of None \<Rightarrow> Inr None
       | Some expires \<Rightarrow> map_sum id (map_option (\<lambda>p. remind_moment p expires)) (paused_instant r expires)))"

subsection \<open>\<open>tick\<close>, \<open>deliver\<close>\<close>

definition notice_rows :: "(run_row \<Rightarrow> bool) \<Rightarrow> string option \<Rightarrow> ('w, run_row list) dact" where
  "notice_rows p only = sget (\<lambda>s. filter (\<lambda>r. p r \<and> (only = None \<or> Some (u_id r) = only)) (desk_runs s))"

definition reserved :: "notice_stmt \<Rightarrow> ('w, unit) dact \<Rightarrow> ('w, nat) dact" where
  "reserved q job = sbind (issue q) (\<lambda>n. if n \<noteq> 1 then sret 0 else sbind job (\<lambda>_. sret 1))"

definition notify_one :: "'w outside \<Rightarrow> int \<Rightarrow> run_row \<Rightarrow> ('w, nat) dact" where
  "notify_one e now r = reserved (Take_notice (u_id r) (iso now))
     (sending_or (ask e r False) (Return_notice (u_id r) (iso now)))"

definition remind_one :: "'w outside \<Rightarrow> int \<Rightarrow> run_row \<Rightarrow> ('w, nat) dact" where
  "remind_one e now r = sbind (liftd (remind_time (z_run (o_trg e)) r)) (\<lambda>m. case m of
     None \<Rightarrow> sret 0
   | Some t \<Rightarrow> if now < t then sret 0
       else reserved (Take_reminder (u_id r) (iso now)) (sending_or (ask e r True) (Return_reminder (u_id r) (iso now))))"

definition end_one :: "'w outside \<Rightarrow> run_row \<Rightarrow> ('w, nat) dact" where
  "end_one e r = reserved (Take_end (u_id r)) (guarded (announce_end e r))"

definition to_notify :: "run_row \<Rightarrow> bool" where
  "to_notify r = (u_status r = SAwaiting \<and> u_notified r = None)"

definition to_remind :: "run_row \<Rightarrow> bool" where
  "to_remind r = (u_status r = SAwaiting \<and> u_notified r \<noteq> None \<and> u_reminded r = None)"

definition to_end :: "run_row \<Rightarrow> bool" where
  "to_end r = (u_end_notice r = Some ''pending'')"

definition tick_notices :: "'w outside \<Rightarrow> int \<Rightarrow> string option \<Rightarrow> ('w, nat) dact" where
  "tick_notices e now only =
     sbind (on_flows (on_db (atomic (expire_due_at (z_run (o_trg e)) now)))) (\<lambda>_.
     sbind (notice_rows to_notify only) (\<lambda>rows. sbind (smap (notify_one e now) rows) (\<lambda>xs.
     sbind (notice_rows to_remind only) (\<lambda>rows'. sbind (smap (remind_one e now) rows') (\<lambda>ys.
     sbind (notice_rows to_end only) (\<lambda>ends. sbind (smap (end_one e) ends) (\<lambda>zs.
     sret (sum_list xs + sum_list ys + sum_list zs))))))))"

definition deliver :: "'w outside \<Rightarrow> string \<Rightarrow> ('w, nat) dact" where
  "deliver e i = sbind (on_flows (on_db (utc_now (z_run (o_trg e))))) (\<lambda>now. tick_notices e now (Some i))"

end
