(* ===== verification/Al_Ledger.thy ===== *)
theory Al_Ledger
  imports Al_Notice Run_Table
begin

section \<open>How often notices and alerts leave\<close>

subsection \<open>Once for each cause\<close>

text \<open>
  The statements of the notices interleave with those of \<open>run_main\<close>.  A column that is free (a question that is
  open and was not asked yet, an end not yet told, a run without an alert whose decision did not end) is a token: a
  reservation takes it, and what makes a notice due again gives it back.
\<close>

datatype desk_stmt = By_run stmt | By_note notice_stmt

fun desk_step :: "desk_stmt \<Rightarrow> run_row list \<Rightarrow> run_row list" where
  "desk_step (By_run q) rows = run_stmt q rows"
| "desk_step (By_note q) rows = note_stmt q rows"

datatype notice = Question | Reminder | Ending | Alert

text \<open>A question is open while its run waits, and while an answer that may be given back is at work.\<close>

definition open_question :: "run_row \<Rightarrow> bool" where
  "open_question r = (u_status r = SAwaiting \<or> u_status r = SRunning \<and> u_paused r \<noteq> None)"

fun free :: "notice \<Rightarrow> run_row \<Rightarrow> bool" where
  "free Question r = (open_question r \<and> u_notified r = None)"
| "free Reminder r = (open_question r \<and> u_reminded r = None)"
| "free Ending r = (u_end_notice r = Some ''pending'')"
| "free Alert r = (u_alert r = None \<and> u_end_notice r = None)"

fun takes :: "notice \<Rightarrow> notice_stmt \<Rightarrow> bool" where
  "takes Question (Take_notice _ _) = True"
| "takes Reminder (Take_reminder _ _) = True"
| "takes Ending (Take_end _) = True"
| "takes Alert (Claim_alert _) = True"
| "takes _ _ = False"

fun returns :: "notice \<Rightarrow> notice_stmt \<Rightarrow> bool" where
  "returns Question (Return_notice _ _) = True"
| "returns Reminder (Return_reminder _ _) = True"
| "returns Ending (Return_end _) = True"
| "returns Alert (Return_alert _) = True"
| "returns _ _ = False"

text \<open>
  What makes a notice due of the row it is written on: a pause asks a new question, a decision that ends without
  an answer is to be told, and a pause after such an end opens the way for an alert.  The reopening of a run that
  has no pause, and an end whose status were \<open>awaiting\<close>, would open a question too: \<open>run_main\<close> reopens
  what it read as paused and ends no run as waiting.
\<close>

fun causes :: "notice \<Rightarrow> stmt \<Rightarrow> run_row \<Rightarrow> bool" where
  "causes Ending (Expire _ _ _) r = True"
| "causes Ending (Unreadable _ _) r = True"
| "causes Ending (Abandon _ _) r = True"
| "causes Ending (stmt.Stop _ _ _) r = True"
| "causes Ending _ r = False"
| "causes Alert (Pause _ _ _ _ _ _) r = (u_end_notice r \<noteq> None)"
| "causes Alert _ r = False"
| "causes _ (Pause _ _ _ _ _ _) r = True"
| "causes _ (Reopen _) r = (u_paused r = None)"
| "causes _ (Finish _ st _ _) r = (st = SAwaiting)"
| "causes _ _ r = False"

definition taken :: "notice \<Rightarrow> string \<Rightarrow> desk_stmt \<Rightarrow> run_row list \<Rightarrow> nat" where
  "taken k i q rows = (case q of By_run _ \<Rightarrow> 0 | By_note n \<Rightarrow> if takes k n then rows_of i (note_where n) rows else 0)"

definition given :: "notice \<Rightarrow> string \<Rightarrow> desk_stmt \<Rightarrow> run_row list \<Rightarrow> nat" where
  "given k i q rows = (case q of
     By_note n \<Rightarrow> if returns k n then rows_of i (note_where n) rows else 0
   | By_run (Insert r) \<Rightarrow> if u_id r = i \<and> free k r then 1 else 0
   | By_run s \<Rightarrow> rows_of i (\<lambda>r. where_of s r \<and> causes k s r) rows)"

lemma note_set_id [simp]: "u_id (note_set q r) = u_id r"
  by (cases q) simp_all

lemma free_run: "where_of q r \<Longrightarrow> \<not> causes k q r \<Longrightarrow> free k (set_of q r) \<Longrightarrow> free k r"
  by (cases k; cases q) (auto simp: Let_def open_question_def split: if_splits)

lemma free_note: "\<not> returns k q \<Longrightarrow> free k (note_set q r) \<Longrightarrow> free k r"
  by (cases k; cases q) (auto simp: open_question_def)

lemma taken_free: "takes k q \<Longrightarrow> note_where q r \<Longrightarrow> free k r"
  by (cases k; cases q) (auto simp: open_question_def)

lemma taken_not_free: "takes k q \<Longrightarrow> \<not> free k (note_set q r)"
  by (cases k; cases q) auto

lemma takes_or_returns: "takes k q \<Longrightarrow> \<not> returns k q"
  by (cases k; cases q) auto

lemma rows_of_cases:
  "(\<And>r. p r \<Longrightarrow> q r \<or> c r) \<Longrightarrow> rows_of i p rows \<le> rows_of i q rows + rows_of i c rows"
  by (induction rows) (auto simp: rows_of_def)

interpretation ln: ledger desk_step "rows_of i (free k)" "taken k i" "given k i" for k i
proof unfold_locales
  fix q rows
  show "rows_of i (free k) (desk_step q rows) + taken k i q rows \<le> rows_of i (free k) rows + given k i q rows"
  proof (cases q)
    case (By_run s)
    show ?thesis
    proof (cases "\<exists>r. s = Insert r")
      case True
      then show ?thesis using rows_of_insert[of i "free k" _ rows] by (auto simp: By_run taken_def given_def)
    next
      case False
      have "given k i q rows = rows_of i (\<lambda>r. where_of s r \<and> causes k s r) rows"
        using False by (cases s) (simp_all add: By_run given_def del: where_of.simps causes.simps)
      moreover have "rows_of i (\<lambda>r. where_of s r \<and> free k (set_of s r)) rows
          \<le> rows_of i (\<lambda>r. where_of s r \<and> free k r) rows + rows_of i (\<lambda>r. where_of s r \<and> causes k s r) rows"
        by (rule rows_of_cases) (use free_run[of s _ k] in blast)
      ultimately show ?thesis using rows_of_step[of s i "free k" rows] False by (simp add: By_run taken_def)
    qed
  next
    case (By_note n)
    have change: "rows_of i (free k) (note_stmt n rows) + rows_of i (\<lambda>r. note_where n r \<and> free k r) rows
        = rows_of i (free k) rows + rows_of i (\<lambda>r. note_where n r \<and> free k (note_set n r)) rows"
      unfolding note_stmt_def by (rule rows_of_changed) simp
    show ?thesis
    proof (cases "takes k n")
      case True
      then have "rows_of i (\<lambda>r. note_where n r \<and> free k (note_set n r)) rows = 0"
        by (intro rows_of_empty) (auto dest: taken_not_free)
      moreover have "rows_of i (note_where n) rows \<le> rows_of i (\<lambda>r. note_where n r \<and> free k r) rows"
        using taken_free[OF True] by (intro rows_of_mono) auto
      ultimately show ?thesis using change True by (simp add: By_note taken_def)
    next
      case False
      have "rows_of i (\<lambda>r. note_where n r \<and> free k (note_set n r)) rows
          \<le> rows_of i (\<lambda>r. note_where n r \<and> free k r) rows + (if returns k n then rows_of i (note_where n) rows else 0)"
        using free_note[of k n] by (auto intro!: rows_of_mono trans_le_add2)
      with change False show ?thesis by (simp add: By_note taken_def given_def)
    qed
  qed
qed

text \<open>C35. However the statements of servers, passes and answers interleave, the reservations of a notice of a run (the rows
  they select, which is what a sender goes by) are at most the tokens there were at the start and the causes and
  the returned reservations since.  The cause of a question, and of its reminder, is a pause of the run; of the notice
  of an end, an end of a decision without an answer.  A run that \<open>start_run\<close> inserts brings one alert and nothing
  else.  So a question is asked at most once for each pause, an end is told at most once for each such end, and a
  run gets at most one alert.  (Also counted, though \<open>run_main\<close> does neither: the reopening of a run that has no
  pause, an end with the status of a pause.)\<close>

theorem notices_within_causes:
  "total desk_step (taken k i) qs rows \<le> rows_of i (free k) rows + total desk_step (given k i) qs rows
    \<and> given k i (By_run (Insert ((new_row v a j now)\<lparr>u_id := j'\<rparr>))) rows = (if j' = i \<and> k = Alert then 1 else 0)"
  using ln.taken_given[of k i qs rows] by (cases k) (auto simp: given_def new_row_def Let_def open_question_def)

subsection \<open>One alert an hour\<close>

text \<open>
  Steps of the table of slots, with a trail of the slots that were taken and handed back, the last event first.
  \<open>Retaken\<close> may rest on a row read at any earlier time; \<open>Handed\<close> is the \<open>UPDATE\<close> of \<open>_release\<close>, by any server.
\<close>

datatype slot_event = Granted string int | Back string int

type_synonym slots_log = "slot list \<times> slot_event list"

definition on_clock :: "int \<Rightarrow> bool" where
  "on_clock t = (in_time t \<and> in_time (t - ALERT_COOLDOWN))"

inductive slot_step :: "slots_log \<Rightarrow> slots_log \<Rightarrow> bool" where
  Opened: "on_clock now \<Longrightarrow> slot_count (Open_slot w owner (stamp now)) rows = 1
    \<Longrightarrow> slot_step (rows, trail) (run_slot (Open_slot w owner (stamp now)) rows, Granted w now # trail)"
| Retaken: "on_clock now \<Longrightarrow> prior \<le> stamp (now - ALERT_COOLDOWN) \<Longrightarrow> slot_count (Retake_slot w prior (stamp now)) rows = 1
    \<Longrightarrow> slot_step (rows, trail) (run_slot (Retake_slot w prior (stamp now)) rows, Granted w now # trail)"
| Missed: "slot_count (Retake_slot w prior sent) rows = 0 \<Longrightarrow> slot_step (rows, trail) (run_slot (Retake_slot w prior sent) rows, trail)"
| Counted: "slot_step (rows, trail) (run_slot (Count_failure w) rows, trail)"
| Handed: "on_clock t \<Longrightarrow> slot_step (rows, trail) (run_slot (Hand_back w (stamp t) n) rows, Back w t # trail)"

text \<open>The instants of the slots of a workflow that were taken and not handed back since.\<close>

fun standing :: "string \<Rightarrow> slot_event list \<Rightarrow> int list" where
  "standing w [] = []"
| "standing w (Granted v t # trail) = (if v = w then t # standing w trail else standing w trail)"
| "standing w (Back v t # trail) = (if v = w then filter (\<lambda>u. u \<noteq> t) (standing w trail) else standing w trail)"

text \<open>No slot is taken for an instant before one that was handed back: competing servers read their clocks in order.\<close>

fun clocked :: "slot_event list \<Rightarrow> bool" where
  "clocked [] = True"
| "clocked (Granted w t # trail) = (clocked trail \<and> (\<forall>u. Back w u \<in> set trail \<longrightarrow> u \<le> t))"
| "clocked (Back w t # trail) = clocked trail"

definition spaced :: "int list \<Rightarrow> bool" where
  "spaced = sorted_wrt (\<lambda>later earlier. earlier + ALERT_COOLDOWN \<le> later)"

text \<open>The row of a workflow holds the instant of the last slot that stands, or nothing, after a later one was handed back.\<close>

definition shows_last :: "slot list \<Rightarrow> slot_event list \<Rightarrow> string \<Rightarrow> bool" where
  "shows_last rows trail w = (standing w trail = [] \<or> (\<exists>r \<in> set rows. sl_workflow r = w \<and>
     (sl_sent r = stamp (hd (standing w trail))
      \<or> sl_sent r = [] \<and> (\<exists>t. Back w t \<in> set trail \<and> hd (standing w trail) + ALERT_COOLDOWN \<le> t))))"

definition slots_ok :: "slots_log \<Rightarrow> bool" where
  "slots_ok x = (case x of (rows, trail) \<Rightarrow> distinct (map sl_workflow rows) \<and> (clocked trail \<longrightarrow>
     (\<forall>w. spaced (standing w trail) \<and> list_all on_clock (standing w trail) \<and> shows_last rows trail w)))"

lemma spaced_Cons:
  assumes "spaced ts" "ts \<noteq> [] \<Longrightarrow> hd ts + ALERT_COOLDOWN \<le> t"
  shows "spaced (t # ts)"
proof (cases ts)
  case (Cons u us)
  have "x + ALERT_COOLDOWN \<le> t" if "x \<in> set us" for x
  proof -
    have "x + ALERT_COOLDOWN \<le> u" using assms(1) that by (simp add: spaced_def Cons)
    with assms(2) show ?thesis by (simp add: Cons ALERT_COOLDOWN_def HOUR_def)
  qed
  with assms show ?thesis by (simp add: spaced_def Cons)
qed (simp add: spaced_def)

lemma spaced_filter: "spaced ts \<Longrightarrow> spaced (filter P ts)"
  by (simp add: spaced_def sorted_wrt_filter)

lemma spaced_hd: "spaced (t # ts) \<Longrightarrow> u \<in> set ts \<Longrightarrow> u + ALERT_COOLDOWN \<le> t"
  by (simp add: spaced_def)

lemma on_clock_hd: "list_all on_clock ts \<Longrightarrow> ts \<noteq> [] \<Longrightarrow> on_clock (hd ts)"
  by (cases ts) simp_all

lemma stamp_inject: "on_clock t \<Longrightarrow> on_clock u \<Longrightarrow> stamp t = stamp u \<Longrightarrow> t = u"
  using stamp_le[of t u] stamp_le[of u t] by (simp add: on_clock_def)

lemma stamp_nonempty: "on_clock t \<Longrightarrow> stamp t \<noteq> []"
  using stamp_less[of "t - ALERT_COOLDOWN" t] by (auto simp: on_clock_def ALERT_COOLDOWN_def HOUR_def)

lemma slot_set_workflow [simp]: "sl_workflow (slot_set q x) = sl_workflow x"
  by (cases q) simp_all

lemma workflows_run: "(\<And>w owner t. q \<noteq> Open_slot w owner t) \<Longrightarrow> map sl_workflow (run_slot q rows) = map sl_workflow rows"
  by (cases q) (auto simp: run_slot_def changed_def)

lemma run_slot_update: "(\<And>w owner t. q \<noteq> Open_slot w owner t) \<Longrightarrow> run_slot q rows = changed (slot_where q) (slot_set q) rows"
  by (cases q) (auto simp: run_slot_def)

lemma row_kept: "r \<in> set rows \<Longrightarrow> \<not> p r \<Longrightarrow> r \<in> set (changed p f rows)"
  by (auto simp: changed_def image_iff intro!: bexI[of _ r])

lemma row_changed: "r \<in> set rows \<Longrightarrow> p r \<Longrightarrow> f r \<in> set (changed p f rows)"
  by (auto simp: changed_def image_iff intro!: bexI[of _ r])

text \<open>A slot is granted at least an hour after the last one that stands.\<close>

lemma grant_after_last:
  assumes ok: "slots_ok (rows, trail)" and c: "clocked (Granted w now # trail)" and now: "on_clock now"
    and r: "\<And>r. r \<in> set rows \<Longrightarrow> sl_workflow r = w \<Longrightarrow> sl_sent r \<le> stamp (now - ALERT_COOLDOWN)"
    and some: "standing w trail \<noteq> []"
  shows "hd (standing w trail) + ALERT_COOLDOWN \<le> now"
proof -
  let ?last = "hd (standing w trail)"
  have k: "list_all on_clock (standing w trail)" "shows_last rows trail w" using ok c by (simp_all add: slots_ok_def)
  then obtain x where x: "x \<in> set rows" "sl_workflow x = w"
    "sl_sent x = stamp ?last \<or> (\<exists>t. Back w t \<in> set trail \<and> ?last + ALERT_COOLDOWN \<le> t)"
    using some by (auto simp: shows_last_def)
  from x(3) show ?thesis
  proof (elim disjE exE conjE)
    assume "sl_sent x = stamp ?last"
    with r[OF x(1,2)] have "stamp ?last \<le> stamp (now - ALERT_COOLDOWN)" by simp
    then show ?thesis using on_clock_hd[OF k(1) some] now stamp_le[of ?last "now - ALERT_COOLDOWN"] by (simp add: on_clock_def)
  qed (use c in force)
qed

lemma opened_ok:
  assumes ok: "slots_ok (rows, trail)" and now: "on_clock now" and one: "slot_count (Open_slot w owner (stamp now)) rows = 1"
  shows "slots_ok (run_slot (Open_slot w owner (stamp now)) rows, Granted w now # trail)"
proof -
  let ?r = "\<lparr>sl_workflow = w, sl_owner = owner, sl_sent = stamp now, sl_grouped = 0\<rparr>"
  have fresh: "w \<notin> sl_workflow ` set rows" using one by (auto simp: slot_count_def split: if_splits)
  then have rows: "run_slot (Open_slot w owner (stamp now)) rows = rows @ [?r]" by (simp add: run_slot_def)
  have "spaced (standing v (Granted w now # trail)) \<and> list_all on_clock (standing v (Granted w now # trail)) \<and> shows_last (rows @ [?r]) (Granted w now # trail) v"
    if c: "clocked (Granted w now # trail)" for v
  proof -
    have "spaced (standing v trail)" "list_all on_clock (standing v trail)" "shows_last rows trail v" "shows_last rows trail w"
      using ok c by (simp_all add: slots_ok_def)
    moreover have "standing w trail = []" using calculation(4) fresh by (auto simp: shows_last_def)
    ultimately show ?thesis using now by (auto simp: shows_last_def spaced_def)
  qed
  then show ?thesis using ok fresh by (auto simp: slots_ok_def rows)
qed

lemma retaken_ok:
  assumes ok: "slots_ok (rows, trail)" and now: "on_clock now" and due: "prior \<le> stamp (now - ALERT_COOLDOWN)"
    and one: "slot_count (Retake_slot w prior (stamp now)) rows = 1"
  shows "slots_ok (run_slot (Retake_slot w prior (stamp now)) rows, Granted w now # trail)"
proof -
  let ?q = "Retake_slot w prior (stamp now)"
  have d: "distinct (map sl_workflow rows)" using ok by (simp add: slots_ok_def)
  from one obtain r where "filter (slot_where ?q) rows = [r]" by (auto simp: slot_count_def length_Suc_conv)
  then have "r \<in> set (filter (slot_where ?q) rows)" by simp
  then have r: "r \<in> set rows" "sl_workflow r = w" "sl_sent r = prior" by auto
  have only: "sl_sent x \<le> stamp (now - ALERT_COOLDOWN)" if "x \<in> set rows" "sl_workflow x = w" for x
    using d r that due by (auto simp: distinct_map dest: inj_onD)
  have upd: "run_slot ?q rows = changed (slot_where ?q) (slot_set ?q) rows" by (rule run_slot_update) simp
  have new: "slot_set ?q r \<in> set (run_slot ?q rows)" unfolding upd by (rule row_changed) (use r in auto)
  have same: "x \<in> set (run_slot ?q rows)" if "x \<in> set rows" "sl_workflow x \<noteq> w" for x
    unfolding upd by (rule row_kept) (use that in auto)
  have "spaced (standing v (Granted w now # trail)) \<and> list_all on_clock (standing v (Granted w now # trail))
      \<and> shows_last (run_slot ?q rows) (Granted w now # trail) v"
    if c: "clocked (Granted w now # trail)" for v
  proof -
    have k: "spaced (standing v trail)" "list_all on_clock (standing v trail)" "shows_last rows trail v"
      using ok c by (simp_all add: slots_ok_def)
    show ?thesis
    proof (cases "v = w")
      case True
      have "spaced (now # standing w trail)"
        by (rule spaced_Cons) (use k True grant_after_last[OF ok c now only] in auto)
      moreover have "shows_last (run_slot ?q rows) (Granted w now # trail) w"
        using new r(2) by (auto simp: shows_last_def intro!: bexI[of _ "slot_set ?q r"])
      ultimately show ?thesis using True k now by simp
    next
      case False
      then have "shows_last (run_slot ?q rows) (Granted w now # trail) v"
        using k(3) same by (fastforce simp: shows_last_def)
      with False k show ?thesis by simp
    qed
  qed
  moreover have "distinct (map sl_workflow (run_slot ?q rows))" using d by (subst workflows_run) simp_all
  ultimately show ?thesis by (simp add: slots_ok_def)
qed

lemma counted_ok:
  assumes ok: "slots_ok (rows, trail)"
  shows "slots_ok (run_slot (Count_failure w) rows, trail)"
proof -
  let ?q = "Count_failure w"
  have upd: "run_slot ?q rows = changed (slot_where ?q) (slot_set ?q) rows" by (rule run_slot_update) simp
  have kept: "\<exists>x \<in> set (run_slot ?q rows). sl_workflow x = sl_workflow r \<and> sl_sent x = sl_sent r" if "r \<in> set rows" for r
    unfolding upd using that row_kept[of r rows "slot_where ?q" "slot_set ?q"] row_changed[of r rows "slot_where ?q" "slot_set ?q"]
    by (cases "slot_where ?q r") (fastforce, blast)
  have "shows_last rows trail v \<Longrightarrow> shows_last (run_slot ?q rows) trail v" for v
    using kept unfolding shows_last_def by metis
  moreover have "map sl_workflow (run_slot ?q rows) = map sl_workflow rows" by (rule workflows_run) simp
  ultimately show ?thesis using ok by (simp add: slots_ok_def)
qed

text \<open>A slot that is handed back opens the way for the next one, which comes after the one that stands.\<close>

lemma handed_ok:
  assumes ok: "slots_ok (rows, trail)" and t: "on_clock t"
  shows "slots_ok (run_slot (Hand_back w (stamp t) n) rows, Back w t # trail)"
proof -
  let ?q = "Hand_back w (stamp t) n" and ?trail = "Back w t # trail"
  have upd: "run_slot ?q rows = changed (slot_where ?q) (slot_set ?q) rows" by (rule run_slot_update) simp
  have d: "distinct (map sl_workflow rows)" using ok by (simp add: slots_ok_def)
  have one: "x = r" if "x \<in> set rows" "r \<in> set rows" "sl_workflow x = sl_workflow r" for x r
    using d that by (auto simp: distinct_map dest: inj_onD)
  have "spaced (standing v ?trail) \<and> list_all on_clock (standing v ?trail) \<and> shows_last (run_slot ?q rows) ?trail v"
    if c: "clocked ?trail" for v
  proof -
    have k: "spaced (standing v trail)" "list_all on_clock (standing v trail)" "shows_last rows trail v"
      using ok c by (simp_all add: slots_ok_def)
    have f: "spaced (standing v ?trail)" "list_all on_clock (standing v ?trail)"
      using k(1,2) by (auto simp: spaced_filter list_all_iff)
    show ?thesis
    proof (cases "v = w \<and> standing w ?trail \<noteq> []")
      case False
      have "shows_last (run_slot ?q rows) ?trail v"
      proof (cases "standing v ?trail = []")
        case some: False
        with False have v: "v \<noteq> w" by auto
        with some k(3) obtain r where "r \<in> set rows" "sl_workflow r = v" "sl_sent r = stamp (hd (standing v trail))
            \<or> sl_sent r = [] \<and> (\<exists>t. Back v t \<in> set trail \<and> hd (standing v trail) + ALERT_COOLDOWN \<le> t)"
          by (auto simp: shows_last_def)
        moreover from this v have "r \<in> set (run_slot ?q rows)" unfolding upd by (intro row_kept) auto
        ultimately show ?thesis using v by (auto simp: shows_last_def)
      qed (simp add: shows_last_def)
      with f show ?thesis by blast
    next
      case True
      then have v: "v = w" and some: "filter (\<lambda>u. u \<noteq> t) (standing w trail) \<noteq> []" by auto
      then obtain a as where st: "standing w trail = a # as" by (cases "standing w trail") auto
      obtain r where r: "r \<in> set rows" "sl_workflow r = w"
        "sl_sent r = stamp a \<or> sl_sent r = [] \<and> (\<exists>u. Back w u \<in> set trail \<and> a + ALERT_COOLDOWN \<le> u)"
        using k(3) by (auto simp: v shows_last_def st)
      have a: "on_clock a" using k(2) by (simp add: v st)
      show ?thesis
      proof (cases "a = t")
        case False
        then have "sl_sent r \<noteq> stamp t" using r(3) stamp_inject[OF a t] stamp_nonempty[OF t] by auto
        then have "r \<in> set (run_slot ?q rows)" unfolding upd using r by (intro row_kept) auto
        with r False have "shows_last (run_slot ?q rows) ?trail w" by (auto simp: shows_last_def st intro!: bexI[of _ r])
        with f v show ?thesis by blast
      next
        case at: True
        let ?rest = "filter (\<lambda>u. u \<noteq> t) as"
        have "hd ?rest \<in> set as" using some at st by (metis (mono_tags) filter.simps(2) filter_is_subset hd_in_set subsetD)
        then have gap: "hd ?rest + ALERT_COOLDOWN \<le> t" using k(1) at spaced_hd by (simp add: v st)
        have "\<exists>x \<in> set (run_slot ?q rows). sl_workflow x = w \<and> sl_sent x = []"
        proof (cases "slot_where ?q r")
          case True
          then have "slot_set ?q r \<in> set (run_slot ?q rows)" unfolding upd using r(1) by (intro row_changed)
          then show ?thesis using r(2) by (intro bexI[of _ "slot_set ?q r"]) simp_all
        next
          case False
          then have "sl_sent r = []" using r(2,3) at by auto
          moreover have "r \<in> set (run_slot ?q rows)" unfolding upd using r(1) False by (rule row_kept)
          ultimately show ?thesis using r(2) by blast
        qed
        then have "shows_last (run_slot ?q rows) ?trail w" using gap at by (auto simp: shows_last_def st)
        with f v show ?thesis by blast
      qed
    qed
  qed
  moreover have "distinct (map sl_workflow (run_slot ?q rows))" using d by (subst workflows_run) simp_all
  ultimately show ?thesis by (simp add: slots_ok_def)
qed

lemma slot_step_keeps:
  assumes "slot_step x y" "slots_ok x"
  shows "slots_ok y"
  using assms
proof (cases rule: slot_step.cases)
  case (Missed w prior sent rows trail)
  then have "run_slot (Retake_slot w prior sent) rows = rows"
    by (auto simp: run_slot_def slot_count_def changed_def filter_empty_conv intro!: map_idI)
  with Missed assms(2) show ?thesis by simp
qed (use assms(2) in \<open>auto intro: opened_ok retaken_ok counted_ok handed_ok\<close>)

lemma slots_ok_empty: "slots_ok ([], [])"
  by (simp add: slots_ok_def spaced_def shows_last_def)

lemma slots_ok_steps: "slot_step\<^sup>*\<^sup>* x y \<Longrightarrow> slots_ok x \<Longrightarrow> slots_ok y"
  by (induction rule: rtranclp_induct) (auto intro: slot_step_keeps)

text \<open>Two alerts of a workflow that were granted and not handed back are at least an hour apart, whatever servers race
  for its slot.\<close>

theorem alerts_an_hour_apart:
  assumes "slot_step\<^sup>*\<^sup>* ([], []) (rows, trail)" "clocked trail"
  shows "spaced (standing w trail)"
  using slots_ok_steps[OF assms(1) slots_ok_empty] assms(2) by (simp add: slots_ok_def)

end
