(* ===== verification/Al_Safety.thy ===== *)
theory Al_Safety
  imports Al_Ledger Trg_Poll
begin

section \<open>What alerts and notices guarantee\<close>

subsection \<open>\<open>_take_slot\<close> against other servers\<close>

lemma slot_unique:
  assumes "distinct (map sl_workflow rows)"
  shows "slot_count (Retake_slot w prior sent) rows \<le> 1"
proof -
  from assms have "length (filter (\<lambda>x. sl_workflow x = w) rows) \<le> 1"
    by (induction rows) (auto simp: filter_empty_conv image_iff)
  moreover have "length (filter (\<lambda>x. sl_workflow x = w \<and> sl_sent x = prior) rows) \<le> length (filter (\<lambda>x. sl_workflow x = w) rows)"
    by (rule length_filter_mono) simp
  moreover have "slot_where (Retake_slot w prior sent) = (\<lambda>x. sl_workflow x = w \<and> sl_sent x = prior)" by (rule ext) simp
  ultimately show ?thesis by (simp add: slot_count_def)
qed

text \<open>What other servers do to the slots between two transactions are steps, the handing back of a slot included.\<close>

definition fair :: "'w outside \<Rightarrow> bool" where
  "fair e = (\<forall>x rows trail. \<exists>new. slot_step\<^sup>*\<^sup>* (rows, trail) (o_others e x rows, new @ trail))"

lemma meanwhile_steps:
  assumes "fair e"
  obtains u new where "meanwhile e s = (Inr (), u)" "slot_step\<^sup>*\<^sup>* (dk_slots s, trail) (dk_slots u, new @ trail)"
proof -
  let ?u = "s\<lparr>dk_slots := o_others e (d_world (fl_db (dk_flows s))) (dk_slots s)\<rparr>"
  have "\<exists>new. slot_step\<^sup>*\<^sup>* (dk_slots s, trail) (dk_slots ?u, new @ trail)" using assms by (simp add: fair_def)
  then obtain new where "slot_step\<^sup>*\<^sup>* (dk_slots s, trail) (dk_slots ?u, new @ trail)" by blast
  moreover have "meanwhile e s = (Inr (), ?u)" by (simp add: meanwhile_def smod_def)
  ultimately show thesis by (rule that[rotated])
qed

text \<open>A grant is the last step of its attempts.\<close>

definition granted_last :: "int option \<Rightarrow> string \<Rightarrow> int \<Rightarrow> slot_event list \<Rightarrow> bool" where
  "granted_last g w now new = (g = None \<or> (\<exists>more. new = Granted w now # more))"

lemma granted_last_simps [simp]: "granted_last None w now new" "granted_last g w now new \<Longrightarrow> granted_last g w now (new @ old)"
  by (auto simp: granted_last_def)

lemma try_slot_steps:
  assumes e: "fair e" and now: "on_clock now"
  shows "slots_ok (dk_slots s, trail) \<Longrightarrow> \<exists>g t new. try_slot k e w owner now s = (Inr g, t)
    \<and> slot_step\<^sup>*\<^sup>* (dk_slots s, trail) (dk_slots t, new @ trail) \<and> granted_last g w now new"
proof (induction k arbitrary: s trail)
  case 0
  show ?case by (auto simp: sret_def intro!: exI[of _ "[]"])
next
  case (Suc k)
  obtain u1 n1 where u1: "meanwhile e s = (Inr (), u1)" "slot_step\<^sup>*\<^sup>* (dk_slots s, trail) (dk_slots u1, n1 @ trail)"
    by (rule meanwhile_steps[OF e])
  obtain u2 n2 where u2: "meanwhile e u1 = (Inr (), u2)" "slot_step\<^sup>*\<^sup>* (dk_slots u1, n1 @ trail) (dk_slots u2, n2 @ n1 @ trail)"
    by (rule meanwhile_steps[OF e])
  have s2: "slot_step\<^sup>*\<^sup>* (dk_slots s, trail) (dk_slots u2, n2 @ n1 @ trail)" using u1(2) u2(2) by (rule rtranclp_trans)
  note ok2 = slots_ok_steps[OF s2 Suc.prems]
  then have d2: "distinct (map sl_workflow (dk_slots u2))" by (simp add: slots_ok_def)
  let ?row = "find (\<lambda>x. sl_workflow x = w) (dk_slots u1)"
  have eq: "try_slot (Suc k) e w owner now s = (case ?row of
       None \<Rightarrow> sbind (put_slot (Open_slot w owner (stamp now))) (\<lambda>n. if n = 1 then sret (Some 0) else try_slot k e w owner now)
     | Some x \<Rightarrow> if sl_sent x \<le> stamp (now - ALERT_COOLDOWN)
         then sbind (put_slot (Retake_slot w (sl_sent x) (stamp now))) (\<lambda>n.
           if n = 1 then sret (Some (sl_grouped x)) else try_slot k e w owner now)
         else sbind (put_slot (Count_failure w)) (\<lambda>_. sret None)) u2"
    using u1(1) u2(1) by (simp add: sbind_def read_slot_def sget_def)
  have again: ?case if "try_slot (Suc k) e w owner now s = try_slot k e w owner now v" "dk_slots v = dk_slots u2" for v
  proof -
    from Suc.IH[of v "n2 @ n1 @ trail"] ok2 that(2) obtain g t new where g: "try_slot k e w owner now v = (Inr g, t)"
      "slot_step\<^sup>*\<^sup>* (dk_slots u2, n2 @ n1 @ trail) (dk_slots t, new @ n2 @ n1 @ trail)" "granted_last g w now new" by auto
    with s2 that(1) show ?thesis by (intro exI[of _ g] exI[of _ t] exI[of _ "new @ n2 @ n1"]) (auto intro: rtranclp_trans)
  qed
  have ended: ?case if "try_slot (Suc k) e w owner now s = (Inr g, t)"
    "slot_step (dk_slots u2, n2 @ n1 @ trail) (dk_slots t, new @ n2 @ n1 @ trail)" "granted_last g w now new" for g t new
    using that s2 by (intro exI[of _ g] exI[of _ t] exI[of _ "new @ n2 @ n1"]) (auto intro: rtranclp.rtrancl_into_rtrancl)
  show ?case
  proof (cases ?row)
    case None
    let ?q = "Open_slot w owner (stamp now)"
    show ?thesis
    proof (cases "slot_count ?q (dk_slots u2) = 1")
      case True
      note step = Opened[OF now True, of "n2 @ n1 @ trail"]
      show ?thesis
        by (rule ended[of "Some 0" "u2\<lparr>dk_slots := run_slot ?q (dk_slots u2)\<rparr>" "[Granted w now]"])
          (use True step in \<open>simp_all add: eq None sbind_def put_slot_def sret_def granted_last_def del: try_slot.simps\<close>)
    next
      case False
      then have "run_slot ?q (dk_slots u2) = dk_slots u2" by (auto simp: slot_count_def run_slot_def split: if_splits)
      with False show ?thesis by (intro again[of "u2\<lparr>dk_slots := dk_slots u2\<rparr>"]) (simp_all add: eq None sbind_def put_slot_def del: try_slot.simps)
    qed
  next
    case (Some x)
    let ?q = "Retake_slot w (sl_sent x) (stamp now)"
    consider "sl_sent x \<le> stamp (now - ALERT_COOLDOWN)" "slot_count ?q (dk_slots u2) = 1"
      | "sl_sent x \<le> stamp (now - ALERT_COOLDOWN)" "slot_count ?q (dk_slots u2) = 0" | "\<not> sl_sent x \<le> stamp (now - ALERT_COOLDOWN)"
      using slot_unique[OF d2, of w "sl_sent x" "stamp now"] by linarith
    then show ?thesis
    proof cases
      case 1
      note step = Retaken[OF now 1, of "n2 @ n1 @ trail"]
      show ?thesis
        by (rule ended[of "Some (sl_grouped x)" "u2\<lparr>dk_slots := run_slot ?q (dk_slots u2)\<rparr>" "[Granted w now]"])
          (use 1 step in \<open>simp_all add: eq Some sbind_def put_slot_def sret_def granted_last_def del: try_slot.simps\<close>)
    next
      case 2
      from 2(2) have "run_slot ?q (dk_slots u2) = dk_slots u2"
        by (auto simp: run_slot_def slot_count_def changed_def filter_empty_conv intro!: map_idI)
      with 2 show ?thesis by (intro again[of "u2\<lparr>dk_slots := dk_slots u2\<rparr>"]) (simp_all add: eq Some sbind_def put_slot_def del: try_slot.simps)
    next
      case 3
      then show ?thesis
        by (intro ended[of None "u2\<lparr>dk_slots := run_slot (Count_failure w) (dk_slots u2)\<rparr>" "[]"]) (simp_all add: eq Some sbind_def put_slot_def sret_def Counted del: try_slot.simps)
    qed
  qed
qed

text \<open>C36. Between the transactions of \<open>_take_slot\<close> other servers may take the slots of any workflow by its rules, count
  failures and hand slots back, any number of times.  Asking for a slot still returns, and what happened is a history of such
  steps, which ends with the grant when one is given.  In this history the slots of a workflow that were granted and not
  handed back are at least an hour apart, this grant included, provided that no slot was granted for an instant
  before one that was handed back (competing servers read their clocks in order).\<close>

theorem granted_alert_is_spaced:
  assumes "slot_step\<^sup>*\<^sup>* ([], []) (dk_slots s, trail)" "fair e" "on_clock now"
  shows "\<exists>g t new. take_slot e w owner now s = (Inr g, t) \<and> slot_step\<^sup>*\<^sup>* (dk_slots s, trail) (dk_slots t, new @ trail)
    \<and> (g \<noteq> None \<longrightarrow> (\<exists>more. new = Granted w now # more))
    \<and> (clocked (new @ trail) \<longrightarrow> spaced (standing w (new @ trail)))"
proof -
  note ok = slots_ok_steps[OF assms(1) slots_ok_empty]
  from try_slot_steps[OF assms(2,3) ok, of 3 w owner] obtain g t new where t: "take_slot e w owner now s = (Inr g, t)"
    "slot_step\<^sup>*\<^sup>* (dk_slots s, trail) (dk_slots t, new @ trail)" "granted_last g w now new"
    unfolding take_slot_def by blast
  have "slots_ok (dk_slots t, new @ trail)" using slots_ok_steps[OF t(2) ok] .
  then have "clocked (new @ trail) \<longrightarrow> spaced (standing w (new @ trail))" by (simp add: slots_ok_def)
  with t show ?thesis by (auto simp: granted_last_def)
qed

text \<open>Surroundings in which mail leaves, cards fail and nobody else is there.\<close>

definition quiet :: "unit outside" where
  "quiet = \<lparr>o_trg = trg_env, o_mail = (\<lambda>_ w. (Left, w)), o_teams = (\<lambda>_ w. (Broke, w)), o_others = (\<lambda>_ rows. rows)\<rparr>"

lemma quiet_fair: "fair quiet"
  by (auto simp: fair_def quiet_def intro!: exI[of _ "[]"])

definition noon :: int where "noon = 63885596800000000"

lemma noon_clock: "on_clock noon" "on_clock (noon + HOUR)"
  by (simp_all add: on_clock_def in_time_def noon_def ALERT_COOLDOWN_def HOUR_def MAX_TIME_def)

lemma first_alert: "slot_step ([], []) (run_slot (Open_slot ''w1'' ''ann'' (stamp noon)) [], [Granted ''w1'' noon])"
  by (rule Opened[OF noon_clock(1)]) (simp add: slot_count_def)

text \<open>Another server hands the slot of its alert back meanwhile; the next alert is granted at once.\<close>

definition busy :: "unit outside" where
  "busy = quiet\<lparr>o_others := (\<lambda>_ rows. run_slot (Hand_back ''w1'' (stamp noon) 2) rows)\<rparr>"

lemma busy_fair: "fair busy"
proof -
  have "slot_step (rows, trail) (run_slot (Hand_back ''w1'' (stamp noon) 2) rows, [Back ''w1'' noon] @ trail)" for rows trail
    using Handed[OF noon_clock(1), of rows trail "''w1''" 2] by simp
  then show ?thesis unfolding fair_def busy_def by (auto intro!: exI[of _ "[Back ''w1'' noon]"])
qed

lemma granted_alert_is_spaced_witness:
  "\<exists>s t new. take_slot busy ''w1'' ''ann'' (noon + HOUR) s = (Inr (Some 2), t) \<and> dk_slots s = run_slot (Open_slot ''w1'' ''ann'' (stamp noon)) []
    \<and> (clocked (new @ [Granted ''w1'' noon]) \<longrightarrow> spaced (standing ''w1'' (new @ [Granted ''w1'' noon])))
    \<and> (\<exists>more. new = Granted ''w1'' (noon + HOUR) # more)"
proof -
  let ?s = "\<lparr>dk_flows = demo_flows, dk_slots = run_slot (Open_slot ''w1'' ''ann'' (stamp noon)) [], dk_letters = []\<rparr>"
  have grant: "fst (take_slot busy ''w1'' ''ann'' (noon + HOUR) ?s) = Inr (Some 2)"
    by (simp add: take_slot_def numeral_3_eq_3 sbind_def meanwhile_def smod_def busy_def quiet_def read_slot_def sget_def put_slot_def sret_def
      run_slot_def slot_count_def ALERT_COOLDOWN_def changed_def)
  have "slot_step\<^sup>*\<^sup>* ([], []) (dk_slots ?s, [Granted ''w1'' noon])" using first_alert by simp
  from granted_alert_is_spaced[OF this busy_fair noon_clock(2), of "''w1''" "''ann''"] obtain g t new where
    "take_slot busy ''w1'' ''ann'' (noon + HOUR) ?s = (Inr g, t)"
    "g \<noteq> None \<longrightarrow> (\<exists>more. new = Granted ''w1'' (noon + HOUR) # more)"
    "clocked (new @ [Granted ''w1'' noon]) \<longrightarrow> spaced (standing ''w1'' (new @ [Granted ''w1'' noon]))" by blast
  with grant show ?thesis by (intro exI[of _ ?s] exI[of _ t] exI[of _ new]) auto
qed

subsection \<open>What becomes of an alert\<close>

definition same_desk :: "'w flows \<times> letter list \<Rightarrow> 'w desk \<Rightarrow> bool" where
  "same_desk k s = (dk_flows s = fst k \<and> dk_letters s = snd k)"

lemma keeps_slot_leaf [keeps_intros]:
  "keeps (same_desk k) (meanwhile e)" "keeps (same_desk k) (put_slot q)" "keeps (same_desk k) (read_slot w)"
  "keeps (same_desk k) (liftd r)"
  by (simp_all add: keeps_def same_desk_def meanwhile_def put_slot_def read_slot_def sget_def smod_def liftd_def slift_def)

lemma keeps_try_slot [keeps_intros]: "keeps (same_desk k) (try_slot n e w owner now)"
  by (induction n) (auto intro!: keeps_intros split: option.split)

lemma take_slot_frame: "take_slot e w owner now s = (x, t) \<Longrightarrow> dk_flows t = dk_flows s \<and> dk_letters t = dk_letters s"
  using keepsD[OF keeps_try_slot[of "(dk_flows s, dk_letters s)" 3 e w owner now], of s] by (simp add: same_desk_def take_slot_def)

lemma try_slot_total: "\<exists>g t. try_slot n e w owner now s = (Inr g, t)"
proof (induction n arbitrary: s)
  case (Suc n)
  then show ?case
    by (auto simp: sbind_def meanwhile_def smod_def read_slot_def sget_def put_slot_def sret_def split: option.split)
qed (simp add: sret_def)

lemma take_slot_total: "\<exists>g t. take_slot e w owner now s = (Inr g, t)"
  unfolding take_slot_def by (rule try_slot_total)

lemma issue_eq: "issue q s = (Inr (length (filter (note_where q) (desk_runs s))), with_runs (note_stmt q (desk_runs s)) s)"
  by (simp add: issue_def)

lemma with_runs_simps [simp]:
  "desk_runs (with_runs rows s) = rows" "dk_letters (with_runs rows s) = dk_letters s" "dk_slots (with_runs rows s) = dk_slots s"
  by (simp_all add: with_runs_def desk_runs_def)

lemma post_eq: "\<exists>t. post send m s = (Inr (fst (send m (d_world (fl_db (dk_flows s))))), t)
    \<and> desk_runs t = desk_runs s \<and> dk_letters t = dk_letters s @ [m]"
  by (simp add: post_def desk_runs_def Let_def split: prod.split)

lemma settled: "settle_alert i x s = (Inr (), with_runs (note_stmt (Settle_alert i x) (desk_runs s)) s)"
  by (simp add: settle_alert_def sbind_def issue_eq sret_def)

text \<open>The column of a run, the two messages, whether the workflow wants alerts, the desk when the slot is asked for.\<close>

definition column :: "string \<Rightarrow> string option \<Rightarrow> 'w desk \<Rightarrow> bool" where
  "column i c s = (\<forall>r \<in> set (desk_runs s). u_id r = i \<longrightarrow> u_alert r = c)"

definition alert_letter :: "string \<Rightarrow> string \<Rightarrow> string \<times> string \<Rightarrow> letter" where
  "alert_letter channel owner message =
     \<lparr>lt_channel = channel, lt_to = owner, lt_subject = fst message, lt_page = [], lt_body = snd message\<rparr>"

definition alerting :: "'w outside \<Rightarrow> string \<Rightarrow> string \<Rightarrow> pydict option res" where
  "alerting e w owner = (case e_workflow (z_run (o_trg e)) w owner of None \<Rightarrow> Inr None
     | Some flow \<Rightarrow> map_sum id (\<lambda>b. if b then Some flow else None) (alert_enabled flow))"

definition claimed_desk :: "'w outside \<Rightarrow> string \<Rightarrow> 'w desk \<Rightarrow> 'w desk" where
  "claimed_desk e i s = snd (on_flows (on_db (utc_now (z_run (o_trg e)))) (with_runs (note_stmt (Claim_alert i) (desk_runs s)) s))"

abbreviation world_of :: "'w desk \<Rightarrow> 'w" where
  "world_of s \<equiv> d_world (fl_db (dk_flows s))"

lemma settled_column: "desk_runs t = note_stmt (Settle_alert i x) rows \<Longrightarrow> column i (Some x) t"
  by (simp add: column_def note_stmt_def changed_def ball_Un)

lemma settled_desk [simp]: "column i (Some x) (with_runs (note_stmt (Settle_alert i x) rows) s)"
  by (rule settled_column) simp

lemma returned_column: "desk_runs t = note_stmt (Return_alert i) rows \<Longrightarrow> column i None t"
  by (simp add: column_def note_stmt_def changed_def ball_Un)

lemma claimed_desk_eq:
  "on_flows (on_db (utc_now (z_run (o_trg e)))) (with_runs (note_stmt (Claim_alert i) (desk_runs s)) s)
     = (Inr (fst (e_utc (z_run (o_trg e)) (world_of s))), claimed_desk e i s)" "dk_letters (claimed_desk e i s) = dk_letters s"
  by (cases "e_utc (z_run (o_trg e)) (world_of s)";
      simp add: claimed_desk_def on_flows_def on_db_eq utc_now_def with_runs_def map_err_def)+

text \<open>An alert that has its slot: the mail, then the card, as their answers say.\<close>

lemma send_alert_end:
  assumes "send_alert e i owner w now grouped message s = (res, t)"
  shows "let mail = alert_letter ''mail'' owner message; card = alert_letter ''teams'' owner message;
      (mailed, y) = o_mail e mail (world_of s); outcome = (if mailed = Left then ''sent'' else ''failed'') in
    if mailed = Cut then res = Inl Cancelled \<and> dk_letters t = dk_letters s @ [mail] \<and> column i None t
      \<and> dk_slots t = run_slot (Hand_back w (stamp now) grouped) (dk_slots s)
    else dk_letters t = dk_letters s @ [mail, card] \<and> column i (Some outcome) t
      \<and> res = (if fst (o_teams e card y) = Cut then Inl Cancelled else Inr (Some outcome))"
proof -
  let ?mail = "alert_letter ''mail'' owner message" and ?card = "alert_letter ''teams'' owner message"
  obtain mailed y where y: "o_mail e ?mail (world_of s) = (mailed, y)" by (cases "o_mail e ?mail (world_of s)")
  obtain carded z where z: "o_teams e ?card y = (carded, z)" by (cases "o_teams e ?card y")
  let ?u = "s\<lparr>dk_flows := (dk_flows s)\<lparr>fl_db := (fl_db (dk_flows s))\<lparr>d_world := y\<rparr>\<rparr>, dk_letters := dk_letters s @ [?mail]\<rparr>"
  let ?v = "?u\<lparr>dk_flows := (dk_flows ?u)\<lparr>fl_db := (fl_db (dk_flows ?u))\<lparr>d_world := z\<rparr>\<rparr>, dk_letters := dk_letters ?u @ [?card]\<rparr>"
  have m: "send_mail e owner (fst message) (snd message) s = (Inr mailed, ?u)"
    using y by (simp add: send_mail_def post_def alert_letter_def Let_def)
  have c: "send_teams e owner (fst message) (snd message) ?u = (Inr carded, ?v)"
    using z by (simp add: send_teams_def post_def alert_letter_def Let_def)
  show ?thesis
  proof (cases "mailed = Cut")
    case True
    then have "res = Inl Cancelled" "desk_runs t = note_stmt (Return_alert i) (desk_runs s)" "dk_letters t = dk_letters s @ [?mail]"
      "dk_slots t = run_slot (Hand_back w (stamp now) grouped) (dk_slots s)"
      using assms by (auto simp: send_alert_def sbind_def m release_alert_def put_slot_def issue_eq sthrow_def sret_def desk_runs_def with_runs_def)
    with True returned_column show ?thesis by (simp add: y)
  next
    case False
    let ?out = "if mailed = Left then ''sent'' else ''failed''"
    have "desk_runs t = note_stmt (Settle_alert i ?out) (desk_runs s)" "dk_letters t = dk_letters s @ [?mail, ?card]"
      "res = (if carded = Cut then Inl Cancelled else Inr (Some ?out))"
      using assms False by (auto simp: send_alert_def sbind_def m c settled sthrow_def sret_def Let_def desk_runs_def with_runs_def split: if_splits)
    with False settled_column[of t i ?out "desk_runs s"] show ?thesis by (simp add: y z)
  qed
qed

lemma alert_claimed_eq:
  assumes one: "length (filter (note_where (Claim_alert i)) (desk_runs s)) = 1"
  shows "alert_run_failed e i owner w errcode node s = (case alerting e w owner of
         Inl x \<Rightarrow> (Inl (Trouble (Failed x)), with_runs (note_stmt (Claim_alert i) (desk_runs s)) s)
       | Inr None \<Rightarrow> sbind (settle_alert i ''off'') (\<lambda>_. sret (Some ''off'')) (with_runs (note_stmt (Claim_alert i) (desk_runs s)) s)
       | Inr (Some flow) \<Rightarrow> sbind (take_slot e w owner (fst (e_utc (z_run (o_trg e)) (world_of s)))) (\<lambda>slot. case slot of
             None \<Rightarrow> sbind (settle_alert i ''grouped'') (\<lambda>_. sret (Some ''grouped''))
           | Some grouped \<Rightarrow> send_alert e i owner w (fst (e_utc (z_run (o_trg e)) (world_of s))) grouped
               (alert_message e flow i errcode node grouped)) (claimed_desk e i s))"
proof -
  let ?s = "with_runs (note_stmt (Claim_alert i) (desk_runs s)) s"
  let ?found = "case e_workflow (z_run (o_trg e)) w owner of None \<Rightarrow> sret None
      | Some flow \<Rightarrow> sbind (liftd (alert_enabled flow)) (\<lambda>b. sret (if b then Some flow else None))"
  have found: "?found ?s = (map_err (\<lambda>x. Trouble (Failed x)) (alerting e w owner), ?s)"
    by (cases "e_workflow (z_run (o_trg e)) w owner"; cases "alert_enabled (the (e_workflow (z_run (o_trg e)) w owner))")
      (auto simp: alerting_def sret_def sbind_def liftd_def slift_def map_err_def)
  show ?thesis
    using one by (simp add: alert_run_failed_def sbind_def[of "issue (Claim_alert i)"] issue_eq sbind_def[of ?found] found
        sbind_def[of "on_flows _"] claimed_desk_eq map_err_def split: sum.split option.split)
qed

lemma claimed_stays:
  assumes "length (filter (note_where (Claim_alert i)) (desk_runs s)) = 1"
  shows "\<exists>r \<in> set (note_stmt (Claim_alert i) (desk_runs s)). u_id r = i \<and> u_alert r = Some ''claimed''"
proof -
  from assms obtain r where "filter (note_where (Claim_alert i)) (desk_runs s) = [r]" by (auto simp: length_Suc_conv)
  then have "r \<in> set (filter (note_where (Claim_alert i)) (desk_runs s))" by simp
  then have "note_set (Claim_alert i) r \<in> set (note_stmt (Claim_alert i) (desk_runs s))" "u_id r = i"
    unfolding note_stmt_def by (auto intro: row_changed simp del: note_set.simps)
  then show ?thesis by (force intro: bexI[of _ "note_set (Claim_alert i) r"])
qed

text \<open>C37. What an alert that is asked for comes to.  A run that is not there, has an alert or ended as a decision without answer gives
  nothing.  Otherwise its column is taken, and then: when reading the workflow's settings raises, the exception leaves and
  the column stays \<open>claimed\<close>, with nothing sent; when there is no such workflow or it wants no alerts, the
  column says \<open>off\<close>; when no slot is granted, \<open>grouped\<close>; in both cases nothing is sent.  With a slot, a mail and then a
  card of the same text go to the owner, and the column says \<open>sent\<close> or \<open>failed\<close> as the mail left or not, whatever
  became of the card.  A cancellation during the mail leaves no card, a free column and a slot handed back; one
  during the card leaves the column as the mail set it.\<close>

theorem alert_ends_once:
  "case alert_run_failed e i owner w errcode node s of (res, t) \<Rightarrow>
    if length (filter (note_where (Claim_alert i)) (desk_runs s)) \<noteq> 1 then res = Inr None \<and> dk_letters t = dk_letters s
    else case alerting e w owner of
      Inl x \<Rightarrow> res = Inl (Trouble (Failed x)) \<and> dk_letters t = dk_letters s
        \<and> (\<exists>r \<in> set (desk_runs t). u_id r = i \<and> u_alert r = Some ''claimed'')
    | Inr None \<Rightarrow> res = Inr (Some ''off'') \<and> dk_letters t = dk_letters s \<and> column i (Some ''off'') t
    | Inr (Some flow) \<Rightarrow> let now = fst (e_utc (z_run (o_trg e)) (world_of s)); u = claimed_desk e i s; v = snd (take_slot e w owner now u) in
        (case fst (take_slot e w owner now u) of
          Inl _ \<Rightarrow> False
        | Inr None \<Rightarrow> res = Inr (Some ''grouped'') \<and> dk_letters t = dk_letters s \<and> column i (Some ''grouped'') t
        | Inr (Some grouped) \<Rightarrow>
            let message = alert_message e flow i errcode node grouped;
              mail = alert_letter ''mail'' owner message; card = alert_letter ''teams'' owner message;
              (mailed, y) = o_mail e mail (world_of u); outcome = (if mailed = Left then ''sent'' else ''failed'') in
            if mailed = Cut then res = Inl Cancelled \<and> dk_letters t = dk_letters s @ [mail] \<and> column i None t
              \<and> dk_slots t = run_slot (Hand_back w (stamp now) grouped) (dk_slots v)
            else dk_letters t = dk_letters s @ [mail, card] \<and> column i (Some outcome) t
              \<and> res = (if fst (o_teams e card y) = Cut then Inl Cancelled else Inr (Some outcome)))"
proof -
  obtain res t where run: "alert_run_failed e i owner w errcode node s = (res, t)" by (cases "alert_run_failed e i owner w errcode node s")
  show ?thesis
  proof (cases "length (filter (note_where (Claim_alert i)) (desk_runs s)) = 1")
    case False
    then show ?thesis by (auto simp: alert_run_failed_def sbind_def issue_eq sret_def)
  next
    case one: True
    note eq = alert_claimed_eq[OF one, of e owner w errcode node]
    show ?thesis
    proof (cases "alerting e w owner")
      case (Inl x)
      with one claimed_stays[OF one] show ?thesis by (simp add: eq)
    next
      case (Inr c)
      show ?thesis
      proof (cases c)
        case None
        with one Inr show ?thesis by (auto simp: eq sbind_def settled sret_def)
      next
        case (Some flow)
        let ?now = "fst (e_utc (z_run (o_trg e)) (world_of s))"
        obtain g v where v: "take_slot e w owner ?now (claimed_desk e i s) = (Inr g, v)" using take_slot_total by blast
        note frame = take_slot_frame[OF v]
        show ?thesis
        proof (cases g)
          case None
          with one Inr Some frame v show ?thesis
            by (auto simp: eq sbind_def settled sret_def claimed_desk_eq(2))
        next
          case grouped: (Some n)
          with run Inr Some v have "send_alert e i owner w ?now n (alert_message e flow i errcode node n) v = (res, t)"
            by (simp add: eq sbind_def)
          note result = send_alert_end[OF this]
          obtain mailed y where "o_mail e (alert_letter ''mail'' owner (alert_message e flow i errcode node n)) (world_of (claimed_desk e i s)) = (mailed, y)"
            by fastforce
          with result show ?thesis using one Inr Some v grouped frame
            by (cases "mailed = Cut") (simp_all add: run Let_def claimed_desk_eq(2))
        qed
      qed
    qed
  qed
qed

end
