(* ===== verification/Al_Tick.thy ===== *)
theory Al_Tick
  imports Al_Safety
begin

section \<open>What a pass over the decisions guarantees\<close>

subsection \<open>Messages leave the runs alone\<close>

definition on_desk :: "(run_row list \<Rightarrow> bool) \<Rightarrow> 'w desk \<Rightarrow> bool" where
  "on_desk R s = R (desk_runs s)"

lemma keeps_posted [keeps_intros]: "keeps (on_desk R) (posted send m)"
proof -
  have "keeps (on_desk R) (post send m)" using post_eq[of send m] by (auto simp: keeps_def on_desk_def) (metis snd_conv)
  then show ?thesis unfolding posted_def by (intro keeps_intros)
qed

lemma keeps_liftd_desk [keeps_intros]: "keeps (on_desk R) (liftd y)"
  by (simp add: keeps_def liftd_def slift_def)

lemma keeps_send_message [keeps_intros]: "keeps (on_desk R) (send_message e m)"
  unfolding send_message_def by (intro keeps_intros)

lemma keeps_ask: "keeps (on_desk R) (ask e r b)"
  unfolding ask_def by (intro keeps_intros)

lemma keeps_tell_end: "keeps (on_desk R) (tell_end e r)"
  unfolding tell_end_def by (intro keeps_intros)

lemma frame: "keeps (on_desk ((=) (desk_runs s))) m \<Longrightarrow> desk_runs (snd (m s)) = desk_runs s"
  using keepsD[of "on_desk ((=) (desk_runs s))" m s] by (simp add: on_desk_def)

subsection \<open>The end of a run starts other runs\<close>

definition fresh_run :: "run_row \<Rightarrow> bool" where
  "fresh_run r = (u_status r = SRunning \<and> u_end_notice r = None)"

definition grown :: "run_row list \<Rightarrow> run_row list \<Rightarrow> bool" where
  "grown rows rows' = (\<exists>new. rows' = rows @ new \<and> list_all fresh_run new)"

lemma grown_refl [simp]: "grown rows rows"
  by (simp add: grown_def)

lemma grown_add: "grown rows rows' \<Longrightarrow> fresh_run r \<Longrightarrow> grown rows (rows' @ [r])"
  by (auto simp: grown_def)

abbreviation flows_grown :: "run_row list \<Rightarrow> 'w flows \<Rightarrow> bool" where
  "flows_grown rows s \<equiv> grown rows (d_runs (fl_db s))"

lemma keeps_launch_grown:
  fixes z :: "'w tenv"
  shows "keeps (flows_grown rows) (launch_triggered_run z wid owner kind detail payload)"
proof (rule keepsI)
  fix s :: "'w flows" assume g: "flows_grown rows s"
  have "launched z wid owner kind detail s (launch_triggered_run z wid owner kind detail payload s)" by (rule launch_ok)
  then show "flows_grown rows (snd (launch_triggered_run z wid owner kind detail payload s))"
    using g grown_add by (fastforce simp: launched_def fresh_run_def split: prod.splits sum.splits)
qed

lemma keeps_done_grown: "keeps (flows_grown rows) (fire_done z source owner run status out err prior r)"
  unfolding fire_done_def liftf_def by (intro keeps_intros keeps_launch_grown)

lemma keeps_notify_grown: "keeps (flows_grown rows) (notify_run_finished z i owner status out m)"
  unfolding notify_run_finished_def fire_workflow_done_triggers_def list_active_triggers_def all_triggers_def liftf_def fetch_run_def
  by (intro keeps_intros keeps_done_grown) (simp add: keeps_def on_db_eq sget_def)

lemma notify_grown: "grown (desk_runs s) (desk_runs (snd (on_flows (notify_run_finished z i owner status out m) s)))"
  using keepsD[OF keeps_notify_grown[of "desk_runs s" z i owner status out m], of "dk_flows s"]
  by (cases "notify_run_finished z i owner status out m (dk_flows s)") (simp add: on_flows_def desk_runs_def)

subsection \<open>One notice\<close>

lemma reserved_runs:
  assumes "reserved q job s = (Inr n, t)"
  shows "desk_runs t = note_stmt q (desk_runs s) \<or> (\<exists>u. job (with_runs (note_stmt q (desk_runs s)) s) = (Inr u, t))"
  using assms by (auto simp: reserved_def sbind_Inr issue_eq sret_def split: if_splits)

lemma sending_runs:
  assumes "sending_or (ask e r b) undo s = (Inr u, t)"
  shows "desk_runs t = desk_runs s"
proof -
  have "t = snd (ask e r b s)"
    using assms by (auto simp: sending_or_def guarded_def stry_def sbind_def issue_eq sthrow_def sret_def split: prod.splits if_splits)
  then show ?thesis using frame[of s "ask e r b", OF keeps_ask] by simp
qed

lemma notify_one_runs: "notify_one e now r s = (Inr n, t) \<Longrightarrow> desk_runs t = note_stmt (Take_notice (u_id r) (iso now)) (desk_runs s)"
  using reserved_runs[of _ "sending_or (ask e r False) _" s n t] sending_runs unfolding notify_one_def by fastforce

lemma remind_one_runs:
  assumes "remind_one e now r s = (Inr n, t)"
  shows "if \<exists>m. remind_time (z_run (o_trg e)) r = Inr (Some m) \<and> m \<le> now
    then desk_runs t = note_stmt (Take_reminder (u_id r) (iso now)) (desk_runs s) else t = s"
proof -
  have "\<exists>c. remind_time (z_run (o_trg e)) r = Inr c \<and> (case c of None \<Rightarrow> t = s | Some m \<Rightarrow>
      if now < m then t = s
      else reserved (Take_reminder (u_id r) (iso now)) (sending_or (ask e r True) (Return_reminder (u_id r) (iso now))) s = (Inr n, t))"
    using assms by (cases "remind_time (z_run (o_trg e)) r")
      (auto simp: remind_one_def sbind_def liftd_def slift_def map_err_def sret_def split: option.splits if_splits)
  then obtain c where c: "remind_time (z_run (o_trg e)) r = Inr c" "case c of None \<Rightarrow> t = s | Some m \<Rightarrow>
      if now < m then t = s
      else reserved (Take_reminder (u_id r) (iso now)) (sending_or (ask e r True) (Return_reminder (u_id r) (iso now))) s = (Inr n, t)"
    by blast
  show ?thesis
  proof (cases c)
    case None
    with c show ?thesis by simp
  next
    case (Some m)
    then show ?thesis using c reserved_runs[of "Take_reminder (u_id r) (iso now)" _ s n t] sending_runs by fastforce
  qed
qed

lemma announce_runs:
  assumes "guarded (announce_end e r) s = (Inr u, t)"
  shows "grown (desk_runs s) (desk_runs t)"
proof -
  obtain x v where v: "tell_end e r s = (x, v)" by (cases "tell_end e r s")
  have runs: "desk_runs v = desk_runs s" using frame[of s "tell_end e r", OF keeps_tell_end] v by simp
  show ?thesis
  proof (cases "x = Inl Cancelled")
    case True
    with assms v show ?thesis
      by (simp add: guarded_def announce_end_def stry_def sbind_def issue_eq sthrow_def)
  next
    case False
    then have "t = snd (on_flows (notify_run_finished (o_trg e) (u_id r) (u_owner r) (status_str (u_status r)) PNone (u_error r)) v)"
      using assms v by (auto simp: guarded_def announce_end_def stry_def sbind_def sret_def sthrow_def split: prod.splits sum.splits if_splits)
    then show ?thesis using notify_grown[of v] runs by metis
  qed
qed

lemma end_one_runs: "end_one e r s = (Inr n, t) \<Longrightarrow> grown (note_stmt (Take_end (u_id r)) (desk_runs s)) (desk_runs t)"
  using reserved_runs[of "Take_end (u_id r)" "guarded (announce_end e r)" s n t] announce_runs[of e r]
  unfolding end_one_def by fastforce


subsection \<open>A whole pass\<close>

definition ids :: "(run_row \<Rightarrow> bool) \<Rightarrow> run_row list \<Rightarrow> string set" where
  "ids p rows = u_id ` {r \<in> set rows. p r}"

definition reminder_due :: "'w renv \<Rightarrow> int \<Rightarrow> run_row \<Rightarrow> bool" where
  "reminder_due v now r = (to_remind r \<and> (\<exists>m. remind_time v r = Inr (Some m) \<and> m \<le> now))"

lemma ids_note:
  assumes "\<And>r. note_where q r \<Longrightarrow> p (note_set q r) \<Longrightarrow> p r \<and> u_id r \<notin> gone" "\<And>r. \<not> note_where q r \<Longrightarrow> p r \<Longrightarrow> u_id r \<notin> gone"
  shows "ids p (note_stmt q rows) \<subseteq> ids p rows - gone"
proof
  fix i assume "i \<in> ids p (note_stmt q rows)"
  then obtain r where r: "r \<in> set rows" "p (if note_where q r then note_set q r else r)" "i = u_id (if note_where q r then note_set q r else r)"
    by (auto simp: ids_def note_stmt_def changed_def simp del: note_where.simps note_set.simps)
  then have "p r \<and> u_id r \<notin> gone" "i = u_id r" using assms[of r] by (auto split: if_splits)
  with r(1) show "i \<in> ids p rows - gone" by (auto simp: ids_def)
qed

lemma paused_instant_same: "paused_instant (r\<lparr>u_reminded := x\<rparr>) = paused_instant r" "paused_instant (r\<lparr>u_end_notice := x\<rparr>) = paused_instant r"
  by (rule ext, simp add: paused_instant_def)+

lemma remind_time_same: "remind_time v (r\<lparr>u_reminded := x\<rparr>) = remind_time v r" "remind_time v (r\<lparr>u_end_notice := x\<rparr>) = remind_time v r"
  by (simp_all add: remind_time_def paused_instant_same cong: option.case_cong)

lemma ids_taken:
  "ids to_notify (note_stmt (Take_notice i x) rows) \<subseteq> ids to_notify rows - {i}"
  "ids to_notify (note_stmt (Take_reminder i x) rows) \<subseteq> ids to_notify rows"
  "ids to_notify (note_stmt (Take_end i) rows) \<subseteq> ids to_notify rows"
  "ids (reminder_due v now) (note_stmt (Take_reminder i x) rows) \<subseteq> ids (reminder_due v now) rows - {i}"
  "ids (reminder_due v now) (note_stmt (Take_end i) rows) \<subseteq> ids (reminder_due v now) rows"
  "ids to_end (note_stmt (Take_end i) rows) \<subseteq> ids to_end rows - {i}"
  using ids_note[of "Take_notice i x" to_notify "{i}" rows] ids_note[of "Take_reminder i x" to_notify "{}" rows]
    ids_note[of "Take_end i" to_notify "{}" rows] ids_note[of "Take_reminder i x" "reminder_due v now" "{i}" rows]
    ids_note[of "Take_end i" "reminder_due v now" "{}" rows] ids_note[of "Take_end i" to_end "{i}" rows]
  by (auto simp: to_notify_def reminder_due_def to_remind_def to_end_def remind_time_same)

lemma ids_grown:
  assumes "grown rows rows'"
  shows "ids to_notify rows' \<subseteq> ids to_notify rows" "ids (reminder_due v now) rows' \<subseteq> ids (reminder_due v now) rows"
    "ids to_end rows' \<subseteq> ids to_end rows"
  using assms by (auto simp: grown_def ids_def to_notify_def reminder_due_def to_remind_def to_end_def list_all_iff fresh_run_def)

lemma smap_shrinks:
  assumes "\<And>r s n t. f r s = (Inr n, t) \<Longrightarrow> ids p (desk_runs t) \<subseteq> ids p (desk_runs s) - (if c r then {u_id r} else {})"
  shows "smap f rs s = (Inr xs, t) \<Longrightarrow> ids p (desk_runs t) \<subseteq> ids p (desk_runs s) - u_id ` {r \<in> set rs. c r}"
proof (induction rs arbitrary: s xs)
  case (Cons r rs)
  then obtain n u ys where u: "f r s = (Inr n, u)" "smap f rs u = (Inr ys, t)" by (auto simp: sbind_Inr sret_def)
  with assms[OF u(1)] Cons.IH[OF u(2)] show ?case by (auto split: if_splits)
qed (simp add: sret_def)

lemma in_scope_ids:
  assumes "i \<in> ids p rows" "only = None \<or> Some i = only" "\<And>r. p r \<Longrightarrow> q r \<and> c r"
  shows "i \<in> u_id ` {r \<in> set (filter (\<lambda>r. q r \<and> (only = None \<or> Some (u_id r) = only)) rows). c r}"
  using assms by (auto simp: ids_def)

text \<open>C38. A pass that is not cut short leaves nothing due in its scope: every run that waits has asked its question,
  every reminder whose time has come was given, and every decision that ended without an answer was told.\<close>

theorem tick_leaves_nothing_due:
  assumes "tick_notices e now only s = (Inr n, t)" "r \<in> set (desk_runs t)" "only = None \<or> Some (u_id r) = only"
  shows "\<not> to_notify r \<and> \<not> reminder_due (z_run (o_trg e)) now r \<and> \<not> to_end r"
proof -
  let ?v = "z_run (o_trg e)"
  let ?scope = "\<lambda>r. only = None \<or> Some (u_id r) = only"
  let ?rows = "\<lambda>p u. filter (\<lambda>r. p r \<and> ?scope r) (desk_runs u)"
  obtain s0 s1 s2 xs ys zs where xs: "smap (notify_one e now) (?rows to_notify s0) s0 = (Inr xs, s1)"
    and ys: "smap (remind_one e now) (?rows to_remind s1) s1 = (Inr ys, s2)"
    and zs: "smap (end_one e) (?rows to_end s2) s2 = (Inr zs, t)"
    using assms(1) by (auto simp: tick_notices_def sbind_Inr notice_rows_def sget_def sret_def)
  have asked: "ids to_notify (desk_runs s1) \<subseteq> ids to_notify (desk_runs s0) - u_id ` {r \<in> set (?rows to_notify s0). True}"
    using xs by (rule smap_shrinks[rotated]) (drule notify_one_runs, simp add: ids_taken(1))
  have kept: "ids to_notify (desk_runs s2) \<subseteq> ids to_notify (desk_runs s1) - u_id ` {r \<in> set (?rows to_remind s1). False}"
    using ys by (rule smap_shrinks[rotated]) (use remind_one_runs ids_taken(2) in \<open>fastforce split: if_splits\<close>)
  have reminded: "ids (reminder_due ?v now) (desk_runs s2) \<subseteq> ids (reminder_due ?v now) (desk_runs s1)
      - u_id ` {r \<in> set (?rows to_remind s1). \<exists>m. remind_time ?v r = Inr (Some m) \<and> m \<le> now}"
  proof (rule smap_shrinks[OF _ ys])
    fix r s n t assume "remind_one e now r s = (Inr n, t)"
    from remind_one_runs[OF this] show "ids (reminder_due ?v now) (desk_runs t) \<subseteq> ids (reminder_due ?v now) (desk_runs s)
        - (if \<exists>m. remind_time ?v r = Inr (Some m) \<and> m \<le> now then {u_id r} else {})"
      by (cases "\<exists>m. remind_time ?v r = Inr (Some m) \<and> m \<le> now") (simp_all add: ids_taken(4), blast)
  qed
  have ended: "ids to_end (desk_runs t) \<subseteq> ids to_end (desk_runs s2) - u_id ` {r \<in> set (?rows to_end s2). True}"
    using zs by (rule smap_shrinks[rotated]) (use ids_taken(6) ids_grown(3) end_one_runs in fastforce)
  have kept': "ids to_notify (desk_runs t) \<subseteq> ids to_notify (desk_runs s2) - u_id ` {r \<in> set (?rows to_end s2). False}"
    using zs by (rule smap_shrinks[rotated]) (use ids_taken(3) ids_grown(1) end_one_runs in fastforce)
  have reminded': "ids (reminder_due ?v now) (desk_runs t) \<subseteq> ids (reminder_due ?v now) (desk_runs s2) - u_id ` {r \<in> set (?rows to_end s2). False}"
    using zs by (rule smap_shrinks[rotated]) (use ids_taken(5) ids_grown(2) end_one_runs in fastforce)
  have "u_id r \<notin> ids to_notify (desk_runs t)"
    using asked kept kept' in_scope_ids[of "u_id r" to_notify "desk_runs s0" only to_notify "\<lambda>_. True"] assms(3) by blast
  moreover have "u_id r \<notin> ids (reminder_due ?v now) (desk_runs t)"
    using reminded reminded' assms(3) in_scope_ids[of "u_id r" "reminder_due ?v now" "desk_runs s1" only to_remind
      "\<lambda>r. \<exists>m. remind_time ?v r = Inr (Some m) \<and> m \<le> now"] unfolding reminder_due_def by blast
  moreover have "u_id r \<notin> ids to_end (desk_runs t)"
    using ended in_scope_ids[of "u_id r" to_end "desk_runs s2" only to_end "\<lambda>_. True"] assms(3) by blast
  ultimately show ?thesis using assms(2) by (auto simp: ids_def)
qed


subsection \<open>Texts of a run in a message\<close>

text \<open>How a Markdown reader takes a text: a backslash makes the next character plain.\<close>

fun shown :: "string \<Rightarrow> string" where
  "shown [] = []"
| "shown [c] = [c]"
| "shown (c # d # cs) = (if c = CHR 0x5C then d # shown cs else c # shown (d # cs))"

fun active :: "string \<Rightarrow> bool" where
  "active [] = False"
| "active [c] = (c \<in> set MARKDOWN)"
| "active (c # d # cs) = (if c = CHR 0x5C then active cs else c \<in> set MARKDOWN \<or> active (d # cs))"

lemma backslash_marks: "CHR 0x5C \<in> set MARKDOWN"
  by (simp add: MARKDOWN_def)

lemma markdown_Cons: "markdown_text (c # s) = (if c \<in> set MARKDOWN then [CHR 0x5C, c] else [c]) @ markdown_text s"
  by (simp add: markdown_text_def)

lemma alert_plain_Cons: "c \<notin> set MARKDOWN \<Longrightarrow> shown (c # cs) = c # shown cs \<and> active (c # cs) = active cs"
  using backslash_marks by (cases cs) auto

lemma markdown_inert: "shown (markdown_text s) = s \<and> \<not> active (markdown_text s)"
proof (induction s)
  case (Cons c s)
  then show ?case using alert_plain_Cons[of c "markdown_text s"] by (auto simp: markdown_Cons)
qed (simp add: markdown_text_def)

lemma html_inert: "c \<in> set (html_escape s) \<Longrightarrow> c \<notin> {CHR ''<'', CHR ''>'', CHR 0x22, CHR 0x27}"
  by (auto simp: html_escape_def html_char_def split: if_splits)

text \<open>What a card says of a run is its workflow's name and its deadline: another question, other choices or other
  data in the decision leave the same card, and the name can be no link, emphasis or title in it.\<close>

theorem card_tells_no_question:
  assumes "ask_message e r reminder = Inr m" "ask_message e (r\<lparr>u_decision := c\<rparr>) reminder = Inr m'"
    "map_sum id (\<lambda>d. get0 d ''expires_at'') (decision_dict r) = map_sum id (\<lambda>d. get0 d ''expires_at'') (decision_dict (r\<lparr>u_decision := c\<rparr>))"
  shows "card_of m' = card_of m \<and> \<not> active (lt_subject (card_of m)) \<and> shown (lt_subject (card_of m)) = ms_subject m"
proof -
  have "u_owner (r\<lparr>u_decision := c\<rparr>) = u_owner r" "u_config (r\<lparr>u_decision := c\<rparr>) = u_config r" by simp_all
  then have name: "notice_name e (r\<lparr>u_decision := c\<rparr>) = notice_name e r" unfolding notice_name_def by metis
  have who: "answerer (r\<lparr>u_decision := c\<rparr>) = answerer r" by (simp add: answerer_def)
  obtain d d' where d: "decision_dict r = Inr d" "decision_dict (r\<lparr>u_decision := c\<rparr>) = Inr d'"
    using assms(1,2) by (auto simp: ask_message_def ebind_eq_Inr)
  then have "get0 d' ''expires_at'' = get0 d ''expires_at''" using assms(3) by simp
  with assms(1,2) d have "card_of m' = card_of m"
    by (auto simp: ask_message_def ebind_eq_Inr name who card_of_def Let_def)
  then show ?thesis by (simp add: card_of_def markdown_inert)
qed

subsection \<open>Examples\<close>

lemma alerts_an_hour_apart_witness:
  "\<exists>rows. slot_step\<^sup>*\<^sup>* ([], []) (rows, [Granted ''w1'' (noon + HOUR), Granted ''w1'' noon]) \<and> spaced [noon + HOUR, noon]"
proof -
  let ?rows = "run_slot (Open_slot ''w1'' ''ann'' (stamp noon)) []"
  have "slot_step (?rows, [Granted ''w1'' noon]) (run_slot (Retake_slot ''w1'' (stamp noon) (stamp (noon + HOUR))) ?rows,
      [Granted ''w1'' (noon + HOUR), Granted ''w1'' noon])"
    by (rule Retaken[OF noon_clock(2)]) (simp_all add: slot_count_def run_slot_def ALERT_COOLDOWN_def)
  with first_alert have "slot_step\<^sup>*\<^sup>* ([], []) (run_slot (Retake_slot ''w1'' (stamp noon) (stamp (noon + HOUR))) ?rows,
      [Granted ''w1'' (noon + HOUR), Granted ''w1'' noon])" by (meson r_into_rtranclp rtranclp.rtrancl_into_rtrancl)
  from alerts_an_hour_apart[OF this, of "''w1''"] this show ?thesis by auto
qed

definition quiet_desk :: "unit desk" where
  "quiet_desk = \<lparr>dk_flows = demo_flows\<lparr>fl_db := demo_db\<rparr>, dk_slots = [], dk_letters = []\<rparr>"

lemma quiet_ask:
  assumes "ask_message quiet r b = Inr m"
  shows "ask quiet r b s = (Inr (), s\<lparr>dk_letters := dk_letters s @ [mail_of m, card_of m]\<rparr>)"
  using assms by (simp add: ask_def sbind_def liftd_def slift_def map_err_def send_message_def posted_def post_def quiet_def Let_def sret_def)

lemma quiet_asked: "\<exists>m. ask_message quiet (demo_row\<lparr>u_notified := x\<rparr>) b = Inr m"
proof -
  have "is_ok (ask_message quiet (demo_row\<lparr>u_notified := x\<rparr>) True)" "is_ok (ask_message quiet (demo_row\<lparr>u_notified := x\<rparr>) False)"
    by code_simp+
  then show ?thesis by (cases b) (auto simp: is_ok_iff)
qed

lemma quiet_tick:
  obtains t where "tick_notices quiet noon None quiet_desk = (Inr 2, t)" "length (dk_letters t) = 4"
proof -
  obtain m where m: "ask_message quiet demo_row False = Inr m" using quiet_asked[of "None" False] by (auto simp: demo_row_def)
  obtain m' where m': "ask_message quiet (demo_row\<lparr>u_notified := Some (iso noon)\<rparr>) True = Inr m'" using quiet_asked by blast
  have due: "on_flows (on_db (atomic (expire_due_at (z_run (o_trg quiet)) noon))) quiet_desk = (Inr (), quiet_desk)" by code_simp
  have "remind_time (z_run (o_trg quiet)) (demo_row\<lparr>u_notified := x\<rparr>) = Inr (Some (noon + 17600000000 - 24 * HOUR))" for x by code_simp
  note time = this[of "Some (iso noon)"]
  have row: "u_id demo_row = ''r1''" "u_status demo_row = SAwaiting" "u_notified demo_row = None" "u_reminded demo_row = None"
    "u_end_notice demo_row = None" by (simp_all add: demo_row_def)
  have runs: "desk_runs quiet_desk = [demo_row]" by (simp add: desk_runs_def quiet_desk_def demo_db_def)
  have send: "sending_or (ask quiet r b) q s = (Inr (), s\<lparr>dk_letters := dk_letters s @ [mail_of y, card_of y]\<rparr>)"
    if "ask_message quiet r b = Inr y" for r b q s y
    by (simp add: sending_or_def guarded_def stry_def quiet_ask[OF that] sret_def)
  have letters: "desk_runs (s\<lparr>dk_letters := x\<rparr>) = desk_runs s" for s :: "unit desk" and x by (simp add: desk_runs_def)
  let ?r = "demo_row\<lparr>u_notified := Some (iso noon)\<rparr>"
  let ?s1 = "(with_runs [?r] quiet_desk)\<lparr>dk_letters := dk_letters quiet_desk @ [mail_of m, card_of m]\<rparr>"
  let ?s2 = "(with_runs [?r\<lparr>u_reminded := Some (iso noon)\<rparr>] ?s1)\<lparr>dk_letters := dk_letters ?s1 @ [mail_of m', card_of m']\<rparr>"
  have one: "notify_one quiet noon demo_row quiet_desk = (Inr 1, ?s1)"
    by (simp add: notify_one_def reserved_def sbind_def issue_eq runs row send[OF m] note_stmt_def changed_def sret_def)
  have "noon + 17600000000 - 24 * HOUR \<le> noon" by (simp add: HOUR_def)
  then have two: "remind_one quiet noon ?r ?s1 = (Inr 1, ?s2)"
    by (simp add: remind_one_def liftd_def slift_def map_err_def time reserved_def sbind_def issue_eq letters row send[OF m']
      note_stmt_def changed_def sret_def)
  have "tick_notices quiet noon None quiet_desk = (Inr 2, ?s2)"
    by (simp add: tick_notices_def sbind_def due notice_rows_def sget_def runs to_notify_def to_remind_def to_end_def row one two
      letters sret_def del: One_nat_def)
  moreover have "length (dk_letters ?s2) = 4" by (simp add: quiet_desk_def)
  ultimately show thesis by (rule that)
qed

lemma tick_leaves_nothing_due_witness:
  "\<exists>t. tick_notices quiet noon None quiet_desk = (Inr 2, t) \<and> length (dk_letters t) = 4
    \<and> (\<forall>r \<in> set (desk_runs t). \<not> to_notify r)"
proof -
  obtain t where t: "tick_notices quiet noon None quiet_desk = (Inr 2, t)" "length (dk_letters t) = 4" by (rule quiet_tick)
  from tick_leaves_nothing_due[OF t(1)] t show ?thesis by blast
qed

definition asking_row :: "string \<Rightarrow> run_row" where
  "asking_row text = demo_row\<lparr>u_decision := Some text\<rparr>"

lemma map_sum_Inr_iff: "map_sum id f x = Inr y \<longleftrightarrow> (\<exists>z. x = Inr z \<and> y = f z)"
  by (cases x) auto

lemma card_tells_no_question_witness:
  "\<exists>m m'. ask_message quiet (asking_row ''{\"question\":\"Pay Ann?\"}'') False = Inr m
    \<and> ask_message quiet (asking_row ''{\"question\":\"Really?\"}'') False = Inr m' \<and> ms_lines m \<noteq> ms_lines m' \<and> card_of m' = card_of m"
    (is "\<exists>m m'. ask_message quiet ?r False = _ \<and> ask_message quiet ?r' False = _ \<and> _")
proof -
  have "map_sum id (\<lambda>m. ms_lines m ! 1) (ask_message quiet ?r False) = Inr ''Pay Ann?''"
    "map_sum id (\<lambda>m. ms_lines m ! 1) (ask_message quiet ?r' False) = Inr ''Really?''"
    and same: "map_sum id (\<lambda>d. get0 d ''expires_at'') (decision_dict ?r) = map_sum id (\<lambda>d. get0 d ''expires_at'') (decision_dict ?r')"
    by code_simp+
  then obtain m m' where m: "ask_message quiet ?r False = Inr m" "ask_message quiet ?r' False = Inr m'"
    "ms_lines m ! 1 = ''Pay Ann?''" "ms_lines m' ! 1 = ''Really?''" by (auto simp: map_sum_Inr_iff)
  have e: "?r' = ?r\<lparr>u_decision := Some ''{\"question\":\"Really?\"}''\<rparr>" by (simp add: asking_row_def)
  have "ms_lines m \<noteq> ms_lines m'" using m(3,4) by auto
  with conjunct1[OF card_tells_no_question[OF m(1) m(2)[unfolded e] same[unfolded e]]] m(1,2) show ?thesis by blast
qed
end
