(* ===== verification/Qt_Month.thy ===== *)
theory Qt_Month
  imports Py_Time
begin

section \<open>The billing month (\<open>month_start\<close> and \<open>next_reset\<close> of \<open>core/usage_quota.py\<close>)\<close>

text \<open>
  A month of quota is a calendar month of Paris.  The table of the time zone is data of the system: its
  two readings, from UTC to the local clock and from the local clock to UTC, are a parameter.  Instants are
  microseconds since the year 1.
\<close>

record zone =
  z_local :: "int \<Rightarrow> int"
  z_utc :: "int \<Rightarrow> int"

definition first_of :: "int \<Rightarrow> int \<Rightarrow> int" where
  "first_of y m = (days_before_year y + sum_list (take (nat (m - 1)) (month_lengths y))) * DAY"

definition month_start :: "zone \<Rightarrow> int \<Rightarrow> int" where
  "month_start z now = (case date_of (z_local z now div DAY + 1) of
     y # m # _ \<Rightarrow> z_utc z (first_of y m) | _ \<Rightarrow> 0)"

definition next_reset :: "zone \<Rightarrow> int \<Rightarrow> int" where
  "next_reset z now = (case date_of (z_local z now div DAY + 1) of
     y # m # _ \<Rightarrow> (case (if m = 12 then (y + 1, 1) else (y, m + 1)) of (y, m) \<Rightarrow> z_utc z (first_of y m)) | _ \<Rightarrow> 0)"

subsection \<open>Months in a row\<close>

text \<open>Month \<open>k\<close> is month \<open>k mod 12 + 1\<close> of year \<open>k div 12\<close>.\<close>

definition month_at :: "int \<Rightarrow> int" where
  "month_at k = first_of (k div 12) (k mod 12 + 1)"

lemma month_at_last: "first_of (y + 1) 1 = (days_before_year y + sum_list (take 12 (month_lengths y))) * DAY"
  by (simp add: first_of_def year_length sum_month_lengths)

lemma month_step:
  assumes "0 \<le> i" "i < 12"
  shows "(if i = 11 then first_of (y + 1) 1 else first_of y (i + 2)) = first_of y (i + 1) + month_lengths y ! nat i * DAY"
proof -
  have n: "nat i < length (month_lengths y)" using assms by simp
  have "take (Suc (nat i)) (month_lengths y) = take (nat i) (month_lengths y) @ [month_lengths y ! nat i]"
    by (rule take_Suc_conv_app_nth[OF n])
  then have s: "sum_list (take (Suc (nat i)) (month_lengths y)) = sum_list (take (nat i) (month_lengths y)) + month_lengths y ! nat i"
    by simp
  have k: "nat (i + 1 - 1) = nat i" "nat (i + 2 - 1) = Suc (nat i)" using assms by simp_all
  show ?thesis
  proof (cases "i = 11")
    case True
    then have "Suc (nat i) = 12" by simp
    then show ?thesis using month_at_last[of y] s True by (simp add: first_of_def distrib_right)
  next
    case False then show ?thesis using s by (simp only: first_of_def k) (simp add: distrib_right)
  qed
qed

lemma month_length_pos: "0 \<le> i \<Longrightarrow> i < 12 \<Longrightarrow> 0 < month_lengths y ! nat i"
proof -
  assume i: "0 \<le> i" "i < (12::int)"
  have "month_lengths y ! nat i \<in> set (month_lengths y)" using i by (intro nth_mem) simp
  then show ?thesis by (auto simp: month_lengths_def)
qed

lemma month_at_Suc: "month_at (k + 1) = (if k mod 12 = 11 then first_of (k div 12 + 1) 1 else first_of (k div 12) (k mod 12 + 2))"
proof (cases "k mod 12 = 11")
  case True
  have e: "k + 1 = 12 * (k div 12 + 1) + 0" using True by presburger
  have "(k + 1) div 12 = k div 12 + 1" "(k + 1) mod 12 = 0"
    by (rule int_div_pos_eq[OF e] int_mod_pos_eq[OF e]; simp)+
  then show ?thesis using True by (simp add: month_at_def)
next
  case False
  have e: "k + 1 = 12 * (k div 12) + (k mod 12 + 1)" by simp
  have b: "0 \<le> k mod 12 + 1" "k mod 12 + 1 < 12" using False pos_mod_bound[of 12 k] pos_mod_sign[of 12 k] by linarith+
  have "(k + 1) div 12 = k div 12" "(k + 1) mod 12 = k mod 12 + 1"
    by (rule int_div_pos_eq[OF e b] int_mod_pos_eq[OF e b])+
  then show ?thesis using False by (simp add: month_at_def add.commute[of 2])
qed

lemma month_at_step: "month_at k < month_at (k + 1)"
  using month_step[of "k mod 12" "k div 12"] month_length_pos[of "k mod 12" "k div 12"]
  unfolding month_at_Suc by (simp add: month_at_def)

lemma month_at_less: "k < k' \<Longrightarrow> month_at k < month_at k'"
proof (induction k' rule: int_gr_induct)
  case base then show ?case by (rule month_at_step)
next
  case (step i) then show ?case using month_at_step[of i] by simp
qed

lemma month_at_le: "k \<le> k' \<Longrightarrow> month_at k \<le> month_at k'"
  using month_at_less[of k k'] by (cases "k = k'") auto

text \<open>The month of a local time.\<close>

lemma month_of:
  obtains k d where "date_of (l div DAY + 1) = [k div 12, k mod 12 + 1, d]" "month_at k \<le> l" "l < month_at (k + 1)"
proof -
  define n where "n = l div DAY + 1"
  obtain i d where i: "i < 12" "date_of n = [year_of n, 1 + int i, d]" "1 \<le> d" "d \<le> month_lengths (year_of n) ! i"
    "n = days_before_year (year_of n) + sum_list (take i (month_lengths (year_of n))) + d"
    using date_of_parts[of n] by blast
  define k where "k = 12 * year_of n + int i"
  have k: "k div 12 = year_of n" "k mod 12 = int i" using i(1) by (simp_all add: k_def)
  have l: "l = (n - 1) * DAY + l mod DAY" "0 \<le> l mod DAY" "l mod DAY < DAY" by (simp_all add: n_def)
  have "month_at k = (n - d) * DAY" using i(5) k by (simp add: month_at_def first_of_def)
  moreover have "month_at (k + 1) = month_at k + month_lengths (year_of n) ! i * DAY"
    unfolding month_at_Suc using month_step[of "k mod 12" "k div 12"] k i(1) by (simp add: month_at_def)
  moreover have "(n - d) * DAY \<le> (n - 1) * DAY" using i(3) by simp
  moreover have "n * DAY \<le> (n - d + month_lengths (year_of n) ! i) * DAY" using i(4) by simp
  ultimately have "month_at k \<le> l" "l < month_at (k + 1)" using l by (simp_all add: algebra_simps)
  then show thesis using i(2) k by (intro that[of k d]) (simp_all add: n_def)
qed

lemma same_month: "month_at k \<le> l \<Longrightarrow> l < month_at (k + 1) \<Longrightarrow> month_at k' \<le> l \<Longrightarrow> l < month_at (k' + 1) \<Longrightarrow> k = k'"
  using month_at_le[of "k + 1" k'] month_at_le[of "k' + 1" k] by (cases k k' rule: linorder_cases) auto

lemma billing_window:
  obtains k where "month_start z now = z_utc z (month_at k)" "next_reset z now = z_utc z (month_at (k + 1))"
    "month_at k \<le> z_local z now" "z_local z now < month_at (k + 1)"
proof -
  obtain k d where k: "date_of (z_local z now div DAY + 1) = [k div 12, k mod 12 + 1, d]"
    "month_at k \<le> z_local z now" "z_local z now < month_at (k + 1)"
    by (rule month_of)
  have "month_start z now = z_utc z (month_at k)" "next_reset z now = z_utc z (month_at (k + 1))"
    using k(1) by (simp_all add: month_start_def next_reset_def month_at_Suc add.commute[of 2]) (simp add: month_at_def)
  then show thesis using that k(2,3) by blast
qed

text \<open>
  What a zone has to be: its clock is not put back over the midnight a month starts with, so that the local
  clock shows that midnight or later exactly from its instant on.
\<close>

definition steady :: "zone \<Rightarrow> bool" where
  "steady z = (\<forall>k u. z_utc z (month_at k) \<le> u \<longleftrightarrow> month_at k \<le> z_local z u)"

lemma steadyD: "steady z \<Longrightarrow> z_utc z (month_at k) \<le> u \<longleftrightarrow> month_at k \<le> z_local z u"
  by (simp add: steady_def)

text \<open>C33. The months of the quota partition time: an instant lies in its month, every instant of that month has the
  same start and the same reset, and a later instant has its month after it.\<close>

theorem billing_months_partition_time:
  assumes "steady z"
  shows "month_start z now \<le> now \<and> now < next_reset z now \<and>
    (month_start z now \<le> u \<and> u < next_reset z now \<longrightarrow>
       month_start z u = month_start z now \<and> next_reset z u = next_reset z now) \<and>
    (next_reset z now \<le> u \<longrightarrow> next_reset z now \<le> month_start z u)"
proof (intro conjI impI)
  note law = steadyD[OF assms]
  obtain k where k: "month_start z now = z_utc z (month_at k)" "next_reset z now = z_utc z (month_at (k + 1))"
    "month_at k \<le> z_local z now" "z_local z now < month_at (k + 1)"
    by (rule billing_window)
  obtain j where j: "month_start z u = z_utc z (month_at j)" "next_reset z u = z_utc z (month_at (j + 1))"
    "month_at j \<le> z_local z u" "z_local z u < month_at (j + 1)"
    by (rule billing_window)
  show "month_start z now \<le> now" "now < next_reset z now" using k law[of k now] law[of "k + 1" now] by linarith+
  {
    assume "month_start z now \<le> u \<and> u < next_reset z now"
    then have "k = j" using k j law[of k u] law[of "k + 1" u] same_month[of k "z_local z u" j] by auto
    then show "month_start z u = month_start z now" "next_reset z u = next_reset z now" using k j by simp_all
  next
    assume "next_reset z now \<le> u"
    then have "month_at (k + 1) \<le> z_local z u" using k law by simp
    then have "k + 1 \<le> j" using j month_at_le[of "j + 1" "k + 1"] by (cases "k + 1 \<le> j") auto
    then have "month_at (k + 1) \<le> z_local z (z_utc z (month_at j))"
      using month_at_le[of "k + 1" j] law[of j "z_utc z (month_at j)"] by simp
    then show "next_reset z now \<le> month_start z u" using k j law by simp
  }
qed

text \<open>A zone one hour east of UTC all year.\<close>

definition winter :: zone where
  "winter = \<lparr>z_local = (\<lambda>u. u + 3600000000), z_utc = (\<lambda>l. l - 3600000000)\<rparr>"

lemma winter_steady: "steady winter"
  by (simp add: steady_def winter_def) linarith

text \<open>The 31st of July 2026, 22:59:59 and 23:00 UTC, before and after midnight in that zone.\<close>

lemma billing_months_partition_time_witness:
  "month_start winter 63921135599000000 \<le> 63921135599000000 \<and> 63921135600000000 \<le> month_start winter 63921135600000000"
proof -
  have "next_reset winter 63921135599000000 = 63921135600000000" by code_simp
  then show ?thesis
    using billing_months_partition_time[OF winter_steady, of 63921135599000000 63921135600000000] by simp
qed

end
