(* ===== verification/Qt_Registry.thy ===== *)
theory Qt_Registry
  imports Py_Value
begin

section \<open>The registry of extensions (\<open>core/extensions/registry.py\<close>, \<open>core/usage_wiring.py\<close>)\<close>

text \<open>
  What add-ons register at start and the core looks up later.  \<open>'f\<close> is the type of what they register:
  functions and modules, never called here except the flags of \<open>feature_flags\<close>.
\<close>

subsection \<open>The state\<close>

record 'f callback_spec =
  cb_trigger :: string
  cb_builder :: 'f
  cb_position :: string
  cb_flag :: "string option"
  cb_output_key :: "string option"
  cb_db_trigger :: "string option"

record tool_pack =
  tp_schema :: string
  tp_portfolio :: string

definition CORE_TOOL_PACK :: tool_pack where
  "CORE_TOOL_PACK = \<lparr>tp_schema = ''apowerb.tools_store.schema'', tp_portfolio = ''apowerb.tools_store.portfolio''\<rparr>"

record 'f router_spec =
  rs_router :: 'f
  rs_prefix :: string
  rs_name :: "string option"

record 'f registry =
  rg_callbacks :: "(string \<times> 'f callback_spec list) list"
  rg_gate_appliers :: "(string \<times> 'f) list"
  rg_tool_rebinders :: "(string \<times> 'f) list"
  rg_webhook_hooks :: "(string \<times> 'f) list"
  rg_templates :: "pydict list"
  rg_schemas :: "(string \<times> 'f) list"
  rg_tools :: "(string \<times> 'f) list"
  rg_tool_packs :: "tool_pack list"
  rg_routers :: "'f router_spec list"
  rg_second_factor :: "'f option"
  rg_supervision_scope :: "'f option"
  rg_supervision_link :: "'f option"
  rg_run_guards :: "'f list"
  rg_default_llm_cap :: "'f option"
  rg_model_observers :: "'f list"
  rg_bootstrap_hooks :: "'f list"
  rg_feature_flags :: "(string \<times> 'f) list"
  rg_provided :: "string list"

definition new_registry :: "'f registry" where
  "new_registry = \<lparr>rg_callbacks = [], rg_gate_appliers = [], rg_tool_rebinders = [], rg_webhook_hooks = [],
     rg_templates = [], rg_schemas = [], rg_tools = [], rg_tool_packs = [CORE_TOOL_PACK], rg_routers = [],
     rg_second_factor = None, rg_supervision_scope = None, rg_supervision_link = None, rg_run_guards = [],
     rg_default_llm_cap = None, rg_model_observers = [], rg_bootstrap_hooks = [], rg_feature_flags = [],
     rg_provided = []\<rparr>"

subsection \<open>Registering\<close>

text \<open>A capability that is already provided is refused; no name, or an empty one, is never refused.\<close>

definition claim :: "string option \<Rightarrow> 'f registry \<Rightarrow> bool \<times> 'f registry" where
  "claim p r = (case p of
     None \<Rightarrow> (True, r)
   | Some c \<Rightarrow> if c = [] then (True, r)
       else if c \<in> set (rg_provided r) then (False, r)
       else (True, r\<lparr>rg_provided := rg_provided r @ [c]\<rparr>))"

definition register_run_guard :: "'f \<Rightarrow> string option \<Rightarrow> 'f registry \<Rightarrow> 'f registry" where
  "register_run_guard f p r = (case claim p r of (ok, r) \<Rightarrow>
     if ok then r\<lparr>rg_run_guards := rg_run_guards r @ [f]\<rparr> else r)"

definition register_model_observer :: "'f \<Rightarrow> string option \<Rightarrow> 'f registry \<Rightarrow> 'f registry" where
  "register_model_observer f p r = (case claim p r of (ok, r) \<Rightarrow>
     if ok then r\<lparr>rg_model_observers := rg_model_observers r @ [f]\<rparr> else r)"

definition register_bootstrap_hook :: "'f \<Rightarrow> string option \<Rightarrow> 'f registry \<Rightarrow> 'f registry" where
  "register_bootstrap_hook f p r = (case claim p r of (ok, r) \<Rightarrow>
     if ok then r\<lparr>rg_bootstrap_hooks := rg_bootstrap_hooks r @ [f]\<rparr> else r)"

definition register_tool_pack :: "string \<Rightarrow> string \<Rightarrow> 'f registry \<Rightarrow> 'f registry" where
  "register_tool_pack s p r = (let pack = \<lparr>tp_schema = s, tp_portfolio = p\<rparr> in
     if pack \<in> set (rg_tool_packs r) then r else r\<lparr>rg_tool_packs := rg_tool_packs r @ [pack]\<rparr>)"

definition register_callback :: "'f callback_spec \<Rightarrow> 'f registry \<Rightarrow> 'f registry" where
  "register_callback c r = r\<lparr>rg_callbacks := dset (rg_callbacks r) (cb_trigger c)
     ((case dget (rg_callbacks r) (cb_trigger c) of None \<Rightarrow> [] | Some cs \<Rightarrow> cs) @ [c])\<rparr>"

definition callbacks :: "'f registry \<Rightarrow> string \<Rightarrow> 'f callback_spec list" where
  "callbacks r t = (case dget (rg_callbacks r) t of None \<Rightarrow> [] | Some cs \<Rightarrow> cs)"

definition all_callbacks :: "'f registry \<Rightarrow> 'f callback_spec list" where
  "all_callbacks r = concat (map snd (rg_callbacks r))"

text \<open>
  A template whose id is known is left out.  An id that cannot be hashed raises \<open>TypeError\<close> when it is
  compared: the templates before it stay registered.
\<close>

fun add_templates :: "pyval list \<Rightarrow> pydict list \<Rightarrow> pydict list \<Rightarrow> exn option \<times> pydict list" where
  "add_templates seen ts [] = (None, ts)"
| "add_templates seen ts (t # later) = (let i = get0 t ''template_id'' in
     if i \<noteq> PNone \<and> \<not> hashable i then (Some (PyError ''TypeError''), ts)
     else if i \<noteq> PNone \<and> py_in i seen then add_templates seen ts later
     else add_templates (i # seen) (ts @ [t]) later)"

definition register_templates :: "pydict list \<Rightarrow> 'f registry \<Rightarrow> exn option \<times> 'f registry" where
  "register_templates new r =
     (case add_templates (map (\<lambda>t. get0 t ''template_id'') (rg_templates r)) (rg_templates r) new of
        (e, ts) \<Rightarrow> (e, r\<lparr>rg_templates := ts\<rparr>))"

text \<open>The registrations an add-on may make, in one type; \<open>register\<close> makes one of them.\<close>

datatype 'f registration =
    RunGuard 'f "string option"
  | ModelObserver 'f "string option"
  | BootstrapHook 'f "string option"
  | DefaultLlmCap 'f
  | NewToolPack string string
  | SupervisionScope 'f
  | SupervisionLink 'f
  | SecondFactor 'f
  | FeatureFlag string 'f
  | NewRouter 'f string "string option"
  | GateApplier string 'f
  | NewCallback "'f callback_spec"
  | ToolRebinder string 'f
  | NewTool string 'f
  | WebhookHook string 'f
  | NewTemplates "pydict list"
  | NewSchema string 'f

fun register :: "'f registration \<Rightarrow> 'f registry \<Rightarrow> 'f registry" where
  "register (RunGuard f p) r = register_run_guard f p r"
| "register (ModelObserver f p) r = register_model_observer f p r"
| "register (BootstrapHook f p) r = register_bootstrap_hook f p r"
| "register (DefaultLlmCap f) r = r\<lparr>rg_default_llm_cap := Some f\<rparr>"
| "register (NewToolPack s p) r = register_tool_pack s p r"
| "register (SupervisionScope f) r = r\<lparr>rg_supervision_scope := Some f\<rparr>"
| "register (SupervisionLink f) r = r\<lparr>rg_supervision_link := Some f\<rparr>"
| "register (SecondFactor f) r = r\<lparr>rg_second_factor := Some f\<rparr>"
| "register (FeatureFlag n f) r = r\<lparr>rg_feature_flags := dset (rg_feature_flags r) n f\<rparr>"
| "register (NewRouter f p n) r =
     r\<lparr>rg_routers := rg_routers r @ [\<lparr>rs_router = f, rs_prefix = p, rs_name = n\<rparr>]\<rparr>"
| "register (GateApplier n f) r = r\<lparr>rg_gate_appliers := rg_gate_appliers r @ [(n, f)]\<rparr>"
| "register (NewCallback c) r = register_callback c r"
| "register (ToolRebinder n f) r = r\<lparr>rg_tool_rebinders := dset (rg_tool_rebinders r) n f\<rparr>"
| "register (NewTool n f) r = r\<lparr>rg_tools := dset (rg_tools r) n f\<rparr>"
| "register (WebhookHook n f) r = r\<lparr>rg_webhook_hooks := dset (rg_webhook_hooks r) n f\<rparr>"
| "register (NewTemplates ts) r = snd (register_templates ts r)"
| "register (NewSchema n f) r = r\<lparr>rg_schemas := dset (rg_schemas r) n f\<rparr>"

definition register_all :: "'f registration list \<Rightarrow> 'f registry \<Rightarrow> 'f registry" where
  "register_all = fold register"

definition webhook_hook :: "'f registry \<Rightarrow> string \<Rightarrow> 'f option" where
  "webhook_hook r p = dget (rg_webhook_hooks r) p"

text \<open>The flags are read at each call: \<open>run\<close> calls what was registered.\<close>

definition feature_flags :: "('f \<Rightarrow> exn + 'v) \<Rightarrow> 'f registry \<Rightarrow> exn + (string \<times> 'v) list" where
  "feature_flags run r = emap (\<lambda>(n, f). ebind (run f) (\<lambda>v. Inr (n, v))) (rg_feature_flags r)"

subsection \<open>The meter of the core\<close>

text \<open>What \<open>main.py\<close> registers before any add-on is loaded.\<close>

datatype callable =
    CoreLlmCap
  | CoreRunQuota
  | CoreUsageRecorder
  | CoreUsageTable
  | AddOn nat

definition core_usage :: "callable registration list" where
  "core_usage =
     [DefaultLlmCap CoreLlmCap,
      RunGuard CoreRunQuota (Some ''llm_quota''),
      ModelObserver CoreUsageRecorder (Some ''llm_usage''),
      BootstrapHook CoreUsageTable (Some ''llm_usage_table'')]"

definition register_core_usage :: "callable registry \<Rightarrow> callable registry" where
  "register_core_usage r = register_all core_usage r"

text \<open>The application once started: the core first, then what the add-ons registered.\<close>

definition started :: "callable registration list \<Rightarrow> callable registry" where
  "started ops = register_all ops (register_core_usage new_registry)"

subsection \<open>Facts\<close>

fun capability :: "'f registration \<Rightarrow> string option" where
  "capability (RunGuard f p) = p"
| "capability (ModelObserver f p) = p"
| "capability (BootstrapHook f p) = p"
| "capability op = None"

definition named :: "string option \<Rightarrow> bool" where
  "named p = (case p of None \<Rightarrow> False | Some c \<Rightarrow> c \<noteq> [])"

lemma register_all_simps [simp]:
  "register_all [] r = r" "register_all (op # ops) r = register_all ops (register op r)"
  by (simp_all add: register_all_def)

lemma register_all_append: "register_all (ops @ later) r = register_all later (register_all ops r)"
  by (simp add: register_all_def)

lemma claim_cases:
  "claim p r = (if named p \<and> the p \<in> set (rg_provided r) then (False, r)
     else if named p then (True, r\<lparr>rg_provided := rg_provided r @ [the p]\<rparr>) else (True, r))"
  by (cases p) (auto simp: claim_def named_def)

lemmas registrations = register_run_guard_def register_model_observer_def register_bootstrap_hook_def
  register_tool_pack_def register_callback_def register_templates_def claim_cases

text \<open>A registration that names a capability already provided changes nothing.\<close>

lemma register_taken: "named (capability op) \<Longrightarrow> the (capability op) \<in> set (rg_provided r) \<Longrightarrow> register op r = r"
  by (cases op) (auto simp: registrations named_def)

lemma register_provided:
  "set (rg_provided (register op r)) = set (rg_provided r) \<union> (if named (capability op) then {the (capability op)} else {})"
  by (cases op) (auto simp: registrations named_def Let_def split: prod.splits)

lemma cap_stays: "rg_default_llm_cap r \<noteq> None \<Longrightarrow> rg_default_llm_cap (register_all ops r) \<noteq> None"
proof (induction ops arbitrary: r)
  case (Cons op ops)
  have "rg_default_llm_cap (register op r) \<noteq> None"
    using Cons.prems by (cases op) (auto simp: registrations Let_def split: prod.splits)
  then show ?case using Cons.IH by simp
qed simp

text \<open>
  A list of the registry that one kind of registration extends, and only under a capability that is free: what
  a list of registrations adds to it comes from registrations of that kind, none under a capability provided
  before.
\<close>

locale capability_list =
  fixes items :: "'f registry \<Rightarrow> 'f list"
    and made :: "'f \<Rightarrow> string option \<Rightarrow> 'f registration"
  assumes one: "\<exists>fs. items (register op r) = items r @ fs \<and>
    set fs \<subseteq> {f. \<exists>p. op = made f p \<and> (named p \<longrightarrow> the p \<notin> set (rg_provided r))}"
begin

lemma later:
  "\<exists>fs. items (register_all ops r) = items r @ fs \<and>
     set fs \<subseteq> {f. \<exists>p. made f p \<in> set ops \<and> (named p \<longrightarrow> the p \<notin> set (rg_provided r))}"
proof (induction ops arbitrary: r)
  case (Cons op ops)
  obtain fs where f: "items (register op r) = items r @ fs"
    "set fs \<subseteq> {f. \<exists>p. op = made f p \<and> (named p \<longrightarrow> the p \<notin> set (rg_provided r))}"
    using one by blast
  obtain gs where g: "items (register_all ops (register op r)) = items (register op r) @ gs"
    "set gs \<subseteq> {f. \<exists>p. made f p \<in> set ops \<and> (named p \<longrightarrow> the p \<notin> set (rg_provided (register op r)))}"
    using Cons.IH by blast
  have "set (rg_provided r) \<subseteq> set (rg_provided (register op r))" by (simp add: register_provided)
  then have "set (fs @ gs) \<subseteq> {f. \<exists>p. made f p \<in> set (op # ops) \<and> (named p \<longrightarrow> the p \<notin> set (rg_provided r))}"
    using f(2) g(2) by (simp add: subset_iff) metis
  then show ?case using f(1) g(1) by (intro exI[of _ "fs @ gs"]) simp
qed simp

lemma none_twice:
  assumes "c \<in> set (rg_provided r)" "c \<noteq> []"
  obtains fs where "items (register_all ops r) = items r @ fs" "set fs \<subseteq> {f. \<exists>p. made f p \<in> set ops \<and> p \<noteq> Some c}"
proof -
  obtain fs where "items (register_all ops r) = items r @ fs"
    "set fs \<subseteq> {f. \<exists>p. made f p \<in> set ops \<and> (named p \<longrightarrow> the p \<notin> set (rg_provided r))}"
    using later by blast
  moreover have "named (Some c)" using assms(2) by (simp add: named_def)
  ultimately show thesis using assms(1) by (intro that) (auto 0 3 simp: subset_iff)
qed

end

interpretation guards: capability_list rg_run_guards RunGuard
proof (unfold_locales, goal_cases)
  case (1 op r) then show ?case by (cases op) (auto simp: registrations Let_def split: prod.splits)
qed

interpretation observers: capability_list rg_model_observers ModelObserver
proof (unfold_locales, goal_cases)
  case (1 op r) then show ?case by (cases op) (auto simp: registrations Let_def split: prod.splits)
qed

lemma started_core [simp]:
  "rg_default_llm_cap (register_core_usage new_registry) = Some CoreLlmCap"
  "rg_run_guards (register_core_usage new_registry) = [CoreRunQuota]"
  "rg_model_observers (register_core_usage new_registry) = [CoreUsageRecorder]"
  "rg_bootstrap_hooks (register_core_usage new_registry) = [CoreUsageTable]"
  "rg_provided (register_core_usage new_registry) = [''llm_quota'', ''llm_usage'', ''llm_usage_table'']"
  by (simp_all add: register_core_usage_def core_usage_def new_registry_def registrations named_def)

lemma started_cap: "rg_default_llm_cap (started ops) \<noteq> None"
  by (simp add: started_def cap_stays)

text \<open>
  Whatever the add-ons register after the core, the recorder and the quota of the core are the first and
  the only ones of their capability: what follows them was registered under no name or under another one.
\<close>

theorem meter_registered_once:
  "\<exists>gs os. rg_run_guards (started ops) = CoreRunQuota # gs \<and> rg_model_observers (started ops) = CoreUsageRecorder # os \<and>
     set gs \<subseteq> {f. \<exists>p. RunGuard f p \<in> set ops \<and> p \<noteq> Some ''llm_quota''} \<and>
     set os \<subseteq> {f. \<exists>p. ModelObserver f p \<in> set ops \<and> p \<noteq> Some ''llm_usage''}"
proof -
  obtain gs where "rg_run_guards (started ops) = CoreRunQuota # gs" "set gs \<subseteq> {f. \<exists>p. RunGuard f p \<in> set ops \<and> p \<noteq> Some ''llm_quota''}"
    using guards.none_twice[of "''llm_quota''" "register_core_usage new_registry" ops] by (auto simp: started_def)
  moreover obtain os where "rg_model_observers (started ops) = CoreUsageRecorder # os" "set os \<subseteq> {f. \<exists>p. ModelObserver f p \<in> set ops \<and> p \<noteq> Some ''llm_usage''}"
    using observers.none_twice[of "''llm_usage''" "register_core_usage new_registry" ops] by (auto simp: started_def)
  ultimately show ?thesis by blast
qed

end
