(* ===== verification/Qt_Count.thy ===== *)
theory Qt_Count
  imports Qt_Month Qt_Registry
begin

section \<open>Counting tokens (\<open>core/usage_quota.py\<close>, \<open>core/agent_helpers/usage_recorder.py\<close>, \<open>default_llm_usage.py\<close>)\<close>

text \<open>
  One row of \<open>llm_usage\<close> per turn of a model; the quota of a month and the gauge are sums over the rows the
  platform pays for.  A database is its rows and the set of reads that fail.
\<close>

subsection \<open>Recording a turn\<close>

record usage_row =
  us_created :: int
  us_agent_id :: int
  us_agent_name :: string
  us_owner :: "string option"
  us_session :: "string option"
  us_invocation :: "string option"
  us_tools :: "string option"
  us_source :: "string option"
  us_model :: string
  us_input :: int
  us_output :: int
  us_thoughts :: int
  us_cached :: int
  us_total :: int
  us_shared :: bool

text \<open>What the framework reports of a turn, and what \<open>litellm.completion\<close> does.\<close>

record usage_metadata =
  um_prompt :: "int option"
  um_candidates :: "int option"
  um_thoughts :: "int option"
  um_cached :: "int option"
  um_total :: "int option"

record completion_usage =
  cu_prompt :: "int option"
  cu_completion :: "int option"
  cu_reasoning :: "int option"
  cu_cached :: "int option"
  cu_total :: "int option"

record token_counts =
  tc_input :: int
  tc_output :: int
  tc_thoughts :: int
  tc_cached :: int
  tc_total :: int

definition or_zero :: "int option \<Rightarrow> int" where
  "or_zero n = (case n of None \<Rightarrow> 0 | Some k \<Rightarrow> k)"

definition extract_usage :: "usage_metadata option \<Rightarrow> token_counts option" where
  "extract_usage m = map_option (\<lambda>u. \<lparr>tc_input = or_zero (um_prompt u), tc_output = or_zero (um_candidates u),
     tc_thoughts = or_zero (um_thoughts u), tc_cached = or_zero (um_cached u), tc_total = or_zero (um_total u)\<rparr>) m"

text \<open>\<open>completion_tokens\<close> includes the reasoning tokens.\<close>

definition litellm_usage :: "completion_usage option \<Rightarrow> token_counts option" where
  "litellm_usage m = map_option (\<lambda>u. let reasoning = or_zero (cu_reasoning u) in
     \<lparr>tc_input = or_zero (cu_prompt u), tc_output = max (or_zero (cu_completion u) - reasoning) 0,
      tc_thoughts = reasoning, tc_cached = or_zero (cu_cached u), tc_total = or_zero (cu_total u)\<rparr>) m"

text \<open>A part of a response, with its text and the name of the function it calls.\<close>

record part =
  pt_text :: "string option"
  pt_call :: "string option"

record response =
  re_partial :: bool
  re_parts :: "part list"
  re_usage :: "usage_metadata option"

definition has_visible_text :: "response \<Rightarrow> bool" where
  "has_visible_text r = list_ex (\<lambda>p. case pt_text p of None \<Rightarrow> False | Some t \<Rightarrow> strip t \<noteq> []) (re_parts r)"

definition tool_names :: "part list \<Rightarrow> string list" where
  "tool_names ps = fold (\<lambda>p names. case pt_call p of None \<Rightarrow> names
     | Some n \<Rightarrow> if n = [] \<or> CHR '','' \<in> set n \<or> n \<in> set names then names else names @ [n]) ps []"

definition extract_tool_names :: "response \<Rightarrow> string option" where
  "extract_tool_names r = (let names = tool_names (re_parts r) in if names = [] then None else Some (join '','' names))"

text \<open>Who is asking, as the recorder was built for the agent and as the call's context says.\<close>

record caller =
  ca_agent_id :: int
  ca_agent_name :: string
  ca_owner :: "string option"
  ca_model :: "string option"
  ca_shared :: bool
  ca_session :: "string option"
  ca_invocation :: "string option"
  ca_source :: "string option"

definition usage_of :: "caller \<Rightarrow> string option \<Rightarrow> token_counts \<Rightarrow> int \<Rightarrow> usage_row option" where
  "usage_of c tools t now = map_option (\<lambda>m. \<lparr>us_created = now, us_agent_id = ca_agent_id c, us_agent_name = ca_agent_name c,
     us_owner = ca_owner c, us_session = ca_session c, us_invocation = ca_invocation c, us_tools = tools,
     us_source = ca_source c, us_model = m, us_input = tc_input t, us_output = tc_output t,
     us_thoughts = tc_thoughts t, us_cached = tc_cached t, us_total = tc_total t, us_shared = ca_shared c\<rparr>) (ca_model c)"

text \<open>
  A write that fails, or a turn of a model without a name (the column is not nullable), loses the row and
  nothing else.
\<close>

definition persist_usage_row :: "bool \<Rightarrow> usage_row option \<Rightarrow> usage_row list \<Rightarrow> usage_row list" where
  "persist_usage_row up row rows = (case row of None \<Rightarrow> rows | Some u \<Rightarrow> if up then rows @ [u] else rows)"

definition usage_recorder_callback :: "bool \<Rightarrow> caller \<Rightarrow> int \<Rightarrow> response \<Rightarrow> usage_row list \<Rightarrow> usage_row list" where
  "usage_recorder_callback up c now r rows = (if re_partial r then rows
     else (case extract_usage (re_usage r) of None \<Rightarrow> rows
       | Some t \<Rightarrow> persist_usage_row up (usage_of c (extract_tool_names r) t now) rows))"

text \<open>Outside the framework: without a running loop the row is dropped.\<close>

definition record_completion_usage :: "bool \<Rightarrow> bool \<Rightarrow> caller \<Rightarrow> int \<Rightarrow> completion_usage option \<Rightarrow> usage_row list \<Rightarrow> usage_row list" where
  "record_completion_usage running up c now m rows = (case litellm_usage m of None \<Rightarrow> rows
     | Some t \<Rightarrow> if running then persist_usage_row up (usage_of c None t now) rows else rows)"

subsection \<open>The settings\<close>

record quota_settings =
  qs_plan_quotas :: "(string \<times> int) list"
  qs_monthly :: int
  qs_user_cap :: int
  qs_global_cap :: int
  qs_window_hours :: int
  qs_model :: string
  qs_key :: string
  qs_base :: string
  qs_cached_percent :: "string option"

text \<open>\<open>int(text)\<close>: blanks around, a sign, digits with single underscores between them.\<close>

definition digit_groups :: "string \<Rightarrow> int option" where
  "digit_groups s = (let gs = split_on (CHR ''_'') s in
     if list_all (\<lambda>g. g \<noteq> [] \<and> list_all is_dec g) gs then Some (int (dec_nat (concat gs))) else None)"

definition read_int :: "string \<Rightarrow> int option" where
  "read_int s = (case strip s of [] \<Rightarrow> None
     | c # r \<Rightarrow> if c = CHR ''-'' then map_option uminus (digit_groups r)
         else if c = CHR ''+'' then digit_groups r else digit_groups (c # r))"

definition DEFAULT_CACHED_TOKEN_PERCENT :: int where "DEFAULT_CACHED_TOKEN_PERCENT = 25"

definition cached_token_percent :: "quota_settings \<Rightarrow> int" where
  "cached_token_percent q = (case read_int (case qs_cached_percent q of None \<Rightarrow> [] | Some t \<Rightarrow> t) of
     None \<Rightarrow> DEFAULT_CACHED_TOKEN_PERCENT | Some v \<Rightarrow> min 100 (max 0 v))"

text \<open>The division of SQL truncates.\<close>

definition sql_div :: "int \<Rightarrow> int \<Rightarrow> int" where
  "sql_div a b = (if a < 0 then - ((- a) div b) else a div b)"

definition counted_tokens :: "quota_settings \<Rightarrow> usage_row list \<Rightarrow> int" where
  "counted_tokens q rows = (let discount = 100 - cached_token_percent q;
       total = sum_list (map us_total rows); cached = sum_list (map us_cached rows)
     in total - sql_div (cached * discount) 100)"

subsection \<open>The database\<close>

record account =
  ac_email :: string
  ac_plan :: "string option"
  ac_reset :: "int option"

datatype read = OpenSession | ReadReset | ReadMonth | ReadGauge | ReadOwner | ReadDeployment | ReadPlan

text \<open>
  Add-ons are parameters: what each provider of a top-up answers (\<open>None\<close>: it raised), each guard, each cap.
\<close>

record quota_env =
  qe_settings :: quota_settings
  qe_zone :: zone
  qe_rows :: "usage_row list"
  qe_accounts :: "account list"
  qe_fails :: "read \<Rightarrow> bool"
  qe_topups :: "(string \<Rightarrow> int option) list"
  qe_model_of :: "int \<Rightarrow> string option option"
  qe_addon_cap :: "nat \<Rightarrow> string \<Rightarrow> string option \<Rightarrow> int option option"
  qe_addon_guard :: "nat \<Rightarrow> string \<Rightarrow> string \<Rightarrow> string option \<Rightarrow> pyval option"

definition rows_where :: "quota_env \<Rightarrow> (usage_row \<Rightarrow> bool) \<Rightarrow> usage_row list" where
  "rows_where e P = filter (\<lambda>u. us_shared u \<and> P u) (qe_rows e)"

definition available_topup :: "quota_env \<Rightarrow> string \<Rightarrow> int" where
  "available_topup e owner = max 0 (fold (\<lambda>p total. case p owner of None \<Rightarrow> total | Some n \<Rightarrow> total + n) (qe_topups e) 0)"

definition resolve_quota :: "quota_settings \<Rightarrow> string option \<Rightarrow> int option" where
  "resolve_quota q plan = (let
       limit = (case plan of None \<Rightarrow> None | Some p \<Rightarrow> if p = [] then None else dget (qs_plan_quotas q) (strip p));
       limit = (case limit of None \<Rightarrow> qs_monthly q | Some n \<Rightarrow> n)
     in if 0 < limit then Some limit else None)"

text \<open>\<open>scalar_one_or_none\<close> raises on several rows; the handler then keeps \<open>start\<close>.\<close>

definition usage_counted_since :: "quota_env \<Rightarrow> string \<Rightarrow> int \<Rightarrow> int" where
  "usage_counted_since e owner start = (if qe_fails e ReadReset then start
     else (case filter (\<lambda>a. ac_email a = owner) (qe_accounts e) of
       [a] \<Rightarrow> (case ac_reset a of None \<Rightarrow> start | Some r \<Rightarrow> max start r) | _ \<Rightarrow> start))"

subsection \<open>The quota of a month\<close>

record quota_status =
  st_used :: int
  st_limit :: "int option"
  st_remaining :: "int option"
  st_percent :: "pyfloat option"
  st_exceeded :: bool
  st_warning :: bool
  st_plan :: "string option"
  st_resets_at :: "int option"

text \<open>\<open>a / b\<close> on integers, and \<open>round(min(a / b, 1.0) * 100, 2)\<close>.\<close>

definition true_div :: "int \<Rightarrow> int \<Rightarrow> pyfloat" where
  "true_div a b = round_double (of_int a / of_int b)"

definition round2 :: "pyfloat \<Rightarrow> pyfloat" where
  "round2 x = (case x of Fin q \<Rightarrow> round_double (of_int (round_half_even (q * 100)) / 100) | _ \<Rightarrow> x)"

definition percent_of :: "pyfloat \<Rightarrow> pyfloat" where
  "percent_of ratio = round2 (case (if flt (Fin 1) ratio then Fin 1 else ratio) of Fin q \<Rightarrow> round_double (q * 100) | x \<Rightarrow> x)"

definition WARNING_RATIO :: pyfloat where "WARNING_RATIO = round_double (8 / 10)"

definition build_status :: "quota_env \<Rightarrow> int \<Rightarrow> string option \<Rightarrow> int \<Rightarrow> int \<Rightarrow> quota_status" where
  "build_status e used plan now topup = (let used = max 0 used in
     case map_option (\<lambda>n. if 0 < topup then n + topup else n) (resolve_quota (qe_settings e) plan) of
       None \<Rightarrow> \<lparr>st_used = used, st_limit = None, st_remaining = None, st_percent = None, st_exceeded = False,
                st_warning = False, st_plan = plan, st_resets_at = None\<rparr>
     | Some limit \<Rightarrow> (let ratio = true_div used limit in
         \<lparr>st_used = used, st_limit = Some limit, st_remaining = Some (max 0 (limit - used)),
          st_percent = Some (percent_of ratio), st_exceeded = (limit \<le> used), st_warning = fle WARNING_RATIO ratio,
          st_plan = plan, st_resets_at = Some (next_reset (qe_zone e) now)\<rparr>))"

definition get_quota_status :: "quota_env \<Rightarrow> string \<Rightarrow> string option \<Rightarrow> int \<Rightarrow> quota_status option" where
  "get_quota_status e owner plan now = (let since = usage_counted_since e owner (month_start (qe_zone e) now) in
     if qe_fails e ReadMonth then None
     else (let used = counted_tokens (qe_settings e) (rows_where e (\<lambda>u. us_owner u = Some owner \<and> since \<le> us_created u)) in
       Some (build_status e used plan now (available_topup e owner))))"

definition default_llm_cap :: "quota_env \<Rightarrow> string \<Rightarrow> string option \<Rightarrow> int option" where
  "default_llm_cap e owner plan = map_option (\<lambda>n. n + available_topup e owner) (resolve_quota (qe_settings e) plan)"

subsection \<open>The gauge\<close>

record gauge =
  ga_enabled :: bool
  ga_used :: int
  ga_start :: "int option"
  ga_resets_at :: "int option"
  ga_limit :: "int option"
  ga_remaining :: "int option"
  ga_percent :: "pyfloat option"
  ga_warning :: bool
  ga_exceeded :: bool

definition used_tokens_this_month :: "quota_env \<Rightarrow> string \<Rightarrow> int \<Rightarrow> int \<Rightarrow> int option" where
  "used_tokens_this_month e owner now start = (if qe_fails e ReadGauge then None
     else Some (max 0 (counted_tokens (qe_settings e)
       (rows_where e (\<lambda>u. us_owner u = Some owner \<and> start \<le> us_created u \<and> us_created u < next_reset (qe_zone e) now)))))"

definition build_usage :: "quota_env \<Rightarrow> int \<Rightarrow> int option \<Rightarrow> int \<Rightarrow> int \<Rightarrow> gauge" where
  "build_usage e used limit now start = (let used = max 0 used;
       base = \<lparr>ga_enabled = True, ga_used = used, ga_start = Some start, ga_resets_at = Some (next_reset (qe_zone e) now),
               ga_limit = None, ga_remaining = None, ga_percent = None, ga_warning = False, ga_exceeded = False\<rparr>
     in case limit of None \<Rightarrow> base
       | Some limit \<Rightarrow> if limit \<le> 0 then base
           else (let ratio = true_div used limit in
             base\<lparr>ga_limit := Some limit, ga_remaining := Some (max 0 (limit - used)), ga_percent := Some (percent_of ratio),
                  ga_warning := fle WARNING_RATIO ratio, ga_exceeded := limit \<le> used\<rparr>))"

definition default_llm_available :: "quota_settings \<Rightarrow> bool" where
  "default_llm_available q = (strip (qs_model q) \<noteq> [] \<and> strip (qs_key q) \<noteq> [])"

text \<open>A cap that raises leaves the counter alone; a sum that raises is an error of the route (\<open>None\<close>).\<close>

definition cap_of :: "quota_env \<Rightarrow> callable registry \<Rightarrow> string \<Rightarrow> string option \<Rightarrow> int option" where
  "cap_of e r owner plan = (case rg_default_llm_cap r of
     None \<Rightarrow> None
   | Some CoreLlmCap \<Rightarrow> default_llm_cap e owner plan
   | Some (AddOn n) \<Rightarrow> (case qe_addon_cap e n owner plan of None \<Rightarrow> None | Some limit \<Rightarrow> limit)
   | _ \<Rightarrow> None)"

definition default_llm_usage :: "quota_env \<Rightarrow> callable registry \<Rightarrow> string \<Rightarrow> string option \<Rightarrow> int \<Rightarrow> gauge option" where
  "default_llm_usage e r owner plan now = (if \<not> default_llm_available (qe_settings e)
     then Some \<lparr>ga_enabled = False, ga_used = 0, ga_start = None, ga_resets_at = None, ga_limit = None,
               ga_remaining = None, ga_percent = None, ga_warning = False, ga_exceeded = False\<rparr>
     else (let start = usage_counted_since e owner (month_start (qe_zone e) now) in
       case used_tokens_this_month e owner now start of None \<Rightarrow> None
       | Some used \<Rightarrow> Some (build_usage e used (cap_of e r owner plan) now start)))"

end
