(* ===== verification/Qt_Secret.thy ===== *)
theory Qt_Secret
  imports Json
begin

section \<open>The key of the shared model (\<open>core/agent_helpers/default_llm.py\<close>)\<close>

text \<open>
  An agent on the shared model stores no key: the server's settings give it at run time, and the key of any
  agent leaves the API as a mark, put back when the mark returns.
\<close>

record model_settings =
  ms_model :: string
  ms_key :: string
  ms_base :: string

definition DEFAULT_LLM_MODEL_ID :: string where "DEFAULT_LLM_MODEL_ID = ''thaink2/default''"

definition MASKED_API_KEY :: string where "MASKED_API_KEY = ''__unchanged__''"

definition SECRET_PARAM_KEYS :: "string list" where
  "SECRET_PARAM_KEYS = [''model_api_key'', ''model_api_base'', ''model_api_version'', ''api_version'']"

definition as_dict :: "pyval \<Rightarrow> pydict" where
  "as_dict v = (case (case v of PStr s \<Rightarrow> (case json_loads s of None \<Rightarrow> PNone | Some w \<Rightarrow> w) | _ \<Rightarrow> v) of
     PDict d \<Rightarrow> d | _ \<Rightarrow> [])"

definition is_default_llm_model :: "string option \<Rightarrow> bool" where
  "is_default_llm_model m = (strip (case m of None \<Rightarrow> [] | Some s \<Rightarrow> s) = DEFAULT_LLM_MODEL_ID)"

definition without_secrets :: "pydict \<Rightarrow> pydict" where
  "without_secrets d = filter (\<lambda>(k, _). k \<notin> set SECRET_PARAM_KEYS) d"

definition resolve_model_credentials :: "model_settings \<Rightarrow> string option \<Rightarrow> pyval \<Rightarrow> (string \<times> pydict) res" where
  "resolve_model_credentials s model params = (if \<not> is_default_llm_model model
     then Inr (case model of None \<Rightarrow> [] | Some m \<Rightarrow> m, as_dict params)
     else if strip (ms_model s) = [] \<or> strip (ms_key s) = [] then Inl (PyError ''ValueError'')
     else (let d = dset (without_secrets (as_dict params)) ''model_api_key'' (PStr (strip (ms_key s))) in
       Inr (strip (ms_model s),
         if strip (ms_base s) = [] then d else dset d ''model_api_base'' (PStr (strip (ms_base s))))))"

definition strip_default_llm_params :: "string option \<Rightarrow> pyval \<Rightarrow> pydict" where
  "strip_default_llm_params model params = (if is_default_llm_model model then without_secrets (as_dict params) else as_dict params)"

definition mask_model_api_key :: "pyval \<Rightarrow> pydict" where
  "mask_model_api_key params = (let d = as_dict params in
     if truthy (get0 d ''model_api_key'') then dset d ''model_api_key'' (PStr MASKED_API_KEY) else d)"

definition unmask_model_api_key :: "pyval \<Rightarrow> pyval \<Rightarrow> pydict" where
  "unmask_model_api_key incoming stored = (let d = as_dict incoming in
     if get0 d ''model_api_key'' \<noteq> PStr MASKED_API_KEY then d
     else dset d ''model_api_key'' (por (get0 (as_dict stored) ''model_api_key'') (PStr [])))"

subsection \<open>What it keeps\<close>

lemma get0_without [simp]: "get0 (without_secrets d) k = (if k \<in> set SECRET_PARAM_KEYS then PNone else get0 d k)"
  by (induction d) (auto simp: without_secrets_def get0_def dget_def)

lemma as_dict_dict [simp]: "as_dict (PDict d) = d"
  by (simp add: as_dict_def)

lemma dset_dset [simp]: "dset (dset d k v) k w = dset d k w"
  by (induction d) auto

lemma dset_same: "dget d k = Some v \<Longrightarrow> dset d k v = d"
  by (induction d) (auto simp: dget_def split: if_splits)

text \<open>
  What an agent on the shared model stores under the four secret keys plays no part in the call: with other
  values there the call is the same, and its key and endpoint are the server's.
\<close>

theorem agent_cannot_divert_the_shared_key:
  assumes "is_default_llm_model model" "without_secrets (as_dict params) = without_secrets (as_dict params')"
  shows "resolve_model_credentials s model params = resolve_model_credentials s model params' \<and>
    (resolve_model_credentials s model params = Inr (m, d) \<longrightarrow>
       m = strip (ms_model s) \<and> get0 d ''model_api_key'' = PStr (strip (ms_key s)) \<and>
       get0 d ''model_api_base'' = (if strip (ms_base s) = [] then PNone else PStr (strip (ms_base s))) \<and>
       get0 d ''model_api_version'' = PNone \<and> get0 d ''api_version'' = PNone)"
  using assms by (auto simp: resolve_model_credentials_def Let_def SECRET_PARAM_KEYS_def split: if_splits)

text \<open>
  Masking and unmasking give back the parameters that were stored, and the masked ones tell of the key only
  whether there is one.
\<close>

theorem mask_hides_and_restores_the_key:
  assumes "get0 d ''model_api_key'' \<noteq> PStr MASKED_API_KEY"
  shows "unmask_model_api_key (PDict (mask_model_api_key (PDict d))) (PDict d) = d \<and>
    (truthy (get0 d ''model_api_key'') \<longrightarrow> truthy v \<longrightarrow>
       mask_model_api_key (PDict (dset d ''model_api_key'' v)) = mask_model_api_key (PDict d))"
proof -
  have "truthy (get0 d ''model_api_key'') \<Longrightarrow> dset d ''model_api_key'' (get0 d ''model_api_key'') = d"
    by (rule dset_same) (auto simp: get0_def truthy_def split: option.splits)
  then show ?thesis using assms by (auto simp: unmask_model_api_key_def mask_model_api_key_def por_def Let_def)
qed

lemma agent_cannot_divert_the_shared_key_witness:
  "resolve_model_credentials \<lparr>ms_model = ''m'', ms_key = ''k'', ms_base = []\<rparr> (Some '' thaink2/default'')
     (PDict [(''model_api_base'', PStr ''http://elsewhere''), (''temperature'', PInt 0)]) =
   resolve_model_credentials \<lparr>ms_model = ''m'', ms_key = ''k'', ms_base = []\<rparr> (Some '' thaink2/default'') (PStr ''{\"temperature\": 0}'')"
proof -
  have "is_default_llm_model (Some '' thaink2/default'')"
    "without_secrets (as_dict (PDict [(''model_api_base'', PStr ''http://elsewhere''), (''temperature'', PInt 0)])) =
     without_secrets (as_dict (PStr ''{\"temperature\": 0}''))"
    by code_simp+
  then show ?thesis by (rule conjunct1[OF agent_cannot_divert_the_shared_key])
qed

lemma mask_hides_and_restores_the_key_witness:
  "unmask_model_api_key (PDict (mask_model_api_key (PDict [(''model_api_key'', PStr ''sk-1'')]))) (PDict [(''model_api_key'', PStr ''sk-1'')])
     = [(''model_api_key'', PStr ''sk-1'')]"
  using mask_hides_and_restores_the_key[of "[(''model_api_key'', PStr ''sk-1'')]"] by (simp add: get0_def dget_def MASKED_API_KEY_def)

end
