(* ===== verification/Qt_Gate.thy ===== *)
theory Qt_Gate
  imports Qt_Count Qt_Secret
begin

section \<open>The gate of a run (\<open>core/run_gate.py\<close>, \<open>helpers/quota_guard.py\<close>)\<close>

text \<open>
  Every run of an agent passes here first.  A refusal is a value of \<open>refusal\<close>, the body of the answer 402; a
  check that cannot be made lets the run pass and says so in a warning.
\<close>

datatype refusal =
    TokenCap string int int int int
  | MonthlyQuota int "int option" "int option"
  | OtherRefusal pyval

datatype warning =
    NoOwner string nat
  | CapUnreadable string
  | CapReached string int int int
  | QuotaUnreadable string

type_synonym verdict = "(refusal + unit) \<times> warning list"

text \<open>First one check, then another if the first one passes; the warnings add up.\<close>

definition andthen :: "verdict \<Rightarrow> verdict \<Rightarrow> verdict" where
  "andthen v w = (case v of (Inl x, ws) \<Rightarrow> (Inl x, ws) | (Inr _, ws) \<Rightarrow> (fst w, ws @ snd w))"

subsection \<open>The plan of an owner\<close>

definition resolve_owner_plan :: "quota_env \<Rightarrow> string \<Rightarrow> string option" where
  "resolve_owner_plan e owner = (if owner = [] \<or> qe_fails e OpenSession \<or> qe_fails e ReadPlan then None
     else (case filter (\<lambda>a. ac_email a = owner) (qe_accounts e) of [a] \<Rightarrow> ac_plan a | _ \<Rightarrow> None))"

subsection \<open>The cap of the core\<close>

abbreviation HOUR :: int where "HOUR \<equiv> 3600000000"

text \<open>The counted rows since an instant, their tokens and the oldest of them.\<close>

definition consumed :: "quota_env \<Rightarrow> int \<Rightarrow> (usage_row \<Rightarrow> bool) \<Rightarrow> int \<times> int option" where
  "consumed e since P = (let rows = rows_where e (\<lambda>u. since \<le> us_created u \<and> P u) in
     (counted_tokens (qe_settings e) rows,
      if rows = [] then None else Some (Min (set (map us_created rows)))))"

text \<open>\<open>int(delta.total_seconds())\<close> cuts a delay to whole seconds.\<close>

definition whole_seconds :: "int \<Rightarrow> int" where
  "whole_seconds us = sql_div us 1000000"

definition recharge :: "int \<Rightarrow> int \<Rightarrow> int option \<Rightarrow> int" where
  "recharge hours now oldest = (case oldest of None \<Rightarrow> hours * 3600
     | Some t \<Rightarrow> max 1 (whole_seconds (t + hours * HOUR - now)))"

definition window_hours :: "quota_settings \<Rightarrow> int" where
  "window_hours q = max 1 (if qs_window_hours q = 0 then 24 else qs_window_hours q)"

definition user_cap :: "quota_env \<Rightarrow> string \<Rightarrow> string \<Rightarrow> int \<Rightarrow> verdict" where
  "user_cap e agent owner now = (let q = qe_settings e; cap = max 0 (qs_user_cap q); h = window_hours q; since = now - h * HOUR in
     if cap = 0 \<or> owner = [] then (Inr (), [])
     else (let start = usage_counted_since e owner since in
       if qe_fails e ReadOwner then (Inr (), [CapUnreadable agent])
       else (case consumed e since (\<lambda>u. us_owner u = Some owner \<and> start \<le> us_created u) of (used, oldest) \<Rightarrow>
         if cap \<le> used then (Inl (TokenCap ''user'' used cap h (recharge h now oldest)), [CapReached ''user'' used cap h])
         else (Inr (), []))))"

definition deployment_cap :: "quota_env \<Rightarrow> string \<Rightarrow> int \<Rightarrow> verdict" where
  "deployment_cap e agent now = (let q = qe_settings e; cap = max 0 (qs_global_cap q); h = window_hours q; since = now - h * HOUR in
     if cap = 0 then (Inr (), [])
     else if qe_fails e ReadDeployment then (Inr (), [CapUnreadable agent])
     else (case consumed e since (\<lambda>_. True) of (used, oldest) \<Rightarrow>
         if cap \<le> used
         then (Inl (TokenCap ''deployment'' used cap h (recharge h now oldest)), [CapReached ''deployment'' used cap h])
         else (Inr (), [])))"

text \<open>A read that fails ends both checks: one handler is around them.\<close>

definition core_token_cap :: "quota_env \<Rightarrow> callable registry \<Rightarrow> string \<Rightarrow> string \<Rightarrow> int \<Rightarrow> verdict" where
  "core_token_cap e r agent owner now = (if rg_default_llm_cap r \<noteq> None then (Inr (), [])
     else if max 0 (qs_user_cap (qe_settings e)) = 0 \<and> max 0 (qs_global_cap (qe_settings e)) = 0 then (Inr (), [])
     else if qe_fails e OpenSession then (Inr (), [CapUnreadable agent])
     else (case user_cap e agent owner now of
         (Inr _, []) \<Rightarrow> deployment_cap e agent now
       | v \<Rightarrow> v))"

subsection \<open>The quota of the month\<close>

definition SHARED_MODEL_CALLERS :: "string list" where "SHARED_MODEL_CALLERS = [''workflow_suggest'']"

text \<open>\<open>name.replace("agent", "")\<close>: the occurrences from the left, none overlapping.\<close>

fun drop_agent :: "string \<Rightarrow> string" where
  "drop_agent (a # b # c # d # e # s) =
     (if [a, b, c, d, e] = ''agent'' then drop_agent s else a # drop_agent (b # c # d # e # s))"
| "drop_agent s = s"

definition agent_uses_default_llm :: "quota_env \<Rightarrow> string \<Rightarrow> bool" where
  "agent_uses_default_llm e name = (if name \<in> set SHARED_MODEL_CALLERS then True
     else (case read_int (drop_agent name) of None \<Rightarrow> False
       | Some i \<Rightarrow> (case qe_model_of e i of None \<Rightarrow> False | Some m \<Rightarrow> is_default_llm_model m)))"

definition enforce_run_quota :: "quota_env \<Rightarrow> string \<Rightarrow> string \<Rightarrow> string option \<Rightarrow> int \<Rightarrow> verdict" where
  "enforce_run_quota e agent owner plan now = (if \<not> agent_uses_default_llm e agent then (Inr (), [])
     else if qe_fails e OpenSession then (Inr (), [QuotaUnreadable owner])
     else (case get_quota_status e owner plan now of
         None \<Rightarrow> (Inr (), [QuotaUnreadable owner])
       | Some st \<Rightarrow> if st_exceeded st
           then (Inl (MonthlyQuota (st_used st) (st_limit st) (st_resets_at st)), [])
           else (Inr (), [])))"

subsection \<open>Every guard\<close>

text \<open>A guard of an add-on may refuse with a value of its own; the other callables of the core are no guards.\<close>

definition run_guard :: "quota_env \<Rightarrow> callable \<Rightarrow> string \<Rightarrow> string \<Rightarrow> string option \<Rightarrow> int \<Rightarrow> verdict" where
  "run_guard e f agent owner plan now = (case f of
     CoreRunQuota \<Rightarrow> enforce_run_quota e agent owner plan now
   | AddOn n \<Rightarrow> (case qe_addon_guard e n agent owner plan of None \<Rightarrow> (Inr (), []) | Some x \<Rightarrow> (Inl (OtherRefusal x), []))
   | _ \<Rightarrow> (Inr (), []))"

fun run_guards :: "quota_env \<Rightarrow> callable list \<Rightarrow> string \<Rightarrow> string \<Rightarrow> string option \<Rightarrow> int \<Rightarrow> verdict" where
  "run_guards e [] agent owner plan now = (Inr (), [])"
| "run_guards e (f # fs) agent owner plan now =
     andthen (run_guard e f agent owner plan now) (run_guards e fs agent owner plan now)"

definition apply_run_guards ::
  "quota_env \<Rightarrow> callable registry \<Rightarrow> string \<Rightarrow> string \<Rightarrow> string option \<Rightarrow> int \<Rightarrow> verdict" where
  "apply_run_guards e r agent owner plan now = andthen (core_token_cap e r agent owner now)
     (let fs = rg_run_guards r in
      if fs = [] then (Inr (), [])
      else if owner = [] then (Inr (), [NoOwner agent (length fs)])
      else run_guards e fs agent owner plan now)"

text \<open>What \<open>admin/router.py\<close> shows of the month next to an account.\<close>

definition quota_tokens_by_email :: "quota_env \<Rightarrow> string \<Rightarrow> int \<Rightarrow> int option" where
  "quota_tokens_by_email e owner now = (case filter (\<lambda>a. ac_email a = owner) (qe_accounts e) of
     [a] \<Rightarrow> (let rows = rows_where e (\<lambda>u. us_owner u = Some owner \<and> month_start (qe_zone e) now \<le> us_created u \<and>
               us_created u < next_reset (qe_zone e) now \<and> (case ac_reset a of None \<Rightarrow> True | Some t \<Rightarrow> t \<le> us_created u))
         in if rows = [] then None else Some (sum_list (map us_total rows)))
   | _ \<Rightarrow> None)"

end
