(* ===== verification/Qt_Safety.thy ===== *)
theory Qt_Safety
  imports Qt_Gate
begin

section \<open>Quotas: what holds\<close>

subsection \<open>Names of tools\<close>

lemma tool_names_snoc:
  "tool_names (ps @ [p]) = (let names = tool_names ps in case pt_call p of None \<Rightarrow> names
     | Some n \<Rightarrow> if n = [] \<or> CHR '','' \<in> set n \<or> n \<in> set names then names else names @ [n])"
  by (simp add: tool_names_def Let_def)

lemma tool_names_good:
  "distinct (tool_names ps) \<and> set (tool_names ps) = {n. Some n \<in> pt_call ` set ps \<and> n \<noteq> [] \<and> CHR '','' \<notin> set n}"
proof (induction ps rule: rev_induct)
  case (snoc p ps)
  then show ?case by (cases "pt_call p") (auto simp: tool_names_snoc Let_def image_iff)
qed (simp add: tool_names_def)

text \<open>The column holds each tool a turn called once; splitting it at the commas gives them back.\<close>

theorem recorded_tools_read_back:
  "(case extract_tool_names r of None \<Rightarrow> [] | Some s \<Rightarrow> split_on (CHR '','') s) = tool_names (re_parts r) \<and>
   distinct (tool_names (re_parts r)) \<and>
   set (tool_names (re_parts r)) = {n. Some n \<in> pt_call ` set (re_parts r) \<and> n \<noteq> [] \<and> CHR '','' \<notin> set n}"
proof -
  have "tool_names (re_parts r) \<noteq> [] \<Longrightarrow> split_on (CHR '','') (join '','' (tool_names (re_parts r))) = tool_names (re_parts r)"
    using tool_names_good[of "re_parts r"] by (intro split_on_join) auto
  then show ?thesis using tool_names_good[of "re_parts r"] by (simp add: extract_tool_names_def Let_def)
qed

subsection \<open>The counter\<close>

lemma percent_range: "0 \<le> cached_token_percent q \<and> cached_token_percent q \<le> 100"
  by (simp add: cached_token_percent_def DEFAULT_CACHED_TOKEN_PERCENT_def split: option.splits)

text \<open>A row is sound when the cached tokens are some of its tokens.\<close>

definition sound_row :: "usage_row \<Rightarrow> bool" where
  "sound_row u = (0 \<le> us_cached u \<and> us_cached u \<le> us_total u)"

lemma sound_sums: "list_all sound_row rows \<Longrightarrow> 0 \<le> sum_list (map us_cached rows) \<and> sum_list (map us_cached rows) \<le> sum_list (map us_total rows)"
  by (induction rows) (auto simp: sound_row_def)

definition weight :: "quota_settings \<Rightarrow> usage_row list \<Rightarrow> int" where
  "weight q rows = (\<Sum>u \<leftarrow> rows. 100 * us_total u - us_cached u * (100 - cached_token_percent q))"

lemma weight_sum: "weight q rows = 100 * sum_list (map us_total rows) - sum_list (map us_cached rows) * (100 - cached_token_percent q)"
  by (induction rows) (simp_all add: weight_def algebra_simps)

text \<open>The counter is the weight of the rows in hundredths, rounded up.\<close>

lemma counted_exact:
  assumes "list_all sound_row rows"
  shows "100 * counted_tokens q rows - 100 < weight q rows" "weight q rows \<le> 100 * counted_tokens q rows"
proof -
  define x where "x = sum_list (map us_cached rows) * (100 - cached_token_percent q)"
  have x: "0 \<le> x" using sound_sums[OF assms] percent_range[of q] by (simp add: x_def)
  define d t where dt: "d = x div 100" "t = sum_list (map us_total rows)"
  have c: "counted_tokens q rows = t - d"
    using x by (simp add: counted_tokens_def sql_div_def x_def[symmetric] dt Let_def)
  have w: "weight q rows = 100 * t - x" by (simp add: weight_sum x_def dt)
  have d: "100 * d \<le> x" "x < 100 * d + 100"
    using div_mult_mod_eq[of x 100] pos_mod_bound[of 100 x] pos_mod_sign[of 100 x] by (simp_all add: dt)
  show "100 * counted_tokens q rows - 100 < weight q rows" using d unfolding c w by simp
  show "weight q rows \<le> 100 * counted_tokens q rows" using d unfolding c w by simp
qed

lemma weight_row: "sound_row u \<Longrightarrow> 0 \<le> 100 * us_total u - us_cached u * (100 - cached_token_percent q)"
proof -
  assume s: "sound_row u"
  have "us_cached u * (100 - cached_token_percent q) \<le> us_total u * 100"
    using s percent_range[of q] by (intro mult_mono) (auto simp: sound_row_def)
  then show ?thesis by simp
qed

lemma weight_subset:
  "list_all sound_row rows \<Longrightarrow> (\<And>u. u \<in> set rows \<Longrightarrow> P u \<Longrightarrow> Q u) \<Longrightarrow> weight q (filter P rows) \<le> weight q (filter Q rows)"
proof (induction rows)
  case (Cons u rows)
  have "weight q (filter P rows) \<le> weight q (filter Q rows)" using Cons by simp
  moreover have "0 \<le> 100 * us_total u - us_cached u * (100 - cached_token_percent q)"
    using Cons.prems(1) by (intro weight_row) simp
  ultimately show ?case using Cons.prems(2)[of u] by (auto simp: weight_def)
qed simp

lemma counted_mono:
  assumes "list_all sound_row rows" "\<And>u. u \<in> set rows \<Longrightarrow> P u \<Longrightarrow> Q u"
  shows "counted_tokens q (filter P rows) \<le> counted_tokens q (filter Q rows)"
proof -
  have l: "list_all sound_row (filter P rows)" "list_all sound_row (filter Q rows)" using assms(1) by (auto simp: list_all_iff)
  have "weight q (filter P rows) \<le> weight q (filter Q rows)" using assms by (rule weight_subset)
  then show ?thesis using counted_exact[OF l(1), of q] counted_exact[OF l(2), of q] by linarith
qed

text \<open>
  On sound rows the counter lies between the tokens that were not cached and all of them, is the exact weight
  rounded up, and does not shrink when a row is added.
\<close>

theorem counter_bounds:
  assumes "list_all sound_row rows" "sound_row u"
  shows "sum_list (map us_total rows) - sum_list (map us_cached rows) \<le> counted_tokens q rows \<and>
    counted_tokens q rows \<le> sum_list (map us_total rows) \<and>
    counted_tokens q rows = \<lceil>rat_of_int (weight q rows) / 100\<rceil> \<and>
    counted_tokens q rows \<le> counted_tokens q (rows @ [u])"
proof (intro conjI)
  note e = counted_exact[OF assms(1), of q] and s = sound_sums[OF assms(1)]
  have p: "0 \<le> sum_list (map us_cached rows) * cached_token_percent q"
    "0 \<le> sum_list (map us_cached rows) * (100 - cached_token_percent q)"
    using s percent_range[of q] by simp_all
  show "sum_list (map us_total rows) - sum_list (map us_cached rows) \<le> counted_tokens q rows"
    using e p(1) unfolding weight_sum by (simp add: right_diff_distrib)
  show "counted_tokens q rows \<le> sum_list (map us_total rows)"
    using e p(2) unfolding weight_sum by linarith
  show "counted_tokens q rows = \<lceil>rat_of_int (weight q rows) / 100\<rceil>"
    using e by (intro ceiling_unique[symmetric]) (simp_all add: field_simps flip: of_int_less_iff of_int_le_iff)
  have "weight q (rows @ [u]) \<ge> weight q rows" using weight_row[OF assms(2), of q] by (simp add: weight_def)
  moreover have "list_all sound_row (rows @ [u])" using assms by simp
  ultimately show "counted_tokens q rows \<le> counted_tokens q (rows @ [u])"
    using e counted_exact[of "rows @ [u]" q] by linarith
qed

text \<open>A reset of an administrator never moves the start of a window back, and only lowers what is counted.\<close>

lemma counted_since_later: "start \<le> usage_counted_since e owner start"
  by (simp add: usage_counted_since_def split: option.splits list.splits)

subsection \<open>The gate of a started application\<close>

lemma andthen_pass [simp]: "andthen (Inr (), []) v = v"
  by (simp add: andthen_def)

lemma core_cap_stands_aside: "core_token_cap e (started ops) agent owner now = (Inr (), [])"
  using started_cap[of ops] by (simp add: core_token_cap_def)

text \<open>C30. The core registers a cap for the gauge, so its own rolling caps, the one of an account and the one of the
  deployment, never apply in a started application, whatever add-ons it loads: a run is stopped by the
  monthly quota or an add-on, and a run without an owner by nothing.
\<close>

theorem started_gate_is_monthly_quota:
  "apply_run_guards e (started ops) agent owner plan now =
     (let others = tl (rg_run_guards (started ops)) in
      if owner = [] then (Inr (), [NoOwner agent (length others + 1)])
      else andthen (enforce_run_quota e agent owner plan now) (run_guards e others agent owner plan now))"
proof -
  obtain gs where "rg_run_guards (started ops) = CoreRunQuota # gs" using meter_registered_once by blast
  then show ?thesis by (simp add: apply_run_guards_def core_cap_stands_aside run_guard_def Let_def)
qed

subsection \<open>The gauge and the guard\<close>

lemma resolve_quota_pos: "resolve_quota q plan = Some n \<Longrightarrow> 0 < n"
  by (simp add: resolve_quota_def Let_def split: if_splits)

lemma topup_nonneg: "0 \<le> available_topup e owner"
  by (simp add: available_topup_def)

lemma quota_limit:
  "map_option (\<lambda>n. if 0 < available_topup e owner then n + available_topup e owner else n) (resolve_quota (qe_settings e) plan) =
     default_llm_cap e owner plan"
  using topup_nonneg[of e owner] by (cases "resolve_quota (qe_settings e) plan") (auto simp: default_llm_cap_def)

lemma status_fields:
  "st_used (build_status e used plan now (available_topup e owner)) = max 0 used"
  "st_limit (build_status e used plan now (available_topup e owner)) = default_llm_cap e owner plan"
  "st_exceeded (build_status e used plan now (available_topup e owner)) =
     (case default_llm_cap e owner plan of None \<Rightarrow> False | Some n \<Rightarrow> n \<le> max 0 used)"
  "st_resets_at (build_status e used plan now (available_topup e owner)) =
     map_option (\<lambda>_. next_reset (qe_zone e) now) (default_llm_cap e owner plan)"
  unfolding build_status_def quota_limit by (simp_all add: Let_def split: option.split)

lemma cap_pos: "default_llm_cap e owner plan = Some n \<Longrightarrow> 0 < n"
  using topup_nonneg[of e owner] by (auto simp: default_llm_cap_def dest: resolve_quota_pos)

text \<open>C31. For an agent that runs on the shared model, where that model is configured, the cap that is registered for the gauge is
  the core's own, the reads of the guard and of the gauge succeed and no counted row of this owner is dated after
  the month, the gauge and the guard agree: the gauge shows a use, and the guard refuses the run
  exactly when this use is shown as exceeded, with the same two numbers and the same date.  (An add-on may register
  a cap of its own, which the gauge shows and the guard does not apply; a failed read hides the gauge
  and lets the run pass; an agent on another model is never refused by this guard.)
\<close>

theorem gauge_shows_what_the_guard_applies:
  assumes shared: "agent_uses_default_llm e agent" "default_llm_available (qe_settings e)"
    and cap: "rg_default_llm_cap r = Some CoreLlmCap"
    and reads: "\<not> qe_fails e OpenSession" "\<not> qe_fails e ReadMonth" "\<not> qe_fails e ReadGauge"
    and past: "rows_where e (\<lambda>u. us_owner u = Some owner \<and> next_reset (qe_zone e) now \<le> us_created u) = []"
  shows "\<exists>g. default_llm_usage e r owner plan now = Some g \<and>
    enforce_run_quota e agent owner plan now =
      (if ga_exceeded g then (Inl (MonthlyQuota (ga_used g) (ga_limit g) (ga_resets_at g)), []) else (Inr (), []))"
proof -
  define since where "since = usage_counted_since e owner (month_start (qe_zone e) now)"
  define rows where "rows = rows_where e (\<lambda>u. us_owner u = Some owner \<and> since \<le> us_created u)"
  define used where "used = max 0 (counted_tokens (qe_settings e) rows)"
  define g where "g = build_usage e used (default_llm_cap e owner plan) now since"
  have "rows_where e (\<lambda>u. us_owner u = Some owner \<and> since \<le> us_created u \<and> us_created u < next_reset (qe_zone e) now) = rows"
    unfolding rows_def rows_where_def using past by (intro filter_cong) (auto simp: rows_where_def filter_empty_conv)
  then have "used_tokens_this_month e owner now since = Some used"
    using reads by (simp add: used_tokens_this_month_def used_def)
  then have G: "default_llm_usage e r owner plan now = Some g"
    using shared(2) cap by (simp add: default_llm_usage_def since_def[symmetric] cap_of_def g_def Let_def)
  have S: "get_quota_status e owner plan now = Some (build_status e (counted_tokens (qe_settings e) rows) plan now (available_topup e owner))"
    using reads by (simp add: get_quota_status_def since_def[symmetric] rows_def[symmetric] Let_def)
  have "enforce_run_quota e agent owner plan now =
      (if ga_exceeded g then (Inl (MonthlyQuota (ga_used g) (ga_limit g) (ga_resets_at g)), []) else (Inr (), []))"
    using shared(1) reads(1) S cap_pos[of e owner plan]
    by (cases "default_llm_cap e owner plan")
      (auto simp: enforce_run_quota_def status_fields g_def build_usage_def used_def Let_def)
  then show ?thesis using G by blast
qed

subsection \<open>The announced wait\<close>

lemma same_window:
  assumes "since \<le> since'" "\<forall>u \<in> set (rows_where e (\<lambda>u. since \<le> us_created u \<and> P u)). since' \<le> us_created u"
  shows "rows_where e (\<lambda>u. since' \<le> us_created u \<and> P u) = rows_where e (\<lambda>u. since \<le> us_created u \<and> P u)"
  unfolding rows_where_def using assms by (intro filter_cong) (auto simp: rows_where_def)

lemma since_reset:
  "since \<le> t \<Longrightarrow> since' \<le> t \<Longrightarrow> usage_counted_since e owner since \<le> t \<longleftrightarrow> usage_counted_since e owner since' \<le> t"
  by (simp add: usage_counted_since_def split: option.splits list.splits)

lemma counted_Nil [simp]: "counted_tokens q [] = 0"
  by (simp add: counted_tokens_def sql_div_def)

text \<open>A wait of more than a second ends while the oldest counted row still counts.\<close>

lemma wait_short:
  assumes "recharge h now (Some t) = s" "1 < s" "later \<le> now + s * 1000000"
  shows "later - h * HOUR \<le> t"
proof -
  define x where "x = t + h * HOUR - now"
  have s: "s = sql_div x 1000000" using assms(1,2) by (auto simp: recharge_def whole_seconds_def x_def max_def split: if_splits)
  then have "\<not> x < 0" using assms(2) by (auto simp: sql_div_def pos_imp_zdiv_nonneg_iff dest: order.strict_trans[of 1])
  then have "s * 1000000 \<le> x" using s by (simp add: sql_div_def minus_mod_eq_div_mult[symmetric])
  then show ?thesis using assms(3) by (simp add: x_def)
qed

lemma oldest_le:
  "consumed e since P = (used, Some t) \<Longrightarrow> u \<in> set (rows_where e (\<lambda>u. since \<le> us_created u \<and> P u)) \<Longrightarrow> t \<le> us_created u"
  by (auto simp: consumed_def Let_def split: if_splits intro!: Min_le)

lemma nothing_consumed: "consumed e since P = (used, None) \<Longrightarrow> used = 0"
  by (auto simp: consumed_def Let_def split: if_splits)

text \<open>
  A row of the window of \<open>P\<close> counts as long as the window reaches it, and the same holds of the rows of an
  account, whose window an administrator's reset may have shortened.
\<close>

lemma consumed_same:
  assumes "since \<le> since'" "\<forall>u \<in> set (rows_where e (\<lambda>u. since \<le> us_created u \<and> P u)). since' \<le> us_created u"
  shows "consumed e since' P = consumed e since P"
  unfolding consumed_def same_window[OF assms] ..

lemma consumed_owner_same:
  assumes "since \<le> since'"
    "\<forall>u \<in> set (rows_where e (\<lambda>u. since \<le> us_created u \<and> us_owner u = Some owner \<and> usage_counted_since e owner since \<le> us_created u)).
       since' \<le> us_created u"
  shows "consumed e since' (\<lambda>u. us_owner u = Some owner \<and> usage_counted_since e owner since' \<le> us_created u) =
    consumed e since (\<lambda>u. us_owner u = Some owner \<and> usage_counted_since e owner since \<le> us_created u)"
proof -
  have "rows_where e (\<lambda>u. since' \<le> us_created u \<and> us_owner u = Some owner \<and> usage_counted_since e owner since' \<le> us_created u) =
    rows_where e (\<lambda>u. since' \<le> us_created u \<and> us_owner u = Some owner \<and> usage_counted_since e owner since \<le> us_created u)"
    unfolding rows_where_def using assms(1) since_reset[of since _ since' e owner] by (intro filter_cong) auto
  then have "consumed e since' (\<lambda>u. us_owner u = Some owner \<and> usage_counted_since e owner since' \<le> us_created u) =
    consumed e since' (\<lambda>u. us_owner u = Some owner \<and> usage_counted_since e owner since \<le> us_created u)"
    by (simp add: consumed_def)
  then show ?thesis using consumed_same[OF assms] by simp
qed

lemma cap_refused:
  assumes "(if cap \<le> used then (Inl (TokenCap sc used cap h (recharge h now oldest)), [CapReached sc used cap h]) else (Inr (), [])) =
      (Inl (TokenCap scope n c h' s), ws)" "consumed e since P = (used, oldest)" "0 < cap"
  obtains t where "oldest = Some t" "cap \<le> used" "scope = sc" "n = used" "c = cap" "h' = h" "s = recharge h now (Some t)"
    "ws = [CapReached sc used cap h]"
  using assms nothing_consumed[of e since P used] by (cases oldest) (auto split: if_splits)

lemma user_cap_eq:
  assumes "max 0 (qs_user_cap (qe_settings e)) = c" "c \<noteq> 0" "owner \<noteq> []" "\<not> qe_fails e ReadOwner" "window_hours (qe_settings e) = h"
    "consumed e (now - h * HOUR) (\<lambda>u. us_owner u = Some owner \<and> usage_counted_since e owner (now - h * HOUR) \<le> us_created u) = (n, oldest)"
  shows "user_cap e agent owner now = (if c \<le> n
    then (Inl (TokenCap ''user'' n c h (recharge h now oldest)), [CapReached ''user'' n c h]) else (Inr (), []))"
  unfolding user_cap_def Let_def assms(1,5,6) using assms(2,3,4) by simp

lemma deployment_cap_eq:
  assumes "max 0 (qs_global_cap (qe_settings e)) = c" "c \<noteq> 0" "\<not> qe_fails e ReadDeployment" "window_hours (qe_settings e) = h"
    "consumed e (now - h * HOUR) (\<lambda>_. True) = (n, oldest)"
  shows "deployment_cap e agent now = (if c \<le> n
    then (Inl (TokenCap ''deployment'' n c h (recharge h now oldest)), [CapReached ''deployment'' n c h]) else (Inr (), []))"
  unfolding deployment_cap_def Let_def assms(1,4,5) using assms(2,3) by simp

lemma user_cap_later:
  assumes v: "user_cap e agent owner now = (Inl (TokenCap scope used cap h s), ws)" and s: "1 < s"
    and t: "now \<le> later" "later \<le> now + s * 1000000"
  shows "\<exists>s'. user_cap e agent owner later = (Inl (TokenCap scope used cap h s'), ws)"
proof -
  define w where "w = window_hours (qe_settings e)"
  define c where "c = max 0 (qs_user_cap (qe_settings e))"
  define P where "P since = (\<lambda>u :: usage_row. us_owner u = Some owner \<and> usage_counted_since e owner since \<le> us_created u)" for since
  obtain n oldest where n: "consumed e (now - w * HOUR) (P (now - w * HOUR)) = (n, oldest)"
    by (cases "consumed e (now - w * HOUR) (P (now - w * HOUR))")
  have g: "c \<noteq> 0" "owner \<noteq> []" "\<not> qe_fails e ReadOwner"
    using v unfolding c_def by (auto simp: user_cap_def Let_def split: if_splits)
  note eq = user_cap_eq[OF c_def[symmetric] g w_def[symmetric], folded P_def]
  have z: "0 < c" using g(1) by (simp add: c_def)
  obtain o1 where o: "oldest = Some o1" "c \<le> n" "scope = ''user''" "used = n" "cap = c" "h = w" "s = recharge w now (Some o1)"
    "ws = [CapReached ''user'' n c w]"
    by (rule cap_refused[OF v[unfolded eq[OF n]] n z])
  have "later - w * HOUR \<le> o1" by (rule wait_short[OF o(7)[symmetric] s t(2)])
  then have "\<forall>u \<in> set (rows_where e (\<lambda>u. now - w * HOUR \<le> us_created u \<and> P (now - w * HOUR) u)). later - w * HOUR \<le> us_created u"
    using oldest_le[OF n[unfolded o(1)]] by fastforce
  then have "consumed e (later - w * HOUR) (P (later - w * HOUR)) = (n, oldest)"
    using consumed_owner_same[of "now - w * HOUR" "later - w * HOUR" e owner] t(1) n by (simp add: P_def)
  from eq[OF this] show ?thesis using o by simp
qed

lemma deployment_cap_later:
  assumes v: "deployment_cap e agent now = (Inl (TokenCap scope used cap h s), ws)" and s: "1 < s"
    and t: "now \<le> later" "later \<le> now + s * 1000000"
  shows "(\<exists>s'. deployment_cap e agent later = (Inl (TokenCap scope used cap h s'), ws)) \<and>
    (\<forall>u \<in> set (rows_where e (\<lambda>u. now - window_hours (qe_settings e) * HOUR \<le> us_created u)).
       later - window_hours (qe_settings e) * HOUR \<le> us_created u)"
proof -
  define w where "w = window_hours (qe_settings e)"
  define c where "c = max 0 (qs_global_cap (qe_settings e))"
  obtain n oldest where n: "consumed e (now - w * HOUR) (\<lambda>_. True) = (n, oldest)" by (cases "consumed e (now - w * HOUR) (\<lambda>_. True)")
  have g: "c \<noteq> 0" "\<not> qe_fails e ReadDeployment"
    using v unfolding c_def by (auto simp: deployment_cap_def Let_def split: if_splits)
  note eq = deployment_cap_eq[OF c_def[symmetric] g w_def[symmetric]]
  have z: "0 < c" using g(1) by (simp add: c_def)
  obtain o1 where o: "oldest = Some o1" "c \<le> n" "scope = ''deployment''" "used = n" "cap = c" "h = w" "s = recharge w now (Some o1)"
    "ws = [CapReached ''deployment'' n c w]"
    by (rule cap_refused[OF v[unfolded eq[OF n]] n z])
  have "later - w * HOUR \<le> o1" by (rule wait_short[OF o(7)[symmetric] s t(2)])
  then have a: "\<forall>u \<in> set (rows_where e (\<lambda>u. now - w * HOUR \<le> us_created u \<and> True)). later - w * HOUR \<le> us_created u"
    using oldest_le[OF n[unfolded o(1)]] by fastforce
  then have "consumed e (later - w * HOUR) (\<lambda>_. True) = (n, oldest)"
    using consumed_same[of "now - w * HOUR" "later - w * HOUR" e "\<lambda>_. True"] t(1) n by simp
  from eq[OF this] show ?thesis using o a by (simp add: w_def)
qed

lemma user_cap_passes_later:
  assumes "user_cap e agent owner now = (Inr (), [])" "now \<le> later"
    and "\<forall>u \<in> set (rows_where e (\<lambda>u. now - window_hours (qe_settings e) * HOUR \<le> us_created u)).
      later - window_hours (qe_settings e) * HOUR \<le> us_created u"
  shows "user_cap e agent owner later = (Inr (), [])"
proof -
  define k where "k = window_hours (qe_settings e) * HOUR"
  have "\<forall>u \<in> set (rows_where e (\<lambda>u. now - k \<le> us_created u \<and> us_owner u = Some owner \<and> usage_counted_since e owner (now - k) \<le> us_created u)).
      later - k \<le> us_created u"
    using assms(3) by (auto simp: rows_where_def k_def)
  then have "consumed e (later - k) (\<lambda>u. us_owner u = Some owner \<and> usage_counted_since e owner (later - k) \<le> us_created u) =
    consumed e (now - k) (\<lambda>u. us_owner u = Some owner \<and> usage_counted_since e owner (now - k) \<le> us_created u)"
    using assms(2) by (intro consumed_owner_same) simp_all
  then show ?thesis using assms(1)
    by (auto simp: user_cap_def Let_def k_def[symmetric] split: if_splits prod.splits)
qed

text \<open>C32. Where no cap is registered for the gauge (which an application started by this code always does, so that there the
  rolling caps do not apply at all), the rolling cap announces too short a wait: a caller it refuses and tells to
  come back in \<open>s\<close> seconds, where \<open>s\<close> is more than one, is refused again, with the same numbers, at any
  moment up to and at that one, as long as nothing was counted or reset in between.  The delay is cut to whole seconds and
  the window is closed at its first instant; a wait of one second may be rounded up from less, and then suffices.
\<close>

theorem announced_wait_is_too_short:
  assumes v: "core_token_cap e r agent owner now = (Inl (TokenCap scope used cap h s), ws)" and s: "1 < s"
    and t: "now \<le> later" "later \<le> now + s * 1000000"
  shows "\<exists>s'. core_token_cap e r agent owner later = (Inl (TokenCap scope used cap h s'), ws)"
proof -
  have c: "core_token_cap e r agent owner x = (case user_cap e agent owner x of (Inr _, []) \<Rightarrow> deployment_cap e agent x | v \<Rightarrow> v)" for x
  proof -
    have "rg_default_llm_cap r = None" "\<not> qe_fails e OpenSession"
      "\<not> (max 0 (qs_user_cap (qe_settings e)) = 0 \<and> max 0 (qs_global_cap (qe_settings e)) = 0)"
      using v unfolding core_token_cap_def by (metis Inl_Inr_False Pair_inject)+
    then show ?thesis unfolding core_token_cap_def by presburger
  qed
  show ?thesis
  proof (cases "user_cap e agent owner now = (Inr (), [])")
    case True
    then have d: "deployment_cap e agent now = (Inl (TokenCap scope used cap h s), ws)"
      using v unfolding c by simp
    note l = deployment_cap_later[OF d s t]
    have "user_cap e agent owner later = (Inr (), [])"
      by (rule user_cap_passes_later[OF True t(1)]) (rule conjunct2[OF l])
    then show ?thesis using conjunct1[OF l] unfolding c by simp
  next
    case False
    then have u: "user_cap e agent owner now = (Inl (TokenCap scope used cap h s), ws)"
      using v unfolding c by (auto split: sum.splits list.splits prod.splits)
    obtain s' where "user_cap e agent owner later = (Inl (TokenCap scope used cap h s'), ws)"
      using user_cap_later[OF u s t] by blast
    then show ?thesis unfolding c by simp
  qed
qed

subsection \<open>A day of one account\<close>

abbreviation NOON :: int where "NOON \<equiv> 63920750400000000"

definition turn :: "int \<Rightarrow> usage_row" where
  "turn t = \<lparr>us_created = t, us_agent_id = 7, us_agent_name = ''helper'', us_owner = Some ''a@b.c'', us_session = None,
     us_invocation = None, us_tools = None, us_source = None, us_model = ''m'', us_input = 1500, us_output = 100,
     us_thoughts = 0, us_cached = 400, us_total = 1600, us_shared = True\<rparr>"

definition day :: "usage_row list \<Rightarrow> quota_env" where
  "day rows = \<lparr>qe_settings = \<lparr>qs_plan_quotas = [(''pro'', 5000)], qs_monthly = 1000, qs_user_cap = 1000, qs_global_cap = 0,
       qs_window_hours = 24, qs_model = ''m'', qs_key = ''k'', qs_base = [], qs_cached_percent = Some '' 5_0 ''\<rparr>,
     qe_zone = winter, qe_rows = rows, qe_accounts = [\<lparr>ac_email = ''a@b.c'', ac_plan = None, ac_reset = None\<rparr>],
     qe_fails = (\<lambda>_. False), qe_topups = [(\<lambda>_. Some 100), (\<lambda>_. None)],
     qe_model_of = (\<lambda>i. if i = 7 then Some (Some ''thaink2/default'') else None),
     qe_addon_cap = (\<lambda>_ _ _. None), qe_addon_guard = (\<lambda>_ _ _ _. None)\<rparr>"

lemma counter_bounds_witness:
  "counted_tokens (qe_settings (day [])) [turn 0] \<le> counted_tokens (qe_settings (day [])) [turn 0, turn 1]"
proof -
  have "list_all sound_row [turn 0]" "sound_row (turn 1)" by (simp_all add: sound_row_def turn_def)
  then show ?thesis using counter_bounds[of "[turn 0]" "turn 1" "qe_settings (day [])"] by simp
qed

text \<open>One turn of 1600 tokens, 400 of them cached, counts as 1400 and exhausts a quota of 1000 and a top-up of 100.\<close>

lemma gauge_shows_what_the_guard_applies_witness:
  "\<exists>g. default_llm_usage (day [turn (NOON - HOUR)]) (started []) ''a@b.c'' None NOON = Some g \<and>
    enforce_run_quota (day [turn (NOON - HOUR)]) ''agent7'' ''a@b.c'' None NOON =
      (if ga_exceeded g then (Inl (MonthlyQuota (ga_used g) (ga_limit g) (ga_resets_at g)), []) else (Inr (), []))"
proof (rule gauge_shows_what_the_guard_applies)
  show "agent_uses_default_llm (day [turn (NOON - HOUR)]) ''agent7''" by code_simp
  show "default_llm_available (qe_settings (day [turn (NOON - HOUR)]))" by code_simp
  show "rg_default_llm_cap (started []) = Some CoreLlmCap" by (simp add: started_def)
  show "rows_where (day [turn (NOON - HOUR)]) (\<lambda>u. us_owner u = Some ''a@b.c''
      \<and> next_reset (qe_zone (day [turn (NOON - HOUR)])) NOON \<le> us_created u) = []"
    by code_simp
qed (simp_all add: day_def)

lemma day_settings [simp]: "qe_settings (day (u # rows)) = qe_settings (day [])" "qe_zone (day rows) = winter" "qe_fails (day rows) x = False"
  by (simp_all add: day_def)

lemma day_limit: "default_llm_cap (day rows) ''a@b.c'' None = Some 1100"
proof -
  have "default_llm_cap (day rows) ''a@b.c'' None = default_llm_cap (day []) ''a@b.c'' None"
    by (simp add: default_llm_cap_def available_topup_def day_def)
  also have "\<dots> = Some 1100" by code_simp
  finally show ?thesis .
qed

lemma day_window:
  "usage_counted_since (day rows) ''a@b.c'' (month_start winter NOON) = 63918457200000000" "next_reset winter NOON = 63921135600000000"
proof -
  have "month_start winter NOON = 63918457200000000" by code_simp
  then show "usage_counted_since (day rows) ''a@b.c'' (month_start winter NOON) = 63918457200000000"
    by (simp add: usage_counted_since_def day_def)
  show "next_reset winter NOON = 63921135600000000" by code_simp
qed

lemma day_turn:
  "counted_tokens (qe_settings (day [])) [turn t] = 1400" "counted_tokens (qe_settings (day [])) [] = 0"
  "rows_where (day [turn t]) P = (if P (turn t) then [turn t] else [])" "us_created (turn t) = t" "us_owner (turn t) = Some ''a@b.c''"
proof -
  have "counted_tokens (qe_settings (day [])) [turn t] = counted_tokens (qe_settings (day [])) [turn 0]"
    by (simp add: counted_tokens_def turn_def)
  also have "\<dots> = 1400" by code_simp
  finally show "counted_tokens (qe_settings (day [])) [turn t] = 1400" .
qed (simp_all add: rows_where_def day_def turn_def)

lemma day_agent: "agent_uses_default_llm (day rows) ''agent7''"
proof -
  have "qe_model_of (day rows) = qe_model_of (day [])" by (simp add: day_def)
  then have "agent_uses_default_llm (day rows) ''agent7'' = agent_uses_default_llm (day []) ''agent7''"
    by (simp only: agent_uses_default_llm_def)
  moreover have "agent_uses_default_llm (day []) ''agent7''" by code_simp
  ultimately show ?thesis by simp
qed

lemma day_refuses:
  "63918457200000000 \<le> t \<Longrightarrow> enforce_run_quota (day [turn t]) ''agent7'' ''a@b.c'' None NOON =
     (Inl (MonthlyQuota 1400 (Some 1100) (Some 63921135600000000)), [])"
  by (simp add: enforce_run_quota_def day_agent get_quota_status_def status_fields day_limit day_window day_turn Let_def)

text \<open>
  A row dated after the month, as a restored or imported one may be, is counted by the guard and not by the
  gauge: the run is refused under a gauge that shows nothing.
\<close>

lemma future_row_blocks_unseen:
  "enforce_run_quota (day [turn 63921135600000000]) ''agent7'' ''a@b.c'' None NOON = (Inl (MonthlyQuota 1400 (Some 1100) (Some 63921135600000000)), [])
   \<and> map_option (\<lambda>g. (ga_used g, ga_exceeded g)) (default_llm_usage (day [turn 63921135600000000]) (started []) ''a@b.c'' None NOON) = Some (0, False)"
proof
  show "enforce_run_quota (day [turn 63921135600000000]) ''agent7'' ''a@b.c'' None NOON = (Inl (MonthlyQuota 1400 (Some 1100) (Some 63921135600000000)), [])"
    by (rule day_refuses) simp
  have "default_llm_available (qe_settings (day []))" by code_simp
  then show "map_option (\<lambda>g. (ga_used g, ga_exceeded g)) (default_llm_usage (day [turn 63921135600000000]) (started []) ''a@b.c'' None NOON) = Some (0, False)"
    by (simp add: default_llm_usage_def used_tokens_this_month_def build_usage_def cap_of_def started_def day_limit day_window day_turn Let_def)
qed

text \<open>The screen of the administrators counts cached tokens in full.\<close>

lemma administrators_see_more:
  "quota_tokens_by_email (day [turn (NOON - HOUR)]) ''a@b.c'' NOON = Some 1600"
  by code_simp

text \<open>Without a cap for the gauge the rolling cap of the core does apply.\<close>

lemma rolling_cap_refuses:
  "core_token_cap (day [turn (NOON - HOUR)]) new_registry ''agent7'' ''a@b.c'' NOON =
     (Inl (TokenCap ''user'' 1400 1000 24 82800), [CapReached ''user'' 1400 1000 24])"
  by code_simp

lemma announced_wait_is_too_short_witness:
  "\<exists>s. core_token_cap (day [turn (NOON - HOUR)]) new_registry ''agent7'' ''a@b.c'' (NOON + 82800 * 1000000) =
     (Inl (TokenCap ''user'' 1400 1000 24 s), [CapReached ''user'' 1400 1000 24])"
  by (rule announced_wait_is_too_short[OF rolling_cap_refuses]) simp_all

end
