(* ===== verification/Sql_Guard.thy ===== *)
theory Sql_Guard
  imports Wf_Nodes
begin

section \<open>The guard of SQL fragments (\<open>bi/spec/sql_guard.py\<close>)\<close>

text \<open>
  A fragment is scanned into two texts of the same length: \<open>cleaned\<close>, without comments, which is what is
  executed, and \<open>blanked\<close> (\<open>code\<close> in the source), in which the content of literals is blank, in which the words are looked for.  A match of
  a pattern that starts and ends at a word boundary is a whole run of word characters.
\<close>

datatype sql_error =
    Empty
  | TooLong
  | UnclosedComment
  | UnclosedLiteral
  | Semicolon
  | Unbalanced
  | Word string
  | Function string
  | Catalog string
  | ReadsFile
  | NotSelect

definition MAX_FRAGMENT_LENGTH :: nat where "MAX_FRAGMENT_LENGTH = 20000"

definition FORBIDDEN_WORDS :: "string list" where
  "FORBIDDEN_WORDS = [''attach'', ''detach'', ''install'', ''load'', ''copy'', ''pragma'', ''set'', ''export'',
     ''import'', ''call'', ''create'', ''drop'', ''insert'', ''update'', ''delete'', ''alter'',
     ''truncate'', ''exec'', ''execute'', ''vacuum'', ''checkpoint'', ''prepare'', ''use'',
     ''explain'', ''describe'', ''summarize'', ''recursive'', ''read_csv'', ''read_parquet'', ''read_json'', ''glob'']"

subsection \<open>Scanning\<close>

text \<open>The rest of a text after the first \<open>*/\<close>.\<close>

fun after_comment :: "string \<Rightarrow> string option" where
  "after_comment (c # d # s) = (if c = CHR ''*'' \<and> d = CHR ''/'' then Some s else after_comment (d # s))"
| "after_comment s = None"

text \<open>A literal up to its closing quote, a doubled quote being part of it: its content and what follows.\<close>

fun literal :: "char \<Rightarrow> string \<Rightarrow> (string \<times> string) option" where
  "literal q [] = None"
| "literal q (c # s) = (if c = q
     then (case s of
         d # t \<Rightarrow> if d = q then map_option (\<lambda>(b, r). (c # d # b, r)) (literal q t) else Some ([], s)
       | [] \<Rightarrow> Some ([], []))
     else map_option (\<lambda>(b, r). (c # b, r)) (literal q s))"

definition quote :: "char \<Rightarrow> bool" where
  "quote c = (c = CHR 0x27 \<or> c = CHR 0x22)"

lemma after_comment_shorter: "after_comment s = Some t \<Longrightarrow> length t < length s"
  by (induction s rule: after_comment.induct) (auto split: if_splits)

lemma literal_split: "literal q s = Some (b, r) \<Longrightarrow> s = b @ q # r \<and> (r = [] \<or> hd r \<noteq> q)"
  by (induction q s arbitrary: b r rule: literal.induct) (auto split: if_splits list.splits)

lemma literal_shorter: "literal q s = Some (b, r) \<Longrightarrow> length r < length s"
  using literal_split[of q s b r] by simp

function scan :: "string \<Rightarrow> sql_error + string \<times> string" where
  "scan [] = Inr ([], [])"
| "scan (c # s) =
     (if c = CHR ''-'' \<and> s \<noteq> [] \<and> hd s = CHR ''-''
      then map_sum id (\<lambda>(x, y). (CHR '' '' # x, CHR '' '' # y)) (scan (dropWhile (\<lambda>d. d \<noteq> CHR 0x0A) s))
      else if c = CHR ''/'' \<and> s \<noteq> [] \<and> hd s = CHR ''*''
      then (case after_comment (tl s) of None \<Rightarrow> Inl UnclosedComment
        | Some r \<Rightarrow> map_sum id (\<lambda>(x, y). (CHR '' '' # x, CHR '' '' # y)) (scan r))
      else if quote c
      then (case literal c s of None \<Rightarrow> Inl UnclosedLiteral
        | Some (b, r) \<Rightarrow> map_sum id (\<lambda>(x, y). (c # b @ c # x, c # replicate (length b) (CHR '' '') @ c # y)) (scan r))
      else map_sum id (\<lambda>(x, y). (c # x, c # y)) (scan s))"
  by pat_completeness auto

termination
proof (relation "measure length", goal_cases)
  case (2 c s)
  then show ?case using length_dropWhile_le[of _ s] by (simp add: le_imp_less_Suc)
next
  case (3 c s r)
  then show ?case using after_comment_shorter[of "tl s" r] by simp
next
  case (4 c s p b r)
  then show ?case using literal_shorter[of c s b r] by simp
qed simp_all

subsection \<open>Looking for words\<close>

text \<open>The runs of word characters, each with what follows it.\<close>

function word_runs :: "string \<Rightarrow> (string \<times> string) list" where
  "word_runs [] = []"
| "word_runs (c # s) = (if is_word c
     then (takeWhile is_word (c # s), dropWhile is_word (c # s)) # word_runs (dropWhile is_word s)
     else word_runs s)"
  by pat_completeness auto

termination
  by (relation "measure length") (auto simp: le_imp_less_Suc length_dropWhile_le)

definition called :: "string \<Rightarrow> bool" where
  "called r = (case dropWhile is_space r of c # _ \<Rightarrow> c = CHR ''('' | [] \<Rightarrow> False)"

definition low :: "char \<Rightarrow> bool" where
  "low c = (c = CHR ''_'' \<or> 97 \<le> code c \<and> code c \<le> 122)"

definition low_dec :: "char \<Rightarrow> bool" where
  "low_dec c = (low c \<or> is_dec c)"

text \<open>The names of \<open>_FORBIDDEN_FUNCTION_RE\<close>, in lower case.\<close>

definition with_prefix :: "string \<Rightarrow> (char \<Rightarrow> bool) \<Rightarrow> nat \<Rightarrow> string \<Rightarrow> bool" where
  "with_prefix p P n w = (starts_with p w \<and> n \<le> length w - length p \<and> list_all P (drop (length p) w))"

fun around_file :: "string \<Rightarrow> bool" where
  "around_file [] = False"
| "around_file (c # s) = (with_prefix ''file'' low 0 (c # s) \<or> low c \<and> around_file s)"

definition forbidden_function :: "string \<Rightarrow> bool" where
  "forbidden_function w = (w \<in> set [''repeat'', ''lpad'', ''rpad'', ''space'', ''range'', ''generate_series'',
       ''generate_subscripts'', ''list_resize'', ''array_resize'', ''repeat_row'', ''list_repeat'', ''array_repeat'',
       ''sniff_csv'', ''glob'', ''getenv'', ''current_setting'', ''query'', ''query_table'', ''load_extension'',
       ''export_database'', ''import_database'']
     \<or> with_prefix ''read_'' low_dec 0 w \<or> (ends_with ''_scan'' w \<and> list_all low_dec w)
     \<or> with_prefix ''parquet_'' low 1 w \<or> with_prefix ''duckdb_'' low 1 w \<or> with_prefix ''pragma_'' low 1 w
     \<or> with_prefix ''http'' low 0 w \<or> around_file w)"

definition catalog_name :: "string \<Rightarrow> bool" where
  "catalog_name w = (starts_with ''duckdb_'' w \<or> starts_with ''pragma_'' w)"

text \<open>A literal, or a quoted identifier with a path character before its end.\<close>

definition path_token :: "string \<Rightarrow> bool" where
  "path_token s = (case s of
     [] \<Rightarrow> False
   | c # r \<Rightarrow> c = CHR 0x27 \<or> c = CHR 0x22 \<and> list_ex (\<lambda>d. d \<in> {CHR ''.'', CHR ''/'', CHR 0x5C}) (takeWhile (\<lambda>d. d \<noteq> CHR 0x22) r))"

definition path_as_table :: "string \<Rightarrow> bool" where
  "path_as_table s = list_ex (\<lambda>(w, r). lower w \<in> {''from'', ''join''} \<and> path_token (dropWhile is_space r)) (word_runs s)"

fun comma_path :: "string \<Rightarrow> bool" where
  "comma_path [] = False"
| "comma_path (c # s) = (c = CHR '','' \<and> path_token (dropWhile is_space s) \<or> comma_path s)"

definition FROM_END :: "string list" where
  "FROM_END = [''where'', ''group'', ''order'', ''having'', ''limit'', ''union'', ''except'', ''intersect'',
     ''qualify'', ''window'', ''offset'', ''on'', ''using'']"

text \<open>The number of characters up to the parenthesis that closes what a \<open>FROM\<close> stands in.\<close>

fun to_close :: "int \<Rightarrow> string \<Rightarrow> nat" where
  "to_close d [] = 0"
| "to_close d (c # s) = (if c = CHR ''('' then Suc (to_close (d + 1) s)
     else if c = CHR '')'' then (if d - 1 < 0 then 0 else Suc (to_close (d - 1) s))
     else Suc (to_close d s))"

text \<open>What stands at the top level: the cleaned text there, blanks elsewhere.\<close>

fun flat :: "int \<Rightarrow> string \<Rightarrow> string \<Rightarrow> string" where
  "flat d (c # s) (x # t) = (let d = (if c = CHR ''('' then d + 1 else if c = CHR '')'' then d - 1 else d) in
     (if d = 0 then x else CHR '' '') # flat d s t)"
| "flat d _ _ = []"

definition from_list :: "string \<Rightarrow> string \<Rightarrow> string" where
  "from_list rest cleaned = (let segment = take (to_close 0 rest) rest;
       limit = (case find (\<lambda>(w, r). lower w \<in> set FROM_END) (word_runs segment) of
         None \<Rightarrow> length segment | Some (w, r) \<Rightarrow> length segment - length r - length w)
     in flat 0 (take limit rest) (take limit cleaned))"

definition comma_path_in_from :: "string \<Rightarrow> string \<Rightarrow> bool" where
  "comma_path_in_from cleaned blanked = list_ex (\<lambda>(w, r). lower w = ''from'' \<and>
     comma_path (from_list r (drop (length blanked - length r) cleaned))) (word_runs blanked)"

subsection \<open>The checks\<close>

text \<open>\<open>None\<close>: a closing parenthesis without an opening one.\<close>

fun depth_after :: "int \<Rightarrow> string \<Rightarrow> int option" where
  "depth_after d [] = Some d"
| "depth_after d (c # s) = (if c = CHR ''('' then depth_after (d + 1) s
     else if c = CHR '')'' then (if d - 1 < 0 then None else depth_after (d - 1) s)
     else depth_after d s)"

definition code_checks :: "string \<Rightarrow> sql_error + unit" where
  "code_checks blanked = checks
     [raise_if (CHR '';'' \<in> set blanked) Semicolon,
      raise_if (depth_after 0 blanked \<noteq> Some 0) Unbalanced,
      (case find (\<lambda>(w, r). lower w \<in> set FORBIDDEN_WORDS) (word_runs blanked) of
         None \<Rightarrow> Inr () | Some (w, _) \<Rightarrow> Inl (Word w)),
      (case find (\<lambda>(w, r). forbidden_function (lower w) \<and> called r) (word_runs blanked) of
         None \<Rightarrow> Inr () | Some (w, _) \<Rightarrow> Inl (Function w)),
      (case find (\<lambda>(w, r). catalog_name (lower w)) (word_runs blanked) of
         None \<Rightarrow> Inr () | Some (w, _) \<Rightarrow> Inl (Catalog w))]"

definition trailing :: "char \<Rightarrow> bool" where
  "trailing c = (is_space c \<or> c = CHR '';'')"

text \<open>The semicolons a query may end with are cut from both texts.\<close>

definition check_sql :: "bool \<Rightarrow> string \<Rightarrow> sql_error + string" where
  "check_sql semicolons sql = (if strip sql = [] then Inl Empty
     else if MAX_FRAGMENT_LENGTH < length sql then Inl TooLong
     else ebind (scan sql) (\<lambda>(cleaned, blanked).
       let cut = rstrip_by trailing cleaned;
           trimmed = length (rstrip_by is_space cleaned) - length cut;
           cleaned = (if semicolons then cut else cleaned);
           blanked = (if semicolons then rstrip_by is_space (take (length (rstrip_by is_space blanked) - trimmed) blanked) else blanked)
       in ebind (code_checks blanked) (\<lambda>_.
          if path_as_table cleaned \<or> comma_path_in_from cleaned blanked then Inl ReadsFile
          else Inr (strip cleaned))))"

definition check_expression :: "string \<Rightarrow> sql_error + string" where
  "check_expression sql = check_sql False sql"

definition check_query :: "string \<Rightarrow> sql_error + string" where
  "check_query sql = ebind (check_sql True sql) (\<lambda>cleaned.
     case word_runs cleaned of
       (w, r) # _ \<Rightarrow> if lower w \<in> {''select'', ''with'', ''from''} \<and> w @ r = cleaned then Inr cleaned else Inl NotSelect
     | [] \<Rightarrow> Inl NotSelect)"

subsection \<open>A text that is clean stays as it is\<close>

lemma map_sum_Inr: "map_sum id f x = Inr y \<longleftrightarrow> (\<exists>z. x = Inr z \<and> y = f z)"
  by (cases x) auto

declare scan.simps(2) [simp del]

text \<open>The scan as a relation: one rule for each kind of piece.\<close>

inductive scans :: "string \<Rightarrow> string \<Rightarrow> string \<Rightarrow> bool" where
  end_of_text: "scans [] [] []"
| comment: "scans r x y \<Longrightarrow> c \<in> {CHR ''-'', CHR ''/''} \<Longrightarrow> scans (c # s) (CHR '' '' # x) (CHR '' '' # y)"
| quoted: "quote c \<Longrightarrow> literal c s = Some (b, r) \<Longrightarrow> scans r x y \<Longrightarrow>
    scans (c # s) (c # b @ c # x) (c # replicate (length b) (CHR '' '') @ c # y)"
| plain_char: "\<not> quote c \<Longrightarrow> \<not> (c = CHR ''-'' \<and> s \<noteq> [] \<and> hd s = CHR ''-'') \<Longrightarrow> \<not> (c = CHR ''/'' \<and> s \<noteq> [] \<and> hd s = CHR ''*'') \<Longrightarrow>
    scans s x y \<Longrightarrow> scans (c # s) (c # x) (c # y)"

lemma scan_scans: "scan s = Inr (x, y) \<Longrightarrow> scans s x y"
proof (induction s arbitrary: x y rule: scan.induct)
  case 1 then show ?case by (simp add: scans.end_of_text)
next
  case (2 c s)
  consider (line) "c = CHR ''-''" "s \<noteq> []" "hd s = CHR ''-''"
    | (block) "c = CHR ''/''" "s \<noteq> []" "hd s = CHR ''*''"
    | (quote) "quote c" | (other) "\<not> quote c" "\<not> (c = CHR ''-'' \<and> s \<noteq> [] \<and> hd s = CHR ''-'')" "\<not> (c = CHR ''/'' \<and> s \<noteq> [] \<and> hd s = CHR ''*'')"
    by blast
  then show ?case
  proof cases
    case line
    then obtain u v where u: "scan (dropWhile (\<lambda>d. d \<noteq> CHR 0x0A) s) = Inr (u, v)" "x = CHR '' '' # u" "y = CHR '' '' # v"
      using 2(5) by (auto simp: scan.simps(2) map_sum_Inr)
    show ?thesis unfolding u(2,3) by (rule scans.comment[OF 2(1)[OF _ u(1)]]) (use line in simp_all)
  next
    case block
    then obtain r u v where u: "after_comment (tl s) = Some r" "scan r = Inr (u, v)" "x = CHR '' '' # u" "y = CHR '' '' # v"
      using 2(5) by (auto simp: scan.simps(2) map_sum_Inr split: option.splits)
    show ?thesis unfolding u(3,4) by (rule scans.comment[OF 2(2)[OF _ _ u(1,2)]]) (use block in simp_all)
  next
    case quote
    then have c: "\<not> (c = CHR ''-'' \<and> s \<noteq> [] \<and> hd s = CHR ''-'')" "\<not> (c = CHR ''/'' \<and> s \<noteq> [] \<and> hd s = CHR ''*'')" by (auto simp: quote_def)
    obtain b r u v where u: "literal c s = Some (b, r)" "scan r = Inr (u, v)" "x = c # b @ c # u" "y = c # replicate (length b) (CHR '' '') @ c # v"
      using 2(5) c quote by (auto simp: scan.simps(2) map_sum_Inr split: option.splits)
    show ?thesis unfolding u(3,4) by (rule scans.quoted[OF quote u(1) 2(3)[OF c quote u(1) refl u(2)]])
  next
    case other
    then obtain u v where u: "scan s = Inr (u, v)" "x = c # u" "y = c # v"
      using 2(5) by (auto simp: scan.simps(2) map_sum_Inr)
    show ?thesis unfolding u(2,3) by (rule scans.plain_char[OF other 2(4)[OF other(2,3,1) u(1)]])
  qed
qed

lemma scans_length: "scans s x y \<Longrightarrow> length y = length x"
  by (induction rule: scans.induct) auto

lemma scans_Nil: "scans s x y \<Longrightarrow> x = [] \<longleftrightarrow> y = []"
  by (induction rule: scans.induct) auto

lemma scans_last: "scans s x y \<Longrightarrow> x \<noteq> [] \<Longrightarrow> last y = last x"
  by (induction rule: scans.induct) (auto simp: scans_Nil)

lemma scans_hd: "scans s x y \<Longrightarrow> x \<noteq> [] \<Longrightarrow> hd x = CHR '' '' \<or> s \<noteq> [] \<and> hd x = hd s"
  by (induction rule: scans.induct) auto

lemma literal_join: "r = [] \<or> hd r \<noteq> q \<Longrightarrow> literal q s = Some (b, t) \<Longrightarrow> literal q (b @ q # r) = Some (b, r)"
proof (induction q s arbitrary: b t rule: literal.induct)
  case (2 q c s)
  then show ?case by (cases r) (auto split: if_splits list.splits)
qed simp

lemma scan_quoted:
  "quote c \<Longrightarrow> literal c s = Some (b, r) \<Longrightarrow> scan (c # s) = map_sum id (\<lambda>(x, y). (c # b @ c # x, c # replicate (length b) (CHR '' '') @ c # y)) (scan r)"
  by (auto simp: scan.simps(2) quote_def)

lemma scan_plain:
  "\<not> quote c \<Longrightarrow> \<not> (c = CHR ''-'' \<and> s \<noteq> [] \<and> hd s = CHR ''-'') \<Longrightarrow> \<not> (c = CHR ''/'' \<and> s \<noteq> [] \<and> hd s = CHR ''*'') \<Longrightarrow>
   scan (c # s) = map_sum id (\<lambda>(x, y). (c # x, c # y)) (scan s)"
  by (simp only: scan.simps if_False)

lemma scan_space [simp]: "scan (CHR '' '' # s) = map_sum id (\<lambda>(x, y). (CHR '' '' # x, CHR '' '' # y)) (scan s)"
  by (simp add: scan_plain quote_def)

lemma scans_twice: "scans s x y \<Longrightarrow> scan x = Inr (x, y)"
proof (induction rule: scans.induct)
  case (quoted c s b r x y)
  have "x = [] \<or> hd x \<noteq> c"
    using scans_hd[OF quoted(3)] literal_split[OF quoted(2)] quoted(1) by (auto simp: quote_def)
  then have "literal c (b @ c # x) = Some (b, x)" using quoted(2) by (rule literal_join)
  then show ?case using quoted(1,4) by (simp only: scan_quoted) simp
next
  case (plain_char c s x y)
  then have "\<not> (c = CHR ''-'' \<and> x \<noteq> [] \<and> hd x = CHR ''-'')" "\<not> (c = CHR ''/'' \<and> x \<noteq> [] \<and> hd x = CHR ''*'')"
    using scans_hd[OF plain_char(4)] plain_char(2,3) by auto
  then show ?case using plain_char(1,5) by (simp add: scan_plain)
qed simp_all

theorem scan_twice: "scan s = Inr (x, y) \<Longrightarrow> scan x = Inr (x, y)"
  by (rule scans_twice[OF scan_scans])

subsection \<open>What is stripped is outside literals\<close>

lemma trailing_facts: "trailing t \<Longrightarrow> \<not> quote t \<and> t \<noteq> CHR ''-'' \<and> t \<noteq> CHR ''/'' \<and> t \<noteq> CHR ''*'' \<and> \<not> is_word t"
  by (auto simp: trailing_def quote_def is_space_def is_word_def is_ident_char_def is_alpha_def is_dec_def code_def Let_def)

lemma literal_snoc: "literal q (s @ [t]) = Some (b, r @ [t]) \<Longrightarrow> t \<noteq> q \<Longrightarrow> literal q s = Some (b, r)"
proof (induction q s arbitrary: b rule: literal.induct)
  case (2 q c s)
  then show ?case by (cases s) (auto split: if_splits)
qed (auto split: if_splits)

lemma scan_snoc:
  "scan (s @ [t]) = Inr (s @ [t], y) \<Longrightarrow> trailing t \<Longrightarrow> scan s = Inr (s, butlast y) \<and> last y = t"
proof (induction s arbitrary: y rule: length_induct)
  case (1 s)
  show ?case
  proof (cases s)
    case Nil
    then show ?thesis using 1(2,3) trailing_facts[of t] by (auto simp: scan_plain)
  next
    case (Cons c u)
    note t = trailing_facts[OF 1(3)]
    have line: "\<not> (c = CHR ''-'' \<and> u @ [t] \<noteq> [] \<and> hd (u @ [t]) = CHR ''-'')"
      using 1(2) Cons by (auto simp: scan.simps(2) map_sum_Inr)
    have block: "\<not> (c = CHR ''/'' \<and> u @ [t] \<noteq> [] \<and> hd (u @ [t]) = CHR ''*'')"
      using 1(2) Cons by (auto simp: scan.simps(2) map_sum_Inr split: option.splits)
    have n: "\<not> (c = CHR ''-'' \<and> u \<noteq> [] \<and> hd u = CHR ''-'')" "\<not> (c = CHR ''/'' \<and> u \<noteq> [] \<and> hd u = CHR ''*'')"
      using line block by auto
    show ?thesis
    proof (cases "quote c")
      case True
      then obtain b r v w where b: "literal c (u @ [t]) = Some (b, r)" "scan r = Inr (v, w)" "u @ [t] = b @ c # v"
        "y = c # replicate (length b) (CHR '' '') @ c # w"
        using 1(2) Cons line block by (auto simp: scan.simps(2) map_sum_Inr split: option.splits)
      have r: "u @ [t] = b @ c # r" using literal_split[OF b(1)] by simp
      then have v: "v = r" using b(3) by simp
      obtain r' where r': "r = r' @ [t]" using r t True by (cases r rule: rev_cases) auto
      have l: "literal c u = Some (b, r')" using literal_snoc[of c u t b r'] b(1) r' t True by auto
      have u: "u = b @ c # r'" using r r' by simp
      have "scan r' = Inr (r', butlast w) \<and> last w = t"
        using 1(1)[rule_format, of r' w] 1(3) b(2) v r' u Cons by simp
      moreover have "w \<noteq> []" using scans_Nil[OF scan_scans[OF b(2)]] v r' by simp
      ultimately show ?thesis using l u Cons b(4) True by (simp add: scan_quoted butlast_append)
    next
      case False
      then obtain w where w: "scan (u @ [t]) = Inr (u @ [t], w)" "y = c # w"
        using 1(2) Cons line block by (auto simp: scan.simps(2) map_sum_Inr)
      have "scan u = Inr (u, butlast w) \<and> last w = t" using 1(1)[rule_format, of u w] 1(3) w(1) Cons by simp
      moreover have "w \<noteq> []" using scans_Nil[OF scan_scans[OF w(1)]] by simp
      ultimately show ?thesis using w(2) Cons False n by (simp add: scan_plain)
    qed
  qed
qed

lemma rstrip_Nil [simp]: "rstrip_by P [] = []"
  by (simp add: rstrip_by_def)

lemma rstrip_snoc: "rstrip_by P (s @ [c]) = (if P c then rstrip_by P s else s @ [c])"
  by (simp add: rstrip_by_def)

lemma scan_rstrip:
  "scan x = Inr (x, y) \<Longrightarrow> (\<And>c. P c \<Longrightarrow> trailing c) \<Longrightarrow>
   scan (rstrip_by P x) = Inr (rstrip_by P x, take (length (rstrip_by P x)) y)"
proof (induction x arbitrary: y rule: rev_induct)
  case (snoc c x)
  show ?case
  proof (cases "P c")
    case True
    note s = scan_snoc[OF snoc(2) snoc(3)[OF True]]
    have "length y = Suc (length x)" using scans_length[OF scan_scans[OF snoc(2)]] by simp
    moreover have "length (rstrip_by P x) \<le> length x" using length_dropWhile_le[of P "rev x"] by (simp add: rstrip_by_def)
    moreover have "y = butlast y @ [last y]" using calculation(1) by (cases y rule: rev_cases) auto
    ultimately have "take (length (rstrip_by P x)) (butlast y) = take (length (rstrip_by P x)) y"
      by (metis butlast_conv_take diff_Suc_1 min.absorb1 take_take)
    then show ?thesis using snoc(1)[of "butlast y"] s snoc(3) True by (simp add: rstrip_snoc)
  next
    case False then show ?thesis using snoc(2) scans_length[OF scan_scans[OF snoc(2)]] by (simp add: rstrip_snoc)
  qed
qed simp

lemma rstrip_same_length:
  "scan x = Inr (x, y) \<Longrightarrow> length (rstrip_by is_space y) = length (rstrip_by is_space x)"
proof (induction x arbitrary: y rule: rev_induct)
  case (snoc c x)
  have l: "length y = Suc (length x)" "last y = c"
    using scans_length[OF scan_scans[OF snoc(2)]] scans_last[OF scan_scans[OF snoc(2)]] by simp_all
  then obtain z where z: "y = z @ [c]" by (cases y rule: rev_cases) auto
  show ?case
  proof (cases "is_space c")
    case True
    then have "trailing c" by (simp add: trailing_def)
    then show ?thesis using scan_snoc[OF snoc(2)] snoc(1)[of z] True z by (simp add: rstrip_snoc)
  next
    case False then show ?thesis using z l by (simp add: rstrip_snoc)
  qed
qed (auto dest: scan_scans simp: scans_Nil)

lemma scan_lstrip: "is_space c \<Longrightarrow> scan (c # s) = Inr (c # s, y) \<Longrightarrow> \<exists>z. y = c # z \<and> scan s = Inr (s, z)"
  using trailing_facts[of c] by (auto simp: scan_plain trailing_def map_sum_Inr)

definition all_spaces :: "string \<Rightarrow> bool" where
  "all_spaces s = list_all is_space s"

lemma scan_lstrip_all:
  "scan x = Inr (x, y) \<Longrightarrow> \<exists>p z. y = p @ z \<and> all_spaces p \<and> scan (dropWhile is_space x) = Inr (dropWhile is_space x, z)"
proof (induction x arbitrary: y)
  case (Cons c x)
  show ?case
  proof (cases "is_space c")
    case True
    then obtain z where z: "y = c # z" "scan x = Inr (x, z)" using scan_lstrip Cons(2) by blast
    obtain p v where "z = p @ v" "all_spaces p" "scan (dropWhile is_space x) = Inr (dropWhile is_space x, v)"
      using Cons(1)[OF z(2)] by blast
    then show ?thesis using z(1) True by (intro exI[of _ "c # p"] exI[of _ v]) (simp add: all_spaces_def)
  next
    case False then show ?thesis using Cons(2) by (intro exI[of _ "[]"] exI[of _ y]) (simp add: all_spaces_def)
  qed
qed (auto simp: all_spaces_def)

lemma scan_rstrip_all:
  "scan x = Inr (x, y) \<Longrightarrow> \<exists>z q. y = z @ q \<and> all_spaces q \<and> scan (rstrip_by is_space x) = Inr (rstrip_by is_space x, z)"
proof (induction x arbitrary: y rule: rev_induct)
  case (snoc c x)
  show ?case
  proof (cases "is_space c")
    case True
    then have t: "trailing c" by (simp add: trailing_def)
    note s = scan_snoc[OF snoc(2) t]
    have y: "y = butlast y @ [c]" using s scans_Nil[OF scan_scans[OF snoc(2)]] by (cases y rule: rev_cases) auto
    obtain z q where "butlast y = z @ q" "all_spaces q" "scan (rstrip_by is_space x) = Inr (rstrip_by is_space x, z)"
      using snoc(1) s by blast
    then show ?thesis using y True by (intro exI[of _ z] exI[of _ "q @ [c]"]) (simp add: all_spaces_def rstrip_snoc)
  next
    case False then show ?thesis using snoc(2) by (intro exI[of _ y] exI[of _ "[]"]) (simp add: all_spaces_def rstrip_snoc)
  qed
qed (auto simp: all_spaces_def)

lemma scan_strip:
  assumes "scan x = Inr (x, y)"
  obtains p z q where "y = p @ z @ q" "all_spaces p" "all_spaces q" "scan (strip x) = Inr (strip x, z)"
proof -
  obtain p v where p: "y = p @ v" "all_spaces p" "scan (dropWhile is_space x) = Inr (dropWhile is_space x, v)"
    using scan_lstrip_all[OF assms] by blast
  obtain z q where "v = z @ q" "all_spaces q" "scan (rstrip_by is_space (dropWhile is_space x)) = Inr (rstrip_by is_space (dropWhile is_space x), z)"
    using scan_rstrip_all[OF p(3)] by blast
  then show thesis using p(1,2) by (intro that[of p z q]) (simp_all add: strip_def lstrip_by_def)
qed

subsection \<open>The checks do not see the spaces around a text\<close>

lemma while_snoc: "\<not> P t \<Longrightarrow> takeWhile P (s @ [t]) = takeWhile P s \<and> dropWhile P (s @ [t]) = dropWhile P s @ [t]"
  by (induction s) auto

lemma word_runs_snoc: "\<not> is_word t \<Longrightarrow> word_runs (s @ [t]) = map (\<lambda>(w, r). (w, r @ [t])) (word_runs s)"
  by (induction s rule: word_runs.induct) (simp_all add: while_snoc)

lemma called_snoc: "is_space t \<Longrightarrow> called (r @ [t]) = called r"
  by (induction r) (auto simp: called_def)

lemma depth_snoc: "t \<noteq> CHR ''('' \<Longrightarrow> t \<noteq> CHR '')'' \<Longrightarrow> depth_after d (s @ [t]) = depth_after d s"
  by (induction d s rule: depth_after.induct) auto

definition harmless :: "string \<Rightarrow> bool" where
  "harmless k = (CHR '';'' \<notin> set k \<and> depth_after 0 k = Some 0 \<and>
     (\<forall>(w, r) \<in> set (word_runs k). lower w \<notin> set FORBIDDEN_WORDS \<and> \<not> catalog_name (lower w) \<and>
        \<not> (forbidden_function (lower w) \<and> called r)))"

lemma code_checks_harmless: "code_checks k = Inr () \<longleftrightarrow> harmless k"
  by (auto simp: code_checks_def harmless_def err_simps find_None_iff split: option.splits prod.splits)
     (auto dest!: find_Some_iff')

lemma space_facts: "is_space t \<Longrightarrow> \<not> is_word t \<and> t \<noteq> CHR ''('' \<and> t \<noteq> CHR '')'' \<and> t \<noteq> CHR '';''"
  using trailing_facts[of t] by (auto simp: trailing_def is_space_def code_def)

lemma harmless_space: "is_space t \<Longrightarrow> harmless (t # k) = harmless k" "is_space t \<Longrightarrow> harmless (k @ [t]) = harmless k"
  using space_facts[of t] by (auto simp: harmless_def depth_snoc word_runs_snoc called_snoc)

lemma harmless_spaces: "all_spaces p \<Longrightarrow> all_spaces q \<Longrightarrow> harmless (p @ z @ q) = harmless z"
proof -
  assume p: "all_spaces p" and q: "all_spaces q"
  have "harmless (z @ q) = harmless z" using q
    by (induction q rule: rev_induct) (simp_all add: all_spaces_def harmless_space flip: append_assoc)
  moreover have "harmless (p @ y) = harmless y" for y using p
    by (induction p) (simp_all add: all_spaces_def harmless_space)
  ultimately show ?thesis by simp
qed

subsection \<open>What the guard lets through\<close>

text \<open>C34. The text the guard returns, the one that is executed, is read by the scan as it is: it holds no comment, its
  literals end, and outside them it is one statement with balanced parentheses, without a forbidden word, a
  forbidden call or a name of the catalog.
\<close>

theorem accepted_sql_is_one_harmless_statement:
  assumes "check_sql semicolons sql = Inr c"
  shows "\<exists>k. scan c = Inr (c, k) \<and> harmless k"
proof -
  obtain cleaned blanked where s: "scan sql = Inr (cleaned, blanked)"
    using assms by (auto simp: check_sql_def err_simps Let_def split: if_splits)
  note t = scan_twice[OF s]
  define cut where "cut = rstrip_by trailing cleaned"
  define x where "x = (if semicolons then cut else cleaned)"
  define y where "y = (if semicolons then rstrip_by is_space (take (length (rstrip_by is_space blanked) -
    (length (rstrip_by is_space cleaned) - length cut)) blanked) else blanked)"
  have a: "code_checks y = Inr ()" "c = strip x"
    using assms s by (auto simp: check_sql_def err_simps Let_def cut_def x_def y_def split: if_splits)
  have "scan cut = Inr (cut, take (length cut) blanked)" unfolding cut_def by (rule scan_rstrip[OF t])
  moreover have "semicolons \<Longrightarrow> y = take (length cut) blanked"
  proof -
    assume b: semicolons
    have "length cut \<le> length (rstrip_by is_space cleaned)"
    proof -
      have "length (dropWhile trailing z) \<le> length (dropWhile is_space z)" for z
        by (induction z) (auto simp: trailing_def intro: le_SucI order_trans[OF length_dropWhile_le])
      then show ?thesis by (simp add: cut_def rstrip_by_def)
    qed
    then have y: "y = rstrip_by is_space (take (length cut) blanked)" using b rstrip_same_length[OF t] by (simp add: y_def)
    have "rstrip_by is_space cut = cut"
      by (cases cut rule: rev_cases) (use rstrip_last[of trailing cleaned] in \<open>auto simp: rstrip_snoc trailing_def cut_def\<close>)
    then have "length (rstrip_by is_space (take (length cut) blanked)) = length cut"
      using rstrip_same_length[OF \<open>scan cut = _\<close>] by simp
    moreover have "rstrip_by is_space z = z" if l: "length (rstrip_by is_space z) = length z" for z
    proof -
      obtain e where e: "z = rstrip_by is_space z @ e" using rstrip_prefix by blast
      have "length z = length (rstrip_by is_space z) + length e" using arg_cong[OF e, of length] by simp
      then have "e = []" using l by simp
      with e show ?thesis by simp
    qed
    moreover have "length (take (length cut) blanked) = length cut"
      using scans_length[OF scan_scans[OF \<open>scan cut = _\<close>]] by simp
    ultimately show "y = take (length cut) blanked" using y by simp
  qed
  ultimately have "scan x = Inr (x, y)" using t by (auto simp: x_def y_def)
  then obtain p z q where "y = p @ z @ q" "all_spaces p" "all_spaces q" "scan c = Inr (c, z)"
    using scan_strip a(2) by metis
  then show ?thesis using a(1) code_checks_harmless harmless_spaces by metis
qed

lemma accepted_sql_is_one_harmless_statement_witness:
  "\<exists>k. scan ''select   a'' = Inr (''select   a'', k) \<and> harmless k"
proof -
  have "check_sql True ''select /*b*/ a;'' = Inr ''select   a''" by code_simp
  from accepted_sql_is_one_harmless_statement[OF this] show ?thesis .
qed

lemma refused_semicolon: "check_expression ''a; b'' = Inl Semicolon" by code_simp
lemma refused_word: "check_query ''Drop t'' = Inl (Word ''Drop'')" by code_simp
lemma refused_function: "check_expression ''Read_Blob (a)'' = Inl (Function ''Read_Blob'')" by code_simp
lemma refused_path: "check_query (''from t,'' @ [CHR 0x27] @ ''/a'' @ [CHR 0x27]) = Inl ReadsFile" by code_simp

text \<open>
  The scan knows two quotes only.  A dialect with dollar quoting ends its string at the second \<open>$$\<close> and reads a
  second statement where the scan sees the inside of a literal.
\<close>

lemma dollar_quotes_hide_a_statement:
  "check_query (''select $$'' @ [CHR 0x27] @ ''$$;drop t;$$'' @ [CHR 0x27] @ ''$$'') =
     Inr (''select $$'' @ [CHR 0x27] @ ''$$;drop t;$$'' @ [CHR 0x27] @ ''$$'')"
  by code_simp

subsection \<open>The check of the executor (\<open>bi/data/db_executor.py\<close>)\<close>

definition FORBIDDEN_KEYWORDS :: "string list" where
  "FORBIDDEN_KEYWORDS = [''insert'', ''update'', ''delete'', ''drop'', ''alter'', ''create'', ''truncate'',
     ''exec'', ''execute'', ''grant'', ''revoke'', ''call'', ''set'',
     ''replace'', ''load'', ''copy'', ''vacuum'', ''analyze'', ''explain'']"

function strip_blocks :: "string \<Rightarrow> string" where
  "strip_blocks [] = []"
| "strip_blocks (c # s) = (case (if c = CHR ''/'' \<and> s \<noteq> [] \<and> hd s = CHR ''*'' then after_comment (tl s) else None) of
     None \<Rightarrow> c # strip_blocks s | Some r \<Rightarrow> CHR '' '' # strip_blocks r)"
  by pat_completeness auto

termination
proof (relation "measure length", goal_cases)
  case (3 c s r)
  then show ?case using after_comment_shorter[of "tl s" r] by (auto split: if_splits)
qed simp_all

function strip_lines :: "string \<Rightarrow> string" where
  "strip_lines [] = []"
| "strip_lines (c # s) = (if c = CHR ''-'' \<and> s \<noteq> [] \<and> hd s = CHR ''-''
     then CHR '' '' # strip_lines (dropWhile (\<lambda>d. d \<noteq> CHR 0x0A) s) else c # strip_lines s)"
  by pat_completeness auto

termination
  by (relation "measure length") (auto simp: le_imp_less_Suc length_dropWhile_le)

datatype query_error = NotASelect | Keyword string | Statements

definition validate_query :: "string \<Rightarrow> query_error + unit" where
  "validate_query query = (let cleaned = strip_lines (strip_blocks query) in checks
     [raise_if (\<not> starts_with ''select'' (lower (strip cleaned))) NotASelect,
      (case find (\<lambda>(w, r). lower w \<in> set FORBIDDEN_KEYWORDS) (word_runs cleaned) of
         None \<Rightarrow> Inr () | Some (w, _) \<Rightarrow> Inl (Keyword w)),
      raise_if (1 < length (filter (\<lambda>p. strip p \<noteq> []) (split_on (CHR '';'') cleaned))) Statements])"

text \<open>
  The comments are removed without regard to literals, and the query that is executed keeps them: what stands
  between a literal \<open>/*\<close> and a literal \<open>*/\<close> is not looked at.
\<close>

lemma literals_hide_a_statement_from_the_executor:
  "validate_query (''select '' @ [CHR 0x27] @ ''/*'' @ [CHR 0x27] @ ''; drop table t; select '' @ [CHR 0x27] @ ''*/'' @ [CHR 0x27]) = Inr ()"
  by code_simp

lemma executor_refuses_it_bare: "validate_query ''select 1; drop table t'' = Inl (Keyword ''drop'')"
  by code_simp

end
