(* ===== verification/Trg_Mail.thy ===== *)
theory Trg_Mail
  imports Trg_Fire Wf_Files
begin

section \<open>Forms, mails and their attachments (\<open>core/workflow_form_triggers.py\<close>, \<open>workflow_email_triggers.py\<close>, \<open>workflow_attachments.py\<close>)\<close>

text \<open>
  Two more kinds of triggers.  A form is a second kind that carries a token; a mail is compared with the filters
  of every active \<open>email\<close> trigger of its owner.  Its attachments are files of a store all accounts share, which
  a workflow only sees through references.
\<close>

subsection \<open>Forms\<close>

definition find_active_form_trigger :: "'w tenv \<Rightarrow> string \<Rightarrow> ('w, trigger option) fact" where
  "find_active_form_trigger z token =
     sbind (find_trigger (\<lambda>r. y_kind r = ''form'' \<and> y_hash r = Some (z_digest z token))) (\<lambda>found.
     sret (case found of None \<Rightarrow> None | Some r \<Rightarrow> if y_active r then Some r else None))"

datatype form_error =
    MustBeText string
  | MustBeNumber string
  | MustBeBool string
  | MustBeOneOf string "pyval list"
  | Required string

definition validate_one :: "pydict \<Rightarrow> string \<Rightarrow> pyval \<Rightarrow> form_error option" where
  "validate_one field name v = (let t = get0 field ''type'' in
     if in_strs t [''text'', ''textarea'', ''date''] then (if is_str v then None else Some (MustBeText name))
     else if t = PStr ''number'' then (if is_num v \<and> \<not> is_bool v then None else Some (MustBeNumber name))
     else if t = PStr ''boolean'' then (if is_bool v then None else Some (MustBeBool name))
     else if t = PStr ''select'' then (let options = (case por (get0 field ''options'') (PList []) of PList xs \<Rightarrow> xs | _ \<Rightarrow> []) in
       if py_in v options then None else Some (MustBeOneOf name options))
     else None)"

text \<open>The names of fields are strings, as the configuration of the trigger was accepted.\<close>

fun validate_form_values :: "pydict list \<Rightarrow> pydict \<Rightarrow> pydict \<Rightarrow> (form_error + pydict) res" where
  "validate_form_values [] vals cleaned = Inr (Inr cleaned)"
| "validate_form_values (field # fs) vals cleaned = ebind (getitem field ''name'') (\<lambda>n. case n of
     PStr name \<Rightarrow> (case dget vals name of
         None \<Rightarrow> if truthy (get1 field ''required'' (PBool True)) then Inr (Inl (Required name))
           else validate_form_values fs vals cleaned
       | Some v \<Rightarrow> (case validate_one field name v of
           Some e \<Rightarrow> Inr (Inl e)
         | None \<Rightarrow> validate_form_values fs vals (dset cleaned name v)))
   | _ \<Rightarrow> Inl (PyError ''TypeError''))"

text \<open>
  What a form hands to a run: only declared fields, each with the value submitted, of the declared type, and every
  required field.
\<close>

definition declared :: "pydict list \<Rightarrow> string \<Rightarrow> bool" where
  "declared fs name = list_ex (\<lambda>f. get0 f ''name'' = PStr name) fs"

lemma form_step:
  assumes "validate_form_values (field # fs) vals cleaned = Inr (Inr out)"
  obtains (absent) n where "dget field ''name'' = Some (PStr n)" "dget vals n = None"
      "\<not> truthy (get1 field ''required'' (PBool True))" "validate_form_values fs vals cleaned = Inr (Inr out)"
    | (given) n v where "dget field ''name'' = Some (PStr n)" "dget vals n = Some v" "validate_one field n v = None"
      "validate_form_values fs vals (dset cleaned n v) = Inr (Inr out)"
proof -
  obtain x where x: "dget field ''name'' = Some x"
    using assms by (cases "dget field ''name''") (simp_all add: getitem_def of_opt_def)
  obtain n where n: "x = PStr n" using assms x by (cases x) (simp_all add: getitem_def of_opt_def)
  show thesis
  proof (cases "dget vals n")
    case None
    show ?thesis by (rule absent) (use assms x n None in \<open>auto simp: getitem_def of_opt_def split: if_splits\<close>)
  next
    case (Some v)
    show ?thesis by (rule given) (use assms x n Some in \<open>auto simp: getitem_def of_opt_def split: option.splits\<close>)
  qed
qed

lemma cleaned_values:
  "validate_form_values fs vals cleaned = Inr (Inr out) \<Longrightarrow>
   dget out name = Some v \<Longrightarrow> dget cleaned name = Some v \<or> declared fs name \<and> dget vals name = Some v"
proof (induction fs arbitrary: cleaned)
  case (Cons field fs)
  from Cons.prems(1) show ?case
  proof (cases rule: form_step)
    case absent then show ?thesis using Cons.IH Cons.prems(2) by (auto simp: declared_def)
  next
    case (given n w)
    then show ?thesis using Cons.IH[OF given(4) Cons.prems(2)] by (auto simp: declared_def get0_def split: if_splits)
  qed
qed simp

lemma cleaned_kept: "validate_form_values fs vals cleaned = Inr (Inr out) \<Longrightarrow> dget cleaned name \<noteq> None \<Longrightarrow> dget out name \<noteq> None"
proof (induction fs arbitrary: cleaned)
  case (Cons field fs)
  from Cons.prems(1) show ?case
  proof (cases rule: form_step)
    case absent then show ?thesis using Cons by blast
  next
    case (given n w) then show ?thesis using Cons.IH[OF given(4)] Cons.prems(2) by simp
  qed
qed simp

theorem form_values_are_declared:
  assumes "validate_form_values fs vals [] = Inr (Inr out)"
  shows "dget out name = Some v \<longrightarrow> declared fs name \<and> dget vals name = Some v"
  using cleaned_values[OF assms, of name v] by auto

theorem required_fields_are_there:
  "validate_form_values fs vals cleaned = Inr (Inr out) \<Longrightarrow> f \<in> set fs \<Longrightarrow> truthy (get1 f ''required'' (PBool True)) \<Longrightarrow>
   get0 f ''name'' = PStr name \<Longrightarrow> dget out name \<noteq> None"
proof (induction fs arbitrary: cleaned)
  case (Cons field fs)
  from Cons.prems(1) show ?case
  proof (cases rule: form_step)
    case absent
    then show ?thesis using Cons.IH[OF absent(4)] Cons.prems(2-) by auto
  next
    case (given n w)
    show ?thesis
    proof (cases "f = field")
      case True
      then have "name = n" using given(1) Cons.prems(4) by (simp add: get0_def)
      then show ?thesis using cleaned_kept[OF given(4), of n] by simp
    next
      case False then show ?thesis using Cons.IH[OF given(4)] Cons.prems(2-) by simp
    qed
  qed
qed simp

subsection \<open>Attachments\<close>

text \<open>
  The store is a set of files under one root and the references to them.  How the system resolves a path, and
  writes one, is a parameter; so are the random tokens.
\<close>

record ref_meta =
  rm_owner :: string
  rm_path :: string
  rm_name :: pyval
  rm_type :: pyval
  rm_size :: pyval

record vault =
  va_root :: "string list"
  va_files :: "(string list \<times> string) list"
  va_refs :: "(string \<times> ref_meta) list"
  va_drawn :: nat

record os =
  os_resolve :: "string \<Rightarrow> string list option"
  os_text :: "string list \<Rightarrow> string"
  os_token :: "nat \<Rightarrow> string"

datatype attachment_error = OwnerMissing | OutsideRoot | BadType | BadSize | NotFound

type_synonym 'a vact = "(vault, attachment_error, 'a) act"

definition MAX_ATTACHMENT_BYTES :: nat where "MAX_ATTACHMENT_BYTES = 20 * 1024 * 1024"

definition MAX_GENERATED_BYTES :: nat where "MAX_GENERATED_BYTES = 5 * 1024 * 1024"

definition GENERATED_FORMATS :: "string list" where
  "GENERATED_FORMATS = [''csv'', ''xlsx'', ''json'', ''markdown'', ''text'', ''docx'', ''pdf'']"

definition inside_root :: "os \<Rightarrow> vault \<Rightarrow> string \<Rightarrow> string list option" where
  "inside_root o' s path = (case os_resolve o' path of None \<Rightarrow> None
     | Some p \<Rightarrow> if take (length (va_root s)) p = va_root s \<and> p \<noteq> va_root s then Some p else None)"

definition draw :: "os \<Rightarrow> string vact" where
  "draw o' s = (Inr (os_token o' (va_drawn s)), s\<lparr>va_drawn := va_drawn s + 1\<rparr>)"

definition is_file :: "vault \<Rightarrow> string list \<Rightarrow> bool" where
  "is_file s p = (dget (va_files s) p \<noteq> None)"

definition register_ref :: "os \<Rightarrow> string \<Rightarrow> string \<Rightarrow> pyval \<Rightarrow> pyval \<Rightarrow> pyval \<Rightarrow> string vact" where
  "register_ref o' owner path name ty bytes = (if owner = [] then sthrow OwnerMissing
     else sbind (sget (\<lambda>s. (s, inside_root o' s path))) (\<lambda>(s, target). case target of
         None \<Rightarrow> sthrow OutsideRoot
       | Some p \<Rightarrow> if \<not> is_file s p then sthrow OutsideRoot
           else sbind (draw o') (\<lambda>t. let ref = ''att_'' @ t in
             sbind (smod (\<lambda>s. s\<lparr>va_refs := dset (va_refs s) ref
               \<lparr>rm_owner = owner, rm_path = os_text o' p, rm_name = name, rm_type = ty, rm_size = bytes\<rparr>\<rparr>)) (\<lambda>_. sret ref))))"

definition allowed_ext :: "string \<Rightarrow> string option" where
  "allowed_ext ty = dget [(''application/pdf'', ''.pdf''), (''image/png'', ''.png''), (''image/jpeg'', ''.jpg'')] ty"

text \<open>\<open>rpartition("."):\<close> what is before the last dot, and what is after it.\<close>

definition rpartition_dot :: "string \<Rightarrow> (string \<times> string) option" where
  "rpartition_dot s = (if CHR ''.'' \<in> set s
     then Some (rev (tl (dropWhile (\<lambda>c. c \<noteq> CHR ''.'') (rev s))), rev (takeWhile (\<lambda>c. c \<noteq> CHR ''.'') (rev s))) else None)"

definition MAX_NAME :: nat where "MAX_NAME = 120"

definition bounded_name :: "string option \<Rightarrow> string \<Rightarrow> string" where
  "bounded_name name dflt = (let
       safe = sanitize_filename (case name of None \<Rightarrow> dflt | Some n \<Rightarrow> if n = [] then dflt else n);
       safe = (if safe = [] then dflt else safe)
     in if length safe \<le> MAX_NAME then safe
        else (case rpartition_dot safe of
            Some (stem, suffix) \<Rightarrow> if length suffix \<le> 10 then take (MAX_NAME - length suffix - 1) stem @ CHR ''.'' # suffix
              else take MAX_NAME safe
          | None \<Rightarrow> take MAX_NAME safe))"

definition put_file :: "os \<Rightarrow> string \<Rightarrow> string \<Rightarrow> string \<Rightarrow> string vact" where
  "put_file o' folder name data = sbind (draw o') (\<lambda>t. sbind (sget (\<lambda>s. va_root s @ [folder, t, name])) (\<lambda>p.
     sbind (smod (\<lambda>s. s\<lparr>va_files := dset (va_files s) p data\<rparr>)) (\<lambda>_. sret (os_text o' p))))"

definition entry_of :: "string \<Rightarrow> string \<Rightarrow> string \<Rightarrow> string \<Rightarrow> pydict" where
  "entry_of name data ty ref = [(''name'', PStr name), (''size'', PInt (int (length data))), (''content_type'', PStr ty), (''ref'', PStr ref)]"

definition store_attachment :: "os \<Rightarrow> string \<Rightarrow> string option \<Rightarrow> string \<Rightarrow> string \<Rightarrow> pydict vact" where
  "store_attachment o' owner name ty data = (case allowed_ext ty of
     None \<Rightarrow> sthrow BadType
   | Some ext \<Rightarrow> if data = [] \<or> MAX_ATTACHMENT_BYTES < length data then sthrow BadSize
       else (let safe = bounded_name name (''piece'' @ ext);
           safe = (if \<not> ends_with ext (lower safe) \<and> \<not> (ext = ''.jpg'' \<and> ends_with ''.jpeg'' (lower safe)) then safe @ ext else safe)
         in sbind (put_file o' ''workflow_uploads'' safe data) (\<lambda>path.
            sbind (register_ref o' owner path (PStr safe) (PStr ty) (PInt (int (length data)))) (\<lambda>ref.
            sret (entry_of safe data ty ref)))))"

definition store_generated :: "os \<Rightarrow> string \<Rightarrow> string option \<Rightarrow> string \<Rightarrow> string \<Rightarrow> pydict vact" where
  "store_generated o' owner name ty data = (if ty \<notin> content_type_of ` set GENERATED_FORMATS then sthrow BadType
     else if data = [] \<or> MAX_GENERATED_BYTES < length data then sthrow BadSize
     else (let safe = bounded_name name ''fichier'' in
       sbind (put_file o' ''workflow_generated'' safe data) (\<lambda>path.
       sbind (register_ref o' owner path (PStr safe) (PStr ty) (PInt (int (length data)))) (\<lambda>ref.
       sret (entry_of safe data ty ref)))))"

text \<open>\<open>re.match\<close> with \<open>$\<close> lets a last newline pass.\<close>

definition valid_ref :: "string \<Rightarrow> bool" where
  "valid_ref r = (let s = (if r \<noteq> [] \<and> last r = CHR 0x0A then butlast r else r) in
     starts_with ''att_'' s \<and> length s = 36 \<and> list_all (\<lambda>c. is_dec c \<or> c \<in> set ''abcdef'') (drop 4 s))"

definition resolve_ref :: "os \<Rightarrow> pyval \<Rightarrow> string \<Rightarrow> (ref_meta \<times> string list) vact" where
  "resolve_ref o' ref owner = (case ref of
     PStr r \<Rightarrow> if \<not> valid_ref r then sthrow NotFound
       else sbind (sget (\<lambda>s. (s, dget (va_refs s) r))) (\<lambda>(s, found). case found of
           None \<Rightarrow> sthrow NotFound
         | Some m \<Rightarrow> if rm_owner m \<noteq> owner then sthrow NotFound
             else (case inside_root o' s (rm_path m) of
                 None \<Rightarrow> sthrow NotFound
               | Some p \<Rightarrow> if is_file s p then sret (m\<lparr>rm_path := os_text o' p\<rparr>, p) else sthrow NotFound))
   | _ \<Rightarrow> sthrow NotFound)"

lemmas vault_steps = sbind_def sret_def sget_def smod_def sthrow_def draw_def

lemma bounded_name_length: "length (bounded_name name dflt) \<le> MAX_NAME"
  by (auto simp: bounded_name_def MAX_NAME_def Let_def split: option.splits prod.splits)

text \<open>What a reference names stays under the root, whatever was registered, and is its owner's.\<close>

lemma resolved_is_owned:
  "fst (resolve_ref o' ref owner s) = Inr (m, p) \<Longrightarrow> rm_owner m = owner \<and> take (length (va_root s)) p = va_root s \<and> p \<noteq> va_root s \<and> is_file s p"
  by (auto simp: resolve_ref_def inside_root_def vault_steps split: pyval.splits option.splits if_splits)

text \<open>The answer to an account depends on its own references only: those of the others answer as if they did not exist.\<close>

lemma filter_dget: "distinct (dkeys d) \<Longrightarrow> dget (filter (\<lambda>(k, v). P v) d) k = (case dget d k of None \<Rightarrow> None | Some v \<Rightarrow> if P v then Some v else None)"
proof (induction d)
  case (Cons a d)
  obtain k' v' where a: "a = (k', v')" by (cases a)
  have "k' \<notin> set (dkeys d) \<Longrightarrow> dget (filter (\<lambda>(k, v). P v) d) k' = None"
    by (auto simp: dget_def dkeys_def map_of_eq_None_iff)
  then show ?case using Cons a by (auto simp: dget_def dkeys_def split: option.splits)
qed simp

theorem foreign_references_do_not_exist:
  assumes "distinct (dkeys (va_refs s))"
  shows "fst (resolve_ref o' ref owner s) =
    fst (resolve_ref o' ref owner (s\<lparr>va_refs := filter (\<lambda>(r, m). rm_owner m = owner) (va_refs s)\<rparr>))"
  using assms by (auto simp: resolve_ref_def inside_root_def is_file_def vault_steps filter_dget split: pyval.splits option.splits)

subsection \<open>Mails\<close>

text \<open>
  \<open>email.utils.parseaddr\<close>, which takes the address out of a \<open>From\<close> header, is the parameter \<open>parse\<close>.
\<close>

definition count_char :: "char \<Rightarrow> string \<Rightarrow> nat" where
  "count_char c s = length (filter (\<lambda>d. d = c) s)"

definition sender_matches :: "(string \<Rightarrow> string) \<Rightarrow> string \<Rightarrow> string \<Rightarrow> bool" where
  "sender_matches parse wanted from = (let address = lower (strip (parse from)) in
     if count_char (CHR ''@'') address \<noteq> 1 then False
     else (let wanted = lower (strip wanted) in
       if CHR ''@'' \<in> set wanted \<and> \<not> starts_with ''@'' wanted then address = wanted
       else (let domain = lstrip_by (\<lambda>c. c = CHR ''@'') wanted; sender = snd (split_once (CHR ''@'') address)
         in sender = domain \<or> ends_with (CHR ''.'' # domain) sender)))"

text \<open>The filters of an accepted configuration are strings or absent.\<close>

definition str_or :: "pyval \<Rightarrow> string" where
  "str_or v = (case v of PStr s \<Rightarrow> s | _ \<Rightarrow> [])"

definition matches_email_trigger :: "(string \<Rightarrow> string) \<Rightarrow> pydict \<Rightarrow> string \<Rightarrow> string \<Rightarrow> bool" where
  "matches_email_trigger parse cfg from subject =
     (\<not> (truthy (get0 cfg ''from_filter'') \<and> \<not> sender_matches parse (str_or (get0 cfg ''from_filter'')) from) \<and>
      \<not> (truthy (get0 cfg ''subject_filter'') \<and>
          \<not> contains_str (lower (str_or (get0 cfg ''subject_filter''))) (lower subject)))"

definition email_envelope :: "string \<Rightarrow> string \<Rightarrow> string \<Rightarrow> string \<Rightarrow> pyval \<Rightarrow> pydict list \<Rightarrow> pydict" where
  "email_envelope sender to subject body received attachments =
     [(''from'', PStr sender), (''to'', PStr to), (''subject'', PStr subject), (''body'', PStr body),
      (''received_at'', received),
      (''attachments'', PList (map (\<lambda>a. PDict [(''name'', get0 a ''name''), (''size'', get0 a ''size''),
         (''content_type'', get0 a ''content_type''), (''ref'', get0 a ''ref'')]) attachments))]"

text \<open>An attachment that cannot be referenced keeps its description.\<close>

definition attachment_entry :: "os \<Rightarrow> string \<Rightarrow> pydict \<Rightarrow> (vault, run_error, pyval) act" where
  "attachment_entry o' owner a = stry (case dget a ''path'' of
       Some (PStr path) \<Rightarrow> register_ref o' owner path (get0 a ''filename'') (get0 a ''content_type'') (get0 a ''size'')
     | _ \<Rightarrow> sthrow NotFound) (\<lambda>res.
     sret (PDict [(''name'', get0 a ''filename''), (''size'', get0 a ''size''), (''content_type'', get0 a ''content_type''),
       (''ref'', case res of Inr ref \<Rightarrow> PStr ref | Inl _ \<Rightarrow> PNone)]))"

definition attachment_entries :: "os \<Rightarrow> string \<Rightarrow> pydict list \<Rightarrow> (vault, run_error, pyval list) act" where
  "attachment_entries o' owner stored = smap (attachment_entry o' owner) stored"

text \<open>The two stores together.\<close>

record 'w mailroom =
  mr_flows :: "'w flows"
  mr_vault :: vault

definition in_flows :: "('w, 'a) fact \<Rightarrow> ('w mailroom, run_error, 'a) act" where
  "in_flows m s = (case m (mr_flows s) of (r, t) \<Rightarrow> (r, s\<lparr>mr_flows := t\<rparr>))"

definition in_vault :: "(vault, run_error, 'a) act \<Rightarrow> ('w mailroom, run_error, 'a) act" where
  "in_vault m s = (case m (mr_vault s) of (r, t) \<Rightarrow> (r, s\<lparr>mr_vault := t\<rparr>))"

text \<open>
  One pass over the triggers: the references are made for the first that matches, and a workflow that is not
  published is passed over.  Any other exception of a launch leaves the loop.
\<close>

fun dispatch_rows :: "'w tenv \<Rightarrow> os \<Rightarrow> (string \<Rightarrow> string) \<Rightarrow> string \<Rightarrow> string \<Rightarrow> pydict list \<Rightarrow> pydict \<Rightarrow> trigger list \<Rightarrow>
    ('w mailroom, run_error, string list) act" where
  "dispatch_rows z o' parse provider owner stored envelope [] = sret []"
| "dispatch_rows z o' parse provider owner stored envelope (r # rs) =
     sbind (in_flows (liftf (trigger_cfg r))) (\<lambda>cfg.
     if get0 cfg ''provider'' \<noteq> PStr provider
        \<or> \<not> matches_email_trigger parse cfg (str_or (get1 envelope ''from'' (PStr []))) (str_or (get1 envelope ''subject'' (PStr [])))
     then dispatch_rows z o' parse provider owner stored envelope rs
     else sbind (if stored \<noteq> [] \<and> \<not> truthy (get0 envelope ''attachments'')
         then sbind (in_vault (attachment_entries o' owner stored)) (\<lambda>es. sret (dset envelope ''attachments'' (PList es)))
         else sret envelope) (\<lambda>envelope.
       stry (in_flows (launch_triggered_run z (y_workflow r) owner ''email'' [(''provider'', PStr provider)] (PDict envelope)))
         (\<lambda>res. case res of
             Inr i \<Rightarrow> sbind (dispatch_rows z o' parse provider owner stored envelope rs) (\<lambda>is. sret (i # is))
           | Inl e \<Rightarrow> if e = NOT_ACTIVE then dispatch_rows z o' parse provider owner stored envelope rs else sthrow e)))"

definition dispatch_email_triggers :: "'w tenv \<Rightarrow> os \<Rightarrow> (string \<Rightarrow> string) \<Rightarrow> string \<Rightarrow> string \<Rightarrow> pydict \<Rightarrow> pydict list \<Rightarrow>
    ('w mailroom, run_error, string list) act" where
  "dispatch_email_triggers z o' parse provider owner envelope stored =
     sbind (in_flows (list_active_triggers ''email'' (Some owner))) (\<lambda>rows.
     dispatch_rows z o' parse provider owner stored envelope rows)"

text \<open>A filter on an address accepts that address alone; one on a domain, that domain and its subdomains.\<close>

lemma sender_is_anchored:
  assumes "sender_matches parse wanted from"
  shows "let address = lower (strip (parse from)); f = lower (strip wanted); sender = snd (split_once (CHR ''@'') address) in
    count_char (CHR ''@'') address = 1 \<and>
    (address = f \<or> sender = dropWhile (\<lambda>c. c = CHR ''@'') f \<or>
       (\<exists>sub. sender = sub @ CHR ''.'' # dropWhile (\<lambda>c. c = CHR ''@'') f))"
proof -
  have "ends_with p s \<Longrightarrow> \<exists>sub. s = sub @ p" for p s :: string
    unfolding ends_with_def starts_with_def by (metis append_take_drop_id rev_append rev_rev_ident)
  then show ?thesis using assms by (auto simp: sender_matches_def lstrip_by_def Let_def split: if_splits)
qed

end
