(* ===== verification/Sec_Access.thy ===== *)
theory Sec_Access
  imports Json
begin

section \<open>Who a request acts for (\<open>middleware/adk_identity.py\<close>, \<open>main.py\<close>, \<open>helpers/oauth_state_store.py\<close>)\<close>

subsection \<open>The routes of the agent framework\<close>

text \<open>
  The framework takes the user from the path or the body of a request; the middleware lets a request through
  only when that user is the subject of its token.  Decoding a token is a parameter: the claims of a token whose
  signature and dates are valid.
\<close>

record http_request =
  hr_method :: string
  hr_path :: string
  hr_authorization :: string
  hr_body :: string
  hr_token :: "string option"
  hr_user :: "string option"

datatype reply = Forwarded string | Unprotected | Unauthorized | Forbidden | Closed | Broken exn

definition ADK_PROTECTED_PATHS :: "string list" where
  "ADK_PROTECTED_PATHS = [''/run'', ''/run_sse'', ''/run_live'', ''/list-apps'', ''/version'']"

definition ADK_PROTECTED_PREFIXES :: "string list" where
  "ADK_PROTECTED_PREFIXES = [''/apps/'', ''/builder/'', ''/debug/'']"

definition RUN_BODY_ROUTES :: "string list" where "RUN_BODY_ROUTES = [''/run'', ''/run_sse'']"

definition is_protected :: "string \<Rightarrow> bool" where
  "is_protected path = (path \<in> set ADK_PROTECTED_PATHS \<or> list_ex (\<lambda>p. starts_with p path) ADK_PROTECTED_PREFIXES)"

text \<open>The token of a header \<open>Bearer\<close>.\<close>

definition bearer :: "string \<Rightarrow> string option" where
  "bearer h = (if starts_with ''Bearer '' h then Some (strip (drop 7 h)) else None)"

definition access_token_subject :: "(string \<Rightarrow> pydict option) \<Rightarrow> string \<Rightarrow> string option" where
  "access_token_subject decode token = (case decode token of
     None \<Rightarrow> None
   | Some claims \<Rightarrow> if get0 claims ''type'' \<noteq> PStr ''access'' \<or> \<not> truthy (get0 claims ''sub'') then None
       else Some (py_str (get0 claims ''sub'')))"

text \<open>\<open>^/apps/[^/]+/users/([^/]+)(?:/|$)\<close>; a last newline may follow the end.\<close>

definition apps_user :: "string \<Rightarrow> string option" where
  "apps_user path = (case split_on (CHR ''/'') path of
     e # apps # app # users # user # rest \<Rightarrow>
       if e = [] \<and> apps = ''apps'' \<and> app \<noteq> [] \<and> users = ''users'' \<and> user \<noteq> [] then Some user else None
   | _ \<Rightarrow> None)"

definition requested_user_ids :: "http_request \<Rightarrow> string list" where
  "requested_user_ids r =
     (case apps_user (hr_path r) of None \<Rightarrow> [] | Some u \<Rightarrow> [u]) @
     (if hr_method r = ''POST'' \<and> hr_path r \<in> set RUN_BODY_ROUTES
      then (case json_loads (if hr_body r = [] then ''{}'' else hr_body r) of
          Some (PDict d) \<Rightarrow> map (\<lambda>f. py_str (get0 d f)) (filter (\<lambda>f. f \<in> set (dkeys d)) [''user_id'', ''userId''])
        | _ \<Rightarrow> [])
      else [])"

definition foreign_user_id :: "http_request \<Rightarrow> string \<Rightarrow> string option" where
  "foreign_user_id r subject = find (\<lambda>u. u \<noteq> subject) (requested_user_ids r)"

text \<open>\<open>ADKAuthMiddleware.dispatch\<close>; the subject of a token is the text of an address.\<close>

definition adk_auth :: "(string \<Rightarrow> pydict option) \<Rightarrow> http_request \<Rightarrow> reply" where
  "adk_auth decode r = (if \<not> is_protected (hr_path r) then Unprotected
     else (case bearer (hr_authorization r) of
       None \<Rightarrow> Unauthorized
     | Some token \<Rightarrow> (case decode token of
         None \<Rightarrow> Unauthorized
       | Some claims \<Rightarrow>
           if get0 claims ''type'' \<noteq> PStr ''access'' then Unauthorized
           else (case get0 claims ''sub'' of
               PNone \<Rightarrow> Unauthorized
             | PStr s \<Rightarrow> if foreign_user_id r s = None then Forwarded s else Forbidden
             | _ \<Rightarrow> if requested_user_ids r = [] then Forwarded (py_str (get0 claims ''sub'')) else Forbidden))))"

text \<open>\<open>ADKLiveAuthMiddleware\<close>, for the one WebSocket of the framework.\<close>

definition adk_live_auth :: "(string \<Rightarrow> pydict option) \<Rightarrow> http_request \<Rightarrow> reply" where
  "adk_live_auth decode r = (if hr_path r \<noteq> ''/run_live'' then Unprotected
     else (let token = (case bearer (hr_authorization r) of Some t \<Rightarrow> Some t | None \<Rightarrow> hr_token r);
         subject = (case token of None \<Rightarrow> None | Some t \<Rightarrow> if t = [] then None else access_token_subject decode t)
       in if subject = None \<or> hr_user r \<noteq> subject then Closed else Forwarded (the subject)))"

lemma find_None_all: "find P xs = None \<longleftrightarrow> (\<forall>x \<in> set xs. \<not> P x)"
  by (induction xs) auto

text \<open>
  A request that reaches a protected route carries an access token, and every user it names, in its path or in
  its body, is the subject of that token.
\<close>

theorem forwarded_acts_for_its_subject:
  assumes "adk_auth decode r = Forwarded s"
  shows "\<exists>token claims. bearer (hr_authorization r) = Some token \<and> decode token = Some claims \<and>
    get0 claims ''type'' = PStr ''access'' \<and> py_str (get0 claims ''sub'') = s \<and> get0 claims ''sub'' \<noteq> PNone \<and>
    set (requested_user_ids r) \<subseteq> {s}"
  using assms
  by (auto simp: adk_auth_def foreign_user_id_def find_None_all py_str_def split: if_splits option.splits pyval.splits)

lemma live_acts_for_its_subject:
  "adk_live_auth decode r = Forwarded s \<Longrightarrow> hr_user r = Some s"
  by (auto simp: adk_live_auth_def Let_def split: if_splits)

subsection \<open>The states of an OAuth redirection\<close>

record oauth_state =
  os_state :: string
  os_user :: int
  os_provider :: string
  os_expires :: int

datatype state_error = StateMissing | StateUnknown | StateExpired | StateForeign

definition create_state :: "string \<Rightarrow> int \<Rightarrow> string \<Rightarrow> int \<Rightarrow> int \<Rightarrow> bool \<Rightarrow> oauth_state list \<Rightarrow> oauth_state list" where
  "create_state token user provider now ttl cleans rows = (let
       rows = rows @ [\<lparr>os_state = token, os_user = user, os_provider = provider, os_expires = now + ttl * 1000000\<rparr>]
     in if cleans then filter (\<lambda>r. \<not> os_expires r < now) rows else rows)"

text \<open>\<open>consume\<close> reads the row, deletes it in a statement of its own, and then judges what it read.\<close>

definition read_state :: "string \<Rightarrow> oauth_state list \<Rightarrow> state_error + oauth_state" where
  "read_state state rows = (if state = [] then Inl StateMissing
     else (case filter (\<lambda>r. os_state r = state) rows of r # _ \<Rightarrow> Inr r | [] \<Rightarrow> Inl StateUnknown))"

definition delete_state :: "string \<Rightarrow> oauth_state list \<Rightarrow> oauth_state list" where
  "delete_state state rows = filter (\<lambda>r. os_state r \<noteq> state) rows"

definition judge_state :: "oauth_state \<Rightarrow> int \<Rightarrow> string \<Rightarrow> int \<Rightarrow> state_error + unit" where
  "judge_state r user provider now = (if os_expires r \<le> now then Inl StateExpired
     else if os_provider r \<noteq> provider \<or> os_user r \<noteq> user then Inl StateForeign else Inr ())"

definition consume_state :: "string \<Rightarrow> int \<Rightarrow> string \<Rightarrow> int \<Rightarrow> oauth_state list \<Rightarrow> (state_error + unit) \<times> oauth_state list" where
  "consume_state state user provider now rows = (case read_state state rows of
     Inl e \<Rightarrow> (Inl e, rows)
   | Inr r \<Rightarrow> (judge_state r user provider now, delete_state state rows))"

text \<open>
  A state that is accepted was made for that user and that provider and has not expired; whatever the answer,
  the same state is refused the next time.
\<close>

theorem oauth_state_is_used_once:
  assumes "consume_state state user provider now rows = (res, left)"
  shows "(res = Inr () \<longrightarrow> (\<exists>r \<in> set rows. os_state r = state \<and> os_user r = user \<and> os_provider r = provider \<and> now < os_expires r)) \<and>
    fst (consume_state state user' provider' later left) \<in> {Inl StateMissing, Inl StateUnknown}"
proof -
  have "filter (\<lambda>r. os_state r = state) (delete_state state rows) = []" by (simp add: delete_state_def)
  then have d: "read_state state (delete_state state rows) \<in> {Inl StateMissing, Inl StateUnknown}"
    by (simp add: read_state_def)
  show ?thesis
  proof (cases "read_state state rows")
    case (Inl e)
    then have "e = StateMissing \<or> e = StateUnknown" by (auto simp: read_state_def split: if_splits list.splits)
    then show ?thesis using assms Inl by (auto simp: consume_state_def)
  next
    case (Inr r)
    then obtain rest where f: "filter (\<lambda>r. os_state r = state) rows = r # rest"
      by (auto simp: read_state_def split: if_splits list.splits)
    have "r \<in> set (filter (\<lambda>r. os_state r = state) rows)" unfolding f by simp
    then show ?thesis using assms Inr d by (auto simp: consume_state_def judge_state_def split: if_splits)
  qed
qed

text \<open>
  Two callbacks that both read the row before either deletes it: the deletion of the second finds no row, which
  the ORM only warns of.
\<close>

definition consume_overlapped :: "string \<Rightarrow> int \<Rightarrow> string \<Rightarrow> int \<Rightarrow> oauth_state list \<Rightarrow>
    (state_error + unit) \<times> (state_error + unit) \<times> oauth_state list" where
  "consume_overlapped state user provider now rows = (case (read_state state rows, read_state state rows) of
     (Inr r, Inr q) \<Rightarrow> (judge_state r user provider now, judge_state q user provider now, delete_state state (delete_state state rows))
   | (Inl e, Inl f) \<Rightarrow> (Inl e, Inl f, rows)
   | (x, y) \<Rightarrow> (map_sum id (\<lambda>_. ()) x, map_sum id (\<lambda>_. ()) y, rows))"

lemma one_state_may_serve_twice:
  "consume_overlapped ''s'' 1 ''github'' 5 [\<lparr>os_state = ''s'', os_user = 1, os_provider = ''github'', os_expires = 9\<rparr>] = (Inr (), Inr (), [])"
  by code_simp

lemma forwarded_acts_for_its_subject_witness:
  "set (requested_user_ids \<lparr>hr_method = ''GET'', hr_path = ''/apps/a/users/b@c/x'', hr_authorization = ''Bearer t'', hr_body = [],
     hr_token = None, hr_user = None\<rparr>) \<subseteq> {''b@c''}"
proof -
  have "adk_auth (\<lambda>t. if t = ''t'' then Some [(''type'', PStr ''access''), (''sub'', PStr ''b@c'')] else None)
    \<lparr>hr_method = ''GET'', hr_path = ''/apps/a/users/b@c/x'', hr_authorization = ''Bearer t'', hr_body = [], hr_token = None, hr_user = None\<rparr>
    = Forwarded ''b@c''"
    by code_simp
  from forwarded_acts_for_its_subject[OF this] show ?thesis by blast
qed

lemma oauth_state_is_used_once_witness:
  "fst (consume_state ''s'' 1 ''github'' 6 [])  \<in> {Inl StateMissing, Inl StateUnknown}"
proof -
  have "consume_state ''s'' 1 ''github'' 5 [\<lparr>os_state = ''s'', os_user = 1, os_provider = ''github'', os_expires = 9\<rparr>] = (Inr (), [])"
    by code_simp
  from oauth_state_is_used_once[OF this] show ?thesis by blast
qed

end
