(* ===== verification/Ag_History.thy ===== *)
theory Ag_History
  imports Py_Value
begin

section \<open>The history a model reads again (\<open>core/history_compaction.py\<close>)\<close>

text \<open>
  Before each call of a model, heavy strings are taken out of every content but the last, and, for the templates
  that ask for it, the results of the tools of earlier turns are shortened.  A part with a \<open>function_response\<close>
  holds its \<open>response\<close>.
\<close>

record history_part =
  hp_text :: "string option"
  hp_response :: "pyval option"

record content =
  ct_role :: "string option"
  ct_parts :: "history_part list"

subsection \<open>Heavy strings\<close>

definition LARGE_PAYLOAD_KEYS :: "string list" where
  "LARGE_PAYLOAD_KEYS = [''data'', ''image_data'', ''image_base64'', ''base64'', ''content'']"

definition MIN_STRIP_CHARS :: nat where "MIN_STRIP_CHARS = 4000"

definition heavy :: "string \<Rightarrow> pyval \<Rightarrow> bool" where
  "heavy k v = (k \<in> set LARGE_PAYLOAD_KEYS \<and> (case v of PStr s \<Rightarrow> MIN_STRIP_CHARS \<le> length s | _ \<Rightarrow> False))"

definition placeholder :: "pyval \<Rightarrow> pyval" where
  "placeholder v = (case v of PStr s \<Rightarrow> PStr (''<stripped: '' @ nat_str (length s) @ '' chars>'') | _ \<Rightarrow> v)"

text \<open>The value after the strip and the number of characters taken out.\<close>

fun strip_payload :: "pyval \<Rightarrow> pyval \<times> nat"
  and strip_list :: "pyval list \<Rightarrow> pyval list \<times> nat"
  and strip_items :: "(string \<times> pyval) list \<Rightarrow> (string \<times> pyval) list \<times> nat" where
  "strip_payload (PDict d) = (case strip_items d of (d', n) \<Rightarrow> (PDict d', n))"
| "strip_payload (PList xs) = (case strip_list xs of (ys, n) \<Rightarrow> (PList ys, n))"
| "strip_payload PNone = (PNone, 0)"
| "strip_payload (PBool b) = (PBool b, 0)"
| "strip_payload (PInt i) = (PInt i, 0)"
| "strip_payload (PFloat f) = (PFloat f, 0)"
| "strip_payload (PStr s) = (PStr s, 0)"
| "strip_list [] = ([], 0)"
| "strip_list (x # xs) = (case strip_payload x of (y, n) \<Rightarrow> case strip_list xs of (ys, m) \<Rightarrow> (y # ys, n + m))"
| "strip_items [] = ([], 0)"
| "strip_items ((k, v) # d) = (case strip_items d of (d', m) \<Rightarrow>
     if heavy k v then ((k, placeholder v) # d', length (case v of PStr s \<Rightarrow> s | _ \<Rightarrow> []) + m)
     else (case strip_payload v of (w, n) \<Rightarrow> ((k, w) # d', n + m)))"

subsection \<open>Results of earlier turns\<close>

definition PREVIOUS_TURN_MAX_CHARS :: nat where "PREVIOUS_TURN_MAX_CHARS = 1500"

definition KEPT_VALUE_MAX_CHARS :: nat where "KEPT_VALUE_MAX_CHARS = 400"

definition COMPACTED_NOTE :: string where
  "COMPACTED_NOTE = ''Result of an earlier turn, shortened to save tokens. Your answer from that '' @
     ''turn holds what you used; call the tool again if you need its data.''"

definition size_of :: "pyval \<Rightarrow> nat" where
  "size_of v = length (json_dumps v)"

definition compact_value :: "pyval \<Rightarrow> pyval" where
  "compact_value v = (if size_of v \<le> KEPT_VALUE_MAX_CHARS then v
     else (case v of
         PList xs \<Rightarrow> PStr (''<'' @ nat_str (length xs) @ '' items omitted>'')
       | PDict d \<Rightarrow> PStr (''<'' @ nat_str (length d) @ '' keys omitted>'')
       | _ \<Rightarrow> PStr (''<'' @ nat_str (size_of v) @ '' chars omitted>'')))"

definition compact_result :: "pydict \<Rightarrow> pydict" where
  "compact_result d = dset (map (\<lambda>(k, v). (k, compact_value v)) d) ''_compacted'' (PStr COMPACTED_NOTE)"

definition asks :: "content \<Rightarrow> bool" where
  "asks c = (ct_role c = Some ''user'' \<and>
     list_ex (\<lambda>p. (case hp_text p of None \<Rightarrow> False | Some t \<Rightarrow> t \<noteq> []) \<and> hp_response p = None) (ct_parts c))"

text \<open>The last content where the user speaks, the first one when there is none.\<close>

definition current_turn_start :: "content list \<Rightarrow> nat" where
  "current_turn_start cs = (case filter (\<lambda>i. asks (cs ! i)) (rev [0 ..< length cs]) of i # _ \<Rightarrow> i | [] \<Rightarrow> 0)"

definition big_result :: "pyval \<Rightarrow> bool" where
  "big_result v = (case v of PDict d \<Rightarrow> dget d ''_compacted'' = None \<and> PREVIOUS_TURN_MAX_CHARS < size_of v | _ \<Rightarrow> False)"

definition compact_part :: "history_part \<Rightarrow> history_part" where
  "compact_part p = (case hp_response p of
     Some (PDict d) \<Rightarrow> if big_result (PDict d) then p\<lparr>hp_response := Some (PDict (compact_result d))\<rparr> else p
   | _ \<Rightarrow> p)"

definition compact_previous_turns :: "content list \<Rightarrow> content list" where
  "compact_previous_turns cs = (let n = current_turn_start cs in
     map (\<lambda>c. c\<lparr>ct_parts := map compact_part (ct_parts c)\<rparr>) (take n cs) @ drop n cs)"

text \<open>The callback: the first strip leaves a response of \<open>None\<close> alone.\<close>

definition strip_part :: "history_part \<Rightarrow> history_part" where
  "strip_part p = (case hp_response p of
     None \<Rightarrow> p | Some v \<Rightarrow> if v = PNone then p else p\<lparr>hp_response := Some (fst (strip_payload v))\<rparr>)"

definition before_model :: "bool \<Rightarrow> content list \<Rightarrow> content list" where
  "before_model compacts cs = (if length cs < 2 then cs
     else (let cs = map (\<lambda>c. c\<lparr>ct_parts := map strip_part (ct_parts c)\<rparr>) (butlast cs) @ [last cs]
       in if compacts then compact_previous_turns cs else cs))"

subsection \<open>What is left\<close>

text \<open>No heavy string is left anywhere in a stripped value.\<close>

fun light :: "pyval \<Rightarrow> bool" and light_list :: "pyval list \<Rightarrow> bool" and light_items :: "(string \<times> pyval) list \<Rightarrow> bool" where
  "light (PDict d) = light_items d"
| "light (PList xs) = light_list xs"
| "light PNone = True"
| "light (PBool b) = True"
| "light (PInt i) = True"
| "light (PFloat f) = True"
| "light (PStr s) = True"
| "light_list [] = True"
| "light_list (x # xs) = (light x \<and> light_list xs)"
| "light_items [] = True"
| "light_items ((k, v) # d) = (\<not> heavy k v \<and> light v \<and> light_items d)"

text \<open>The strings of heavy keys, in characters.\<close>

fun heavy_chars :: "pyval \<Rightarrow> nat" and heavy_list :: "pyval list \<Rightarrow> nat" and heavy_items :: "(string \<times> pyval) list \<Rightarrow> nat" where
  "heavy_chars (PDict d) = heavy_items d"
| "heavy_chars (PList xs) = heavy_list xs"
| "heavy_chars PNone = 0"
| "heavy_chars (PBool b) = 0"
| "heavy_chars (PInt i) = 0"
| "heavy_chars (PFloat f) = 0"
| "heavy_chars (PStr s) = 0"
| "heavy_list [] = 0"
| "heavy_list (x # xs) = heavy_chars x + heavy_list xs"
| "heavy_items [] = 0"
| "heavy_items ((k, v) # d) = (if heavy k v then length (case v of PStr s \<Rightarrow> s | _ \<Rightarrow> []) else heavy_chars v) + heavy_items d"

lemma nat_str_length: "n < 10 ^ k \<Longrightarrow> length (nat_str n) \<le> max 1 k"
proof (induction k arbitrary: n)
  case (Suc k)
  show ?case
  proof (cases "n < 10")
    case True then show ?thesis by (subst nat_str.simps) simp
  next
    case False
    have "n div 10 < 10 ^ k" using Suc.prems by (simp add: div_less_iff_less_mult mult.commute)
    then have "length (nat_str (n div 10)) \<le> max 1 k" by (rule Suc.IH)
    moreover have "k \<noteq> 0" using Suc.prems False by (cases k) auto
    ultimately show ?thesis using False by (subst nat_str.simps) simp
  qed
qed (subst nat_str.simps, simp)

text \<open>A bound on the digits of a length, far above any memory.\<close>

definition DIGITS :: nat where "DIGITS = 1000"

lemma placeholder_light:
  assumes "heavy k v" "heavy_items [(k, v)] < 10 ^ DIGITS"
  shows "\<not> heavy k (placeholder v) \<and> light (placeholder v)"
proof -
  obtain s where v: "v = PStr s" using assms(1) by (cases v) (simp_all add: heavy_def)
  have m: "max 1 DIGITS = DIGITS" by (simp add: DIGITS_def)
  have "length s < 10 ^ DIGITS" using assms unfolding v by simp
  then have "length (nat_str (length s)) \<le> DIGITS" using nat_str_length[of "length s" DIGITS] m by simp
  then show ?thesis by (simp add: v placeholder_def heavy_def MIN_STRIP_CHARS_def DIGITS_def)
qed

lemma strip_kind: "heavy k (fst (strip_payload v)) = heavy k v"
  by (cases v) (auto simp: heavy_def split: prod.splits)

text \<open>
  A stripped value holds no heavy string, what was counted is what the heavy strings held, and a value without
  any is left as it is.
\<close>

lemma strip_facts:
  "heavy_chars v < 10 ^ DIGITS \<Longrightarrow> light (fst (strip_payload v)) \<and> snd (strip_payload v) = heavy_chars v"
  "heavy_list xs < 10 ^ DIGITS \<Longrightarrow> light_list (fst (strip_list xs)) \<and> snd (strip_list xs) = heavy_list xs"
  "heavy_items d < 10 ^ DIGITS \<Longrightarrow> light_items (fst (strip_items d)) \<and> snd (strip_items d) = heavy_items d"
proof (induction v and xs and d rule: strip_payload_strip_list_strip_items.induct)
  case (11 k v d)
  show ?case
  proof (cases "heavy k v")
    case True
    then have "heavy_items [(k, v)] < 10 ^ DIGITS" using 11(3) by simp
    then show ?thesis using placeholder_light[OF True] 11 True by (cases "strip_items d") simp
  next
    case False
    then show ?thesis using 11 strip_kind[of k v] by (auto split: prod.splits)
  qed
qed (auto split: prod.splits)

lemma light_stays:
  "light v \<Longrightarrow> strip_payload v = (v, 0)" "light_list xs \<Longrightarrow> strip_list xs = (xs, 0)" "light_items d \<Longrightarrow> strip_items d = (d, 0)"
  by (induction v and xs and d rule: strip_payload_strip_list_strip_items.induct) auto

theorem strip_takes_out_heavy_strings:
  assumes "heavy_chars v < 10 ^ DIGITS"
  shows "light (fst (strip_payload v)) \<and> snd (strip_payload v) = heavy_chars v \<and>
    strip_payload (fst (strip_payload v)) = (fst (strip_payload v), 0)"
  using strip_facts(1)[OF assms] light_stays(1) by blast

lemma turn_start_less: "cs \<noteq> [] \<Longrightarrow> current_turn_start cs < length cs"
proof -
  assume c: "cs \<noteq> []"
  show ?thesis
  proof (cases "filter (\<lambda>i. asks (cs ! i)) (rev [0 ..< length cs])")
    case Nil then show ?thesis using c by (simp add: current_turn_start_def)
  next
    case (Cons i js)
    have "i \<in> set (filter (\<lambda>i. asks (cs ! i)) (rev [0 ..< length cs]))" unfolding Cons by simp
    then have "i < length cs" by simp
    then show ?thesis by (simp add: current_turn_start_def Cons)
  qed
qed

lemma compaction_keeps_current_turn:
  "drop (current_turn_start cs) (compact_previous_turns cs) = drop (current_turn_start cs) cs \<and> length (compact_previous_turns cs) = length cs"
  by (cases "cs = []") (auto simp: compact_previous_turns_def Let_def dest: turn_start_less)

text \<open>The last content reaches the model as it is, and no content is added or lost.\<close>

theorem last_content_is_untouched:
  assumes "cs \<noteq> []"
  shows "last (before_model compacts cs) = last cs \<and> length (before_model compacts cs) = length cs"
proof -
  have k: "last (compact_previous_turns xs) = last xs \<and> length (compact_previous_turns xs) = length xs" if "xs \<noteq> []" for xs
    using compaction_keeps_current_turn[of xs] turn_start_less[OF that] by (metis last_drop)
  show ?thesis using assms k by (auto simp: before_model_def Let_def)
qed

text \<open>
  A result made of many small fields is big and is not shortened: every field is kept, and the note comes on top.
\<close>

lemma small_fields_are_all_kept:
  "list_all (\<lambda>(k, v). size_of v \<le> KEPT_VALUE_MAX_CHARS) d \<Longrightarrow> compact_result d = dset d ''_compacted'' (PStr COMPACTED_NOTE)"
proof -
  assume "list_all (\<lambda>(k, v). size_of v \<le> KEPT_VALUE_MAX_CHARS) d"
  then have "map (\<lambda>(k, v). (k, compact_value v)) d = d"
    by (intro map_idI) (auto simp: compact_value_def list_all_iff)
  then show ?thesis by (simp add: compact_result_def)
qed

end
