(* ===== verification/Spec2Isabelle.thy ===== *)
theory Spec2Isabelle
  imports Wf_Accept Wf_Cron Wf_Dag Wf_Files Wf_Http Wf_Convert Wf_Nodes Wf_Reply Wf_Template Wf_Schedule
    Wf_Snapshot Fl_Safety Al_Tick Qt_Safety Sql_Guard Trg_Mail Sec_Access Ag_History
begin

text \<open>
  A model of the workflow engine of apowerb (\<open>src/src/apowerb/core/workflow_graph.py\<close> and the
  modules it works with), of the records of its runs (\<open>core/run_main.py\<close>), of the triggers that
  start them (\<open>core/workflow_triggers.py\<close>), of the stored workflows with their history
  (\<open>core/workflow_main.py\<close>), of the alerts and notices that runs send, and of the quota every run of an agent
  passes.

  A workflow is a graph of typed nodes a user draws: a trigger, agents, tools, routers,
  conditions, loops, tries, calls to other workflows, human decisions.  The engine parses the
  stored JSON value, validates it, and runs it node by node, each node reading the outputs of the
  nodes upstream of it through templates.

  The theories, bottom up.

  \<^item> \<open>Prelude\<close>: errors as values of a sum, dictionaries with insertion order (locale
    \<open>keyed_store\<close>), bounded iteration, the monad of stateful operations that may raise and its
    invariants.
  \<^item> \<open>Py_Float\<close>, \<open>Py_Value\<close>, \<open>Json\<close>: the part of Python the code uses: text, floats as exact
    doubles, JSON values with Python's equality, truth and printing, and \<open>json.loads\<close>.
  \<^item> \<open>Wf_Graph\<close>: nodes, edges, graphs and their parsing (the pydantic models).
  \<^item> \<open>Wf_Template\<close>: \<open>_lookup\<close>, \<open>render\<close> and its budget, references, \<open>evaluate_rule\<close>,
    \<open>tool_reported_error\<close>.
  \<^item> \<open>Wf_Cron\<close>: \<open>parse_cron\<close>, the minimal interval, the next firing minute.
  \<^item> \<open>Wf_Dag\<close>: the depth-first search \<open>_visit\<close>, ancestors, \<open>upstream_of\<close>, \<open>_until_subgraph\<close>.
  \<^item> \<open>Wf_Config\<close>, \<open>Wf_Validate\<close>, \<open>Wf_Accept\<close>: routes and error modes of a node, every check of
    \<open>validate_node\<close> and \<open>validate_graph\<close>, and what an accepted graph guarantees.
  \<^item> \<open>Wf_Convert\<close>, \<open>Wf_Nodes\<close>, \<open>Wf_Files\<close>, \<open>Wf_Http\<close>: what the nodes do: conversions, prompts and
    answers, produced files, HTTP requests behind the address guard.
  \<^item> \<open>Wf_Reply\<close>: reading an agent's response (\<open>core/workflow_engine.py\<close>).

  \<^item> \<open>Wf_State\<close>: the state of a \<open>_Compiler\<close>, exceptions as chains, \<open>error_fields\<close>, and the record
    \<open>host\<close> of everything outside.
  \<^item> \<open>Wf_Bodies\<close>: \<open>_body\<close>, one definition per node type.  \<open>Wf_Wrap\<close>: \<open>_wrap\<close>, \<open>_timed\<close>, \<open>_handled\<close>,
    \<open>_replay\<close>, \<open>_hand_over\<close>.
  \<^item> \<open>Wf_Exec\<close>: \<open>build\<close>, \<open>_run_body\<close>, \<open>_loop\<close>, \<open>_try\<close>, \<open>_subworkflow\<close>, and \<open>exec\<close>, which runs a
    compiler and, through it, the bodies and sub-workflows below it.
  \<^item> \<open>Wf_Run\<close>: \<open>run_graph\<close>, \<open>_pause\<close>, \<open>_save_failure\<close>, \<open>retry_mismatch\<close>, \<open>_sse\<close>.
  \<^item> \<open>Act_Logic\<close>: triples for stateful operations.  \<open>Wf_Invariant\<close>: the locales \<open>body_inv\<close>,
    \<open>attempt_inv\<close>, \<open>run_inv\<close>: any invariant the primitive statements keep is kept by every body,
    by the wrapper and by whole runs.
  \<^item> \<open>Wf_Safety\<close>, \<open>Wf_Control\<close>, \<open>Wf_Schedule\<close>, \<open>Wf_Snapshot\<close>: the interpretations of these locales
    and the properties of runs: closing events, outcomes of a node, bounds on outputs, loops, tries
    and nesting, runs as sequences of steps, references of failures, snapshots and resumption.
    \<open>Wf_Example\<close> holds the small run of the witnesses.

  \<^item> \<open>Py_Time\<close>: civil dates as microseconds since the year 1; \<open>strftime\<close>, \<open>isoformat\<close>,
    \<open>fromisoformat\<close>, their round trips, and that texts order as instants do.
  \<^item> \<open>Run_Store\<close>: the tables of runs and traces, and the \<open>INSERT\<close> and \<open>UPDATE\<close> statements of
    \<open>core/run_main.py\<close> as data (\<open>stmt\<close>, with \<open>where_of\<close> and \<open>set_of\<close>).  \<open>Run_Upkeep\<close>: what a read settles
    (deadlines, dead resumptions, old snapshots, lost runs).  \<open>Run_Record\<close>: opening, closing, reading, listing
    and replaying.  \<open>Run_Decision\<close>: human decisions.  \<open>Run_Retry\<close>: resuming a failed run.  \<open>Run_Trace\<close>:
    traces and agent streams.
  \<^item> \<open>Run_Table\<close>: the locale \<open>ledger\<close>, in which statements that each give out an answer only for a row that
    waits never give more answers than were offered; its first two interpretations count the answers to decisions and the
    resumptions from a snapshot.  \<open>Run_Rule\<close>: the locale \<open>table_rule\<close>: a rule that every statement keeps is kept by
    every operation of the module.  \<open>Run_Safety\<close> interprets it (well-formed records, no row lost) and holds
    the step relation \<open>run_step\<close>.  \<open>Run_Answer\<close>, \<open>Run_Resume\<close>, \<open>Run_Flow\<close>: what a claim, a resumption, a
    settlement, an agent stream and a trace guarantee.  \<open>Run_Example\<close> holds the deployment of the witnesses.
  \<^item> \<open>Trg_Store\<close>: the table of triggers, its synchronisation with the workflows, tokens, activity, the next
    instant of a schedule.  \<open>Trg_Fire\<close>: launching a run, the tick over schedules and folders, triggers fired by
    runs and by agents.  \<open>Trg_Safety\<close>, \<open>Trg_Poll\<close>: a slot is taken once (another interpretation of \<open>ledger\<close>),
    a tick starts as many runs as it says, new files start runs, cascades stop, drafts fire nothing, rotated tokens
    are dead.
  \<^item> \<open>Fl_Shape\<close>: the shapes of outputs (\<open>core/workflow_shapes.py\<close>).  \<open>Fl_Store\<close>: the tables of workflows and of
    their revisions, and creating, updating, restoring, duplicating and deleting a workflow.  \<open>Fl_History\<close>: the step
    relation \<open>flow_step\<close>, in which a write rests on a row read at any earlier time and validates in surroundings of its
    own (the instant, the tools, the other workflows), and the invariant of its histories.  \<open>Fl_Safety\<close>: the operations are sequences of these steps, every version reads back, an edit is never
    lost, what is published passed the validation of a write, and so did the graphs that triggers run.
  \<^item> \<open>Al_Alert\<close>: the alert of a failed run (\<open>core/workflow_alerts.py\<close>).  \<open>Al_Notice\<close>: the notices of human
    decisions (\<open>core/decision_notices.py\<close>).  Their statements on \<open>agent_runs\<close> are data (\<open>notice_stmt\<close>) like those of
    \<open>Run_Store\<close>.  \<open>Al_Ledger\<close>: a fourth interpretation of \<open>ledger\<close>, which counts notices against their causes, and
    the steps of the slots of alerts, which servers take, count on and hand back.  \<open>Al_Safety\<close>, \<open>Al_Tick\<close>: a granted slot
    is an hour after the last one that was not handed back, what an alert comes to, what a pass leaves, what a card tells.
  \<^item> \<open>Qt_Registry\<close>: the registry of add-ons (\<open>core/extensions/registry.py\<close>) and what the core registers; its locale
    \<open>capability_list\<close> is interpreted on the guards and on the observers.  \<open>Qt_Month\<close>, \<open>Qt_Count\<close>, \<open>Qt_Gate\<close>: the
    billing month, the rows of usage with the quota and the gauge over them, and the gate every run of an agent
    passes (\<open>core/usage_quota.py\<close>, \<open>core/run_gate.py\<close>).  \<open>Qt_Secret\<close>: the key of the shared model.  \<open>Qt_Safety\<close>: what
    the gate applies once the application has started, that the gauge and the guard agree, what a refusal announces.
  \<^item> \<open>Sql_Guard\<close>: the guard of SQL fragments (\<open>bi/spec/sql_guard.py\<close>): what it returns is read by its own scan as
    one statement without the words, calls and names it forbids.
  \<^item> \<open>Trg_Mail\<close>: the values of forms, the references of attachments and the runs that mails start.  \<open>Sec_Access\<close>: the user
    a request acts for and the states of OAuth redirections.  \<open>Ag_History\<close>: what a model reads again of earlier turns.

  How a run goes.  \<open>run_graph\<close> validates the graph, compiles it to edges (\<open>build\<close>) and gives them to
  ADK.  ADK decides which node runs next and is a parameter: \<open>h_adk\<close> maps edges to a tree
  (\<open>sched\<close>) of calls of node functions, each branch depending on the value the node handed back.
  Every property of runs holds for all such trees.  A node function (\<open>wrap_node\<close>) runs the node's body over the
  compiler's state \<open>kst\<close>; loops, tries and sub-workflows start another compiler with a state of its
  own.  \<open>exec\<close> is total: each compiler it starts is either for a body contained in the graph
  that runs (smaller in size) or one sub-workflow level deeper, of which there are three; no
  fuel is used.

  Parameters of the model.  The record \<open>venv\<close> stands for the clock, the time zone database and
  the two database look-ups of the validation; \<open>readers\<close> for the CSV sniffer and the date formats;
  \<open>renderers\<close> for the libraries that write xlsx, docx and pdf files; \<open>net\<close> for the URL parsers,
  the resolver and the HTTP client; \<open>host\<close> for all of these together with the agents, the tools, the
  services of the nodes, the clock, the sleep between attempts and the cancellation flag.  A callback
  changes the world \<open>'w\<close> and returns a value or raises a chain of exceptions that carry none of the engine's
  attributes; a deadline that strikes is a \<open>CancelledError\<close> the callback raises.  Where a property relies on one of them the law is a named
  hypothesis of it.

  The record \<open>renv\<close> stands for the clock and zone of the server, the Fernet cipher, the identifiers of
  nanoid, the disk, the stored workflows and the case bank; \<open>tenv\<close> for the digest, the HMAC and the
  entropy of the standard library, the tables of users, integrations and subscriptions, the zones, what a run
  needs before it starts, and the listing of a folder; \<open>outside\<close> for the mail and Teams senders and for what other servers
  do to the slots of alerts meanwhile; \<open>quota_env\<close> for the settings, the table of the time zone, the rows read, the
  reads that fail and what add-ons answer; \<open>os\<close> for the resolution of paths and the entropy.

  Database.  A block \<open>with engine.begin()\<close> is \<open>atomic\<close> (or \<open>in_block\<close>): it runs alone and an exception undoes
  it.  The operations run one after another, each on the state the previous one left; the theorems over
  \<open>ledger\<close> and \<open>table_rule\<close> speak of statements, in any order and from any number of processes, and so hold for
  every interleaving of them.  A column holds \<open>NULL\<close> as \<open>None\<close>.

  Conventions.  Texts are Latin-1 (a character is one of the 256 values of \<open>char\<close>); the
  interpolated French messages are reduced to fixed ASCII keys, the error codes and their
  parameters are kept; a URL that \<open>httpx\<close> refuses and what a resolver raises are values of \<open>net\<close>; a Python set is a list in the order of first occurrence; the depth-first
  search takes one more unit of fuel than the graph has nodes, which is always enough (the search
  lemmas of \<open>Wf_Dag\<close>), while Python's own recursion limit is not modelled.

  Not modelled.  The events are a list in the state, not a queue read by a second task, so a client
  that leaves the stream early is not represented; ADK's own task machinery and its
  sessions; the HTTP routes; the tables of users and integrations; the compiler of chat agents and the tools they
  call, which are clients of the framework and of external services; dashboards, transforms and their storage; the
  case bank, the scheduler and the mail subscriptions, which are calls to services around a few rows; the stream of a run that a trigger
  started, which is read once it has ended; the loop that calls the ticks; the task in which an alert runs beside
  the listeners of a run, so that \<open>notify_run_finished\<close> here is without it.
\<close>

end
